(* ===== verification/JsPrelude.thy ===== *)
theory JsPrelude
  imports Main "HOL-Library.Word" "HOL-Library.Sublist"
begin

section \<open>Prelude: computations with state and exceptions\<close>

text \<open>
  The shared ground of the development. A JavaScript function that reads and writes
  state and that may throw is a function from a state to an outcome and a new state:
  the outcome is \<^term>\<open>Inl e\<close> for a thrown value and \<^term>\<open>Inr x\<close> for a normal return.
  An \<open>async\<close> function whose promise is awaited at once has the same type, with a
  rejected promise as a thrown value.

  The theory holds the combinators (sequencing, \<open>throw\<close>, \<open>try/catch\<close>,
  \<open>try/finally\<close>), three proof collections over them, and generic list lemmas:
  \<^item> \<open>js_run\<close>: the equations that execute a computation on a state;
  \<^item> \<open>keeps\<close>: which parts of the state a computation leaves as they were;
  \<^item> \<open>upholds\<close>: which invariants a computation preserves, on every branch.
\<close>

named_theorems js_run \<open>equations that run a computation on a state\<close>
named_theorems keeps_rules \<open>a computation leaves a part of the state unchanged\<close>
named_theorems upholds_rules \<open>a computation preserves an invariant\<close>
named_theorems settles_rules \<open>a computation returns, whatever the state\<close>

subsection \<open>Thrown values\<close>

text \<open>
  An \<open>Error\<close> object has a name and a message. \<open>JThrown\<close> is any other thrown value, by its
  string conversion: the strings \<open>gui/web/assets/scripts/main.js\<close> throws, or an event.
\<close>

datatype jserr = JError (err_name: string) (err_message: string) | JThrown string

abbreviation Error :: "string \<Rightarrow> jserr" where
  "Error msg \<equiv> JError ''Error'' msg"

abbreviation TypeError :: "string \<Rightarrow> jserr" where
  "TypeError msg \<equiv> JError ''TypeError'' msg"

type_synonym 'a outcome = "jserr + 'a"
type_synonym ('s, 'a) js = "'s \<Rightarrow> 'a outcome \<times> 's"

subsection \<open>Combinators\<close>

definition jret :: "'a \<Rightarrow> ('s, 'a) js" where
  "jret x = (\<lambda>s. (Inr x, s))"

definition jthrow :: "jserr \<Rightarrow> ('s, 'a) js" where
  "jthrow e = (\<lambda>s. (Inl e, s))"

definition jbind :: "('s, 'a) js \<Rightarrow> ('a \<Rightarrow> ('s, 'b) js) \<Rightarrow> ('s, 'b) js" where
  "jbind m f = (\<lambda>s. case m s of (Inl e, s') \<Rightarrow> (Inl e, s') | (Inr x, s') \<Rightarrow> f x s')"

definition jseq :: "('s, 'a) js \<Rightarrow> ('s, 'b) js \<Rightarrow> ('s, 'b) js" where
  "jseq m n = jbind m (\<lambda>_. n)"

definition jget :: "('s \<Rightarrow> 'a) \<Rightarrow> ('s, 'a) js" where
  "jget f = (\<lambda>s. (Inr (f s), s))"

definition jmodify :: "('s \<Rightarrow> 's) \<Rightarrow> ('s, unit) js" where
  "jmodify f = (\<lambda>s. (Inr (), f s))"

definition jlift :: "'a outcome \<Rightarrow> ('s, 'a) js" where
  "jlift r = (\<lambda>s. (r, s))"

text \<open>\<open>try { m } catch (e) { h e }\<close>\<close>

definition try_catch :: "('s, 'a) js \<Rightarrow> (jserr \<Rightarrow> ('s, 'a) js) \<Rightarrow> ('s, 'a) js" where
  "try_catch m h = (\<lambda>s. case m s of (Inl e, s') \<Rightarrow> h e s' | (Inr x, s') \<Rightarrow> (Inr x, s'))"

text \<open>
  \<open>try { m } finally { f }\<close>: \<open>f\<close> runs on both outcomes; the outcome of \<open>m\<close> stands
  unless \<open>f\<close> itself throws.
\<close>

definition try_finally :: "('s, 'a) js \<Rightarrow> ('s, unit) js \<Rightarrow> ('s, 'a) js" where
  "try_finally m f = (\<lambda>s. case m s of (r, s') \<Rightarrow>
     (case f s' of (Inl e, s'') \<Rightarrow> (Inl e, s'') | (Inr _, s'') \<Rightarrow> (r, s'')))"

text \<open>A promise nobody awaits: its rejection goes nowhere.\<close>

definition jdetach :: "('s, 'a) js \<Rightarrow> ('s, unit) js" where
  "jdetach m = (\<lambda>s. (Inr (), snd (m s)))"

definition jwhen :: "bool \<Rightarrow> ('s, unit) js \<Rightarrow> ('s, unit) js" where
  "jwhen b m = (if b then m else jret ())"

fun jforeach :: "('x \<Rightarrow> ('s, unit) js) \<Rightarrow> 'x list \<Rightarrow> ('s, unit) js" where
  "jforeach f [] = jret ()"
| "jforeach f (x # xs) = jseq (f x) (jforeach f xs)"

text \<open>Applying a function that may throw to each element of an array, in order.\<close>

fun omap :: "('a \<Rightarrow> 'b outcome) \<Rightarrow> 'a list \<Rightarrow> 'b list outcome" where
  "omap f [] = Inr []"
| "omap f (x # xs) =
     (case f x of
        Inl e \<Rightarrow> Inl e
      | Inr y \<Rightarrow> (case omap f xs of Inl e \<Rightarrow> Inl e | Inr ys \<Rightarrow> Inr (y # ys)))"

fun ofilter :: "('a \<Rightarrow> bool outcome) \<Rightarrow> 'a list \<Rightarrow> 'a list outcome" where
  "ofilter f [] = Inr []"
| "ofilter f (x # xs) =
     (case f x of
        Inl e \<Rightarrow> Inl e
      | Inr b \<Rightarrow> (case ofilter f xs of Inl e \<Rightarrow> Inl e | Inr ys \<Rightarrow> Inr (if b then x # ys else ys)))"

subsection \<open>Running computations\<close>

lemma jret_run [js_run, simp]: "jret x s = (Inr x, s)"
  by (simp add: jret_def)

lemma jthrow_run [js_run, simp]: "jthrow e s = (Inl e, s)"
  by (simp add: jthrow_def)

lemma jget_run [js_run, simp]: "jget f s = (Inr (f s), s)"
  by (simp add: jget_def)

lemma jmodify_run [js_run, simp]: "jmodify f s = (Inr (), f s)"
  by (simp add: jmodify_def)

lemma jlift_run [js_run, simp]: "jlift r s = (r, s)"
  by (simp add: jlift_def)

lemma jbind_run [js_run]:
  "jbind m f s = (case m s of (Inl e, s') \<Rightarrow> (Inl e, s') | (Inr x, s') \<Rightarrow> f x s')"
  by (simp add: jbind_def)

lemma jbind_Inr [simp]: "m s = (Inr x, s') \<Longrightarrow> jbind m f s = f x s'"
  by (simp add: jbind_def)

lemma jbind_Inl [simp]: "m s = (Inl e, s') \<Longrightarrow> jbind m f s = (Inl e, s')"
  by (simp add: jbind_def)

lemma jseq_run [js_run]:
  "jseq m n s = (case m s of (Inl e, s') \<Rightarrow> (Inl e, s') | (Inr _, s') \<Rightarrow> n s')"
  by (simp add: jseq_def jbind_def)

lemma jseq_Inr [simp]: "m s = (Inr x, s') \<Longrightarrow> jseq m n s = n s'"
  by (simp add: jseq_def)

lemma jseq_Inl [simp]: "m s = (Inl e, s') \<Longrightarrow> jseq m n s = (Inl e, s')"
  by (simp add: jseq_def)

lemma try_catch_run [js_run]:
  "try_catch m h s = (case m s of (Inl e, s') \<Rightarrow> h e s' | (Inr x, s') \<Rightarrow> (Inr x, s'))"
  by (simp add: try_catch_def)

lemma try_catch_Inr [simp]: "m s = (Inr x, s') \<Longrightarrow> try_catch m h s = (Inr x, s')"
  by (simp add: try_catch_def)

lemma try_catch_Inl [simp]: "m s = (Inl e, s') \<Longrightarrow> try_catch m h s = h e s'"
  by (simp add: try_catch_def)

lemma try_finally_run [js_run]:
  "try_finally m f s = (case m s of (r, s') \<Rightarrow>
     (case f s' of (Inl e, s'') \<Rightarrow> (Inl e, s'') | (Inr _, s'') \<Rightarrow> (r, s'')))"
  by (simp add: try_finally_def)

lemma try_finally_modify [simp]:
  "try_finally m (jmodify g) s = (fst (m s), g (snd (m s)))"
  by (simp add: try_finally_def split: prod.splits)

lemma jdetach_run [js_run, simp]: "jdetach m s = (Inr (), snd (m s))"
  by (simp add: jdetach_def)

lemma jwhen_run [js_run, simp]: "jwhen b m s = (if b then m s else (Inr (), s))"
  by (simp add: jwhen_def)

text \<open>
  The combinators form a monad: a function may be split or inlined without changing what
  it does.
\<close>

lemma jbind_jret [simp]: "jbind (jret x) f = f x"
  by (rule ext) simp

lemma jbind_jret_right [simp]: "jbind m jret = m"
  by (rule ext) (simp add: jbind_def split: prod.splits sum.splits)

lemma jbind_assoc: "jbind (jbind m f) g = jbind m (\<lambda>x. jbind (f x) g)"
  by (rule ext) (simp add: jbind_def split: prod.splits sum.splits)

lemma jbind_cases [consumes 1, case_names throw return]:
  assumes "jbind m f s = (r, t)"
  obtains e where "m s = (Inl e, t)" "r = Inl e"
  | x u where "m s = (Inr x, u)" "f x u = (r, t)"
  using assms by (auto simp: jbind_def split: prod.splits sum.splits)

subsection \<open>What a computation leaves unchanged\<close>

definition keeps :: "('s \<Rightarrow> 'b) \<Rightarrow> ('s, 'a) js \<Rightarrow> bool" where
  "keeps f m \<longleftrightarrow> (\<forall>s. f (snd (m s)) = f s)"

lemma keepsI: "(\<And>s. f (snd (m s)) = f s) \<Longrightarrow> keeps f m"
  by (simp add: keeps_def)

lemma keepsD: "keeps f m \<Longrightarrow> f (snd (m s)) = f s"
  by (simp add: keeps_def)

lemma keeps_result: "keeps f m \<Longrightarrow> m s = (r, t) \<Longrightarrow> f t = f s"
  using keepsD [of f m s] by simp

lemma keeps_pure [keeps_rules, intro]:
  "keeps f (jret x)" "keeps f (jthrow e)" "keeps f (jget g)" "keeps f (jlift r)"
  by (simp_all add: keeps_def)

lemma keeps_jmodify [keeps_rules]: "(\<And>s. f (g s) = f s) \<Longrightarrow> keeps f (jmodify g)"
  by (simp add: keeps_def)

lemma keeps_jbind [keeps_rules]:
  "keeps f m \<Longrightarrow> (\<And>x. keeps f (n x)) \<Longrightarrow> keeps f (jbind m n)"
  unfolding keeps_def jbind_def by (auto split: prod.splits sum.splits) (metis snd_conv)+

lemma keeps_jseq [keeps_rules]: "keeps f m \<Longrightarrow> keeps f n \<Longrightarrow> keeps f (jseq m n)"
  unfolding jseq_def by (rule keeps_jbind)

lemma keeps_try_catch [keeps_rules]:
  "keeps f m \<Longrightarrow> (\<And>e. keeps f (h e)) \<Longrightarrow> keeps f (try_catch m h)"
  unfolding keeps_def try_catch_def by (auto split: prod.splits sum.splits) (metis snd_conv)+

lemma keeps_try_finally [keeps_rules]:
  "keeps f m \<Longrightarrow> keeps f n \<Longrightarrow> keeps f (try_finally m n)"
  unfolding keeps_def try_finally_def by (auto split: prod.splits sum.splits) (metis snd_conv)+

lemma keeps_jdetach [keeps_rules]: "keeps f m \<Longrightarrow> keeps f (jdetach m)"
  by (simp add: keeps_def)

lemma keeps_jwhen [keeps_rules]: "keeps f m \<Longrightarrow> keeps f (jwhen b m)"
  by (simp add: keeps_def)

lemma keeps_if [keeps_rules]: "keeps f m \<Longrightarrow> keeps f n \<Longrightarrow> keeps f (if b then m else n)"
  by simp

lemma keeps_case_option [keeps_rules]:
  "keeps f m \<Longrightarrow> (\<And>x. keeps f (n x)) \<Longrightarrow>
     keeps f (case v of None \<Rightarrow> m | Some x \<Rightarrow> n x)"
  by (simp split: option.split)

lemma keeps_case_sum [keeps_rules]:
  "(\<And>x. keeps f (m x)) \<Longrightarrow> (\<And>x. keeps f (n x)) \<Longrightarrow>
     keeps f (case v of Inl x \<Rightarrow> m x | Inr x \<Rightarrow> n x)"
  by (simp split: sum.split)

lemma keeps_case_prod [keeps_rules]:
  "(\<And>x y. keeps f (m x y)) \<Longrightarrow> keeps f (case v of (x, y) \<Rightarrow> m x y)"
  by (simp split: prod.split)

lemma keeps_Let [keeps_rules]: "(\<And>x. keeps f (m x)) \<Longrightarrow> keeps f (let x = v in m x)"
  by simp

lemma keeps_jforeach [keeps_rules]:
  "(\<And>x. keeps f (m x)) \<Longrightarrow> keeps f (jforeach m xs)"
  by (induction xs) (auto intro: keeps_rules)

lemma keeps_comp: "keeps f m \<Longrightarrow> keeps (\<lambda>s. g (f s)) m"
  by (simp add: keeps_def)

subsection \<open>What a computation preserves\<close>

definition upholds :: "('s \<Rightarrow> bool) \<Rightarrow> ('s, 'a) js \<Rightarrow> bool" where
  "upholds P m \<longleftrightarrow> (\<forall>s. P s \<longrightarrow> P (snd (m s)))"

lemma upholdsI: "(\<And>s. P s \<Longrightarrow> P (snd (m s))) \<Longrightarrow> upholds P m"
  by (simp add: upholds_def)

lemma upholdsD: "upholds P m \<Longrightarrow> P s \<Longrightarrow> P (snd (m s))"
  by (simp add: upholds_def)

lemma upholds_pure [upholds_rules, intro]:
  "upholds P (jret x)" "upholds P (jthrow e)" "upholds P (jget g)" "upholds P (jlift r)"
  by (simp_all add: upholds_def)

lemma upholds_jmodify [upholds_rules]: "(\<And>s. P s \<Longrightarrow> P (g s)) \<Longrightarrow> upholds P (jmodify g)"
  by (simp add: upholds_def)

lemma upholds_jbind [upholds_rules]:
  "upholds P m \<Longrightarrow> (\<And>x. upholds P (n x)) \<Longrightarrow> upholds P (jbind m n)"
  unfolding upholds_def jbind_def by (auto split: prod.splits sum.splits)

lemma upholds_jseq [upholds_rules]: "upholds P m \<Longrightarrow> upholds P n \<Longrightarrow> upholds P (jseq m n)"
  unfolding jseq_def by (rule upholds_jbind)

lemma upholds_try_catch [upholds_rules]:
  "upholds P m \<Longrightarrow> (\<And>e. upholds P (h e)) \<Longrightarrow> upholds P (try_catch m h)"
  unfolding upholds_def try_catch_def by (auto split: prod.splits sum.splits)

lemma upholds_try_finally [upholds_rules]:
  "upholds P m \<Longrightarrow> upholds P n \<Longrightarrow> upholds P (try_finally m n)"
  unfolding upholds_def try_finally_def by (auto split: prod.splits sum.splits)

lemma upholds_if [upholds_rules]:
  "upholds P m \<Longrightarrow> upholds P n \<Longrightarrow> upholds P (if b then m else n)"
  by simp

lemma upholds_jdetach [upholds_rules]: "upholds P m \<Longrightarrow> upholds P (jdetach m)"
  by (simp add: upholds_def)

lemma upholds_jwhen [upholds_rules]: "upholds P m \<Longrightarrow> upholds P (jwhen b m)"
  by (simp add: upholds_def)

lemma upholds_case_option [upholds_rules]:
  "upholds P m \<Longrightarrow> (\<And>x. upholds P (n x)) \<Longrightarrow>
     upholds P (case v of None \<Rightarrow> m | Some x \<Rightarrow> n x)"
  by (simp split: option.split)

lemma upholds_case_sum [upholds_rules]:
  "(\<And>x. upholds P (m x)) \<Longrightarrow> (\<And>x. upholds P (n x)) \<Longrightarrow>
     upholds P (case v of Inl x \<Rightarrow> m x | Inr x \<Rightarrow> n x)"
  by (simp split: sum.split)

lemma upholds_case_prod [upholds_rules]:
  "(\<And>x y. upholds P (m x y)) \<Longrightarrow> upholds P (case v of (x, y) \<Rightarrow> m x y)"
  by (simp split: prod.split)

lemma upholds_Let [upholds_rules]: "(\<And>x. upholds P (m x)) \<Longrightarrow> upholds P (let x = v in m x)"
  by simp

lemma upholds_jforeach [upholds_rules]:
  "(\<And>x. upholds P (m x)) \<Longrightarrow> upholds P (jforeach m xs)"
  by (induction xs) (auto intro: upholds_rules)

lemma upholds_keeps: "keeps f m \<Longrightarrow> upholds (\<lambda>s. Q (f s)) m"
  by (simp add: upholds_def keeps_def)

subsection \<open>From one condition to another\<close>

text \<open>\<open>leads P m Q\<close>: started under \<open>P\<close>, the computation ends under \<open>Q\<close>, also when it throws.\<close>

definition leads :: "('s \<Rightarrow> bool) \<Rightarrow> ('s, 'a) js \<Rightarrow> ('s \<Rightarrow> bool) \<Rightarrow> bool" where
  "leads P m Q \<longleftrightarrow> (\<forall>s. P s \<longrightarrow> Q (snd (m s)))"

lemma upholds_leads: "upholds P m \<longleftrightarrow> leads P m P"
  by (simp add: upholds_def leads_def)

lemma leadsI: "(\<And>s. P s \<Longrightarrow> Q (snd (m s))) \<Longrightarrow> leads P m Q"
  by (simp add: leads_def)

lemma leadsD: "leads P m Q \<Longrightarrow> P s \<Longrightarrow> Q (snd (m s))"
  by (simp add: leads_def)

lemma leads_jbind:
  "leads P m R \<Longrightarrow> (\<And>x. leads R (n x) Q) \<Longrightarrow> (\<And>s. R s \<Longrightarrow> Q s) \<Longrightarrow> leads P (jbind m n) Q"
  unfolding leads_def jbind_def by (fastforce split: prod.split sum.split)

lemma leads_jseq: "leads P m R \<Longrightarrow> leads R n Q \<Longrightarrow> (\<And>s. R s \<Longrightarrow> Q s) \<Longrightarrow> leads P (jseq m n) Q"
  unfolding jseq_def by (rule leads_jbind)

lemma leads_jget:
  "(\<And>x. leads (\<lambda>s. P s \<and> f s = x) (n x) Q) \<Longrightarrow> leads P (jbind (jget f) n) Q"
  by (simp add: leads_def jbind_def)

lemma leads_jlift:
  "(\<And>s. P s \<Longrightarrow> Q s) \<Longrightarrow> (\<And>x. r = Inr x \<Longrightarrow> leads P (n x) Q) \<Longrightarrow> leads P (jbind (jlift r) n) Q"
  by (cases r) (simp_all add: leads_def jbind_def)

lemma leads_keeps:
  "upholds P m \<Longrightarrow> keeps f m \<Longrightarrow> leads (\<lambda>s. P s \<and> f s = x) m (\<lambda>s. P s \<and> f s = x)"
  by (simp add: leads_def upholds_def keeps_def)

lemma leads_weaken: "upholds P m \<Longrightarrow> leads (\<lambda>s. P s \<and> A s) m P"
  by (simp add: leads_def upholds_def)

lemma leads_jget_any: "(\<And>x. leads P (n x) Q) \<Longrightarrow> leads P (jbind (jget f) n) Q"
  by (simp add: leads_def jbind_def)

lemma leads_try_catch: "leads P m Q \<Longrightarrow> (\<And>e. upholds Q (h e)) \<Longrightarrow> leads P (try_catch m h) Q"
  unfolding leads_def upholds_def try_catch_def by (fastforce split: prod.split sum.split)

lemma leads_try_finally: "leads P m R \<Longrightarrow> leads R f Q \<Longrightarrow> leads P (try_finally m f) Q"
  unfolding leads_def try_finally_def by (fastforce split: prod.split sum.split)

lemma leads_pre: "leads P m Q \<Longrightarrow> (\<And>s. P' s \<Longrightarrow> P s) \<Longrightarrow> leads P' m Q"
  by (simp add: leads_def)

text \<open>A computation that throws in no state; the promise of such a handler is never rejected.\<close>

definition settles :: "('s, 'a) js \<Rightarrow> bool" where
  "settles m \<longleftrightarrow> (\<forall>s. \<exists>x t. m s = (Inr x, t))"

lemma settlesD: "settles m \<Longrightarrow> \<exists>x t. m s = (Inr x, t)"
  by (simp add: settles_def)

lemma settles_pure [settles_rules]:
  "settles (jret x)" "settles (jget f)" "settles (jmodify g)" "settles (jdetach m)"
  by (simp_all add: settles_def)

lemma settles_jbind [settles_rules]: "settles m \<Longrightarrow> (\<And>x. settles (n x)) \<Longrightarrow> settles (jbind m n)"
  unfolding settles_def by (metis jbind_Inr)

lemma settles_jseq [settles_rules]: "settles m \<Longrightarrow> settles n \<Longrightarrow> settles (jseq m n)"
  unfolding settles_def by (metis jseq_Inr)

lemma settles_try_catch [settles_rules]: "(\<And>e. settles (h e)) \<Longrightarrow> settles (try_catch m h)"
  unfolding settles_def try_catch_def by (fastforce split: prod.split sum.split)

lemma settles_try_finally [settles_rules]: "settles m \<Longrightarrow> settles f \<Longrightarrow> settles (try_finally m f)"
  unfolding settles_def
proof
  fix s
  assume m: "\<forall>s. \<exists>x t. m s = (Inr x, t)" and f: "\<forall>s. \<exists>x t. f s = (Inr x, t)"
  obtain x t where "m s = (Inr x, t)" using m by blast
  moreover obtain u where "f t = (Inr (), u)" using f by force
  ultimately show "\<exists>x t. try_finally m f s = (Inr x, t)" by (simp add: try_finally_def)
qed

lemma settles_if [settles_rules]: "settles m \<Longrightarrow> settles n \<Longrightarrow> settles (if b then m else n)"
  by simp

lemma settles_jwhen [settles_rules]: "settles m \<Longrightarrow> settles (jwhen b m)"
  by (simp add: settles_def)

lemma settles_case_option [settles_rules]:
  "settles m \<Longrightarrow> (\<And>x. settles (n x)) \<Longrightarrow> settles (case v of None \<Rightarrow> m | Some x \<Rightarrow> n x)"
  by (simp split: option.split)

lemma settles_case_list [settles_rules]:
  "settles m \<Longrightarrow> (\<And>x xs. settles (n x xs)) \<Longrightarrow> settles (case v of [] \<Rightarrow> m | x # xs \<Rightarrow> n x xs)"
  by (simp split: list.split)

subsection \<open>Lists\<close>

lemma omap_total: "(\<And>x. x \<in> set xs \<Longrightarrow> f x = Inr (g x)) \<Longrightarrow> omap f xs = Inr (map g xs)"
  by (induction xs) auto

lemma ofilter_total: "(\<And>x. x \<in> set xs \<Longrightarrow> f x = Inr (g x)) \<Longrightarrow> ofilter f xs = Inr (filter g xs)"
  by (induction xs) auto

lemma map_filter_id: "(\<And>x. x \<in> set xs \<Longrightarrow> f x = x) \<Longrightarrow> map f xs = xs"
  by (induction xs) auto

lemma list_all_append_iff [simp]: "list_all P (xs @ ys) \<longleftrightarrow> list_all P xs \<and> list_all P ys"
  by (simp add: list_all_def ball_Un)

end
