(* ===== verification/JsValue.thy ===== *)
theory JsValue
  imports JsPrelude
begin

section \<open>JavaScript values, strings and numbers\<close>

text \<open>
  What the sources use of the language. A string is a list of characters whose code
  units are below 256, so the model covers the Latin-1 range of JavaScript's strings.
  A finite number is the decimal the language prints for it, \<open>Dec m e\<close> for
  \<open>m / 10 ^ e\<close>: the sources compare, floor, test and print numbers, and all four give
  the same answer on a double and on its printed decimal. An object is the list of its
  properties in insertion order; reading a property that is not there gives
  \<open>undefined\<close>.
\<close>

subsection \<open>Characters and strings\<close>

definition char_between :: "nat \<Rightarrow> nat \<Rightarrow> char \<Rightarrow> bool" where
  "char_between lo hi c \<longleftrightarrow> lo \<le> of_char c \<and> of_char c \<le> (hi::nat)"

definition is_digit :: "char \<Rightarrow> bool" where
  "is_digit c = char_between 48 57 c"

definition is_alpha :: "char \<Rightarrow> bool" where
  "is_alpha c \<longleftrightarrow> char_between 97 122 c \<or> char_between 65 90 c"

definition is_alnum :: "char \<Rightarrow> bool" where
  "is_alnum c \<longleftrightarrow> is_alpha c \<or> is_digit c"

definition is_hex :: "char \<Rightarrow> bool" where
  "is_hex c \<longleftrightarrow> is_digit c \<or> char_between 97 102 c \<or> char_between 65 70 c"

text \<open>White space of \<open>trim\<close> and of \<open>\s\<close>: tab, line feed, vertical tab, form feed,
  carriage return, space, no-break space.\<close>

definition is_space :: "char \<Rightarrow> bool" where
  "is_space c \<longleftrightarrow> char_between 9 13 c \<or> c = CHR 0x20 \<or> c = CHR 0xA0"

definition trim :: "string \<Rightarrow> string" where
  "trim s = rev (dropWhile is_space (rev (dropWhile is_space s)))"

text \<open>\<open>toLowerCase\<close>: the letters A to Z and the accented capitals of Latin-1 (all of
  0xC0 to 0xDE but the multiplication sign 0xD7) move up by 32.\<close>

definition lower_char :: "char \<Rightarrow> char" where
  "lower_char c =
     (if char_between 65 90 c \<or> (char_between 0xC0 0xDE c \<and> c \<noteq> CHR 0xD7)
      then char_of (of_char c + (32::nat)) else c)"

definition toLowerCase :: "string \<Rightarrow> string" where
  "toLowerCase s = map lower_char s"

text \<open>\<open>s.includes(t)\<close>\<close>

fun str_includes :: "string \<Rightarrow> string \<Rightarrow> bool" where
  "str_includes [] t = (t = [])"
| "str_includes (c # s) t = (prefix t (c # s) \<or> str_includes s t)"

text \<open>\<open>s.split(sep)\<close> for a separator of one character.\<close>

fun split_on :: "char \<Rightarrow> string \<Rightarrow> string list" where
  "split_on sep [] = [ [] ]"
| "split_on sep (c # s) =
     (if c = sep then [] # split_on sep s
      else (case split_on sep s of [] \<Rightarrow> [ [c] ] | w # ws \<Rightarrow> (c # w) # ws))"

fun join_with :: "string \<Rightarrow> string list \<Rightarrow> string" where
  "join_with sep [] = []"
| "join_with sep [x] = x"
| "join_with sep (x # y # xs) = x @ sep @ join_with sep (y # xs)"

text \<open>\<open>s.padStart(n, c)\<close> for a filler of one character.\<close>

definition padStart :: "nat \<Rightarrow> char \<Rightarrow> string \<Rightarrow> string" where
  "padStart n c s = replicate (n - length s) c @ s"

subsection \<open>Digits\<close>

definition digit_char :: "nat \<Rightarrow> char" where
  "digit_char n = (if n < 10 then char_of (48 + n) else char_of (87 + n))"

definition digit_val :: "char \<Rightarrow> nat option" where
  "digit_val c =
     (if is_digit c then Some (of_char c - 48)
      else if char_between 97 122 c then Some (of_char c - 87)
      else if char_between 65 90 c then Some (of_char c - 55)
      else None)"

text \<open>\<open>n.toString(base)\<close> of a natural number.\<close>

function radix_digits :: "nat \<Rightarrow> nat \<Rightarrow> string" where
  "radix_digits b n =
     (if n < b \<or> b < 2 then [digit_char n]
      else radix_digits b (n div b) @ [digit_char (n mod b)])"
  by pat_completeness auto
termination
  by (relation "measure snd") auto

declare radix_digits.simps [simp del]

definition radix_value :: "nat \<Rightarrow> string \<Rightarrow> nat" where
  "radix_value b s =
     foldl (\<lambda>acc c. case digit_val c of Some d \<Rightarrow> acc * b + d | None \<Rightarrow> acc) 0 s"

subsection \<open>Numbers\<close>

datatype jsnum = NaN | Inf bool \<comment> \<open>true for minus infinity\<close> | Dec int nat

text \<open>The decimal in lowest form: no trailing zero after the point.\<close>

fun norm_dec :: "int \<Rightarrow> nat \<Rightarrow> jsnum" where
  "norm_dec m 0 = Dec m 0"
| "norm_dec m (Suc e) = (if m mod 10 = 0 then norm_dec (m div 10) e else Dec m (Suc e))"

fun num_wf :: "jsnum \<Rightarrow> bool" where
  "num_wf (Dec m e) = (e = 0 \<or> m mod 10 \<noteq> 0)"
| "num_wf _ = True"

fun num_less :: "jsnum \<Rightarrow> jsnum \<Rightarrow> bool" where
  "num_less (Dec m e) (Dec m' e') = (m * 10 ^ e' < m' * 10 ^ e)"
| "num_less (Inf True) (Dec _ _) = True"
| "num_less (Inf True) (Inf False) = True"
| "num_less (Dec _ _) (Inf False) = True"
| "num_less _ _ = False"

fun num_eq :: "jsnum \<Rightarrow> jsnum \<Rightarrow> bool" where
  "num_eq (Dec m e) (Dec m' e') = (m * 10 ^ e' = m' * 10 ^ e)"
| "num_eq (Inf a) (Inf b) = (a = b)"
| "num_eq _ _ = False"

fun num_truthy :: "jsnum \<Rightarrow> bool" where
  "num_truthy NaN = False"
| "num_truthy (Inf _) = True"
| "num_truthy (Dec m e) = (m \<noteq> 0)"

text \<open>\<open>Number.isInteger\<close>, \<open>Math.floor\<close> and \<open>Math.max(0, x)\<close>\<close>

fun isInteger :: "jsnum \<Rightarrow> bool" where
  "isInteger (Dec m e) = (m mod 10 ^ e = 0)"
| "isInteger _ = False"

fun num_floor :: "jsnum \<Rightarrow> jsnum" where
  "num_floor (Dec m e) = Dec (m div 10 ^ e) 0"
| "num_floor x = x"

fun max_zero :: "jsnum \<Rightarrow> jsnum" where
  "max_zero NaN = NaN"
| "max_zero x = (if num_less x (Dec 0 0) then Dec 0 0 else x)"

text \<open>
  Conversion of a number to a string, with the language's five layouts: with \<open>k\<close>
  significant digits and the decimal point after the \<open>n\<close>-th, plain digits up to 21
  places, up to six leading zeros after the point, exponents outside that range.
\<close>

definition strip_zeros :: "string \<Rightarrow> string" where
  "strip_zeros s = rev (dropWhile (\<lambda>c. c = CHR ''0'') (rev s))"

definition dec_layout :: "string \<Rightarrow> int \<Rightarrow> string" where
  "dec_layout s n =
     (let k = int (length s)
      in if k \<le> n \<and> n \<le> 21 then s @ replicate (nat (n - k)) CHR ''0''
         else if 0 < n \<and> n \<le> 21 then take (nat n) s @ ''.'' @ drop (nat n) s
         else if - 6 < n \<and> n \<le> 0 then ''0.'' @ replicate (nat (- n)) CHR ''0'' @ s
         else take 1 s @ (if k = 1 then [] else ''.'' @ drop 1 s) @ ''e'' @
              (if 0 \<le> n - 1 then ''+'' else ''-'') @ radix_digits 10 (nat \<bar>n - 1\<bar>))"

fun num_to_string :: "jsnum \<Rightarrow> string" where
  "num_to_string NaN = ''NaN''"
| "num_to_string (Inf neg) = (if neg then ''-Infinity'' else ''Infinity'')"
| "num_to_string (Dec m e) =
     (if m = 0 then ''0''
      else (if m < 0 then ''-'' else []) @
           (let ds = radix_digits 10 (nat \<bar>m\<bar>)
            in dec_layout (strip_zeros ds) (int (length ds) - int e)))"

subsection \<open>Values\<close>

datatype jsval =
    JUndef
  | JNull
  | JBool bool
  | JNum jsnum
  | JStr string
  | JArr "jsval list"
  | JObj "(string \<times> jsval) list"

abbreviation JInt :: "int \<Rightarrow> jsval" where
  "JInt n \<equiv> JNum (Dec n 0)"

fun truthy :: "jsval \<Rightarrow> bool" where
  "truthy JUndef = False"
| "truthy JNull = False"
| "truthy (JBool b) = b"
| "truthy (JNum x) = num_truthy x"
| "truthy (JStr s) = (s \<noteq> [])"
| "truthy (JArr _) = True"
| "truthy (JObj _) = True"

text \<open>\<open>a || b\<close>\<close>

definition js_or :: "jsval \<Rightarrow> jsval \<Rightarrow> jsval" where
  "js_or a b = (if truthy a then a else b)"

fun nullish :: "jsval \<Rightarrow> bool" where
  "nullish JUndef = True"
| "nullish JNull = True"
| "nullish _ = False"

fun typeof :: "jsval \<Rightarrow> string" where
  "typeof JUndef = ''undefined''"
| "typeof JNull = ''object''"
| "typeof (JBool _) = ''boolean''"
| "typeof (JNum _) = ''number''"
| "typeof (JStr _) = ''string''"
| "typeof (JArr _) = ''object''"
| "typeof (JObj _) = ''object''"

fun isArray :: "jsval \<Rightarrow> bool" where
  "isArray (JArr _) = True"
| "isArray _ = False"

definition fields_get :: "(string \<times> jsval) list \<Rightarrow> string \<Rightarrow> jsval" where
  "fields_get fs k = (case map_of fs k of None \<Rightarrow> JUndef | Some v \<Rightarrow> v)"

text \<open>Assigning a property keeps its place when it is there and appends it otherwise.\<close>

fun fields_put :: "string \<Rightarrow> jsval \<Rightarrow> (string \<times> jsval) list \<Rightarrow> (string \<times> jsval) list" where
  "fields_put k v [] = [(k, v)]"
| "fields_put k v ((k', v') # fs) =
     (if k' = k then (k, v) # fs else (k', v') # fields_put k v fs)"

text \<open>\<open>v?.k\<close>: \<open>undefined\<close> on \<open>null\<close>, \<open>undefined\<close> and on values without the property.\<close>

fun opt_prop :: "jsval \<Rightarrow> string \<Rightarrow> jsval" where
  "opt_prop (JObj fs) k = fields_get fs k"
| "opt_prop _ k = JUndef"

text \<open>\<open>v.k\<close>: throws on \<open>null\<close> and \<open>undefined\<close>, with a message of the engine's.\<close>

definition js_prop :: "string \<Rightarrow> jsval \<Rightarrow> string \<Rightarrow> jsval outcome" where
  "js_prop msg v k = (if nullish v then Inl (TypeError msg) else Inr (opt_prop v k))"

text \<open>
  \<open>a === b\<close> between values that come from different evaluations: two arrays or two
  objects are then never the same one.
\<close>

fun strict_eq :: "jsval \<Rightarrow> jsval \<Rightarrow> bool" where
  "strict_eq JUndef JUndef = True"
| "strict_eq JNull JNull = True"
| "strict_eq (JBool a) (JBool b) = (a = b)"
| "strict_eq (JNum a) (JNum b) = num_eq a b"
| "strict_eq (JStr a) (JStr b) = (a = b)"
| "strict_eq _ _ = False"

text \<open>The own properties \<open>{...v}\<close> copies.\<close>

fun spread :: "jsval \<Rightarrow> (string \<times> jsval) list" where
  "spread (JObj fs) = fs"
| "spread (JArr vs) = zip (map (radix_digits 10) [0 ..< length vs]) vs"
| "spread (JStr s) = zip (map (radix_digits 10) [0 ..< length s]) (map (\<lambda>c. JStr [c]) s)"
| "spread _ = []"

text \<open>\<open>err.message\<close>: a thrown value that is no \<open>Error\<close> has none.\<close>

fun err_msg :: "jserr \<Rightarrow> jsval" where
  "err_msg (JError _ m) = JStr m"
| "err_msg (JThrown _) = JUndef"

text \<open>\<open>String(v)\<close>, as template literals apply it.\<close>

fun to_str :: "jsval \<Rightarrow> string" where
  "to_str JUndef = ''undefined''"
| "to_str JNull = ''null''"
| "to_str (JBool b) = (if b then ''true'' else ''false'')"
| "to_str (JNum x) = num_to_string x"
| "to_str (JStr s) = s"
| "to_str (JArr vs) = join_with '','' (map (\<lambda>v. if nullish v then [] else to_str v) vs)"
| "to_str (JObj _) = ''[object Object]''"


subsection \<open>Conversion to a number\<close>

text \<open>The decimal with digits \<open>ds\<close>, \<open>fracs\<close> after the point and exponent \<open>x\<close>.\<close>

definition dec_value :: "bool \<Rightarrow> string \<Rightarrow> string \<Rightarrow> int \<Rightarrow> jsnum" where
  "dec_value neg ds fracs x =
     (let m = int (radix_value 10 (ds @ fracs));
          e = int (length fracs) - x;
          m' = (if neg then - m else m)
      in if e \<le> 0 then Dec (m' * 10 ^ nat (- e)) 0 else norm_dec m' (nat e))"

definition take_sign :: "string \<Rightarrow> bool \<times> string" where
  "take_sign s = (case s of [] \<Rightarrow> (False, [])
     | c # r \<Rightarrow> if c = CHR ''-'' then (True, r) else if c = CHR ''+'' then (False, r) else (False, s))"

text \<open>An optional exponent part: its value and the text after it; \<open>None\<close> when an
  exponent sign is not followed by digits.\<close>

definition take_exponent :: "string \<Rightarrow> (int \<times> string) option" where
  "take_exponent s = (case s of [] \<Rightarrow> Some (0, [])
     | c # r \<Rightarrow>
        (if c = CHR ''e'' \<or> c = CHR ''E''
         then (case take_sign r of (neg, r') \<Rightarrow>
            (let ds = takeWhile is_digit r'
             in if ds = [] then None
                else Some ((if neg then - int (radix_value 10 ds) else int (radix_value 10 ds)),
                           dropWhile is_digit r')))
         else Some (0, s)))"

definition unsigned_decimal :: "bool \<Rightarrow> string \<Rightarrow> jsnum" where
  "unsigned_decimal neg s =
     (let ds = takeWhile is_digit s; r = dropWhile is_digit s;
          fracs = (if take 1 r = ''.'' then takeWhile is_digit (drop 1 r) else []);
          r' = (if take 1 r = ''.'' then dropWhile is_digit (drop 1 r) else r)
      in if ds = [] \<and> fracs = [] then NaN
         else (case take_exponent r' of Some (x, []) \<Rightarrow> dec_value neg ds fracs x | _ \<Rightarrow> NaN))"

definition based_integer :: "nat \<Rightarrow> string \<Rightarrow> jsnum" where
  "based_integer b s =
     (if s \<noteq> [] \<and> list_all (\<lambda>c. case digit_val c of Some d \<Rightarrow> d < b | None \<Rightarrow> False) s
      then Dec (int (radix_value b s)) 0 else NaN)"

text \<open>\<open>Number(s)\<close> of a string.\<close>

definition str_to_num :: "string \<Rightarrow> jsnum" where
  "str_to_num t =
     (let s = trim t
      in if s = [] then Dec 0 0
         else if take 2 s = ''0x'' \<or> take 2 s = ''0X'' then based_integer 16 (drop 2 s)
         else if take 2 s = ''0o'' \<or> take 2 s = ''0O'' then based_integer 8 (drop 2 s)
         else if take 2 s = ''0b'' \<or> take 2 s = ''0B'' then based_integer 2 (drop 2 s)
         else (case take_sign s of (neg, r) \<Rightarrow>
                 if r = ''Infinity'' then Inf neg else unsigned_decimal neg r))"

text \<open>\<open>Number(v)\<close>, as the comparison operators apply it.\<close>

fun to_num :: "jsval \<Rightarrow> jsnum" where
  "to_num JUndef = NaN"
| "to_num JNull = Dec 0 0"
| "to_num (JBool b) = (if b then Dec 1 0 else Dec 0 0)"
| "to_num (JNum x) = x"
| "to_num v = str_to_num (to_str v)"

text \<open>\<open>v < n\<close> for a number \<open>n\<close>\<close>

definition js_less_num :: "jsval \<Rightarrow> jsnum \<Rightarrow> bool" where
  "js_less_num v n = num_less (to_num v) n"

text \<open>
  \<open>parseInt(s, radix)\<close>: leading white space, a sign, a \<open>0x\<close> before hexadecimal digits,
  then the longest run of digits; no digit at all is \<open>NaN\<close>. The radix 0 stands for a
  missing one: 16 after \<open>0x\<close>, else 10.
\<close>

definition parseInt :: "nat \<Rightarrow> string \<Rightarrow> jsnum" where
  "parseInt radix str =
     (case take_sign (dropWhile is_space str) of (neg, s) \<Rightarrow>
       (let strip = ((radix = 16 \<or> radix = 0) \<and> (take 2 s = ''0x'' \<or> take 2 s = ''0X''));
            b = (if radix = 0 then (if strip then 16 else 10) else radix);
            t = (if strip then drop 2 s else s);
            ds = takeWhile (\<lambda>c. case digit_val c of Some d \<Rightarrow> d < b | None \<Rightarrow> False) t
        in if ds = [] then NaN
           else Dec (if neg then - int (radix_value b ds) else int (radix_value b ds)) 0))"

section \<open>Laws\<close>

lemma of_char_less_256 [simp]: "of_char c < (256::nat)"
  by (simp add: of_char_of [symmetric])

lemma digit_char_code [simp]:
  "n < 10 \<Longrightarrow> of_char (digit_char n) = 48 + n"
  "10 \<le> n \<Longrightarrow> n < 36 \<Longrightarrow> of_char (digit_char n) = 87 + n"
  by (simp_all add: digit_char_def)

lemma digit_val_digit_char [simp]: "n < 36 \<Longrightarrow> digit_val (digit_char n) = Some n"
  by (cases "n < 10") (auto simp: digit_val_def is_digit_def char_between_def)

lemma is_digit_digit_char [simp]: "n < 36 \<Longrightarrow> is_digit (digit_char n) \<longleftrightarrow> n < 10"
  by (cases "n < 10") (auto simp: is_digit_def char_between_def)

lemma is_hex_digit_char [simp]: "n < 16 \<Longrightarrow> is_hex (digit_char n)"
  by (cases "n < 10") (auto simp: is_hex_def is_digit_def char_between_def)

lemma radix_digits_small: "n < b \<Longrightarrow> radix_digits b n = [digit_char n]"
  by (simp add: radix_digits.simps)

lemma radix_digits_big:
  "2 \<le> b \<Longrightarrow> b \<le> n \<Longrightarrow> radix_digits b n = radix_digits b (n div b) @ [digit_char (n mod b)]"
  by (subst radix_digits.simps) auto

lemma radix_digits_induct [consumes 1, case_names small big]:
  assumes "2 \<le> (b::nat)"
    and "\<And>n. n < b \<Longrightarrow> P n"
    and "\<And>n. b \<le> n \<Longrightarrow> P (n div b) \<Longrightarrow> P n"
  shows "P n"
proof (induction n rule: less_induct)
  case (less n)
  show ?case
  proof (cases "n < b")
    case False
    then have "n div b < n" using assms(1) by (intro div_less_dividend) auto
    then have "P (n div b)" by (rule less.IH)
    with False assms(3) show ?thesis by simp
  qed (rule assms(2))
qed

lemma radix_digits_nonempty [simp]: "radix_digits b n \<noteq> []"
  by (subst radix_digits.simps) auto

lemma radix_value_Nil [simp]: "radix_value b [] = 0"
  by (simp add: radix_value_def)

lemma radix_value_snoc:
  "radix_value b (s @ [c]) =
     (case digit_val c of Some d \<Rightarrow> radix_value b s * b + d | None \<Rightarrow> radix_value b s)"
  unfolding radix_value_def by simp

text \<open>Printing a number in a base and reading it back gives the number.\<close>

lemma radix_value_radix_digits [simp]:
  assumes "2 \<le> b" "b \<le> 36"
  shows "radix_value b (radix_digits b n) = n"
  using assms(1)
proof (induction n rule: radix_digits_induct)
  case (small n)
  then show ?case
    using assms radix_value_snoc [of b "[]" "digit_char n"] by (simp add: radix_digits_small)
next
  case (big n)
  have "n mod b < b" using assms(1) by simp
  then have "n mod b < 36" using assms(2) by linarith
  with big assms show ?case by (simp add: radix_digits_big radix_value_snoc)
qed

lemma radix_digits_set:
  assumes "2 \<le> b" "c \<in> set (radix_digits b n)"
  shows "\<exists>d < b. c = digit_char d"
  using assms
proof (induction n rule: radix_digits_induct)
  case (small n)
  then show ?case by (auto simp: radix_digits_small)
next
  case (big n)
  have "n mod b < b" using assms(1) by simp
  then have "\<exists>d < b. digit_char (n mod b) = digit_char d" by blast
  with big assms(1) show ?case by (force simp: radix_digits_big)
qed

lemma radix_digits_10_digits: "list_all is_digit (radix_digits 10 n)"
  using radix_digits_set [of 10 _ n] by (force simp: list_all_iff)

text \<open>No leading zero but for zero itself.\<close>

lemma radix_digits_hd:
  assumes "2 \<le> b" "b \<le> 36" "0 < n"
  shows "hd (radix_digits b n) \<noteq> CHR ''0''"
  using assms(1,3)
proof (induction n rule: radix_digits_induct)
  case (small n)
  have "of_char (digit_char n) \<noteq> (48::nat)"
    using small assms(2) by (cases "n < 10") auto
  then show ?case using small by (auto simp: radix_digits_small)
next
  case (big n)
  have "0 < n div b" using big(1) assms(1) by (simp add: div_greater_zero_iff)
  with big assms(1) show ?case by (simp add: radix_digits_big)
qed

lemma norm_dec_wf [simp]: "num_wf (norm_dec m e)"
  by (induction m e rule: norm_dec.induct) auto

lemma num_eq_norm_dec: "num_eq (norm_dec m e) (Dec m e)"
proof (induction m e rule: norm_dec.induct)
  case (2 m e)
  show ?case
  proof (cases "m mod 10 = 0")
    case True
    then obtain k where k: "m = 10 * k" by auto
    with 2 True have IH: "num_eq (norm_dec k e) (Dec k e)" by simp
    show ?thesis
    proof (cases "norm_dec k e")
      case (Dec m' e')
      with IH True k show ?thesis by (simp add: mult_ac)
    qed (use IH in auto)
  qed simp
qed simp

lemma num_wf_norm_dec_id: "num_wf (Dec m e) \<Longrightarrow> norm_dec m e = Dec m e"
  by (cases e) auto

lemma nullish_opt_prop [simp]: "nullish v \<Longrightarrow> opt_prop v k = JUndef"
  by (cases v) auto

lemma fields_get_simps [simp]:
  "fields_get [] k = JUndef"
  "fields_get ((j, v) # fs) k = (if k = j then v else fields_get fs k)"
  by (auto simp: fields_get_def)

lemma fields_get_put [simp]:
  "fields_get (fields_put k v fs) k' = (if k' = k then v else fields_get fs k')"
  by (induction k v fs rule: fields_put.induct) (auto simp: fields_get_def)

lemma fields_put_keys:
  "map fst (fields_put k v fs) = (if k \<in> set (map fst fs) then map fst fs else map fst fs @ [k])"
  by (induction k v fs rule: fields_put.induct) auto

lemma fields_put_distinct: "distinct (map fst fs) \<Longrightarrow> distinct (map fst (fields_put k v fs))"
  by (simp add: fields_put_keys)

lemma strict_eq_str [simp]: "strict_eq v (JStr s) \<longleftrightarrow> v = JStr s" "strict_eq (JStr s) v \<longleftrightarrow> v = JStr s"
  by (cases v; auto)+

lemma js_or_truthy [simp]: "truthy a \<Longrightarrow> js_or a b = a" "\<not> truthy a \<Longrightarrow> js_or a b = b"
  by (simp_all add: js_or_def)

text \<open>\<open>includes\<close> is the substring relation.\<close>

lemma str_includes_iff: "str_includes s t \<longleftrightarrow> (\<exists>a b. s = a @ t @ b)"
proof (induction s)
  case (Cons c s)
  have "(\<exists>a b. c # s = a @ t @ b) \<longleftrightarrow> prefix t (c # s) \<or> (\<exists>a b. s = a @ t @ b)"
    by (auto simp: prefix_def Cons_eq_append_conv)
  with Cons show ?case by simp
qed simp

lemma split_on_nonempty [simp]: "split_on sep s \<noteq> []"
  by (induction sep s rule: split_on.induct) (auto split: list.split)

lemma split_on_parts: "w \<in> set (split_on sep s) \<Longrightarrow> sep \<notin> set w"
proof (induction sep s arbitrary: w rule: split_on.induct)
  case (2 sep c s)
  then show ?case by (cases "c = sep"; cases "split_on sep s") auto
qed simp

lemma join_split_on: "join_with [sep] (split_on sep s) = s"
proof (induction sep s rule: split_on.induct)
  case (2 sep c s)
  then show ?case
    by (cases "split_on sep s"; cases "tl (split_on sep s)")
       (auto simp: neq_Nil_conv split: list.split)
qed simp

lemma trim_split: "dropWhile is_space s = trim s @ rev (takeWhile is_space (rev (dropWhile is_space s)))"
  unfolding trim_def by (metis rev_append rev_rev_ident takeWhile_dropWhile_id)

text \<open>\<open>trim\<close> leaves no white space at either end.\<close>

lemma trim_ends:
  assumes "trim s \<noteq> []"
  shows "\<not> is_space (hd (trim s))" and "\<not> is_space (last (trim s))"
proof -
  have "hd (dropWhile is_space s) = hd (trim s)" "dropWhile is_space s \<noteq> []"
    using assms by (subst trim_split, simp)+
  then show "\<not> is_space (hd (trim s))" using hd_dropWhile [of is_space s] by simp
  show "\<not> is_space (last (trim s))"
    using assms hd_dropWhile [of is_space "rev (dropWhile is_space s)"]
    by (simp add: trim_def last_rev)
qed

lemma trim_idem [simp]: "trim (trim s) = trim s"
proof (cases "trim s = []")
  case True
  then show ?thesis by (simp only: True) (simp add: trim_def)
next
  case False
  have a: "dropWhile is_space (trim s) = trim s"
    using trim_ends(1) [OF False] False by (cases "trim s") auto
  have "dropWhile is_space (rev (trim s)) = rev (trim s)"
    using trim_ends(2) [OF False] False by (cases "rev (trim s)") (auto simp: last_rev [symmetric] hd_rev)
  with a show ?thesis by (subst trim_def) simp
qed

end
