(* ===== verification/Json.thy ===== *)
theory Json
  imports JsValue
begin

section \<open>JSON text\<close>

text \<open>
  \<open>JSON.stringify\<close> and \<open>JSON.parse\<close> of the language, on which the storage and network
  layers rest: \<open>json_text\<close> prints a value without white space, \<open>json_pretty\<close> with an
  indentation, and \<open>p_value\<close> is a recursive-descent parser over the full grammar, with
  twice the length of the text as its fuel. The theory shows that this fuel is always enough
  (\<open>p_value_fuel\<close>) and that parsing a printed value gives the value back
  (\<open>JSON_parse_text\<close>). The locale \<open>codec\<close> states that law as an interface; the
  storage layer is proved against it.
\<close>

subsection \<open>Printing\<close>

abbreviation QUOTE :: char where "QUOTE \<equiv> CHR 0x22"
abbreviation BSLASH :: char where "BSLASH \<equiv> CHR 0x5C"

definition esc_char :: "char \<Rightarrow> string" where
  "esc_char c =
     (if c = QUOTE then [BSLASH, QUOTE]
      else if c = BSLASH then [BSLASH, BSLASH]
      else if c = CHR 0x08 then [BSLASH, CHR ''b'']
      else if c = CHR 0x0C then [BSLASH, CHR ''f'']
      else if c = CHR 0x0A then [BSLASH, CHR ''n'']
      else if c = CHR 0x0D then [BSLASH, CHR ''r'']
      else if c = CHR 0x09 then [BSLASH, CHR ''t'']
      else if of_char c < (32::nat)
        then [BSLASH, CHR ''u'', CHR ''0'', CHR ''0'',
              digit_char (of_char c div 16), digit_char (of_char c mod 16)]
      else [c])"

definition json_quote :: "string \<Rightarrow> string" where
  "json_quote s = QUOTE # concat (map esc_char s) @ [QUOTE]"

fun num_text :: "jsnum \<Rightarrow> string" where
  "num_text (Dec m e) = num_to_string (Dec m e)"
| "num_text _ = ''null''"

fun json_text :: "jsval \<Rightarrow> string" where
  "json_text JUndef = ''null''"
| "json_text JNull = ''null''"
| "json_text (JBool b) = (if b then ''true'' else ''false'')"
| "json_text (JNum x) = num_text x"
| "json_text (JStr s) = json_quote s"
| "json_text (JArr vs) = ''['' @ join_with '','' (map json_text vs) @ '']''"
| "json_text (JObj fs) =
     ''{'' @ join_with '',''
        (map (\<lambda>(k, v). json_quote k @ '':'' @ json_text v) (filter (\<lambda>(k, v). v \<noteq> JUndef) fs)) @ ''}''"

text \<open>\<open>JSON.stringify(v)\<close>: \<open>undefined\<close> has no text.\<close>

definition JSON_stringify :: "jsval \<Rightarrow> string option" where
  "JSON_stringify v = (if v = JUndef then None else Some (json_text v))"

text \<open>\<open>JSON.stringify(v, null, 2)\<close>: \<open>ind\<close> is the current indentation.\<close>

fun json_pretty :: "string \<Rightarrow> jsval \<Rightarrow> string" where
  "json_pretty ind (JArr vs) =
     (if vs = [] then ''[]''
      else ''['' @ [CHR 0x0A] @ ind @ ''  '' @
        join_with ('','' @ [CHR 0x0A] @ ind @ ''  '') (map (json_pretty (ind @ ''  '')) vs) @
        [CHR 0x0A] @ ind @ '']'')"
| "json_pretty ind (JObj fs) =
     (if filter (\<lambda>(k, v). v \<noteq> JUndef) fs = [] then ''{}''
      else ''{'' @ [CHR 0x0A] @ ind @ ''  '' @
        join_with ('','' @ [CHR 0x0A] @ ind @ ''  '')
          (map (\<lambda>(k, v). json_quote k @ '': '' @ json_pretty (ind @ ''  '') v)
            (filter (\<lambda>(k, v). v \<noteq> JUndef) fs)) @
        [CHR 0x0A] @ ind @ ''}'')"
| "json_pretty ind v = json_text v"

subsection \<open>Parsing\<close>

definition json_ws :: "char \<Rightarrow> bool" where
  "json_ws c \<longleftrightarrow> c = CHR 0x20 \<or> c = CHR 0x09 \<or> c = CHR 0x0A \<or> c = CHR 0x0D"

abbreviation skip_ws :: "string \<Rightarrow> string" where
  "skip_ws s \<equiv> dropWhile json_ws s"

definition hex4 :: "char \<Rightarrow> char \<Rightarrow> char \<Rightarrow> char \<Rightarrow> char option" where
  "hex4 a b c d =
     (if list_all is_hex [a, b, c, d] \<and> radix_value 16 [a, b, c, d] < 256
      then Some (char_of (radix_value 16 [a, b, c, d])) else None)"

definition unescape :: "char \<Rightarrow> char option" where
  "unescape c =
     (if c = QUOTE then Some QUOTE
      else if c = BSLASH then Some BSLASH
      else if c = CHR ''/'' then Some (CHR ''/'')
      else if c = CHR ''b'' then Some (CHR 0x08)
      else if c = CHR ''f'' then Some (CHR 0x0C)
      else if c = CHR ''n'' then Some (CHR 0x0A)
      else if c = CHR ''r'' then Some (CHR 0x0D)
      else if c = CHR ''t'' then Some (CHR 0x09)
      else None)"

text \<open>The character an escape sequence stands for, after its backslash.\<close>

definition p_escape :: "string \<Rightarrow> (char \<times> string) option" where
  "p_escape r =
     (case r of
        [] \<Rightarrow> None
      | e # r1 \<Rightarrow>
         (if e = CHR ''u''
          then (case r1 of
                  h1 # h2 # h3 # h4 # r2 \<Rightarrow> map_option (\<lambda>x. (x, r2)) (hex4 h1 h2 h3 h4)
                | _ \<Rightarrow> None)
          else map_option (\<lambda>x. (x, r1)) (unescape e)))"

lemma p_escape_shorter: "p_escape r = Some (x, t) \<Longrightarrow> length t < length r"
  by (auto simp: p_escape_def split: list.splits if_split_asm)

text \<open>The rest of a string literal, after its opening quote.\<close>

function p_string :: "string \<Rightarrow> (string \<times> string) option" where
  "p_string [] = None"
| "p_string (c # r) =
     (if c = QUOTE then Some ([], r)
      else if c = BSLASH
        then (case p_escape r of
                None \<Rightarrow> None
              | Some (x, r') \<Rightarrow> map_option (\<lambda>(s, t). (x # s, t)) (p_string r'))
      else if of_char c < (32::nat) then None
      else map_option (\<lambda>(s, t). (c # s, t)) (p_string r))"
  by pat_completeness auto
termination
  by (relation "measure length") (auto dest: p_escape_shorter)

text \<open>\<open>-? (0 | [1-9][0-9]*) (. [0-9]+)? ([eE] [+-]? [0-9]+)?\<close>\<close>

definition p_int :: "string \<Rightarrow> (string \<times> string) option" where
  "p_int s =
     (if take 1 s = ''0'' then Some (''0'', drop 1 s)
      else if takeWhile is_digit s = [] then None
      else Some (takeWhile is_digit s, dropWhile is_digit s))"

definition p_frac :: "string \<Rightarrow> (string \<times> string) option" where
  "p_frac s =
     (if take 1 s \<noteq> ''.'' then Some ([], s)
      else if takeWhile is_digit (drop 1 s) = [] then None
      else Some (takeWhile is_digit (drop 1 s), dropWhile is_digit (drop 1 s)))"

definition p_number :: "string \<Rightarrow> (jsval \<times> string) option" where
  "p_number s =
     (let neg = (take 1 s = ''-'')
      in case p_int (if neg then drop 1 s else s) of
           None \<Rightarrow> None
         | Some (ds, s2) \<Rightarrow>
            (case p_frac s2 of
               None \<Rightarrow> None
             | Some (fracs, s3) \<Rightarrow>
                (case take_exponent s3 of
                   None \<Rightarrow> None
                 | Some (x, s4) \<Rightarrow> Some (JNum (dec_value neg ds fracs x), s4))))"

definition p_scalar :: "string \<Rightarrow> (jsval \<times> string) option" where
  "p_scalar s =
     (if prefix ''true'' s then Some (JBool True, drop 4 s)
      else if prefix ''false'' s then Some (JBool False, drop 5 s)
      else if prefix ''null'' s then Some (JNull, drop 4 s)
      else p_number s)"

fun p_value :: "nat \<Rightarrow> string \<Rightarrow> (jsval \<times> string) option"
and p_elems :: "nat \<Rightarrow> string \<Rightarrow> (jsval list \<times> string) option"
and p_members :: "nat \<Rightarrow> (string \<times> jsval) list \<Rightarrow> string \<Rightarrow> ((string \<times> jsval) list \<times> string) option"
where
  "p_value 0 s = None"
| "p_value (Suc n) s =
     (case skip_ws s of
        [] \<Rightarrow> None
      | c # r \<Rightarrow>
        (if c = CHR ''{''
           then (if take 1 (skip_ws r) = ''}'' then Some (JObj [], drop 1 (skip_ws r))
                 else map_option (\<lambda>(fs, t). (JObj fs, t)) (p_members n [] r))
         else if c = CHR ''[''
           then (if take 1 (skip_ws r) = '']'' then Some (JArr [], drop 1 (skip_ws r))
                 else map_option (\<lambda>(vs, t). (JArr vs, t)) (p_elems n r))
         else if c = QUOTE then map_option (\<lambda>(x, t). (JStr x, t)) (p_string r)
         else p_scalar (c # r)))"
| "p_elems 0 s = None"
| "p_elems (Suc n) s =
     (case p_value n s of
        None \<Rightarrow> None
      | Some (v, r) \<Rightarrow>
         (case skip_ws r of
            [] \<Rightarrow> None
          | c # t \<Rightarrow>
             (if c = CHR '','' then map_option (\<lambda>(vs, u). (v # vs, u)) (p_elems n t)
              else if c = CHR '']'' then Some ([v], t)
              else None)))"
| "p_members 0 acc s = None"
| "p_members (Suc n) acc s =
     (case skip_ws s of
        [] \<Rightarrow> None
      | q # r \<Rightarrow>
         (if q \<noteq> QUOTE then None
          else (case p_string r of
             None \<Rightarrow> None
           | Some (k, r1) \<Rightarrow>
              (case skip_ws r1 of
                 [] \<Rightarrow> None
               | colon # r2 \<Rightarrow>
                  (if colon \<noteq> CHR '':'' then None
                   else (case p_value n r2 of
                      None \<Rightarrow> None
                    | Some (v, r3) \<Rightarrow>
                       (case skip_ws r3 of
                          [] \<Rightarrow> None
                        | c # t \<Rightarrow>
                           (if c = CHR '','' then p_members n (fields_put k v acc) t
                            else if c = CHR ''}'' then Some (fields_put k v acc, t)
                            else None)))))))) "

declare dropWhile_eq_Nil_conv [simp del]
declare p_value.simps(2) [simp del] p_elems.simps(2) [simp del] p_members.simps(2) [simp del]

text \<open>\<open>JSON.parse(s)\<close>: \<open>None\<close> where it throws a \<open>SyntaxError\<close>.\<close>

definition JSON_parse :: "string \<Rightarrow> jsval option" where
  "JSON_parse s =
     (case p_value (2 * length s) s of
        Some (v, r) \<Rightarrow> (if skip_ws r = [] then Some v else None)
      | None \<Rightarrow> None)"


subsection \<open>The fuel is enough\<close>

lemma length_skip_ws [simp]: "length (skip_ws s) \<le> length s"
  by (rule length_dropWhile_le)

lemma skip_ws_ConsD: "skip_ws s = c # r \<Longrightarrow> length r < length s"
  using length_skip_ws [of s] by (metis Suc_le_eq length_Cons)

lemma p_string_shorter: "p_string r = Some (s, t) \<Longrightarrow> length t < length r"
proof (induction r arbitrary: s t rule: p_string.induct)
  case (2 c r)
  consider (quote) "t = r"
    | (esc) x r' s' where "c \<noteq> QUOTE" "c = BSLASH" "p_escape r = Some (x, r')" "p_string r' = Some (s', t)"
    | (plain) s' where "c \<noteq> QUOTE" "c \<noteq> BSLASH" "\<not> of_char c < (32::nat)" "p_string r = Some (s', t)"
    using "2.prems" by (auto split: if_split_asm option.split_asm)
  then show ?case
  proof cases
    case esc
    then show ?thesis using "2.IH"(1) [of "(x, r')" x r' s' t] p_escape_shorter [of r x r'] by auto
  next
    case plain
    then show ?thesis using "2.IH"(2) [of s' t] by auto
  qed simp
qed simp

lemma take_exponent_shorter: "take_exponent s = Some (x, t) \<Longrightarrow> length t \<le> length s"
  by (auto simp: take_exponent_def take_sign_def Let_def
      split: list.splits if_splits prod.splits
      intro: le_trans [OF length_dropWhile_le] le_SucI)

lemma dropWhile_shorter: "takeWhile P s \<noteq> [] \<Longrightarrow> length (dropWhile P s) < length s"
  by (cases s) (auto intro: le_less_trans [OF length_dropWhile_le] split: if_split_asm)

lemma p_int_shorter: "p_int s = Some (ds, t) \<Longrightarrow> length t < length s"
  by (cases s) (auto simp: p_int_def dropWhile_shorter split: if_split_asm
      intro: le_less_trans [OF length_dropWhile_le])

lemma p_frac_shorter: "p_frac s = Some (ds, t) \<Longrightarrow> length t \<le> length s"
  by (auto simp: p_frac_def split: if_split_asm intro: le_trans [OF length_dropWhile_le])

lemma p_number_shorter: "p_number s = Some (v, t) \<Longrightarrow> length t < length s"
  by (auto simp: p_number_def Let_def split: option.splits if_split_asm
      dest!: p_int_shorter p_frac_shorter take_exponent_shorter; linarith)

lemma p_scalar_shorter: "p_scalar s = Some (v, t) \<Longrightarrow> length t < length s"
  by (cases s) (auto simp: p_scalar_def dest: p_number_shorter split: if_split_asm)

lemma p_elems_SucE:
  assumes "p_elems (Suc n) s = Some (vs, t)"
  obtains (more) v r c u ws where "p_value n s = Some (v, r)" "skip_ws r = c # u" "p_elems n u = Some (ws, t)"
  | (last) v r c where "p_value n s = Some (v, r)" "skip_ws r = c # t"
  using assms
  by (simp add: p_elems.simps(2) split: list.split_asm if_split_asm option.split_asm prod.split_asm) auto

lemma p_members_SucE:
  assumes "p_members (Suc n) acc s = Some (fs, t)"
  obtains q r k r1 c1 r2 v r3 c2 u acc' where
    "skip_ws s = q # r" "p_string r = Some (k, r1)" "skip_ws r1 = c1 # r2"
    "p_value n r2 = Some (v, r3)" "skip_ws r3 = c2 # u"
    "p_members n acc' u = Some (fs, t) \<or> t = u"
  using assms
  by (simp add: p_members.simps(2) split: list.split_asm if_split_asm option.split_asm prod.split_asm) blast+

lemma p_shorter:
  "(\<forall>s v t. p_value n s = Some (v, t) \<longrightarrow> length t < length s) \<and>
   (\<forall>s vs t. p_elems n s = Some (vs, t) \<longrightarrow> length t < length s) \<and>
   (\<forall>acc s fs t. p_members n acc s = Some (fs, t) \<longrightarrow> length t < length s)"
proof (induction n)
  case (Suc n)
  then have IHe: "\<And>s vs t. p_elems n s = Some (vs, t) \<Longrightarrow> length t < length s"
    and IHm: "\<And>acc s fs t. p_members n acc s = Some (fs, t) \<Longrightarrow> length t < length s"
    by blast+
  have "length t < length s" if ok: "p_value (Suc n) s = Some (v, t)" for s v t
  proof -
    obtain c r where cr: "skip_ws s = c # r"
      using ok by (cases "skip_ws s") (simp_all add: p_value.simps(2))
    have "length (drop 1 (skip_ws r)) \<le> length r"
      by (simp add: order_trans [OF diff_le_self length_dropWhile_le])
    then have "length t \<le> length r"
      using ok
      by (simp add: p_value.simps(2) cr split: if_split_asm)
         (auto dest!: IHe IHm p_string_shorter p_scalar_shorter)
    then show ?thesis using skip_ws_ConsD [OF cr] by simp
  qed
  moreover have "length t < length s" if "p_elems (Suc n) s = Some (vs, t)" for s vs t
    using that
  proof (cases rule: p_elems_SucE)
    case (more v r c u ws)
    with Suc skip_ws_ConsD [of r] show ?thesis by (meson less_trans)
  next
    case (last v r c)
    with Suc skip_ws_ConsD [of r] show ?thesis by (meson less_trans)
  qed
  moreover have "length t < length s" if "p_members (Suc n) acc s = Some (fs, t)" for acc s fs t
    using that
  proof (cases rule: p_members_SucE)
    case (1 q r k r1 c1 r2 v r3 c2 u acc')
    have "length t \<le> length u" using 1 Suc less_imp_le by blast
    also have "\<dots> < length r3" using 1 by (blast intro: skip_ws_ConsD)
    also have "\<dots> < length r2" using 1 Suc by blast
    also have "\<dots> < length r1" using 1 by (blast intro: skip_ws_ConsD)
    also have "\<dots> < length r" using 1 by (blast intro: p_string_shorter)
    also have "\<dots> < length s" using 1 by (blast intro: skip_ws_ConsD)
    finally show ?thesis .
  qed
  ultimately show ?case by blast
qed simp

lemmas p_value_shorter = p_shorter [THEN conjunct1, rule_format]
  and p_elems_shorter = p_shorter [THEN conjunct2, THEN conjunct1, rule_format]
  and p_members_shorter = p_shorter [THEN conjunct2, THEN conjunct2, rule_format]


text \<open>More fuel than twice the length of the text changes nothing.\<close>

lemma p_fuel_step:
  "(\<forall>s. 2 * length s \<le> n \<longrightarrow> p_value (Suc n) s = p_value n s) \<and>
   (\<forall>s. 2 * length s + 1 \<le> n \<longrightarrow> p_elems (Suc n) s = p_elems n s) \<and>
   (\<forall>acc s. 2 * length s \<le> n \<longrightarrow> p_members (Suc n) acc s = p_members n acc s)"
proof (induction n)
  case 0
  then show ?case by (simp add: p_value.simps(2) p_members.simps(2))
next
  case (Suc n)
  then have IHv: "\<And>s. 2 * length s \<le> n \<Longrightarrow> p_value (Suc n) s = p_value n s"
    and IHe: "\<And>s. 2 * length s + 1 \<le> n \<Longrightarrow> p_elems (Suc n) s = p_elems n s"
    and IHm: "\<And>acc s. 2 * length s \<le> n \<Longrightarrow> p_members (Suc n) acc s = p_members n acc s"
    by blast+
  have "p_value (Suc (Suc n)) s = p_value (Suc n) s" if len: "2 * length s \<le> Suc n" for s
  proof (cases "skip_ws s")
    case (Cons c r)
    then have "length r < length s" by (rule skip_ws_ConsD)
    with len have "2 * length r + 1 \<le> n" by simp
    then have "p_elems (Suc n) r = p_elems n r" "p_members (Suc n) [] r = p_members n [] r"
      by (intro IHe IHm; simp)+
    with Cons show ?thesis by (simp add: p_value.simps(2))
  qed (simp add: p_value.simps(2))
  moreover have "p_elems (Suc (Suc n)) s = p_elems (Suc n) s" if len: "2 * length s + 1 \<le> Suc n" for s
  proof -
    have v: "p_value (Suc n) s = p_value n s" using len by (intro IHv) simp
    have e: "p_elems (Suc n) u = p_elems n u"
      if "p_value n s = Some (x, r)" "skip_ws r = c # u" for x r c u
      using len p_value_shorter [OF that(1)] skip_ws_ConsD [OF that(2)] by (intro IHe) simp
    show ?thesis
    proof (cases "p_value n s")
      case (Some xr)
      obtain x r where xr: "xr = (x, r)" by (cases xr)
      show ?thesis
        using Some xr v e [of x r] by (cases "skip_ws r") (simp_all add: p_elems.simps(2))
    qed (simp add: p_elems.simps(2) v)
  qed
  moreover have "p_members (Suc (Suc n)) acc s = p_members (Suc n) acc s"
    if len: "2 * length s \<le> Suc n" for acc s
  proof -
    have v: "p_value (Suc n) r2 = p_value n r2"
      if "skip_ws s = q # r" "p_string r = Some (k, r1)" "skip_ws r1 = c # r2" for q r k r1 c r2
      using len skip_ws_ConsD [OF that(1)] p_string_shorter [OF that(2)] skip_ws_ConsD [OF that(3)]
      by (intro IHv) simp
    have m: "p_members (Suc n) acc' u = p_members n acc' u"
      if "skip_ws s = q # r" "p_string r = Some (k, r1)" "skip_ws r1 = c # r2"
        "p_value n r2 = Some (x, r3)" "skip_ws r3 = c' # u" for q r k r1 c r2 x r3 c' u acc'
      using len skip_ws_ConsD [OF that(1)] p_string_shorter [OF that(2)] skip_ws_ConsD [OF that(3)]
        p_value_shorter [OF that(4)] skip_ws_ConsD [OF that(5)]
      by (intro IHm) simp
    show ?thesis
    proof (cases "skip_ws s")
      case s: (Cons q r)
      show ?thesis
      proof (cases "p_string r")
        case k: (Some kr)
        obtain k r1 where kr: "kr = (k, r1)" by (cases kr)
        show ?thesis
        proof (cases "skip_ws r1")
          case c: (Cons c r2)
          note v' = v [OF s k [unfolded kr] c]
          show ?thesis
          proof (cases "p_value n r2")
            case x: (Some xr)
            obtain x r3 where xr: "xr = (x, r3)" by (cases xr)
            note m' = m [OF s k [unfolded kr] c x [unfolded xr]]
            show ?thesis
              using s k kr c x xr v' m'
              by (cases "skip_ws r3") (simp_all add: p_members.simps(2))
          qed (use s k kr c v' in \<open>simp add: p_members.simps(2)\<close>)
        qed (use s k kr in \<open>simp add: p_members.simps(2)\<close>)
      qed (use s in \<open>simp add: p_members.simps(2)\<close>)
    qed (simp add: p_members.simps(2))
  qed
  ultimately show ?case by blast
qed

lemma p_value_fuel:
  assumes "2 * length s \<le> n"
  shows "p_value n s = p_value (2 * length s) s"
  using assms by (induction n rule: dec_induct) (use p_fuel_step in auto)


subsection \<open>Printing and parsing\<close>

text \<open>
  The values JSON can carry: no \<open>undefined\<close>, finite numbers that print without an
  exponent, and objects whose keys are distinct, as the language's objects have them.
\<close>

fun num_plain :: "jsnum \<Rightarrow> bool" where
  "num_plain (Dec m e) =
     (num_wf (Dec m e) \<and>
      (m = 0 \<or> (let n = int (length (radix_digits 10 (nat \<bar>m\<bar>))) - int e in - 6 < n \<and> n \<le> 21)))"
| "num_plain _ = False"

fun json_ok :: "jsval \<Rightarrow> bool" where
  "json_ok JUndef = False"
| "json_ok (JNum x) = num_plain x"
| "json_ok (JArr vs) = list_all json_ok vs"
| "json_ok (JObj fs) = (distinct (map fst fs) \<and> list_all (\<lambda>(k, v). json_ok v) fs)"
| "json_ok _ = True"

lemma hex4_code: "of_char c < (256::nat) \<Longrightarrow>
  hex4 (CHR ''0'') (CHR ''0'') (digit_char (of_char c div 16)) (digit_char (of_char c mod 16)) = Some c"
proof -
  let ?n = "of_char c :: nat"
  have n: "?n div 16 < 16" by (simp add: less_mult_imp_div_less)
  have z: "CHR ''0'' = digit_char 0" by code_simp
  have d: "digit_val (digit_char (?n div 16)) = Some (?n div 16)"
    "digit_val (digit_char (?n mod 16)) = Some (?n mod 16)"
    using n by simp_all
  have "radix_value 16 [digit_char 0, digit_char 0, digit_char (?n div 16), digit_char (?n mod 16)] = ?n"
    by (simp add: radix_value_def d)
  moreover have "list_all is_hex [digit_char 0, digit_char 0, digit_char (?n div 16), digit_char (?n mod 16)]"
    using n by simp
  ultimately show ?thesis by (simp add: hex4_def z)
qed

lemma p_string_esc: "p_string (esc_char c @ r) = map_option (\<lambda>(s, t). (c # s, t)) (p_string r)"
  using hex4_code [of c] by (auto simp: esc_char_def p_escape_def unescape_def)

lemma p_string_quote: "p_string (concat (map esc_char s) @ QUOTE # r) = Some (s, r)"
  by (induction s) (simp_all add: p_string_esc)


text \<open>What may follow a number without extending it.\<close>

definition delim :: "string \<Rightarrow> bool" where
  "delim r \<longleftrightarrow> r = [] \<or> (\<not> is_digit (hd r) \<and> hd r \<notin> set ''.eE'')"

lemma delim_take_exponent [simp]: "delim r \<Longrightarrow> take_exponent r = Some (0, r)"
  by (auto simp: delim_def take_exponent_def split: list.split)

lemma delim_not_dot: "delim r \<Longrightarrow> take 1 r \<noteq> ''.''"
  by (cases r) (auto simp: delim_def)

lemma takeWhile_digits: "list_all is_digit ds \<Longrightarrow> r = [] \<or> \<not> is_digit (hd r) \<Longrightarrow>
    takeWhile is_digit (ds @ r) = ds \<and> dropWhile is_digit (ds @ r) = r"
  by (induction ds) (auto simp: neq_Nil_conv hd_Cons_tl [symmetric] takeWhile_eq_Nil_iff dropWhile_eq_self_iff)

lemma p_int_digits:
  assumes "list_all is_digit ds" "ds = ''0'' \<or> (ds \<noteq> [] \<and> hd ds \<noteq> CHR ''0'')"
    "r = [] \<or> \<not> is_digit (hd r)"
  shows "p_int (ds @ r) = Some (ds, r)"
  using assms takeWhile_digits [OF assms(1,3)]
  by (cases ds) (auto simp: p_int_def)

lemma p_frac_digits:
  "list_all is_digit ds \<Longrightarrow> ds \<noteq> [] \<Longrightarrow> delim r \<Longrightarrow> p_frac (CHR ''.'' # ds @ r) = Some (ds, r)"
  using takeWhile_digits [of ds r] by (simp add: p_frac_def delim_def disj_imp)

lemma p_frac_none: "delim r \<Longrightarrow> p_frac r = Some ([], r)"
  using delim_not_dot [of r] by (simp add: p_frac_def)

lemma p_number_parts:
  assumes "list_all is_digit ds" "ds = ''0'' \<or> (ds \<noteq> [] \<and> hd ds \<noteq> CHR ''0'')"
    "list_all is_digit fracs" "delim r"
  shows "p_number ((if neg then ''-'' else []) @ ds @ (if fracs = [] then [] else CHR ''.'' # fracs) @ r) =
    Some (JNum (dec_value neg ds fracs 0), r)"
proof -
  let ?t = "(if fracs = [] then [] else CHR ''.'' # fracs) @ r"
  have "?t = [] \<or> \<not> is_digit (hd ?t)"
    using assms(4) by (auto simp: delim_def is_digit_def char_between_def)
  then have i: "p_int (ds @ ?t) = Some (ds, ?t)" by (rule p_int_digits [OF assms(1,2)])
  have f: "p_frac ?t = Some (fracs, r)"
    using assms(3,4) by (simp add: p_frac_digits p_frac_none)
  have "ds \<noteq> []" using assms(2) by auto
  then have "take 1 (ds @ ?t) \<noteq> ''-''"
    using assms(1) by (cases ds) (auto simp: is_digit_def char_between_def)
  with i f assms(4) show ?thesis
    by (cases neg) (simp_all add: p_number_def Let_def)
qed

lemma radix_value_zeros: "radix_value 10 (replicate k CHR ''0'' @ s) = radix_value 10 s"
proof -
  have "digit_val CHR ''0'' = Some 0" by code_simp
  then show ?thesis by (induction k) (simp_all add: radix_value_def)
qed

lemma strip_zeros_Nil [simp]: "strip_zeros [] = []"
  by (simp add: strip_zeros_def)

lemma strip_zeros_snoc [simp]:
  "strip_zeros (s @ [c]) = (if c = CHR ''0'' then strip_zeros s else s @ [c])"
  by (simp add: strip_zeros_def)

lemma length_strip_zeros: "length (strip_zeros s) \<le> length s"
  by (induction s rule: rev_induct) auto

lemma strip_zeros_split: "strip_zeros s @ replicate (length s - length (strip_zeros s)) CHR ''0'' = s"
proof (induction s rule: rev_induct)
  case (snoc c s)
  have "Suc (length s) - length (strip_zeros s) = Suc (length s - length (strip_zeros s))"
    using length_strip_zeros [of s] by simp
  moreover have "replicate (Suc k) CHR ''0'' = replicate k CHR ''0'' @ ''0''" for k
    by (simp add: replicate_append_same)
  ultimately show ?case
    using snoc by (simp add: append_assoc [symmetric] del: append_assoc replicate_Suc)
qed simp


lemma radix_digits_last: "last (radix_digits 10 n) = digit_char (n mod 10)"
  by (cases "n < 10") (simp_all add: radix_digits_small radix_digits_big)

lemma strip_zeros_id: "s = [] \<or> last s \<noteq> CHR ''0'' \<Longrightarrow> strip_zeros s = s"
  by (cases s rule: rev_cases) auto

lemma digit_char_zero: "d < 10 \<Longrightarrow> digit_char d = CHR ''0'' \<longleftrightarrow> d = 0"
proof -
  assume d: "d < 10"
  have "digit_char 0 = CHR ''0''" by code_simp
  moreover have "digit_char d = digit_char 0 \<Longrightarrow> d = 0"
    using d digit_val_digit_char [of d] digit_val_digit_char [of 0] by simp
  ultimately show ?thesis by auto
qed

lemma list_all_take_drop:
  "list_all P s \<Longrightarrow> list_all P (take n s)" "list_all P s \<Longrightarrow> list_all P (drop n s)"
  by (auto simp: list_all_iff dest: in_set_takeD in_set_dropD)

text \<open>The text of a number: a sign, an integer part and a fraction with \<open>e\<close> digits.\<close>

lemma num_text_parts:
  assumes ok: "num_plain (Dec m e)" and m: "m \<noteq> 0"
  obtains ints fracs where
    "num_text (Dec m e) =
       (if m < 0 then ''-'' else []) @ ints @ (if fracs = [] then [] else CHR ''.'' # fracs)"
    "list_all is_digit ints" "ints = ''0'' \<or> (ints \<noteq> [] \<and> hd ints \<noteq> CHR ''0'')"
    "list_all is_digit fracs" "length fracs = e" "radix_value 10 (ints @ fracs) = nat \<bar>m\<bar>"
proof -
  define ds where "ds = radix_digits 10 (nat \<bar>m\<bar>)"
  define n where "n = int (length ds) - int e"
  have n: "- 6 < n" "n \<le> 21" using ok m by (auto simp: ds_def n_def Let_def)
  have ds: "list_all is_digit ds" "ds \<noteq> []" "hd ds \<noteq> CHR ''0''" "radix_value 10 ds = nat \<bar>m\<bar>"
    using m by (simp_all add: ds_def radix_digits_10_digits radix_digits_hd)
  have shape: "num_text (Dec m e) = (if m < 0 then ''-'' else []) @ dec_layout (strip_zeros ds) n"
    using m by (simp add: ds_def n_def Let_def)
  show ?thesis
  proof (cases "e = 0")
    case True
    then have "dec_layout (strip_zeros ds) n = ds"
      using n length_strip_zeros [of ds] strip_zeros_split [of ds]
      by (simp add: dec_layout_def n_def Let_def nat_diff_distrib)
    with True ds shape show ?thesis by (intro that [of ds "[]"]) auto
  next
    case False
    have "m mod 10 \<noteq> 0" using ok False by simp
    then have "\<not> int 10 dvd m" by (simp add: dvd_eq_mod_eq_0)
    then have "\<not> 10 dvd nat \<bar>m\<bar>" by (simp only: dvd_nat_abs_iff not_False_eq_True)
    then have "nat \<bar>m\<bar> mod 10 \<noteq> 0" by (simp add: dvd_eq_mod_eq_0)
    then have "last ds \<noteq> CHR ''0''" by (simp add: ds_def radix_digits_last digit_char_zero)
    then have strip: "strip_zeros ds = ds" by (simp add: strip_zeros_id)
    show ?thesis
    proof (cases "0 < n")
      case True
      then have "dec_layout ds n = take (nat n) ds @ CHR ''.'' # drop (nat n) ds"
        using False n by (simp add: dec_layout_def n_def Let_def)
      moreover have "hd (take (nat n) ds) = hd ds" "take (nat n) ds \<noteq> []" using True ds by auto
      moreover have "length (drop (nat n) ds) = e" "drop (nat n) ds \<noteq> []"
        using True False by (auto simp: n_def nat_diff_distrib)
      ultimately show ?thesis
        using ds shape strip
        by (intro that [of "take (nat n) ds" "drop (nat n) ds"]) (auto simp: list_all_take_drop)
    next
      case neg: False
      let ?z = "replicate (nat (- n)) CHR ''0''"
      have "dec_layout ds n = ''0'' @ CHR ''.'' # ?z @ ds"
        using neg n ds(2) length_greater_0_conv [of ds]
        by (simp add: dec_layout_def Let_def del: length_greater_0_conv)
      moreover have "list_all is_digit ?z"
        by (auto simp: list_all_iff is_digit_def char_between_def)
      moreover have "length (?z @ ds) = e" using neg by (simp add: n_def)
      moreover have "radix_value 10 (''0'' @ ?z @ ds) = nat \<bar>m\<bar>"
        using radix_value_zeros [of "Suc (nat (- n))" ds] ds(4) by simp
      ultimately show ?thesis
        using ds shape strip
        by (intro that [of "''0''" "?z @ ds"]) (auto simp: is_digit_def char_between_def)
    qed
  qed
qed

lemma p_number_num_text:
  assumes "num_plain (Dec m e)" "delim r"
  shows "p_number (num_text (Dec m e) @ r) = Some (JNum (Dec m e), r)"
proof (cases "m = 0")
  case True
  then have "e = 0" using assms(1) by simp
  moreover have "p_number (''0'' @ r) = Some (JNum (dec_value False ''0'' [] 0), r)"
    using p_number_parts [of "''0''" "[]" r False] assms(2)
    by (simp add: is_digit_def char_between_def)
  moreover have "dec_value False ''0'' [] 0 = Dec 0 0" by code_simp
  ultimately show ?thesis using True by simp
next
  case False
  obtain ints fracs where parts: "num_text (Dec m e) =
       (if m < 0 then ''-'' else []) @ ints @ (if fracs = [] then [] else CHR ''.'' # fracs)"
    "list_all is_digit ints" "ints = ''0'' \<or> (ints \<noteq> [] \<and> hd ints \<noteq> CHR ''0'')"
    "list_all is_digit fracs" "length fracs = e" "radix_value 10 (ints @ fracs) = nat \<bar>m\<bar>"
    using num_text_parts [OF assms(1) False] by metis
  have "p_number (num_text (Dec m e) @ r) = Some (JNum (dec_value (m < 0) ints fracs 0), r)"
    using p_number_parts [OF parts(2-4) assms(2), of "m < 0"] parts(1) by simp
  moreover have "dec_value (m < 0) ints fracs 0 = norm_dec m e"
    using parts(5,6) False by (cases "e = 0") (auto simp: dec_value_def Let_def)
  moreover have "norm_dec m e = Dec m e"
    using assms(1) by (intro num_wf_norm_dec_id) simp
  ultimately show ?thesis by simp
qed


text \<open>Texts of values start with a character that is neither white space nor a bracket
  that closes.\<close>

definition starts :: "string \<Rightarrow> bool" where
  "starts s \<longleftrightarrow> s \<noteq> [] \<and> \<not> json_ws (hd s) \<and> hd s \<notin> set '']}''"

lemma starts_append: "starts s \<Longrightarrow> starts (s @ r)"
  by (cases s) (auto simp: starts_def)

lemma starts_skip_ws [simp]: "starts s \<Longrightarrow> skip_ws s = s"
  by (cases s) (auto simp: starts_def)

lemma num_text_starts:
  assumes "num_plain x"
  shows "num_text x \<noteq> []" "is_digit (hd (num_text x)) \<or> hd (num_text x) = CHR ''-''"
proof -
  obtain m e where x: "x = Dec m e" using assms by (cases x) auto
  have "num_text x \<noteq> [] \<and> (is_digit (hd (num_text x)) \<or> hd (num_text x) = CHR ''-'')"
  proof (cases "m = 0")
    case True
    then show ?thesis using x by (simp add: is_digit_def char_between_def)
  next
    case False
    obtain ints fracs where "num_text (Dec m e) =
       (if m < 0 then ''-'' else []) @ ints @ (if fracs = [] then [] else CHR ''.'' # fracs)"
      "list_all is_digit ints" "ints = ''0'' \<or> (ints \<noteq> [] \<and> hd ints \<noteq> CHR ''0'')"
      using num_text_parts [of m e] assms False x by metis
    then show ?thesis using x by (cases ints) (auto simp: is_digit_def char_between_def)
  qed
  then show "num_text x \<noteq> []" "is_digit (hd (num_text x)) \<or> hd (num_text x) = CHR ''-''"
    by auto
qed

lemma json_text_starts: "json_ok v \<Longrightarrow> starts (json_text v)"
proof (cases v)
  case (JNum x)
  assume "json_ok v"
  with JNum num_text_starts [of x] show ?thesis
    by (auto simp: starts_def json_ws_def is_digit_def char_between_def)
qed (auto simp: starts_def json_ws_def json_quote_def)

text \<open>The parser reads a printed value and stops right after it.\<close>

definition reads :: "jsval \<Rightarrow> bool" where
  "reads v \<longleftrightarrow> (\<forall>n r. 2 * length (json_text v) \<le> n \<longrightarrow> delim r \<longrightarrow>
     p_value n (json_text v @ r) = Some (v, r))"

lemma readsD: "reads v \<Longrightarrow> 2 * length (json_text v) \<le> n \<Longrightarrow> delim r \<Longrightarrow>
    p_value n (json_text v @ r) = Some (v, r)"
  by (simp add: reads_def)

lemma delim_punct [simp]: "c \<in> set '',]}:'' \<Longrightarrow> delim (c # r)"
  by (auto simp: delim_def is_digit_def char_between_def)

lemma p_elems_texts:
  assumes "vs \<noteq> []" "\<And>v. v \<in> set vs \<Longrightarrow> reads v"
    and "2 * length (join_with '','' (map json_text vs)) + 1 \<le> n"
  shows "p_elems n (join_with '','' (map json_text vs) @ CHR '']'' # r) = Some (vs, r)"
  using assms
proof (induction vs arbitrary: n)
  case (Cons v vs)
  obtain n' where n: "n = Suc n'" using Cons.prems(3) by (cases n) auto
  show ?case
  proof (cases vs)
    case Nil
    have "p_value n' (json_text v @ CHR '']'' # r) = Some (v, CHR '']'' # r)"
      using Cons.prems n Nil by (intro readsD) auto
    then show ?thesis using Nil n by (simp add: p_elems.simps(2) json_ws_def)
  next
    case (Cons w ws)
    let ?rest = "join_with '','' (map json_text vs) @ CHR '']'' # r"
    have "p_value n' (json_text v @ CHR '','' # ?rest) = Some (v, CHR '','' # ?rest)"
      using Cons.prems n Cons by (intro readsD) auto
    moreover have "p_elems n' ?rest = Some (vs, r)"
      using Cons.prems n Cons by (intro Cons.IH) auto
    ultimately show ?thesis using Cons n by (simp add: p_elems.simps(2) json_ws_def)
  qed
qed simp

abbreviation member_text :: "string \<times> jsval \<Rightarrow> string" where
  "member_text f \<equiv> (case f of (k, v) \<Rightarrow> json_quote k @ '':'' @ json_text v)"

lemma fields_put_new: "k \<notin> set (map fst fs) \<Longrightarrow> fields_put k v fs = fs @ [(k, v)]"
  by (induction k v fs rule: fields_put.induct) auto

lemma p_member_first:
  assumes "reads v" "starts (json_text v)" "2 * length (member_text (k, v)) \<le> Suc n"
    "c \<in> set '',}''"
  shows "p_members (Suc n) acc (member_text (k, v) @ c # t) =
    (if c = CHR '','' then p_members n (fields_put k v acc) t else Some (fields_put k v acc, t))"
proof -
  have "p_value n (json_text v @ c # t) = Some (v, c # t)"
    using assms by (intro readsD) (auto simp: json_quote_def)
  then show ?thesis
    using assms(4) p_string_quote [of k "CHR '':'' # json_text v @ c # t"]
    by (auto simp: p_members.simps(2) json_quote_def json_ws_def)
qed

lemma p_members_texts:
  assumes "fs \<noteq> []" "\<And>k v. (k, v) \<in> set fs \<Longrightarrow> reads v \<and> starts (json_text v)"
    and "2 * length (join_with '','' (map member_text fs)) \<le> n"
    and "distinct (map fst (acc @ fs))"
  shows "p_members n acc (join_with '','' (map member_text fs) @ CHR ''}'' # r) = Some (acc @ fs, r)"
  using assms
proof (induction fs arbitrary: n acc)
  case (Cons f fs)
  obtain k v where f: "f = (k, v)" by (cases f)
  obtain n' where n: "n = Suc n'" using Cons.prems(3) f by (cases n; cases fs) (auto simp: json_quote_def)
  have new: "fields_put k v acc = acc @ [(k, v)]"
    using Cons.prems(4) f by (intro fields_put_new) auto
  have v: "reads v" "starts (json_text v)" using Cons.prems(2) f by auto
  show ?case
  proof (cases fs)
    case Nil
    then have "2 * length (member_text (k, v)) \<le> Suc n'"
      using Cons.prems(3) f n by simp
    from p_member_first [OF v this, of "CHR ''}''" acc r] show ?thesis
      using Nil f n new by simp
  next
    case fs: (Cons g gs)
    let ?rest = "join_with '','' (map member_text fs) @ CHR ''}'' # r"
    have "2 * length (member_text (k, v)) \<le> Suc n'"
      using Cons.prems(3) f fs n by simp
    from p_member_first [OF v this, of "CHR '',''" acc ?rest]
    have "p_members n acc (member_text (k, v) @ CHR '','' # ?rest) = p_members n' (acc @ [(k, v)]) ?rest"
      using n new by simp
    also have "\<dots> = Some ((acc @ [(k, v)]) @ fs, r)"
      using Cons.prems f fs n by (intro Cons.IH) auto
    finally show ?thesis using f fs by simp
  qed
qed simp


lemma filter_json_ok: "list_all (\<lambda>(k, v). json_ok v) fs \<Longrightarrow> filter (\<lambda>(k, v). v \<noteq> JUndef) fs = fs"
  by (induction fs) auto

lemma join_starts: "xs \<noteq> [] \<Longrightarrow> starts (hd xs) \<Longrightarrow> starts (join_with sep xs @ r)"
  by (cases xs rule: remdups_adj.cases) (auto simp: starts_append append_assoc [symmetric] simp del: append_assoc)

lemma p_value_arr:
  assumes "\<And>v. v \<in> set vs \<Longrightarrow> reads v \<and> starts (json_text v)"
  shows "reads (JArr vs)"
  unfolding reads_def
proof (intro allI impI)
  fix n r
  assume n: "2 * length (json_text (JArr vs)) \<le> n" and "delim r"
  then obtain n' where n': "n = Suc n'" by (cases n) auto
  show "p_value n (json_text (JArr vs) @ r) = Some (JArr vs, r)"
  proof (cases "vs = []")
    case True
    then show ?thesis using n' by (simp add: p_value.simps(2) json_ws_def)
  next
    case False
    let ?t = "join_with '','' (map json_text vs) @ CHR '']'' # r"
    have st: "starts ?t" using False assms by (intro join_starts) (auto simp: hd_map)
    then have "take 1 (skip_ws ?t) \<noteq> '']''" by (cases ?t) (auto simp: starts_def)
    moreover have "p_elems n' ?t = Some (vs, r)"
      using False assms n n' by (intro p_elems_texts) auto
    ultimately show ?thesis using n' by (simp add: p_value.simps(2) json_ws_def)
  qed
qed

lemma p_value_obj:
  assumes "\<And>k v. (k, v) \<in> set fs \<Longrightarrow> reads v \<and> starts (json_text v)"
    and "distinct (map fst fs)" "filter (\<lambda>(k, v). v \<noteq> JUndef) fs = fs"
  shows "reads (JObj fs)"
  unfolding reads_def
proof (intro allI impI)
  fix n r
  assume n: "2 * length (json_text (JObj fs)) \<le> n" and "delim r"
  then obtain n' where n': "n = Suc n'" by (cases n) auto
  show "p_value n (json_text (JObj fs) @ r) = Some (JObj fs, r)"
  proof (cases "fs = []")
    case True
    then show ?thesis using n' by (simp add: p_value.simps(2) json_ws_def)
  next
    case False
    let ?t = "join_with '','' (map member_text fs) @ CHR ''}'' # r"
    have st: "starts ?t"
      using False by (intro join_starts) (auto simp: hd_map starts_def json_quote_def json_ws_def split: prod.split)
    then have "take 1 (skip_ws ?t) \<noteq> ''}''" by (cases ?t) (auto simp: starts_def)
    moreover have "p_members n' [] ?t = Some ([] @ fs, r)"
      using False assms n n' by (intro p_members_texts) auto
    ultimately show ?thesis using n' assms(3) by (simp add: p_value.simps(2) json_ws_def)
  qed
qed

lemma p_scalar_num:
  assumes "num_plain x" "delim r"
  shows "p_scalar (num_text x @ r) = Some (JNum x, r)"
proof -
  obtain m e where x: "x = Dec m e" using assms(1) by (cases x) auto
  have "hd (num_text x) \<notin> set ''tfn''" "num_text x \<noteq> []"
    using num_text_starts [OF assms(1)] by (auto simp: is_digit_def char_between_def)
  then have "p_scalar (num_text x @ r) = p_number (num_text x @ r)"
    by (cases "num_text x") (auto simp: p_scalar_def)
  with p_number_num_text [of m e r] assms x show ?thesis by simp
qed

lemma json_reads: "json_ok v \<Longrightarrow> reads v"
proof (induction v)
  case (JNum x)
  then have x: "num_plain x" by simp
  show ?case unfolding reads_def
  proof (intro allI impI)
    fix n r
    assume n: "2 * length (json_text (JNum x)) \<le> n" and "delim r"
    then obtain n' where "n = Suc n'" using num_text_starts(1) [OF x] by (cases n) auto
    moreover have "starts (num_text x @ r)"
      using json_text_starts [of "JNum x"] JNum by (simp add: starts_append)
    moreover have "hd (num_text x @ r) \<notin> set [CHR ''{'', CHR ''['', QUOTE]"
      using num_text_starts [OF x] by (auto simp: is_digit_def char_between_def)
    ultimately show "p_value n (json_text (JNum x) @ r) = Some (JNum x, r)"
      using p_scalar_num [OF x \<open>delim r\<close>] num_text_starts(1) [OF x]
      by (cases "num_text x @ r") (auto simp: p_value.simps(2) starts_def)
  qed
next
  case (JArr vs)
  then show ?case by (intro p_value_arr) (auto simp: list_all_iff json_text_starts)
next
  case (JObj fs)
  then have "\<And>k v. (k, v) \<in> set fs \<Longrightarrow> json_ok v" by (auto simp: list_all_iff)
  moreover from this JObj have "\<And>k v. (k, v) \<in> set fs \<Longrightarrow> reads v" by (metis snds.intros prod.sel(2))
  ultimately show ?case
    using JObj.prems by (intro p_value_obj) (auto simp: json_text_starts filter_json_ok)
next
  case (JStr s)
  then show ?case
    using p_string_quote [of s]
    by (auto simp: reads_def json_quote_def gr0_conv_Suc Suc_le_eq p_value.simps(2) json_ws_def
        dest!: less_imp_Suc_add)
qed (auto simp: reads_def p_value.simps(2) json_ws_def p_scalar_def numeral_eq_Suc Suc_le_eq
      dest!: less_imp_Suc_add Suc_le_D)

text \<open>\<open>JSON.parse\<close> undoes \<open>JSON.stringify\<close> on the values JSON can carry.\<close>

theorem JSON_parse_text: "json_ok v \<Longrightarrow> JSON_parse (json_text v) = Some v"
proof -
  assume "json_ok v"
  then have "p_value (2 * length (json_text v)) (json_text v @ []) = Some (v, [])"
    by (intro readsD json_reads) (auto simp: delim_def)
  then show ?thesis by (simp add: JSON_parse_def)
qed

lemma json_ok_not_undef [simp]: "json_ok v \<Longrightarrow> v \<noteq> JUndef"
  by auto

lemma JSON_stringify_ok: "json_ok v \<Longrightarrow> JSON_stringify v = Some (json_text v)"
  by (simp add: JSON_stringify_def)

text \<open>
  The indented text of an object without nested arrays and objects is read back as well.
\<close>

fun flat :: "jsval \<Rightarrow> bool" where
  "flat (JArr _) = False"
| "flat (JObj _) = False"
| "flat v = json_ok v"

lemma flat_pretty: "flat v \<Longrightarrow> json_pretty ind v = json_text v \<and> json_ok v"
  by (cases v) auto

lemma p_value_space: "json_ws c \<Longrightarrow> p_value n (c # s) = p_value n s"
  by (cases n) (simp_all add: p_value.simps(2))

lemma skip_ws_append: "list_all json_ws ws \<Longrightarrow> skip_ws (ws @ s) = skip_ws s"
  by (induction ws) auto

lemma delim_ws: "list_all json_ws ws \<Longrightarrow> c \<in> set '',}'' \<Longrightarrow> delim (ws @ c # t)"
  by (cases ws) (auto simp: delim_def is_digit_def char_between_def json_ws_def)

abbreviation pretty_member :: "string \<times> jsval \<Rightarrow> string" where
  "pretty_member f \<equiv> (case f of (k, v) \<Rightarrow> json_quote k @ '': '' @ json_text v)"

lemma p_member_pretty:
  assumes "json_ok v" "2 * length (json_text v) \<le> n" "c \<in> set '',}''" "list_all json_ws ws" "list_all json_ws ws'"
  shows "p_members (Suc n) acc (ws @ pretty_member (k, v) @ ws' @ c # t) =
    (if c = CHR '','' then p_members n (fields_put k v acc) t else Some (fields_put k v acc, t))"
proof -
  have "p_value n (CHR '' '' # json_text v @ ws' @ c # t) = Some (v, ws' @ c # t)"
    using readsD [OF json_reads [OF assms(1)] assms(2) delim_ws [OF assms(5,3)]] by (simp add: p_value_space json_ws_def)
  then show ?thesis
    using assms(3-5) p_string_quote [of k "CHR '':'' # CHR '' '' # json_text v @ ws' @ c # t"]
    by (auto simp: p_members.simps(2) json_quote_def json_ws_def skip_ws_append)
qed

lemma p_members_pretty:
  assumes "fs \<noteq> []" "list_all (\<lambda>(k, v). json_ok v) fs" "list_all json_ws ws" "list_all json_ws sep" "list_all json_ws ws'"
    and "2 * length (join_with ('','' @ sep) (map pretty_member fs)) \<le> n" "distinct (map fst (acc @ fs))"
  shows "p_members n acc (ws @ join_with ('','' @ sep) (map pretty_member fs) @ ws' @ CHR ''}'' # r) = Some (acc @ fs, r)"
  using assms
proof (induction fs arbitrary: n acc ws)
  case (Cons f fs)
  obtain k v where f: "f = (k, v)" by (cases f)
  obtain n' where n: "n = Suc n'" using Cons.prems(6) f by (cases n; cases fs) (auto simp: json_quote_def)
  have new: "fields_put k v acc = acc @ [(k, v)]"
    using Cons.prems(7) f by (intro fields_put_new) auto
  have v: "json_ok v" using Cons.prems(2) f by simp
  have len: "2 * length (json_text v) \<le> n'"
    using Cons.prems(6) f n by (cases fs) (auto simp: json_quote_def)
  show ?case
  proof (cases fs)
    case Nil
    then show ?thesis
      using p_member_pretty [OF v len _ Cons.prems(3,5), of "CHR ''}''" acc k r] f n new by simp
  next
    case fs: (Cons g gs)
    let ?rest = "sep @ join_with ('','' @ sep) (map pretty_member fs) @ ws' @ CHR ''}'' # r"
    have "p_members n acc (ws @ pretty_member (k, v) @ [] @ CHR '','' # ?rest) = p_members n' (acc @ [(k, v)]) ?rest"
      using p_member_pretty [OF v len _ Cons.prems(3), of "CHR '',''" "[]" acc k ?rest] n new by simp
    also have "\<dots> = Some ((acc @ [(k, v)]) @ fs, r)"
      using Cons.prems f fs n by (intro Cons.IH) auto
    finally show ?thesis using f fs by simp
  qed
qed simp

lemma JSON_parse_pretty:
  assumes "fs \<noteq> []" "list_all (\<lambda>(k, v). flat v) fs" "distinct (map fst fs)"
  shows "JSON_parse (json_pretty [] (JObj fs)) = Some (JObj fs)"
proof -
  let ?nl = "[CHR 0x0A]" and ?m = "join_with ('','' @ [CHR 0x0A, CHR 0x20, CHR 0x20]) (map pretty_member fs)"
  have ok: "list_all (\<lambda>(k, v). json_ok v) fs"
    using assms(2) flat_pretty by (auto simp: list_all_iff)
  have "map (\<lambda>(k, v). json_quote k @ '': '' @ json_pretty ''  '' v) fs = map pretty_member fs"
    using assms(2) flat_pretty by (auto simp: list_all_iff)
  then have shape: "json_pretty [] (JObj fs) = ''{'' @ [CHR 0x0A, CHR 0x20, CHR 0x20] @ ?m @ ?nl @ ''}''"
    using assms(1) filter_json_ok [OF ok] by (simp cong: map_cong)
  define n where "n = 2 * length (json_pretty [] (JObj fs)) - 1"
  have n: "2 * length (json_pretty [] (JObj fs)) = Suc n" by (simp add: n_def shape del: json_pretty.simps)
  have ws: "list_all json_ws [CHR 0x0A, CHR 0x20, CHR 0x20]" "list_all json_ws ?nl" by (simp_all add: json_ws_def)
  have "p_members n [] ([CHR 0x0A, CHR 0x20, CHR 0x20] @ ?m @ ?nl @ CHR ''}'' # []) = Some ([] @ fs, [])"
    using assms(1,3) by (intro p_members_pretty [OF _ ok ws(1) ws(1) ws(2)]) (auto simp: n_def shape simp del: json_pretty.simps)
  moreover have "take 1 (skip_ws ([CHR 0x0A, CHR 0x20, CHR 0x20] @ ?m @ ?nl @ ''}'')) \<noteq> ''}''"
  proof -
    have "starts (?m @ ?nl @ ''}'')"
      using assms(1) by (intro join_starts) (auto simp: hd_map starts_def json_quote_def json_ws_def split: prod.split)
    then show ?thesis by (cases "?m @ ?nl @ ''}''") (auto simp: skip_ws_append [OF ws(1)] starts_def simp del: append_Cons append_assoc)
  qed
  ultimately have "p_value (Suc n) (''{'' @ [CHR 0x0A, CHR 0x20, CHR 0x20] @ ?m @ ?nl @ ''}'') = Some (JObj fs, [])"
    by (simp add: p_value.simps(2) json_ws_def)
  then have "p_value (Suc n) (json_pretty [] (JObj fs)) = Some (JObj fs, [])" by (simp only: shape)
  then show ?thesis by (simp add: JSON_parse_def n del: json_pretty.simps)
qed

subsection \<open>The interface\<close>

text \<open>
  A codec: every good value has a text, and reading the text gives the value back.
  Whoever stores values behind a codec relies on these two laws only.
\<close>

locale codec =
  fixes enc :: "'v \<Rightarrow> 't option" and dec :: "'t \<Rightarrow> 'v option" and good :: "'v \<Rightarrow> bool"
  assumes enc_total: "good v \<Longrightarrow> \<exists>t. enc v = Some t"
    and dec_enc: "good v \<Longrightarrow> enc v = Some t \<Longrightarrow> dec t = Some v"
begin

lemma enc_inj:
  assumes "good v" "good w" "enc v = enc w"
  shows "v = w"
proof -
  obtain t where v: "enc v = Some t" using enc_total [OF assms(1)] by blast
  with assms(3) have w: "enc w = Some t" by simp
  show ?thesis using dec_enc [OF assms(1) v] dec_enc [OF assms(2) w] by simp
qed

lemma dec_the_enc: "good v \<Longrightarrow> dec (the (enc v)) = Some v"
  using enc_total dec_enc by fastforce

end

interpretation json: codec JSON_stringify JSON_parse json_ok
  by unfold_locales (auto simp: JSON_stringify_ok JSON_parse_text)

end
