(* ===== verification/Browser.thy ===== *)
theory Browser
  imports Json
begin

section \<open>The platform the wallet runs on\<close>

text \<open>
  The browser and the libraries the sources call but do not hold are one record of
  parameters, \<open>env\<close>: the server behind \<open>fetch\<close>, the SHA-256 digest and the random
  bytes of Web Crypto, the packages \<open>canonicalize\<close> and \<open>tweetnacl\<close>, the clock, the
  storage quota, the answers to \<open>confirm\<close>, and the texts of the engine's own exceptions.
  The server may answer from the whole history of requests. What the wallet changes is
  the record \<open>world\<close>: the local storage, the requests sent, the counters of clock reads
  and random draws, the dialogs shown, the files downloaded. The state records of the components extend it.
\<close>

type_synonym byte = "8 word"

record request =
  req_url :: string
  req_method :: string
  req_headers :: "(string \<times> string) list"
  req_body :: "string option"

datatype fetch_result =
    NetFail jserr                    \<comment> \<open>the promise of \<open>fetch\<close> is rejected\<close>
  | Resp nat string string           \<comment> \<open>status, status text, body\<close>

record env =
  VITE_BACKEND_URL :: "string option"
  respond :: "request list \<Rightarrow> request \<Rightarrow> fetch_result"
  digest :: "byte list \<Rightarrow> byte list"
  random_bytes :: "nat \<Rightarrow> nat \<Rightarrow> byte list"
  canonicalize :: "jsval \<Rightarrow> string option outcome"   \<comment> \<open>throws on \<open>NaN\<close> and infinities\<close>
  nacl_keyPair :: "nat \<Rightarrow> byte list \<times> byte list"   \<comment> \<open>secret key, public key\<close>
  nacl_detached :: "byte list \<Rightarrow> byte list \<Rightarrow> byte list outcome"
  nacl_verify :: "byte list \<Rightarrow> byte list \<Rightarrow> byte list \<Rightarrow> bool outcome"
  now_ms :: "nat \<Rightarrow> 53 word"             \<comment> \<open>milliseconds, a safe integer\<close>
  iso_date :: "nat \<Rightarrow> string"
  quota_ok :: "(string \<rightharpoonup> string) \<Rightarrow> string \<Rightarrow> string \<Rightarrow> bool"
  quota_error :: jserr
  syntax_msg :: "string \<Rightarrow> string"
  type_msg :: string
  confirms :: "nat \<Rightarrow> bool"

record world =
  localStorage :: "string \<rightharpoonup> string"
  sent :: "request list"
  draws :: nat
  ticks :: nat
  asked :: nat
  alerts :: "string list"
  downloads :: "(string \<times> string) list"   \<comment> \<open>file name, content\<close>
  window_length :: "nat option"      \<comment> \<open>the global \<open>length\<close>, \<open>None\<close> outside a window\<close>

subsection \<open>Local storage\<close>

definition ls_getItem :: "string \<Rightarrow> ('z world_scheme, string option) js" where
  "ls_getItem k = jget (\<lambda>s. localStorage s k)"

definition ls_setItem :: "env \<Rightarrow> string \<Rightarrow> string \<Rightarrow> ('z world_scheme, unit) js" where
  "ls_setItem E k v =
     (\<lambda>s. if quota_ok E (localStorage s) k v
          then (Inr (), s\<lparr>localStorage := (localStorage s)(k \<mapsto> v)\<rparr>)
          else (Inl (quota_error E), s))"

definition ls_removeItem :: "string \<Rightarrow> ('z world_scheme, unit) js" where
  "ls_removeItem k = jmodify (\<lambda>s. s\<lparr>localStorage := (localStorage s)(k := None)\<rparr>)"

lemma ls_getItem_run [js_run, simp]: "ls_getItem k s = (Inr (localStorage s k), s)"
  by (simp add: ls_getItem_def)

lemma ls_setItem_run [js_run]:
  "ls_setItem E k v s =
     (if quota_ok E (localStorage s) k v
      then (Inr (), s\<lparr>localStorage := (localStorage s)(k \<mapsto> v)\<rparr>)
      else (Inl (quota_error E), s))"
  by (simp add: ls_setItem_def)

lemma ls_removeItem_run [js_run, simp]:
  "ls_removeItem k s = (Inr (), s\<lparr>localStorage := (localStorage s)(k := None)\<rparr>)"
  by (simp add: ls_removeItem_def)

subsection \<open>Clock, random bytes, dialogs\<close>

definition date_now :: "env \<Rightarrow> ('z world_scheme, 53 word) js" where
  "date_now E = (\<lambda>s. (Inr (now_ms E (ticks s)), s\<lparr>ticks := Suc (ticks s)\<rparr>))"

text \<open>\<open>new Date().toISOString()\<close>\<close>

definition date_iso :: "env \<Rightarrow> ('z world_scheme, string) js" where
  "date_iso E = (\<lambda>s. (Inr (iso_date E (ticks s)), s\<lparr>ticks := Suc (ticks s)\<rparr>))"

definition get_random :: "env \<Rightarrow> nat \<Rightarrow> ('z world_scheme, byte list) js" where
  "get_random E n = (\<lambda>s. (Inr (random_bytes E (draws s) n), s\<lparr>draws := Suc (draws s)\<rparr>))"

definition sign_keyPair :: "env \<Rightarrow> ('z world_scheme, byte list \<times> byte list) js" where
  "sign_keyPair E = (\<lambda>s. (Inr (nacl_keyPair E (draws s)), s\<lparr>draws := Suc (draws s)\<rparr>))"

definition alert :: "string \<Rightarrow> ('z world_scheme, unit) js" where
  "alert msg = jmodify (\<lambda>s. s\<lparr>alerts := alerts s @ [msg]\<rparr>)"

definition js_confirm :: "env \<Rightarrow> ('z world_scheme, bool) js" where
  "js_confirm E = (\<lambda>s. (Inr (confirms E (asked s)), s\<lparr>asked := Suc (asked s)\<rparr>))"

text \<open>A link with a \<open>download\<close> name, clicked on an object URL of the text.\<close>

definition download :: "string \<Rightarrow> string \<Rightarrow> ('z world_scheme, unit) js" where
  "download name content = jmodify (\<lambda>s. s\<lparr>downloads := downloads s @ [(name, content)]\<rparr>)"

lemma platform_run [js_run, simp]:
  "download nm c s = (Inr (), s\<lparr>downloads := downloads s @ [(nm, c)]\<rparr>)"
  "date_now E s = (Inr (now_ms E (ticks s)), s\<lparr>ticks := Suc (ticks s)\<rparr>)"
  "get_random E n s = (Inr (random_bytes E (draws s) n), s\<lparr>draws := Suc (draws s)\<rparr>)"
  "sign_keyPair E s = (Inr (nacl_keyPair E (draws s)), s\<lparr>draws := Suc (draws s)\<rparr>)"
  "alert msg s = (Inr (), s\<lparr>alerts := alerts s @ [msg]\<rparr>)"
  "js_confirm E s = (Inr (confirms E (asked s)), s\<lparr>asked := Suc (asked s)\<rparr>)"
  "date_iso E s = (Inr (iso_date E (ticks s)), s\<lparr>ticks := Suc (ticks s)\<rparr>)"
  by (simp_all add: download_def date_iso_def date_now_def get_random_def sign_keyPair_def alert_def js_confirm_def)

subsection \<open>Network\<close>

definition js_fetch :: "env \<Rightarrow> request \<Rightarrow> ('z world_scheme, nat \<times> string \<times> string) js" where
  "js_fetch E req =
     (\<lambda>s. (case respond E (sent s) req of
             NetFail e \<Rightarrow> Inl e
           | Resp st txt body \<Rightarrow> Inr (st, txt, body),
           s\<lparr>sent := sent s @ [req]\<rparr>))"

text \<open>\<open>response.ok\<close> and \<open>response.json()\<close>\<close>

definition resp_ok :: "nat \<Rightarrow> bool" where
  "resp_ok st \<longleftrightarrow> 200 \<le> st \<and> st \<le> 299"

definition parse_or_throw :: "env \<Rightarrow> string \<Rightarrow> jsval outcome" where
  "parse_or_throw E t =
     (case JSON_parse t of None \<Rightarrow> Inl (JError ''SyntaxError'' (syntax_msg E t)) | Some v \<Rightarrow> Inr v)"

lemma js_fetch_run [js_run]:
  "js_fetch E req s =
     (case respond E (sent s) req of NetFail e \<Rightarrow> Inl e | Resp st txt body \<Rightarrow> Inr (st, txt, body),
      s\<lparr>sent := sent s @ [req]\<rparr>)"
  by (simp add: js_fetch_def)

lemma js_fetch_keeps [keeps_rules]:
  "(\<And>s r. f (s\<lparr>sent := r\<rparr>) = f s) \<Longrightarrow> keeps f (js_fetch E req)"
  by (simp add: keeps_def js_fetch_def)

lemma ls_keeps [keeps_rules]:
  "keeps f (ls_getItem k)"
  "(\<And>s m. f (s\<lparr>localStorage := m\<rparr>) = f s) \<Longrightarrow> keeps f (ls_setItem E k v)"
  "(\<And>s m. f (s\<lparr>localStorage := m\<rparr>) = f s) \<Longrightarrow> keeps f (ls_removeItem k)"
  by (simp_all add: keeps_def ls_setItem_def)

lemma platform_keeps [keeps_rules]:
  "(\<And>s n. f (s\<lparr>ticks := n\<rparr>) = f s) \<Longrightarrow> keeps f (date_now E)"
  "(\<And>s n. f (s\<lparr>ticks := n\<rparr>) = f s) \<Longrightarrow> keeps f (date_iso E)"
  "(\<And>s n. f (s\<lparr>draws := n\<rparr>) = f s) \<Longrightarrow> keeps f (get_random E k)"
  "(\<And>s n. f (s\<lparr>draws := n\<rparr>) = f s) \<Longrightarrow> keeps f (sign_keyPair E)"
  "(\<And>s m. f (s\<lparr>alerts := m\<rparr>) = f s) \<Longrightarrow> keeps f (alert msg)"
  "(\<And>s n. f (s\<lparr>asked := n\<rparr>) = f s) \<Longrightarrow> keeps f (js_confirm E)"
  "(\<And>s m. f (s\<lparr>downloads := m\<rparr>) = f s) \<Longrightarrow> keeps f (download n c)"
  by (simp_all add: keeps_def)

end
