(* ===== verification/HashUtils.thy ===== *)
theory HashUtils
  imports Browser
begin

section \<open>Hashing utilities (\<open>utils/hash.js\<close>)\<close>

text \<open>
  Hexadecimal coding of byte arrays, SHA-256 with its strict input check, random salts,
  the domain commitment and the transaction identifier. \<open>hexToBytes\<close> keeps what the code
  really does on bad input: an odd last digit is dropped, a pair that is no number is the
  byte 0, and a signed pair wraps around.
\<close>

unbundle bit_operations_syntax

subsection \<open>Definitions\<close>

definition bytesToHex :: "byte list \<Rightarrow> string" where
  "bytesToHex bytes = concat (map (\<lambda>b. padStart 2 CHR ''0'' (radix_digits 16 (unat b))) bytes)"

text \<open>Storing a number in a \<open>Uint8Array\<close>: modulo 256, with 0 for \<open>NaN\<close>.\<close>

fun to_uint8 :: "jsnum \<Rightarrow> byte" where
  "to_uint8 (Dec m e) = (if 0 \<le> m then word_of_int (m div 10 ^ e) else - word_of_int (- m div 10 ^ e))"
| "to_uint8 _ = 0"

definition hexToBytes :: "string \<Rightarrow> byte list" where
  "hexToBytes hex =
     map (\<lambda>i. to_uint8 (parseInt 16 (take 2 (drop (i * 2) hex)))) [0 ..< length hex div 2]"

text \<open>
  \<open>hexToBytes\<close> of an arbitrary value: a number, a boolean and an object without
  \<open>length\<close> give no bytes; a longer array or array-like object has no \<open>substr\<close>.
\<close>

fun half_index :: "env \<Rightarrow> jsnum \<Rightarrow> byte list outcome" where
  "half_index E NaN = Inr []"
| "half_index E (Inf _) = Inl (JError ''RangeError'' (type_msg E))"
| "half_index E (Dec m e) =
     (if \<bar>m\<bar> div (2 * 10 ^ e) = 0 then Inr []
      else if m < 0 \<or> m div (2 * 10 ^ e) \<ge> 2 ^ 53 then Inl (JError ''RangeError'' (type_msg E))
      else Inl (TypeError (type_msg E)))"

fun hexToBytes_val :: "env \<Rightarrow> jsval \<Rightarrow> byte list outcome" where
  "hexToBytes_val E (JStr s) = Inr (hexToBytes s)"
| "hexToBytes_val E JUndef = Inl (TypeError (type_msg E))"
| "hexToBytes_val E JNull = Inl (TypeError (type_msg E))"
| "hexToBytes_val E (JArr vs) = (if length vs < 2 then Inr [] else Inl (TypeError (type_msg E)))"
| "hexToBytes_val E (JObj fs) = half_index E (to_num (fields_get fs ''length''))"
| "hexToBytes_val E _ = Inr []"

text \<open>\<open>TextEncoder.encode\<close>: a code unit from 128 to 255 takes two bytes.\<close>

definition utf8_char :: "char \<Rightarrow> byte list" where
  "utf8_char c =
     (let n = of_char c :: nat
      in if n < 128 then [of_nat n] else [of_nat (192 + n div 64), of_nat (128 + n mod 64)])"

definition utf8 :: "string \<Rightarrow> byte list" where
  "utf8 s = concat (map utf8_char s)"

text \<open>What \<open>sha256\<close> is given: a string, a byte array, or something else, by its type.\<close>

datatype hash_input = Text string | Bytes "byte list" | Other string

definition sha256 :: "env \<Rightarrow> hash_input \<Rightarrow> string outcome" where
  "sha256 E input =
     (case input of
        Text s \<Rightarrow> Inr (bytesToHex (digest E (utf8 s)))
      | Bytes bs \<Rightarrow> Inr (bytesToHex (digest E bs))
      | Other ty \<Rightarrow> Inl (TypeError
          (''sha256: Invalid input type. Expected string or Uint8Array, got '' @ ty @
           ''. If you have an object or array, stringify it first using JSON.stringify() or canonicalize().'')))"

text \<open>
  \<open>generateRandomSalt\<close> assigns the undeclared name \<open>length\<close>. In a module that is an
  error unless the global object has the property, as a browser's window does.
\<close>

definition generateRandomSalt :: "env \<Rightarrow> ('z world_scheme, string) js" where
  "generateRandomSalt E =
     jbind (jget window_length) (\<lambda>g. case g of
       None \<Rightarrow> jthrow (JError ''ReferenceError'' ''length is not defined'')
     | Some _ \<Rightarrow>
         jseq (jmodify (\<lambda>s. s\<lparr>window_length := Some 16\<rparr>))
           (jbind (get_random E 16) (\<lambda>bytes. jret (bytesToHex bytes))))"

definition generateHash :: "env \<Rightarrow> string \<Rightarrow> string \<Rightarrow> string outcome" where
  "generateHash E domain salt = sha256 E (Text (''DOMAIN_HASH_v1:'' @ domain @ '':'' @ salt))"

definition generateSalt :: "env \<Rightarrow> ('z world_scheme, string) js" where
  "generateSalt E = generateRandomSalt E"

text \<open>\<open>sha256(canonicalize(v))\<close>; the package may throw, or return \<open>undefined\<close>.\<close>

definition canonical_hash :: "env \<Rightarrow> jsval \<Rightarrow> string outcome" where
  "canonical_hash E v =
     (case canonicalize E v of
        Inl e \<Rightarrow> Inl e
      | Inr None \<Rightarrow> sha256 E (Other ''undefined'')
      | Inr (Some t) \<Rightarrow> sha256 E (Text t))"

definition hashTxData :: "env \<Rightarrow> jsval \<Rightarrow> string outcome" where
  "hashTxData E txData = canonical_hash E txData"

text \<open>\<open>generateTxID\<close> takes an object; a missing \<open>inputs\<close> or \<open>outputs\<close> is the empty list.\<close>

record txid_params =
  p_type :: jsval
  p_from :: jsval
  p_amount :: jsval
  p_payload :: jsval
  p_inputs :: jsval
  p_outputs :: jsval

definition default_to :: "jsval \<Rightarrow> jsval \<Rightarrow> jsval" where
  "default_to v d = (if v = JUndef then d else v)"

definition generateTxID :: "env \<Rightarrow> txid_params \<Rightarrow> string outcome" where
  "generateTxID E params =
     (let txData = JObj
        [(''type'', p_type params),
         (''from'', p_from params),
         (''amount'', p_amount params),
         (''payload'', p_payload params),
         (''inputs'', default_to (p_inputs params) (JArr [])),
         (''outputs'', default_to (p_outputs params) (JArr []))]
      in canonical_hash E txData)"

subsection \<open>Hexadecimal coding\<close>

definition hex_pair :: "byte \<Rightarrow> string" where
  "hex_pair b = [digit_char (unat b div 16), digit_char (unat b mod 16)]"

lemma unat_byte_less: "unat (b::byte) < 256"
  using unsigned_less [of b, where ?'a = nat] by simp

lemma unat_byte_div: "unat (b::byte) div 16 < 16"
  using unat_byte_less [of b] by (simp add: less_mult_imp_div_less)

lemma pad_hex_pair: "padStart 2 CHR ''0'' (radix_digits 16 (unat (b::byte))) = hex_pair b"
proof (cases "unat b < 16")
  case True
  moreover have "digit_char 0 = CHR ''0''" by code_simp
  ultimately show ?thesis by (simp add: radix_digits_small padStart_def hex_pair_def)
next
  case False
  then show ?thesis
    using unat_byte_div [of b]
    by (simp add: radix_digits_big radix_digits_small padStart_def hex_pair_def)
qed

lemma bytesToHex_simps [simp]:
  "bytesToHex [] = []"
  "bytesToHex (b # bs) = hex_pair b @ bytesToHex bs"
  by (simp_all add: bytesToHex_def pad_hex_pair)

lemma length_bytesToHex [simp]: "length (bytesToHex bs) = 2 * length bs"
  by (induction bs) (simp_all add: hex_pair_def)

lemma bytesToHex_hex: "list_all is_hex (bytesToHex bs)"
  by (induction bs) (simp_all add: hex_pair_def unat_byte_div)

lemma bytesToHex_append [simp]: "bytesToHex (as @ bs) = bytesToHex as @ bytesToHex bs"
  by (induction as) simp_all

text \<open>Reading two digits at a time is reading the head pair and then the rest.\<close>

lemma hexToBytes_pair: "hexToBytes (a # b # s) = to_uint8 (parseInt 16 [a, b]) # hexToBytes s"
  by (simp add: hexToBytes_def upt_conv_Cons map_Suc_upt [symmetric] comp_def del: upt_Suc)

lemma hexToBytes_short [simp]: "hexToBytes [] = []" "hexToBytes [c] = []"
  by (simp_all add: hexToBytes_def)

lemma is_hex_digit_val: "is_hex c \<Longrightarrow> \<exists>d<16. digit_val c = Some d"
  by (auto simp: is_hex_def digit_val_def is_digit_def char_between_def)

lemma is_hex_plain: "is_hex c \<Longrightarrow> \<not> is_space c \<and> c \<noteq> CHR ''-'' \<and> c \<noteq> CHR ''+'' \<and> c \<noteq> CHR ''x'' \<and> c \<noteq> CHR ''X''"
  by (auto simp: is_hex_def is_space_def is_digit_def char_between_def)

lemma parseInt_pair:
  assumes "is_hex a" "is_hex b" "digit_val a = Some m" "digit_val b = Some n"
  shows "parseInt 16 [a, b] = Dec (int (16 * m + n)) 0"
proof -
  have "m < 16" "n < 16" using assms is_hex_digit_val by force+
  with assms is_hex_plain [of a] is_hex_plain [of b] show ?thesis
    by (simp add: parseInt_def take_sign_def radix_value_def Let_def)
qed

lemma parseInt_hex_pair: "to_uint8 (parseInt 16 (hex_pair b)) = b"
proof -
  have "parseInt 16 (hex_pair b) = Dec (int (16 * (unat b div 16) + unat b mod 16)) 0"
    unfolding hex_pair_def using unat_byte_div [of b]
    by (intro parseInt_pair) auto
  then show ?thesis by simp
qed

lemma hexToBytes_bytesToHex [simp]: "hexToBytes (bytesToHex bs) = bs"
  by (induction bs) (simp_all add: hex_pair_def hexToBytes_pair parseInt_hex_pair [unfolded hex_pair_def])

interpretation hexcode: codec "\<lambda>bs. Some (bytesToHex bs)" "\<lambda>h. Some (hexToBytes h)" "\<lambda>_. True"
  by unfold_locales auto

lemma bytesToHex_inj: "bytesToHex as = bytesToHex bs \<longleftrightarrow> as = bs"
  using hexcode.enc_inj [of as bs] by auto


subsection \<open>Text encoding\<close>

lemma unat_of_nat_byte: "n < 256 \<Longrightarrow> unat (of_nat n :: byte) = n"
  by (simp add: unat_of_nat take_bit_nat_eq_self)

lemma utf8_char_shape:
  "utf8_char c = [of_nat (of_char c)] \<and> of_char c < (128::nat) \<or>
   utf8_char c = [of_nat (192 + of_char c div 64), of_nat (128 + of_char c mod 64)] \<and> 128 \<le> (of_char c :: nat)"
  by (auto simp: utf8_char_def Let_def)

lemma of_char_eqI: "(of_char c :: nat) = of_char d \<Longrightarrow> c = d"
  by (metis char_of_char)

lemma utf8_char_append: "utf8_char c @ bs = utf8_char d @ cs \<Longrightarrow> c = d \<and> bs = cs"
proof -
  assume eq: "utf8_char c @ bs = utf8_char d @ cs"
  let ?m = "of_char c :: nat" and ?n = "of_char d :: nat"
  have lt: "?m < 256" "?n < 256" by simp_all
  then have q: "?m div 64 < 4" "?n div 64 < 4" by (auto simp: less_mult_imp_div_less)
  then have u: "unat (of_nat (192 + ?m div 64) :: byte) = 192 + ?m div 64"
    "unat (of_nat (192 + ?n div 64) :: byte) = 192 + ?n div 64"
    "unat (of_nat (128 + ?m mod 64) :: byte) = 128 + ?m mod 64"
    "unat (of_nat (128 + ?n mod 64) :: byte) = 128 + ?n mod 64"
    by (intro unat_of_nat_byte, simp)+
  have v: "unat (of_nat ?m :: byte) = ?m" "unat (of_nat ?n :: byte) = ?n"
    using lt by (simp_all add: unat_of_nat_byte)
  have "?m = ?n \<and> bs = cs"
  proof (cases "?m < 128"; cases "?n < 128")
    assume "?m < 128" "?n < 128"
    with eq have "(of_nat ?m :: byte) = of_nat ?n" "bs = cs" by (simp_all add: utf8_char_def Let_def)
    with v show ?thesis by metis
  next
    assume "?m < 128" "\<not> ?n < 128"
    with eq have "(of_nat ?m :: byte) = of_nat (192 + ?n div 64)" by (simp add: utf8_char_def Let_def)
    with v u have "?m = 192 + ?n div 64" by metis
    with \<open>?m < 128\<close> show ?thesis by simp
  next
    assume "\<not> ?m < 128" "?n < 128"
    with eq have "(of_nat (192 + ?m div 64) :: byte) = of_nat ?n" by (simp add: utf8_char_def Let_def)
    with v u have "?n = 192 + ?m div 64" by metis
    with \<open>?n < 128\<close> show ?thesis by simp
  next
    assume "\<not> ?m < 128" "\<not> ?n < 128"
    with eq have "(of_nat (192 + ?m div 64) :: byte) = of_nat (192 + ?n div 64)"
      "(of_nat (128 + ?m mod 64) :: byte) = of_nat (128 + ?n mod 64)" "bs = cs"
      by (simp_all only: utf8_char_def Let_def if_False append_Cons append_Nil list.inject)
    with u have "?m div 64 = ?n div 64" "?m mod 64 = ?n mod 64" "bs = cs" by (metis add_left_cancel)+
    then show ?thesis by (metis div_mult_mod_eq)
  qed
  then show ?thesis by (auto intro: of_char_eqI)
qed

lemma utf8_inj: "utf8 s = utf8 t \<longleftrightarrow> s = t"
proof
  have ne: "utf8_char c \<noteq> []" for c by (simp add: utf8_char_def Let_def)
  show "utf8 s = utf8 t \<Longrightarrow> s = t"
  proof (induction s arbitrary: t)
    case Nil
    then show ?case using ne by (cases t) (auto simp: utf8_def)
  next
    case (Cons c s)
    then obtain d t' where t: "t = d # t'" using ne by (cases t) (auto simp: utf8_def)
    with Cons.prems have "utf8_char c @ utf8 s = utf8_char d @ utf8 t'" by (simp add: utf8_def)
    then have "c = d" "utf8 s = utf8 t'" using utf8_char_append by blast+
    with Cons.IH t show ?case by simp
  qed
qed simp

text \<open>Two different byte strings with the same digest.\<close>

definition digest_collision :: "env \<Rightarrow> bool" where
  "digest_collision E \<longleftrightarrow> (\<exists>x y. x \<noteq> y \<and> digest E x = digest E y)"

lemma sha256_text_eq: "sha256 E (Text s) = sha256 E (Text t) \<Longrightarrow> s = t \<or> digest_collision E"
  by (auto simp: sha256_def bytesToHex_inj digest_collision_def) (metis utf8_inj)

text \<open>The commitment: a colon-free salt makes the hashed text determine domain and salt.\<close>

lemma append_sep_inj:
  assumes "c \<notin> set s" "c \<notin> set t" "d @ c # s = e @ c # t"
  shows "d = e \<and> s = t"
proof -
  have "rev s @ c # rev d = rev t @ c # rev e" using assms(3) by (metis rev_append rev.simps(2) append.assoc append_Cons append_Nil)
  then have "takeWhile (\<lambda>x. x \<noteq> c) (rev s @ c # rev d) = takeWhile (\<lambda>x. x \<noteq> c) (rev t @ c # rev e)" by simp
  moreover have "takeWhile (\<lambda>x. x \<noteq> c) (rev s @ c # rev d) = rev s" "takeWhile (\<lambda>x. x \<noteq> c) (rev t @ c # rev e) = rev t"
    using assms(1,2) by (auto simp: takeWhile_append takeWhile_eq_all_conv)
  ultimately have "s = t" by simp
  with assms(3) show ?thesis by simp
qed

lemma hex_no_colon: "list_all is_hex s \<Longrightarrow> CHR '':'' \<notin> set s"
  by (auto simp: list_all_iff is_hex_def is_digit_def char_between_def)

lemma generateSalt_run:
  "window_length s = Some g \<Longrightarrow> generateSalt E s =
     (Inr (bytesToHex (random_bytes E (draws s) 16)),
      s\<lparr>window_length := Some 16, draws := Suc (draws s)\<rparr>)"
  by (simp add: generateSalt_def generateRandomSalt_def js_run)

end
