(* ===== verification/TransactionService.thy ===== *)
theory TransactionService
  imports HashUtils
begin

section \<open>Transactions (\<open>services/transaction.service.js\<close>)\<close>

text \<open>
  A transaction object is a record of JavaScript values, its fields prefixed by \<open>tx_\<close>;
  \<open>txHash\<close> is the property
  \<open>useTransaction.js\<close> adds before signing, \<open>undefined\<close> until then. The theory builds,
  identifies and validates transactions.
\<close>

record tx =
  tx_type :: jsval
  tx_from :: jsval
  tx_amount :: jsval
  tx_payload :: jsval
  tx_pk :: jsval
  tx_inputs :: jsval
  tx_outputs :: jsval
  tx_id :: jsval
  tx_hash :: jsval

record build_params =
  b_type :: jsval
  b_walletID :: jsval
  b_fee :: jsval
  b_payload :: jsval
  b_pk :: jsval
  b_inputs :: jsval
  b_outputs :: jsval

definition encodePayload :: "jsval \<Rightarrow> jsval" where
  "encodePayload data = (if \<not> truthy data then JObj [] else data)"

definition buildTransaction :: "build_params \<Rightarrow> tx" where
  "buildTransaction params =
     \<lparr>tx_type = b_type params,
      tx_from = b_walletID params,
      tx_amount = b_fee params,
      tx_payload = encodePayload (b_payload params),
      tx_pk = b_pk params,
      tx_inputs = default_to (b_inputs params) (JArr []),
      tx_outputs = default_to (b_outputs params) (JArr []),
      tx_id = JNull,
      tx_hash = JUndef\<rparr>"

definition computeTransactionID :: "env \<Rightarrow> tx \<Rightarrow> tx outcome" where
  "computeTransactionID E tx =
     (case generateTxID E
        \<lparr>p_type = tx_type tx, p_from = tx_from tx, p_amount = tx_amount tx, p_payload = tx_payload tx,
         p_inputs = js_or (tx_inputs tx) (JArr []), p_outputs = js_or (tx_outputs tx) (JArr [])\<rparr> of
        Inl e \<Rightarrow> Inl e
      | Inr txID \<Rightarrow> Inr (tx\<lparr>tx_id := JStr txID\<rparr>))"

definition err_if :: "bool \<Rightarrow> string \<Rightarrow> string list" where
  "err_if b msg = (if b then [msg] else [])"

definition tx_errors :: "tx \<Rightarrow> string list" where
  "tx_errors tx =
     err_if (\<not> truthy (tx_type tx)) ''Transaction type is required'' @
     err_if (\<not> truthy (tx_from tx)) ''Source wallet is required'' @
     err_if (\<not> truthy (tx_amount tx) \<or> js_less_num (tx_amount tx) (Dec 1 0)) ''Fee must be at least 1'' @
     err_if (\<not> truthy (tx_payload tx)) ''Payload is required'' @
     err_if (\<not> truthy (tx_pk tx)) ''Public key is required'' @
     err_if (\<not> isArray (tx_inputs tx)) ''Inputs must be provided'' @
     err_if (\<not> isArray (tx_outputs tx)) ''Outputs must be provided''"

definition validateTransaction :: "tx \<Rightarrow> bool \<times> string list" where
  "validateTransaction tx = (let errors = tx_errors tx in (length errors = 0, errors))"

subsection \<open>Identification\<close>

text \<open>The six fields an identifier and a signature cover.\<close>

definition signed_fields :: "tx \<Rightarrow> jsval" where
  "signed_fields tx = JObj
     [(''type'', tx_type tx), (''from'', tx_from tx), (''amount'', tx_amount tx),
      (''payload'', tx_payload tx), (''inputs'', js_or (tx_inputs tx) (JArr [])),
      (''outputs'', js_or (tx_outputs tx) (JArr []))]"

lemma default_js_or [simp]: "default_to (js_or v (JArr vs)) d = js_or v (JArr vs)"
  by (auto simp: default_to_def js_or_def)

lemma computeTransactionID_eq:
  "computeTransactionID E tx =
     (case canonical_hash E (signed_fields tx) of
        Inl e \<Rightarrow> Inl e | Inr h \<Rightarrow> Inr (tx\<lparr>tx_id := JStr h\<rparr>))"
  by (simp add: computeTransactionID_def generateTxID_def signed_fields_def)

lemma signed_fields_update [simp]:
  "signed_fields (tx\<lparr>tx_id := i\<rparr>) = signed_fields tx"
  "signed_fields (tx\<lparr>tx_hash := h\<rparr>) = signed_fields tx"
  "signed_fields (tx\<lparr>tx_pk := k\<rparr>) = signed_fields tx"
  by (simp_all add: signed_fields_def)

lemma canonical_hash_Inr:
  "canonical_hash E v = Inr h \<longleftrightarrow>
     (\<exists>t. canonicalize E v = Inr (Some t) \<and> h = bytesToHex (digest E (utf8 t)))"
  by (auto simp: canonical_hash_def sha256_def split: sum.split option.split)

text \<open>Equal identifiers mean equal canonical texts, unless the digest collides.\<close>

lemma same_id_same_text:
  assumes "computeTransactionID E t1 = Inr u1" "computeTransactionID E t2 = Inr u2"
    "tx_id u1 = tx_id u2"
  shows "canonicalize E (signed_fields t1) = canonicalize E (signed_fields t2) \<or> digest_collision E"
proof -
  obtain a b where a: "canonicalize E (signed_fields t1) = Inr (Some a)" "tx_id u1 = JStr (bytesToHex (digest E (utf8 a)))"
    and b: "canonicalize E (signed_fields t2) = Inr (Some b)" "tx_id u2 = JStr (bytesToHex (digest E (utf8 b)))"
    using assms(1,2) by (auto simp: computeTransactionID_eq canonical_hash_Inr split: sum.splits)
  with assms(3) have "digest E (utf8 a) = digest E (utf8 b)" by (simp add: bytesToHex_inj)
  then show ?thesis using a b utf8_inj [of a b] by (auto simp: digest_collision_def)
qed

subsection \<open>Validation\<close>

lemma err_if_Nil [simp]: "err_if b m = [] \<longleftrightarrow> \<not> b"
  by (simp add: err_if_def)

lemma tx_errors_Nil:
  "tx_errors tx = [] \<longleftrightarrow>
     truthy (tx_type tx) \<and> truthy (tx_from tx) \<and> truthy (tx_amount tx) \<and>
     \<not> js_less_num (tx_amount tx) (Dec 1 0) \<and> truthy (tx_payload tx) \<and> truthy (tx_pk tx) \<and>
     isArray (tx_inputs tx) \<and> isArray (tx_outputs tx)"
  by (auto simp: tx_errors_def)

lemma tx_errors_update [simp]:
  "tx_errors (tx\<lparr>tx_id := i\<rparr>) = tx_errors tx" "tx_errors (tx\<lparr>tx_hash := h\<rparr>) = tx_errors tx"
  by (simp_all add: tx_errors_def)

end
