(* ===== verification/CryptoService.thy ===== *)
theory CryptoService
  imports TransactionService
begin

section \<open>Cryptography (\<open>services/crypto.service.js\<close>)\<close>

text \<open>
  Commitments and their verification with a comparison whose running time does not depend
  on the data, signatures over the transaction hash, and the hash itself. Signing and
  verifying are \<open>tweetnacl\<close>'s; \<open>nacl_law\<close> is the one law of it the wallet relies on.
\<close>

unbundle bit_operations_syntax

subsection \<open>Comparison\<close>

datatype buf = BStr string | BBytes "byte list"

fun buf_bytes :: "buf \<Rightarrow> byte list" where
  "buf_bytes (BStr s) = utf8 s"
| "buf_bytes (BBytes bs) = bs"

text \<open>\<open>for (...) { diff |= bufA[i] ^ bufB[i]; }\<close> on 32-bit integers.\<close>

fun diff_loop :: "32 word \<Rightarrow> byte list \<Rightarrow> byte list \<Rightarrow> 32 word" where
  "diff_loop diff (a # as) (b # bs) = diff_loop (diff OR (ucast a XOR ucast b)) as bs"
| "diff_loop diff _ _ = diff"

definition timingSafeEqual :: "buf \<Rightarrow> buf \<Rightarrow> bool" where
  "timingSafeEqual a b =
     (let bufA = buf_bytes a; bufB = buf_bytes b
      in if length bufA \<noteq> length bufB
         then (let diff = diff_loop 1 bufA (replicate (length bufA) 0) in False)
         else diff_loop 0 bufA bufB = 0)"

subsection \<open>Commitments\<close>

definition generateSaltedHash :: "env \<Rightarrow> string \<Rightarrow> ('z world_scheme, string \<times> string) js" where
  "generateSaltedHash E domain =
     jbind (generateSalt E) (\<lambda>salt.
     jbind (jlift (generateHash E domain salt)) (\<lambda>hashedDomain.
       jret (hashedDomain, salt)))"

definition hashDomainWithSalt :: "env \<Rightarrow> string \<Rightarrow> string \<Rightarrow> string outcome" where
  "hashDomainWithSalt E domain salt = generateHash E domain salt"

definition verifyDomainHash :: "env \<Rightarrow> string \<Rightarrow> string \<Rightarrow> buf \<Rightarrow> bool outcome" where
  "verifyDomainHash E domain salt hashedDomain =
     (case generateHash E domain salt of
        Inl e \<Rightarrow> Inl e
      | Inr computedHash \<Rightarrow> Inr (timingSafeEqual (BStr computedHash) hashedDomain))"

subsection \<open>Signatures\<close>

definition generateTransactionSignature :: "env \<Rightarrow> string \<Rightarrow> jsval \<Rightarrow> string outcome" where
  "generateTransactionSignature E txHash privateKey =
     (case hexToBytes_val E privateKey of
        Inl e \<Rightarrow> Inl e
      | Inr privateKeyBytes \<Rightarrow>
          (case nacl_detached E (hexToBytes txHash) privateKeyBytes of
             Inl e \<Rightarrow> Inl e
           | Inr signature \<Rightarrow> Inr (bytesToHex signature)))"

definition verifyTransactionSignature :: "env \<Rightarrow> jsval \<Rightarrow> jsval \<Rightarrow> jsval \<Rightarrow> bool" where
  "verifyTransactionSignature E txHash signature publicKey =
     (case hexToBytes_val E publicKey of
        Inl e \<Rightarrow> False
      | Inr publicKeyBytes \<Rightarrow>
     (case hexToBytes_val E txHash of
        Inl e \<Rightarrow> False
      | Inr messageBytes \<Rightarrow>
     (case hexToBytes_val E signature of
        Inl e \<Rightarrow> False
      | Inr signatureBytes \<Rightarrow>
     (case nacl_verify E messageBytes signatureBytes publicKeyBytes of
        Inl e \<Rightarrow> False
      | Inr ok \<Rightarrow> ok))))"

subsection \<open>Transaction hash\<close>

definition hashTransactionData :: "env \<Rightarrow> jsval \<Rightarrow> string outcome" where
  "hashTransactionData E txData = canonical_hash E txData"

definition hashTransaction :: "env \<Rightarrow> tx \<Rightarrow> string outcome" where
  "hashTransaction E tx =
     canonical_hash E (JObj
       [(''type'', tx_type tx),
        (''from'', tx_from tx),
        (''amount'', tx_amount tx),
        (''payload'', tx_payload tx),
        (''inputs'', js_or (tx_inputs tx) (JArr [])),
        (''outputs'', js_or (tx_outputs tx) (JArr []))])"

subsection \<open>The comparison is equality\<close>

lemma or_zero_iff: "(x OR y = (0::32 word)) \<longleftrightarrow> x = 0 \<and> y = 0"
  by (simp add: bit_eq_iff bit_or_iff) blast

lemma xor_ucast_zero: "(ucast (a::byte) XOR ucast b = (0::32 word)) \<longleftrightarrow> a = b"
proof -
  have "(x XOR y = (0::32 word)) \<longleftrightarrow> x = y" for x y by (auto simp: bit_eq_iff bit_xor_iff)
  moreover have lt: "bit c n \<Longrightarrow> n < 8 \<and> n < 32" for c :: byte and n
    using bit_imp_le_length [of c n] by simp
  have "(ucast a = (ucast b :: 32 word)) \<longleftrightarrow> a = b" 
    by (auto simp: bit_eq_iff bit_simps dest: lt)
  ultimately show ?thesis by simp
qed

lemma diff_loop_zero: "length as = length bs \<Longrightarrow> diff_loop d as bs = 0 \<longleftrightarrow> d = 0 \<and> as = bs"
  by (induction d as bs rule: diff_loop.induct) (auto simp: or_zero_iff xor_ucast_zero)

lemma timingSafeEqual_bytes: "timingSafeEqual a b \<longleftrightarrow> buf_bytes a = buf_bytes b"
  by (auto simp: timingSafeEqual_def Let_def diff_loop_zero)

lemma hashTransaction_eq: "hashTransaction E tx = canonical_hash E (signed_fields tx)"
  by (simp add: hashTransaction_def signed_fields_def)

subsection \<open>Signatures of generated keys verify\<close>

text \<open>
  The documented contract of \<open>nacl.sign\<close>: a message can be signed with the secret key of a
  generated pair, and the signature verifies under its public key.
\<close>

definition nacl_law :: "env \<Rightarrow> bool" where
  "nacl_law E \<longleftrightarrow>
     (\<forall>i m. \<exists>sg. nacl_detached E m (fst (nacl_keyPair E i)) = Inr sg \<and>
                nacl_verify E m sg (snd (nacl_keyPair E i)) = Inr True)"

lemma signed_verifies:
  assumes "nacl_law E"
    and "generateTransactionSignature E h (JStr (bytesToHex (fst (nacl_keyPair E i)))) = Inr sg"
  shows "verifyTransactionSignature E (JStr h) (JStr sg) (JStr (bytesToHex (snd (nacl_keyPair E i))))"
proof -
  obtain bs where "nacl_detached E (hexToBytes h) (fst (nacl_keyPair E i)) = Inr bs"
    "nacl_verify E (hexToBytes h) bs (snd (nacl_keyPair E i)) = Inr True"
    using assms(1) unfolding nacl_law_def by blast
  then show ?thesis
    using assms(2) by (auto simp: generateTransactionSignature_def verifyTransactionSignature_def)
qed

end
