(* ===== verification/Storage.thy ===== *)
theory Storage
  imports Browser
begin

section \<open>Local storage (\<open>utils/storage.js\<close>, \<open>utils/domainStorage.js\<close>)\<close>

text \<open>
  \<open>storage.js\<close> keeps JSON values under prefixed keys and swallows every failure;
  \<open>domainStorage.js\<close> keeps, per wallet, the list of domains committed to, and throws.
  The locale \<open>item_store\<close> is the interface of the former, \<open>book_op\<close> the contract every operation of the
  latter keeps: what it does to the list, whatever the text the list is stored as.
\<close>

subsection \<open>\<open>utils/storage.js\<close>\<close>

definition STORAGE_PREFIX :: string where
  "STORAGE_PREFIX = ''peerster_''"

definition WALLET_key :: string where
  "WALLET_key = STORAGE_PREFIX @ ''wallet''"

definition DOMAINS_key :: string where
  "DOMAINS_key = STORAGE_PREFIX @ ''domains''"

definition TRANSACTIONS_key :: string where
  "TRANSACTIONS_key = STORAGE_PREFIX @ ''transactions''"

definition StorageKeys :: "string list" where
  "StorageKeys = [WALLET_key, DOMAINS_key, TRANSACTIONS_key]"

text \<open>A value without JSON text is stored as the string \<open>undefined\<close>.\<close>

definition stored_text :: "jsval \<Rightarrow> string" where
  "stored_text v = (case JSON_stringify v of None \<Rightarrow> ''undefined'' | Some t \<Rightarrow> t)"

definition setItem :: "env \<Rightarrow> string \<Rightarrow> jsval \<Rightarrow> ('z world_scheme, bool) js" where
  "setItem E key value =
     try_catch (jseq (ls_setItem E key (stored_text value)) (jret True)) (\<lambda>error. jret False)"

definition getItem :: "env \<Rightarrow> string \<Rightarrow> jsval \<Rightarrow> ('z world_scheme, jsval) js" where
  "getItem E key defaultValue =
     try_catch
       (jbind (ls_getItem key) (\<lambda>item. case item of
          None \<Rightarrow> jret defaultValue
        | Some t \<Rightarrow> if t = [] then jret defaultValue else jlift (parse_or_throw E t)))
       (\<lambda>error. jret defaultValue)"

definition removeItem :: "string \<Rightarrow> ('z world_scheme, unit) js" where
  "removeItem key = ls_removeItem key"

definition clear_all :: "('z world_scheme, unit) js" where
  "clear_all = jforeach ls_removeItem StorageKeys"

definition saveWalletData :: "env \<Rightarrow> jsval \<Rightarrow> ('z world_scheme, bool) js" where
  "saveWalletData E wallet = setItem E WALLET_key wallet"

definition getWalletData :: "env \<Rightarrow> ('z world_scheme, jsval) js" where
  "getWalletData E = getItem E WALLET_key JNull"

text \<open>\<open>v.push(x)\<close>: the array with \<open>x\<close> at its end; anything else has no \<open>push\<close>.\<close>

definition js_push :: "env \<Rightarrow> jsval \<Rightarrow> jsval \<Rightarrow> jsval outcome" where
  "js_push E v x = (case v of JArr vs \<Rightarrow> Inr (JArr (vs @ [x])) | _ \<Rightarrow> Inl (TypeError (type_msg E)))"

definition saveDomain :: "env \<Rightarrow> jsval \<Rightarrow> ('z world_scheme, bool) js" where
  "saveDomain E domainData =
     jbind (getItem E DOMAINS_key (JArr [])) (\<lambda>domains.
     jbind (jlift (js_push E domains domainData)) (\<lambda>domains'.
       setItem E DOMAINS_key domains'))"

definition getDomains :: "env \<Rightarrow> ('z world_scheme, jsval) js" where
  "getDomains E = getItem E DOMAINS_key (JArr [])"

subsection \<open>\<open>utils/domainStorage.js\<close>\<close>

definition pending_key :: "string \<Rightarrow> string" where
  "pending_key minerID = ''pending_domains_'' @ minerID"

text \<open>\<open>JSON.parse(localStorage.getItem(key) || '[]')\<close>\<close>

definition read_list :: "env \<Rightarrow> string \<Rightarrow> ('z world_scheme, jsval) js" where
  "read_list E key =
     jbind (ls_getItem key) (\<lambda>item.
       jlift (parse_or_throw E (case item of None \<Rightarrow> ''[]'' | Some t \<Rightarrow> if t = [] then ''[]'' else t)))"

definition pending_row :: "string \<Rightarrow> string \<Rightarrow> string \<Rightarrow> string \<Rightarrow> 53 word \<Rightarrow> jsval" where
  "pending_row domain salt commitment txid now = JObj
     [(''domain'', JStr domain),
      (''salt'', JStr salt),
      (''commitment'', JStr commitment),
      (''txid'', JStr txid),
      (''timestamp'', JInt (uint now)),
      (''status'', JStr ''pending'')]"

definition savePendingDomain ::
  "env \<Rightarrow> string \<Rightarrow> string \<Rightarrow> string \<Rightarrow> string \<Rightarrow> string \<Rightarrow> ('z world_scheme, unit) js" where
  "savePendingDomain E minerID domain salt commitment txid =
     (let key = pending_key minerID
      in jbind (read_list E key) (\<lambda>existing.
         if nullish existing then jthrow (TypeError (type_msg E))
         else jbind (date_now E) (\<lambda>now.
         jbind (jlift (js_push E existing (pending_row domain salt commitment txid now))) (\<lambda>existing'.
           ls_setItem E key (json_text existing')))))"

definition getPendingDomains :: "env \<Rightarrow> string \<Rightarrow> ('z world_scheme, jsval) js" where
  "getPendingDomains E minerID = read_list E (pending_key minerID)"

text \<open>\<open>v.map(f)\<close> and \<open>v.filter(f)\<close>; \<open>d.domain\<close> throws on \<open>null\<close>.\<close>

definition arr_map :: "env \<Rightarrow> (jsval \<Rightarrow> jsval outcome) \<Rightarrow> jsval \<Rightarrow> jsval outcome" where
  "arr_map E f v =
     (case v of
        JArr vs \<Rightarrow> (case omap f vs of Inl e \<Rightarrow> Inl e | Inr ws \<Rightarrow> Inr (JArr ws))
      | _ \<Rightarrow> Inl (TypeError (type_msg E)))"

definition arr_filter :: "env \<Rightarrow> (jsval \<Rightarrow> bool outcome) \<Rightarrow> jsval \<Rightarrow> jsval outcome" where
  "arr_filter E f v =
     (case v of
        JArr vs \<Rightarrow> (case ofilter f vs of Inl e \<Rightarrow> Inl e | Inr ws \<Rightarrow> Inr (JArr ws))
      | _ \<Rightarrow> Inl (TypeError (type_msg E)))"

definition has_domain :: "env \<Rightarrow> jsval \<Rightarrow> jsval \<Rightarrow> bool outcome" where
  "has_domain E domain d =
     (case js_prop (type_msg E) d ''domain'' of
        Inl e \<Rightarrow> Inl e | Inr x \<Rightarrow> Inr (strict_eq x domain))"

text \<open>\<open>d.domain === domain ? {...d, k1: v1, ...} : d\<close>\<close>

definition with_fields :: "env \<Rightarrow> jsval \<Rightarrow> (string \<times> jsval) list \<Rightarrow> jsval \<Rightarrow> jsval outcome" where
  "with_fields E domain upd d =
     (case has_domain E domain d of
        Inl e \<Rightarrow> Inl e
      | Inr b \<Rightarrow> Inr (if b then JObj (fold (\<lambda>(k, v). fields_put k v) upd (spread d)) else d))"

definition updateDomainStatus ::
  "env \<Rightarrow> string \<Rightarrow> jsval \<Rightarrow> string \<Rightarrow> ('z world_scheme, unit) js" where
  "updateDomainStatus E minerID domain status =
     (let key = pending_key minerID
      in jbind (read_list E key) (\<lambda>existing.
         jbind (jlift (arr_map E (with_fields E domain [(''status'', JStr status)]) existing)) (\<lambda>updated.
           ls_setItem E key (json_text updated))))"

definition removePendingDomain :: "env \<Rightarrow> string \<Rightarrow> jsval \<Rightarrow> ('z world_scheme, unit) js" where
  "removePendingDomain E minerID domain =
     (let key = pending_key minerID
      in jbind (read_list E key) (\<lambda>existing.
         jbind (jlift (arr_filter E (\<lambda>d. map_sum id Not (has_domain E domain d)) existing)) (\<lambda>filtered.
           ls_setItem E key (json_text filtered))))"

definition clearAllPendingDomains :: "string \<Rightarrow> ('z world_scheme, unit) js" where
  "clearAllPendingDomains minerID = ls_removeItem (pending_key minerID)"


subsection \<open>The item store\<close>

text \<open>
  What a client of \<open>storage.js\<close> relies on: a write reports whether it took effect, a
  write that took effect is what the next read returns, and writes to other keys do not
  matter.
\<close>

locale item_store =
  fixes put :: "string \<Rightarrow> jsval \<Rightarrow> ('s, bool) js"
    and get :: "string \<Rightarrow> jsval \<Rightarrow> ('s, jsval) js"
    and good :: "jsval \<Rightarrow> bool"
  assumes put_total: "\<exists>b. fst (put k v s) = Inr b"
    and put_fail: "put k v s = (Inr False, t) \<Longrightarrow> t = s"
    and put_get: "good v \<Longrightarrow> put k v s = (Inr True, t) \<Longrightarrow> get k d t = (Inr v, t)"
    and put_other: "k \<noteq> k' \<Longrightarrow> fst (get k' d (snd (put k v s))) = fst (get k' d s)"
    and get_pure: "snd (get k d s) = s"
begin

text \<open>A stored value outlives any writes under other keys.\<close>

fun puts :: "(string \<times> jsval) list \<Rightarrow> 's \<Rightarrow> 's" where
  "puts [] s = s"
| "puts ((k, v) # kvs) s = puts kvs (snd (put k v s))"

lemma puts_other: "k \<notin> set (map fst kvs) \<Longrightarrow> fst (get k d (puts kvs s)) = fst (get k d s)"
  by (induction kvs s rule: puts.induct) (auto simp: put_other)

lemma get_after_puts:
  assumes "good v" "put k v s = (Inr True, t)" "k \<notin> set (map fst kvs)"
  shows "get k d (puts kvs t) = (Inr v, puts kvs t)"
proof -
  have "fst (get k d (puts kvs t)) = Inr v"
    using assms put_get puts_other by simp
  then show ?thesis using get_pure [of k d "puts kvs t"] by (metis prod.collapse)
qed

lemma put_outcome: "put k v s = (Inr True, snd (put k v s)) \<or> put k v s = (Inr False, s)"
  using put_total [of k v s] put_fail [of k v s "snd (put k v s)"] by (metis (full_types) prod.collapse)

end

lemma json_text_nonempty [simp]: "json_ok v \<Longrightarrow> json_text v \<noteq> []"
  using json_text_starts [of v] by (auto simp: starts_def)

lemma stored_text_ok [simp]: "json_ok v \<Longrightarrow> stored_text v = json_text v"
  by (simp add: stored_text_def JSON_stringify_ok)

lemma parse_or_throw_text [simp]: "json_ok v \<Longrightarrow> parse_or_throw E (json_text v) = Inr v"
  by (simp add: parse_or_throw_def JSON_parse_text)

lemma setItem_run [js_run]:
  "setItem E k v s =
     (if quota_ok E (localStorage s) k (stored_text v)
      then (Inr True, s\<lparr>localStorage := (localStorage s)(k \<mapsto> stored_text v)\<rparr>) else (Inr False, s))"
  by (simp add: setItem_def try_catch_run jseq_run ls_setItem_run)

lemma getItem_run [js_run]:
  "getItem E k d s =
     (Inr (case localStorage s k of
             None \<Rightarrow> d
           | Some t \<Rightarrow> if t = [] then d else (case JSON_parse t of None \<Rightarrow> d | Some v \<Rightarrow> v)), s)"
  by (simp add: getItem_def js_run parse_or_throw_def split: option.split)

interpretation items: item_store "setItem E" "getItem E" json_ok for E
  by unfold_locales (auto simp: setItem_run getItem_run JSON_parse_text split: if_split_asm)

subsection \<open>The book of pending domains\<close>

text \<open>
  \<open>rows s m\<close> is the list stored for wallet \<open>m\<close>; \<open>books_good s\<close> says that every wallet's
  entry, where there is one, is the text of a list of objects.
\<close>

definition list_text :: "string option \<Rightarrow> string" where
  "list_text item = (case item of None \<Rightarrow> ''[]'' | Some t \<Rightarrow> if t = [] then ''[]'' else t)"

definition book :: "(string \<rightharpoonup> string) \<Rightarrow> string \<Rightarrow> jsval list option" where
  "book ls m =
     (case JSON_parse (list_text (ls (pending_key m))) of Some (JArr vs) \<Rightarrow> Some vs | _ \<Rightarrow> None)"

fun row_ok :: "jsval \<Rightarrow> bool" where
  "row_ok (JObj fs) = json_ok (JObj fs)"
| "row_ok _ = False"

definition book_ok :: "(string \<rightharpoonup> string) \<Rightarrow> string \<Rightarrow> bool" where
  "book_ok ls m \<longleftrightarrow> (case book ls m of None \<Rightarrow> False | Some vs \<Rightarrow> list_all row_ok vs)"

definition books_good :: "'z world_scheme \<Rightarrow> bool" where
  "books_good s \<longleftrightarrow> (\<forall>m. book_ok (localStorage s) m)"

definition rows :: "'z world_scheme \<Rightarrow> string \<Rightarrow> jsval list" where
  "rows s m = (case book (localStorage s) m of None \<Rightarrow> [] | Some vs \<Rightarrow> vs)"

lemma pending_key_inj [simp]: "pending_key m = pending_key m' \<longleftrightarrow> m = m'"
  by (simp add: pending_key_def)

lemma pending_key_not_storage [simp]: "pending_key m \<noteq> STORAGE_PREFIX @ k"
  by (simp add: pending_key_def STORAGE_PREFIX_def)

lemma row_ok_json: "row_ok v \<Longrightarrow> json_ok v"
  by (cases v) auto

lemma rows_ok_json: "list_all row_ok vs \<Longrightarrow> json_ok (JArr vs)"
  by (auto simp: list_all_iff row_ok_json)

lemma book_update:
  "list_all row_ok vs \<Longrightarrow> book (ls(pending_key m \<mapsto> json_text (JArr vs))) m = Some vs"
  using JSON_parse_text [OF rows_ok_json, of vs] json_text_nonempty [OF rows_ok_json, of vs]
  by (simp add: book_def list_text_def del: json_text.simps)

lemma book_frame: "k \<noteq> pending_key m \<Longrightarrow> book (ls(k := v)) m = book ls m"
  by (simp add: book_def)

lemma book_empty: "ls (pending_key m) = None \<Longrightarrow> book ls m = Some []"
proof -
  assume none: "ls (pending_key m) = None"
  have "JSON_parse (json_text (JArr [])) = Some (JArr [])" by (rule JSON_parse_text) simp
  with none show ?thesis by (simp add: book_def list_text_def)
qed

lemma books_good_frame: "localStorage t = localStorage s \<Longrightarrow> books_good t = books_good s"
  by (simp add: books_good_def)

lemma rows_frame: "localStorage t = localStorage s \<Longrightarrow> rows t m = rows s m"
  by (simp add: rows_def)

lemma books_good_rows: "books_good s \<Longrightarrow> list_all row_ok (rows s m)"
  by (auto simp: books_good_def book_ok_def rows_def dest!: spec [of _ m] split: option.splits)

lemma read_list_rows:
  assumes "books_good s"
  shows "read_list E (pending_key m) s = (Inr (JArr (rows s m)), s)"
proof -
  obtain vs where vs: "book (localStorage s) m = Some vs"
    using assms by (auto simp: books_good_def book_ok_def dest!: spec [of _ m] split: option.splits)
  then show ?thesis
    by (auto simp: read_list_def rows_def book_def list_text_def parse_or_throw_def js_run
        split: option.splits jsval.splits)
qed

definition with_rows :: "string \<Rightarrow> jsval list \<Rightarrow> 'z world_scheme \<Rightarrow> 'z world_scheme" where
  "with_rows m vs s = s\<lparr>localStorage := (localStorage s)(pending_key m \<mapsto> json_text (JArr vs))\<rparr>"

lemma with_rows:
  assumes "books_good s" "list_all row_ok vs"
  shows "books_good (with_rows m vs s)" "rows (with_rows m vs s) m = vs"
    "m' \<noteq> m \<Longrightarrow> rows (with_rows m vs s) m' = rows s m'"
proof -
  have book: "book (localStorage (with_rows m vs s)) n = (if n = m then Some vs else book (localStorage s) n)" for n
    using book_update [OF assms(2)] by (simp add: with_rows_def book_frame del: json_text.simps)
  show "books_good (with_rows m vs s)" using assms book by (simp add: books_good_def book_ok_def)
  show "rows (with_rows m vs s) m = vs" "m' \<noteq> m \<Longrightarrow> rows (with_rows m vs s) m' = rows s m'"
    by (simp_all add: rows_def book)
qed

text \<open>
  The contract the operations of the book share: the operation either takes effect, and
  then the wallet's list is \<open>f\<close> of what it was, or throws, and then it is what it was;
  other wallets' lists stay, and so does the well-formedness of the store.
\<close>

locale book_op =
  fixes op :: "('z world_scheme, unit) js" and m :: string
    and f :: "'z world_scheme \<Rightarrow> jsval list \<Rightarrow> jsval list"
  assumes op_ok: "books_good s \<Longrightarrow> op s = (Inr (), t) \<Longrightarrow> books_good t \<and> rows t m = f s (rows s m)"
    and op_fail: "books_good s \<Longrightarrow> op s = (Inl e, t) \<Longrightarrow> books_good t \<and> rows t m = rows s m"
    and op_other: "books_good s \<Longrightarrow> m' \<noteq> m \<Longrightarrow> rows (snd (op s)) m' = rows s m'"
begin

lemma op_upholds_good: "upholds books_good op"
proof (rule upholdsI)
  fix s :: "'z world_scheme"
  assume "books_good s"
  moreover obtain r t where "op s = (r, t)" by (cases "op s")
  ultimately show "books_good (snd (op s))"
    using op_ok [of s t] op_fail [of s _ t] by (cases r) auto
qed

lemma op_atomic:
  "books_good s \<Longrightarrow>
     rows (snd (op s)) m = (case fst (op s) of Inr _ \<Rightarrow> f s (rows s m) | Inl _ \<Rightarrow> rows s m)"
  using op_ok [of s "snd (op s)"] op_fail [of s _ "snd (op s)"] by (cases "op s"; cases "fst (op s)") auto

end

text \<open>An operation that keeps a property of the rows keeps it for every wallet.\<close>

locale book_op_rows = book_op op m f
  for op :: "('z world_scheme, unit) js" and m and f +
  fixes P :: "jsval \<Rightarrow> bool"
  assumes f_rows: "list_all P vs \<Longrightarrow> list_all P (f s vs)"
begin

lemma op_upholds_rows: "upholds (\<lambda>s. books_good s \<and> (\<forall>n. list_all P (rows s n))) op"
proof (rule upholdsI, intro conjI allI)
  fix s :: "'z world_scheme" and n
  assume s: "books_good s \<and> (\<forall>n. list_all P (rows s n))"
  then show "books_good (snd (op s))" using upholdsD [OF op_upholds_good] by blast
  show "list_all P (rows (snd (op s)) n)"
    using s op_other [of s n] op_atomic [of s] f_rows by (cases "n = m") (auto split: sum.split)
qed

end

lemma rewrite_rows:
  assumes "books_good s" "g (JArr (rows s m)) = Inr (JArr vs)"
  shows "jbind (read_list E (pending_key m)) (\<lambda>x. jbind (jlift (g x)) (\<lambda>y. ls_setItem E (pending_key m) (json_text y))) s =
    (if quota_ok E (localStorage s) (pending_key m) (json_text (JArr vs))
     then (Inr (), with_rows m vs s) else (Inl (quota_error E), s))"
  using assms
  by (simp add: jbind_run read_list_rows ls_setItem_run with_rows_def del: json_text.simps)

lemma book_op_rewrite:
  assumes "\<And>vs. list_all row_ok vs \<Longrightarrow> g (JArr vs) = Inr (JArr (f vs))"
    and "\<And>vs. list_all row_ok vs \<Longrightarrow> list_all row_ok (f vs)"
  shows "book_op (jbind (read_list E (pending_key m)) (\<lambda>x. jbind (jlift (g x))
           (\<lambda>y. ls_setItem E (pending_key m) (json_text y)))) m (\<lambda>_. f)"
proof -
  let ?op = "jbind (read_list E (pending_key m)) (\<lambda>x. jbind (jlift (g x))
           (\<lambda>y. ls_setItem E (pending_key m) (json_text y)))"
  have run: "?op s = (if quota_ok E (localStorage s) (pending_key m) (json_text (JArr (f (rows s m))))
      then (Inr (), with_rows m (f (rows s m)) s) else (Inl (quota_error E), s))"
    if "books_good s" for s
    by (rule rewrite_rows [where g = g, OF that assms(1) [OF books_good_rows [OF that]]])
  show ?thesis
    by unfold_locales
       (auto simp: run books_good_rows assms(2) with_rows split: if_split_asm)
qed

subsubsection \<open>The operations keep the contract\<close>

lemma num_plain_uint: "num_plain (Dec (uint (w::53 word)) 0)"
proof -
  let ?n = "nat (uint w)"
  have "uint w < 10 ^ 21" using uint_lt2p [of w] by simp
  then have "?n < 10 ^ 21" by (subst nat_less_iff) (simp_all del: nat_uint_eq)
  have "length (radix_digits 10 n) \<le> k" if "n < 10 ^ k" "0 < k" for n k :: nat
    using that
  proof (induction k arbitrary: n)
    case (Suc k)
    show ?case
    proof (cases "n < 10")
      case True
      then show ?thesis by (simp add: radix_digits_small)
    next
      case False
      have "n div 10 < 10 ^ k" using Suc.prems by (simp add: div_less_iff_less_mult)
      moreover have "0 < k" using Suc.prems False by (cases k) auto
      ultimately show ?thesis using Suc.IH [of "n div 10"] False by (simp add: radix_digits_big)
    qed
  qed simp
  from this [OF \<open>?n < 10 ^ 21\<close>] show ?thesis
    using length_greater_0_conv [of "radix_digits 10 ?n"]
    by (simp add: Let_def del: length_greater_0_conv)
qed

lemma row_ok_pending: "row_ok (pending_row d sa c t now)"
  using num_plain_uint [of now] by (simp add: pending_row_def del: num_plain.simps)

lemma fields_put_ok:
  "json_ok (JObj fs) \<Longrightarrow> json_ok v \<Longrightarrow> json_ok (JObj (fields_put k v fs))"
proof -
  have "list_all (\<lambda>(k, v). json_ok v) fs \<Longrightarrow> json_ok v \<Longrightarrow> list_all (\<lambda>(k, v). json_ok v) (fields_put k v fs)"
    by (induction k v fs rule: fields_put.induct) auto
  then show "json_ok (JObj fs) \<Longrightarrow> json_ok v \<Longrightarrow> json_ok (JObj (fields_put k v fs))"
    by (simp add: fields_put_distinct)
qed

lemma fields_puts_ok:
  "json_ok (JObj fs) \<Longrightarrow> list_all (\<lambda>(k, v). json_ok v) upd \<Longrightarrow>
     json_ok (JObj (fold (\<lambda>(k, v). fields_put k v) upd fs))"
  by (induction upd arbitrary: fs) (auto simp: fields_put_ok simp del: json_ok.simps)

text \<open>The rows as the operations see them: which domain, and the row with fields replaced.\<close>

definition row_is :: "jsval \<Rightarrow> jsval \<Rightarrow> bool" where
  "row_is domain d = strict_eq (opt_prop d ''domain'') domain"

definition put_fields :: "(string \<times> jsval) list \<Rightarrow> jsval \<Rightarrow> jsval" where
  "put_fields upd d = JObj (fold (\<lambda>(k, v). fields_put k v) upd (spread d))"

definition update_rows :: "jsval \<Rightarrow> (string \<times> jsval) list \<Rightarrow> jsval list \<Rightarrow> jsval list" where
  "update_rows domain upd vs = map (\<lambda>d. if row_is domain d then put_fields upd d else d) vs"

lemma row_ok_put_fields: "row_ok d \<Longrightarrow> list_all (\<lambda>(k, v). json_ok v) upd \<Longrightarrow> row_ok (put_fields upd d)"
  by (cases d) (auto simp: put_fields_def fields_puts_ok simp del: json_ok.simps)

lemma row_ok_update_rows:
  "list_all row_ok vs \<Longrightarrow> list_all (\<lambda>(k, v). json_ok v) upd \<Longrightarrow> list_all row_ok (update_rows domain upd vs)"
  by (auto simp: update_rows_def list_all_iff row_ok_put_fields)

lemma has_domain_row: "row_ok d \<Longrightarrow> has_domain E domain d = Inr (row_is domain d)"
  by (cases d) (auto simp: has_domain_def js_prop_def row_is_def)

lemma arr_map_rows:
  "list_all row_ok vs \<Longrightarrow> arr_map E (with_fields E domain upd) (JArr vs) = Inr (JArr (update_rows domain upd vs))"
  using omap_total [of vs "with_fields E domain upd" "\<lambda>d. if row_is domain d then put_fields upd d else d"]
  by (auto simp: arr_map_def update_rows_def with_fields_def put_fields_def list_all_iff has_domain_row)

lemma arr_filter_rows:
  "list_all row_ok vs \<Longrightarrow>
     arr_filter E (\<lambda>d. map_sum id Not (has_domain E domain d)) (JArr vs) =
     Inr (JArr (filter (\<lambda>d. \<not> row_is domain d) vs))"
  using ofilter_total [of vs "\<lambda>d. map_sum id Not (has_domain E domain d)" "\<lambda>d. \<not> row_is domain d"]
  by (auto simp: arr_filter_def list_all_iff has_domain_row)

lemma ticks_frame [simp]:
  "books_good (s\<lparr>ticks := n\<rparr>) = books_good s" "rows (s\<lparr>ticks := n\<rparr>) m = rows s m"
  by (simp_all add: books_good_def rows_def)

lemma savePendingDomain_run:
  assumes "books_good s"
  shows "savePendingDomain E m d sa c t s =
    (let vs = rows s m @ [pending_row d sa c t (now_ms E (ticks s))]
     in if quota_ok E (localStorage s) (pending_key m) (json_text (JArr vs))
        then (Inr (), with_rows m vs (s\<lparr>ticks := Suc (ticks s)\<rparr>))
        else (Inl (quota_error E), s\<lparr>ticks := Suc (ticks s)\<rparr>))"
  using assms
  by (simp add: savePendingDomain_def jbind_run read_list_rows js_push_def ls_setItem_run with_rows_def Let_def
      del: json_text.simps)

interpretation save_pending: book_op "savePendingDomain E m d sa c t" m
  "\<lambda>s vs. vs @ [pending_row d sa c t (now_ms E (ticks s))]" for E m d sa c t
  by unfold_locales
     (auto simp: savePendingDomain_run Let_def books_good_rows row_ok_pending ticks_frame with_rows
        split: if_split_asm)

interpretation update_status: book_op "updateDomainStatus E m domain st" m
  "\<lambda>_. update_rows domain [(''status'', JStr st)]" for E m domain st
  unfolding updateDomainStatus_def Let_def
  by (rule book_op_rewrite) (simp_all add: arr_map_rows row_ok_update_rows)

interpretation remove_pending: book_op "removePendingDomain E m domain" m
  "\<lambda>_. filter (\<lambda>d. \<not> row_is domain d)" for E m domain
  unfolding removePendingDomain_def Let_def
  by (rule book_op_rewrite) (simp_all add: arr_filter_rows, simp add: list_all_iff)

interpretation clear_pending: book_op "clearAllPendingDomains m" m "\<lambda>_ _. []" for m
proof unfold_locales
  fix s t :: "'z world_scheme" and m' e
  let ?ls = "(localStorage s)(pending_key m := None)"
  have book: "book ?ls n = (if n = m then Some [] else book (localStorage s) n)" for n
    by (simp add: book_empty book_frame)
  show "books_good s \<Longrightarrow> clearAllPendingDomains m s = (Inr (), t) \<Longrightarrow> books_good t \<and> rows t m = []"
    by (auto simp: clearAllPendingDomains_def books_good_def book_ok_def rows_def book)
  show "m' \<noteq> m \<Longrightarrow> rows (snd (clearAllPendingDomains m s)) m' = rows s m'"
    by (simp add: clearAllPendingDomains_def rows_def book)
qed (simp add: clearAllPendingDomains_def)

text \<open>Every stored row is pending or revealed, whatever the operations that ran.\<close>

definition row_status_ok :: "jsval \<Rightarrow> bool" where
  "row_status_ok d \<longleftrightarrow> opt_prop d ''status'' \<in> {JStr ''pending'', JStr ''revealed''}"

lemma fields_get_puts:
  "fields_get fs k \<in> A \<Longrightarrow> list_all (\<lambda>(j, v). j = k \<longrightarrow> v \<in> A) upd \<Longrightarrow>
     fields_get (fold (\<lambda>(k, v). fields_put k v) upd fs) k \<in> A"
  by (induction upd arbitrary: fs) (auto simp: fields_get_put)

lemma row_status_update:
  assumes "list_all row_status_ok vs"
    and "list_all (\<lambda>(k, v). k = ''status'' \<longrightarrow> v \<in> {JStr ''pending'', JStr ''revealed''}) upd"
  shows "list_all row_status_ok (update_rows domain upd vs)"
proof -
  have "row_status_ok d \<Longrightarrow> row_status_ok (put_fields upd d)" for d
    using fields_get_puts [OF _ assms(2)]
    by (cases d) (auto simp: row_status_ok_def put_fields_def simp del: insert_iff)
  then show ?thesis using assms(1) by (auto simp: update_rows_def list_all_iff)
qed

lemma row_status_pending: "row_status_ok (pending_row d sa c t now)"
  by (simp add: row_status_ok_def pending_row_def)

interpretation save_pending_rows: book_op_rows "savePendingDomain E m d sa c t" m
  "\<lambda>s vs. vs @ [pending_row d sa c t (now_ms E (ticks s))]" row_status_ok for E m d sa c t
  by unfold_locales (simp add: row_status_pending)

interpretation reveal_rows: book_op_rows "updateDomainStatus E m domain ''revealed''" m
  "\<lambda>_. update_rows domain [(''status'', JStr ''revealed'')]" row_status_ok for E m domain
  by unfold_locales (simp add: row_status_update)

interpretation remove_pending_rows: book_op_rows "removePendingDomain E m domain" m
  "\<lambda>_. filter (\<lambda>d. \<not> row_is domain d)" row_status_ok for E m domain
  by unfold_locales (simp add: list_all_iff)

interpretation clear_pending_rows: book_op_rows "clearAllPendingDomains m" m "\<lambda>_ _. []" row_status_ok for m
  by unfold_locales simp

end
