(* ===== verification/WalletService.thy ===== *)
theory WalletService
  imports CryptoService Storage
begin

section \<open>Wallets (\<open>services/wallet.service.js\<close>)\<close>

text \<open>
  Key generation, the wallet identifier, persistence, and export to and import from a
  file. A file is what reading it gives: its text, or a failure event.
\<close>

datatype js_file = FileText string | FileUnreadable

definition generateKeyPair :: "env \<Rightarrow> ('z world_scheme, jsval \<times> jsval) js" where
  "generateKeyPair E =
     jbind (sign_keyPair E) (\<lambda>(secretKey, publicKey).
       jret (JStr (bytesToHex secretKey), JStr (bytesToHex publicKey)))"

definition deriveWalletID :: "env \<Rightarrow> jsval \<Rightarrow> string option outcome" where
  "deriveWalletID E publicKey =
     (if \<not> truthy publicKey then Inr None
      else (case hexToBytes_val E publicKey of
              Inl e \<Rightarrow> Inl e
            | Inr publicKeyBytes \<Rightarrow> map_sum id Some (sha256 E (Bytes publicKeyBytes))))"

definition saveWallet :: "env \<Rightarrow> jsval \<Rightarrow> jsval \<Rightarrow> ('z world_scheme, bool) js" where
  "saveWallet E publicKey privateKey =
     jbind (date_iso E) (\<lambda>createdAt.
       saveWalletData E (JObj
         [(''publicKey'', publicKey), (''privateKey'', privateKey), (''createdAt'', JStr createdAt)]))"

definition loadWallet_data :: "env \<Rightarrow> ('z world_scheme, jsval) js" where
  "loadWallet_data E = getWalletData E"

definition exportWalletToFile :: "env \<Rightarrow> jsval \<Rightarrow> ('z world_scheme, unit) js" where
  "exportWalletToFile E wallet =
     (let dataStr = json_pretty [] wallet
      in jbind (date_now E) (\<lambda>now.
           download (''peerster-wallet-'' @ num_to_string (Dec (uint now) 0) @ ''.json'') dataStr))"

definition importWalletFromFile :: "env \<Rightarrow> js_file \<Rightarrow> jsval outcome" where
  "importWalletFromFile E file =
     (case file of
        FileUnreadable \<Rightarrow> Inl (JThrown ''[object ProgressEvent]'')
      | FileText result \<Rightarrow>
     (case parse_or_throw E result of
        Inl error \<Rightarrow> Inl error
      | Inr wallet \<Rightarrow>
     (case js_prop (type_msg E) wallet ''publicKey'' of
        Inl error \<Rightarrow> Inl error
      | Inr pub \<Rightarrow>
          if \<not> truthy pub \<or> \<not> truthy (opt_prop wallet ''privateKey'')
          then Inl (Error ''Invalid wallet file'')
          else Inr wallet)))"

subsection \<open>Runs\<close>

lemma generateKeyPair_run [js_run]:
  "generateKeyPair E s =
     (Inr (JStr (bytesToHex (fst (nacl_keyPair E (draws s)))), JStr (bytesToHex (snd (nacl_keyPair E (draws s))))),
      s\<lparr>draws := Suc (draws s)\<rparr>)"
  by (simp add: generateKeyPair_def jbind_run split: prod.split)

lemma saveWallet_run [js_run]:
  "saveWallet E pub priv s =
     (let t = stored_text (JObj [(''publicKey'', pub), (''privateKey'', priv), (''createdAt'', JStr (iso_date E (ticks s)))]);
          s1 = s\<lparr>ticks := Suc (ticks s)\<rparr>
      in if quota_ok E (localStorage s) WALLET_key t
         then (Inr True, s1\<lparr>localStorage := (localStorage s)(WALLET_key \<mapsto> t)\<rparr>) else (Inr False, s1))"
  by (simp add: saveWallet_def saveWalletData_def jbind_run setItem_run Let_def)

lemma deriveWalletID_hex:
  assumes "bs \<noteq> []"
  shows "deriveWalletID E (JStr (bytesToHex bs)) = Inr (Some (bytesToHex (digest E bs)))"
proof -
  have "bytesToHex bs \<noteq> []" using assms length_bytesToHex [of bs] by fastforce
  then show ?thesis by (simp add: deriveWalletID_def sha256_def)
qed

lemma deriveWalletID_null [simp]: "deriveWalletID E JNull = Inr None"
  by (simp add: deriveWalletID_def)

lemma saveWallet_keeps [keeps_rules]:
  "(\<And>s n. f (s\<lparr>ticks := n\<rparr>) = f s) \<Longrightarrow> (\<And>s m. f (s\<lparr>localStorage := m\<rparr>) = f s) \<Longrightarrow>
     keeps f (saveWallet E pub priv)"
  by (simp add: keeps_def saveWallet_run Let_def)

text \<open>The files the wallet accepts, and why it refuses the others.\<close>

lemma importWalletFromFile_Inr:
  "importWalletFromFile E f = Inr w \<longleftrightarrow>
     (\<exists>t. f = FileText t \<and> JSON_parse t = Some w \<and>
          truthy (opt_prop w ''publicKey'') \<and> truthy (opt_prop w ''privateKey''))"
  by (cases f)
     (auto simp: importWalletFromFile_def parse_or_throw_def js_prop_def split: option.split)

end
