(* ===== verification/UseWallet.thy ===== *)
theory UseWallet
  imports WalletService
begin

section \<open>The wallet of the page (\<open>composables/useWallet.js\<close>)\<close>

text \<open>
  The module holds one reactive object \<open>wallet\<close> that every view shares: its state
  extends \<open>world\<close> by it. The identifier is \<open>null\<close> or the hash of the public key;
  \<open>wallet_coherent\<close> says so, and every operation preserves it.
\<close>

record wallet_obj =
  publicKey :: jsval
  privateKey :: jsval
  wallet_id :: "string option"

record wallet_world = world +
  wallet :: wallet_obj

definition no_wallet :: wallet_obj where
  "no_wallet = \<lparr>publicKey = JNull, privateKey = JNull, wallet_id = None\<rparr>"

definition walletID :: "'z wallet_world_scheme \<Rightarrow> string option" where
  "walletID s = (case wallet_id (wallet s) of Some i \<Rightarrow> if i = [] then None else Some i | None \<Rightarrow> None)"

definition isWalletLoaded :: "'z wallet_world_scheme \<Rightarrow> bool" where
  "isWalletLoaded s \<longleftrightarrow> publicKey (wallet s) \<noteq> JNull"

definition set_wallet :: "jsval \<Rightarrow> jsval \<Rightarrow> string option \<Rightarrow> ('z wallet_world_scheme, unit) js" where
  "set_wallet pub priv i =
     jmodify (\<lambda>s. s\<lparr>wallet := \<lparr>publicKey = pub, privateKey = priv, wallet_id = i\<rparr>\<rparr>)"

definition createWallet :: "env \<Rightarrow> ('z wallet_world_scheme, wallet_obj) js" where
  "createWallet E =
     try_catch
       (jbind (generateKeyPair E) (\<lambda>(priv, pub).
        jbind (jlift (deriveWalletID E pub)) (\<lambda>i.
        jseq (set_wallet pub priv i)
        (jseq (saveWallet E pub priv)
        (jget wallet)))))
       jthrow"

definition loadWallet :: "env \<Rightarrow> ('z wallet_world_scheme, bool) js" where
  "loadWallet E =
     try_catch
       (jbind (loadWallet_data E) (\<lambda>savedWallet.
        if truthy savedWallet
        then jbind (jlift (deriveWalletID E (opt_prop savedWallet ''publicKey''))) (\<lambda>i.
             jseq (set_wallet (opt_prop savedWallet ''publicKey'') (opt_prop savedWallet ''privateKey'') i)
             (jret True))
        else jret False))
       (\<lambda>error. jret False)"

definition wallet_val :: "wallet_obj \<Rightarrow> jsval" where
  "wallet_val w = JObj
     [(''publicKey'', publicKey w), (''privateKey'', privateKey w),
      (''id'', case wallet_id w of None \<Rightarrow> JNull | Some i \<Rightarrow> JStr i)]"

definition exportWallet :: "env \<Rightarrow> ('z wallet_world_scheme, unit) js" where
  "exportWallet E = jbind (jget wallet) (\<lambda>w. exportWalletToFile E (wallet_val w))"

definition importWallet :: "env \<Rightarrow> js_file \<Rightarrow> ('z wallet_world_scheme, wallet_obj) js" where
  "importWallet E file =
     try_catch
       (jbind (jlift (importWalletFromFile E file)) (\<lambda>importedWallet.
        let pub = opt_prop importedWallet ''publicKey''; priv = opt_prop importedWallet ''privateKey''
        in jbind (jlift (deriveWalletID E pub)) (\<lambda>i.
           jseq (set_wallet pub priv i)
           (jseq (saveWallet E pub priv)
           (jget wallet)))))
       jthrow"

definition clearWallet :: "('z wallet_world_scheme, unit) js" where
  "clearWallet = jseq (jmodify (\<lambda>s. s\<lparr>wallet := no_wallet\<rparr>)) clear_all"

subsection \<open>The identifier belongs to the key\<close>

definition wallet_coherent :: "env \<Rightarrow> 'z wallet_world_scheme \<Rightarrow> bool" where
  "wallet_coherent E s \<longleftrightarrow> deriveWalletID E (publicKey (wallet s)) = Inr (wallet_id (wallet s))"

lemma keeps_wallet_coherent: "keeps wallet m \<Longrightarrow> upholds (wallet_coherent E) m"
  by (simp add: upholds_def keeps_def wallet_coherent_def)

lemma set_wallet_keeps [keeps_rules]:
  "(\<And>s w. f (s\<lparr>wallet := w\<rparr>) = f s) \<Longrightarrow> keeps f (set_wallet a b i)"
  by (simp add: keeps_def set_wallet_def)

lemma set_wallet_run [js_run, simp]:
  "set_wallet a b i s = (Inr (), s\<lparr>wallet := \<lparr>publicKey = a, privateKey = b, wallet_id = i\<rparr>\<rparr>)"
  by (simp add: set_wallet_def)

text \<open>Setting a wallet under the identifier just derived is coherent, whatever follows that keeps it.\<close>

lemma set_derived_coherent:
  fixes n :: "string option \<Rightarrow> ('z wallet_world_scheme, 'a) js"
  assumes "\<And>i. keeps wallet (n i)"
  shows "upholds (wallet_coherent E) (jbind (jlift (deriveWalletID E pub)) (\<lambda>i. jseq (set_wallet pub priv i) (n i)))"
proof (rule upholdsI)
  fix s :: "'z wallet_world_scheme"
  assume s: "wallet_coherent E s"
  show "wallet_coherent E (snd (jbind (jlift (deriveWalletID E pub)) (\<lambda>i. jseq (set_wallet pub priv i) (n i)) s))"
  proof (cases "deriveWalletID E pub")
    case (Inl e)
    then show ?thesis using s by (simp add: jbind_run)
  next
    case (Inr i)
    then show ?thesis using keepsD [OF assms, of i]
      by (simp add: jbind_run jseq_run wallet_coherent_def)
  qed
qed

lemma save_then_read_keeps: "keeps wallet (jseq (saveWallet E a b) (jget g))"
  by (intro keeps_rules) simp_all

lemma createWallet_coherent [upholds_rules]: "upholds (wallet_coherent E) (createWallet E)"
  unfolding createWallet_def generateKeyPair_def
  by (intro upholds_rules set_derived_coherent save_then_read_keeps keeps_wallet_coherent keeps_rules) simp_all

lemma loadWallet_coherent [upholds_rules]: "upholds (wallet_coherent E) (loadWallet E)"
  unfolding loadWallet_def loadWallet_data_def getWalletData_def
  by (intro upholds_rules set_derived_coherent keeps_wallet_coherent)
     (simp_all add: keeps_def getItem_run)

lemma importWallet_coherent [upholds_rules]: "upholds (wallet_coherent E) (importWallet E file)"
  unfolding importWallet_def Let_def
  by (intro upholds_rules set_derived_coherent save_then_read_keeps)

lemma clear_all_run: "clear_all s = (Inr (), s\<lparr>localStorage :=
    (localStorage s)(WALLET_key := None, DOMAINS_key := None, TRANSACTIONS_key := None)\<rparr>)"
  by (simp add: clear_all_def StorageKeys_def jseq_run)

lemma clearWallet_run: "clearWallet s = (Inr (), s\<lparr>wallet := no_wallet, localStorage :=
    (localStorage s)(WALLET_key := None, DOMAINS_key := None, TRANSACTIONS_key := None)\<rparr>)"
  by (simp add: clearWallet_def jseq_run clear_all_run)

lemma clearWallet_coherent [upholds_rules]: "upholds (wallet_coherent E) clearWallet"
  by (simp add: upholds_def clearWallet_run wallet_coherent_def no_wallet_def)

subsection \<open>Creating, then loading\<close>

lemma exportWallet_coherent [upholds_rules]: "upholds (wallet_coherent E) (exportWallet E)"
  unfolding exportWallet_def exportWalletToFile_def Let_def
  by (intro keeps_wallet_coherent keeps_rules) simp_all

lemma WALLET_key_facts [simp]:
  "WALLET_key \<noteq> DOMAINS_key" "WALLET_key \<noteq> TRANSACTIONS_key" "pending_key m \<noteq> WALLET_key"
  "pending_key m \<noteq> DOMAINS_key" "pending_key m \<noteq> TRANSACTIONS_key"
  by (simp_all add: WALLET_key_def DOMAINS_key_def TRANSACTIONS_key_def)

text \<open>What a stored pair of keys loads as.\<close>

lemma loadWallet_run:
  "loadWallet E s =
     (let v = (case localStorage s WALLET_key of
                 None \<Rightarrow> JNull
               | Some t \<Rightarrow> if t = [] then JNull else (case JSON_parse t of None \<Rightarrow> JNull | Some v \<Rightarrow> v));
          pub = opt_prop v ''publicKey''; priv = opt_prop v ''privateKey''
      in if \<not> truthy v then (Inr False, s)
         else (case deriveWalletID E pub of
                 Inl _ \<Rightarrow> (Inr False, s)
               | Inr i \<Rightarrow> (Inr True, s\<lparr>wallet := \<lparr>publicKey = pub, privateKey = priv, wallet_id = i\<rparr>\<rparr>)))"
  by (simp add: loadWallet_def loadWallet_data_def getWalletData_def try_catch_run jbind_run jseq_run getItem_run Let_def
      split: sum.split)

lemma stored_keys_load:
  assumes "localStorage s WALLET_key =
      Some (stored_text (JObj [(''publicKey'', pub), (''privateKey'', priv), (''createdAt'', JStr d)]))"
    and "json_ok pub" "json_ok priv" "deriveWalletID E pub = Inr i"
  shows "loadWallet E s = (Inr True, s\<lparr>wallet := \<lparr>publicKey = pub, privateKey = priv, wallet_id = i\<rparr>\<rparr>)"
proof -
  let ?v = "JObj [(''publicKey'', pub), (''privateKey'', priv), (''createdAt'', JStr d)]"
  have ok: "json_ok ?v" using assms by simp
  show ?thesis
    using assms(1,4) JSON_parse_text [OF ok] json_text_nonempty [OF ok]
    by (simp add: loadWallet_run stored_text_ok [OF ok] Let_def del: json_text.simps)
qed

lemma createWallet_run:
  "createWallet E s =
     (let (sk, pk) = nacl_keyPair E (draws s); s1 = s\<lparr>draws := Suc (draws s)\<rparr>
      in case deriveWalletID E (JStr (bytesToHex pk)) of
           Inl e \<Rightarrow> (Inl e, s1)
         | Inr i \<Rightarrow>
             let w = \<lparr>publicKey = JStr (bytesToHex pk), privateKey = JStr (bytesToHex sk), wallet_id = i\<rparr>
             in (Inr w, snd (saveWallet E (publicKey w) (privateKey w) (s1\<lparr>wallet := w\<rparr>))))"
  by (simp add: createWallet_def jbind_run generateKeyPair_run jseq_run Let_def saveWallet_run
      split: prod.split sum.split)

text \<open>A file made by an export brings the same keys back, in this page or another.\<close>

lemma exportWallet_run:
  "exportWallet E s = (Inr (), s\<lparr>ticks := Suc (ticks s), downloads := downloads s @
     [(''peerster-wallet-'' @ num_to_string (Dec (uint (now_ms E (ticks s))) 0) @ ''.json'', json_pretty [] (wallet_val (wallet s)))]\<rparr>)"
  by (simp add: exportWallet_def exportWalletToFile_def jbind_run del: json_pretty.simps)

lemma wallet_val_parse:
  assumes "publicKey w = JStr pub" "privateKey w = JStr priv"
  shows "JSON_parse (json_pretty [] (wallet_val w)) = Some (wallet_val w)"
  unfolding wallet_val_def by (rule JSON_parse_pretty) (simp_all add: assms split: option.split)

lemma importWallet_run:
  assumes "importWalletFromFile E f = Inr v" "deriveWalletID E (opt_prop v ''publicKey'') = Inr i"
  shows "importWallet E f s =
    (let w = \<lparr>publicKey = opt_prop v ''publicKey'', privateKey = opt_prop v ''privateKey'', wallet_id = i\<rparr>
     in (Inr w, snd (saveWallet E (publicKey w) (privateKey w) (s\<lparr>wallet := w\<rparr>))))"
  using assms by (simp add: importWallet_def Let_def jbind_run jseq_run saveWallet_run)

lemma export_import:
  assumes "publicKey (wallet s) = JStr pub" "privateKey (wallet s) = JStr priv" "pub \<noteq> []" "priv \<noteq> []" "wallet_coherent E s"
  shows "\<exists>name t. downloads (snd (exportWallet E s)) = downloads s @ [(name, t)] \<and>
    fst (importWallet E (FileText t) u) = Inr (wallet s) \<and> wallet (snd (importWallet E (FileText t) u)) = wallet s"
proof -
  let ?w = "wallet s"
  have imported: "importWalletFromFile E (FileText (json_pretty [] (wallet_val ?w))) = Inr (wallet_val ?w)"
    using assms wallet_val_parse [of ?w] by (simp add: importWalletFromFile_Inr wallet_val_def)
  have keys: "opt_prop (wallet_val ?w) ''publicKey'' = publicKey ?w" "opt_prop (wallet_val ?w) ''privateKey'' = privateKey ?w"
    by (simp_all add: wallet_val_def)
  have "deriveWalletID E (opt_prop (wallet_val ?w) ''publicKey'') = Inr (wallet_id ?w)"
    using assms(5) by (simp add: keys wallet_coherent_def)
  from importWallet_run [OF imported this, of u] show ?thesis
    by (simp add: exportWallet_run keys Let_def saveWallet_run del: json_pretty.simps)
qed

end
