(* ===== verification/ApiService.thy ===== *)
theory ApiService
  imports TransactionService
begin

section \<open>The backend's interface (\<open>services/api.service.js\<close>)\<close>

text \<open>
  One operation per endpoint. A response body is taken to arrive whole; the two ways the
  code reads a failed response (with the server's own message, or by the status alone) are
  \<open>read_detail\<close> and \<open>read_status\<close>. The locale \<open>api_call\<close> is the contract a caller relies
  on: at most one request, no other change of state, and an outcome determined by the
  response.
\<close>

subsection \<open>Requests and responses\<close>

definition getBaseURL :: "env \<Rightarrow> string" where
  "getBaseURL E =
     (let proxyAddr = (case VITE_BACKEND_URL E of
                         None \<Rightarrow> ''http://localhost:8080''
                       | Some u \<Rightarrow> if u = [] then ''http://localhost:8080'' else u)
      in proxyAddr)"

definition get_request :: "string \<Rightarrow> request" where
  "get_request url = \<lparr>req_url = url, req_method = ''GET'', req_headers = [], req_body = None\<rparr>"

definition post_request :: "string \<Rightarrow> string option \<Rightarrow> request" where
  "post_request url body =
     \<lparr>req_url = url, req_method = ''POST'',
      req_headers = [(''Content-Type'', ''application/json'')], req_body = body\<rparr>"

definition http_error :: "nat \<Rightarrow> string" where
  "http_error st = ''HTTP error! status: '' @ num_to_string (Dec (int st) 0)"

fun read_status :: "env \<Rightarrow> nat \<times> string \<times> string \<Rightarrow> jsval outcome" where
  "read_status E (st, _, body) =
     (if \<not> resp_ok st then Inl (Error (http_error st)) else parse_or_throw E body)"

fun read_detail :: "env \<Rightarrow> nat \<times> string \<times> string \<Rightarrow> jsval outcome" where
  "read_detail E (st, _, body) =
     (if \<not> resp_ok st
      then (let errorData = (case JSON_parse body of None \<Rightarrow> JNull | Some v \<Rightarrow> v);
                errorMessage = js_or (opt_prop errorData ''message'') (JStr (http_error st))
            in Inl (Error (to_str errorMessage)))
      else parse_or_throw E body)"

subsection \<open>Endpoints\<close>

definition sendTransaction :: "env \<Rightarrow> tx \<Rightarrow> jsval \<Rightarrow> ('z world_scheme, jsval) js" where
  "sendTransaction E tx signature =
     try_catch
       (jbind (jlift (canonicalize E (JObj
          [(''type'', tx_type tx),
           (''from'', tx_from tx),
           (''amount'', tx_amount tx),
           (''payload'', js_or (tx_payload tx) (JObj [])),
           (''inputs'', js_or (tx_inputs tx) (JArr [])),
           (''outputs'', js_or (tx_outputs tx) (JArr [])),
           (''pk'', tx_pk tx),
           (''txId'', js_or (tx_id tx) (JStr [])),
           (''signature'', signature)]))) (\<lambda>body.
        jbind (js_fetch E (post_request (getBaseURL E @ ''/namecoin/handle'') body)) (\<lambda>response.
          jlift (read_detail E response))))
       jthrow"

definition getTransactionStatus :: "env \<Rightarrow> string \<Rightarrow> ('z world_scheme, jsval) js" where
  "getTransactionStatus E txID =
     try_catch
       (jbind (js_fetch E (get_request (getBaseURL E @ ''/namecoin/transaction/'' @ txID))) (\<lambda>response.
          jlift (read_status E response)))
       jthrow"

definition getMinerID :: "env \<Rightarrow> ('z world_scheme, jsval) js" where
  "getMinerID E =
     try_catch
       (jbind (js_fetch E (get_request (getBaseURL E @ ''/namecoin/minerid''))) (\<lambda>response.
        jbind (jlift (read_status E response)) (\<lambda>data.
          jlift (js_prop (type_msg E) data ''minerID''))))
       jthrow"

definition setMinerID :: "env \<Rightarrow> jsval \<Rightarrow> ('z world_scheme, jsval) js" where
  "setMinerID E minerID =
     try_catch
       (jbind (js_fetch E (post_request (getBaseURL E @ ''/namecoin/minerid'')
          (JSON_stringify (JObj [(''minerID'', minerID)])))) (\<lambda>response.
          jlift (read_detail E response)))
       jthrow"

definition getSpendPlan :: "env \<Rightarrow> jsval \<Rightarrow> jsval \<Rightarrow> ('z world_scheme, jsval) js" where
  "getSpendPlan E from amount =
     try_catch
       (jbind (js_fetch E (post_request (getBaseURL E @ ''/namecoin/spendplan'')
          (JSON_stringify (JObj [(''from'', from), (''amount'', amount)])))) (\<lambda>response.
          jlift (read_detail E response)))
       jthrow"

definition getDNSRecord :: "env \<Rightarrow> ('z world_scheme, jsval) js" where
  "getDNSRecord E =
     try_catch
       (jbind (js_fetch E (get_request (getBaseURL E @ ''/namecoin/dns''))) (\<lambda>response.
          jlift (read_status E response)))
       jthrow"

definition fetchRegisteredDomains :: "env \<Rightarrow> ('z world_scheme, jsval) js" where
  "fetchRegisteredDomains E =
     try_catch
       (jbind (js_fetch E (get_request (getBaseURL E @ ''/namecoin/dns''))) (\<lambda>response.
          jlift (read_status E response)))
       jthrow"

subsection \<open>The contract of a call\<close>

text \<open>
  \<open>ask E\<close> is the request the call makes, or the exception it raises before making one;
  \<open>answer E\<close> reads the response. A failed connection and a status outside 200..299 are
  errors of the call.
\<close>

locale api_call =
  fixes call :: "env \<Rightarrow> ('z world_scheme, jsval) js"
    and ask :: "env \<Rightarrow> request outcome"
    and answer :: "env \<Rightarrow> nat \<times> string \<times> string \<Rightarrow> jsval outcome"
  assumes run: "call E s =
      (case ask E of
         Inl e \<Rightarrow> (Inl e, s)
       | Inr req \<Rightarrow>
           (case respond E (sent s) req of NetFail e \<Rightarrow> Inl e | Resp st t body \<Rightarrow> answer E (st, t, body),
            s\<lparr>sent := sent s @ [req]\<rparr>))"
    and refused: "\<not> resp_ok st \<Longrightarrow> \<exists>msg. answer E (st, t, body) = Inl (Error msg)"
    and needs_json: "answer E (st, t, body) = Inr v \<Longrightarrow> \<exists>w. JSON_parse body = Some w"
begin

lemma keeps_call: "(\<And>s r. f (s\<lparr>sent := r\<rparr>) = f s) \<Longrightarrow> keeps f (call E)"
  by (auto simp: keeps_def run split: sum.split fetch_result.split)

lemma sends_one:
  "sent (snd (call E s)) = sent s @ (case ask E of Inl _ \<Rightarrow> [] | Inr req \<Rightarrow> [req])"
  by (simp add: run split: sum.split)

text \<open>A value comes back only from a response of the server that says so.\<close>

text \<open>A server that refuses makes the call throw.\<close>

lemma refused_throws:
  assumes "ask E = Inr req" "\<forall>hist req. \<exists>st t body. respond E hist req = Resp st t body \<and> \<not> resp_ok st"
  shows "\<exists>msg. fst (call E s) = Inl (Error msg)"
proof -
  obtain st t body where "respond E (sent s) req = Resp st t body" "\<not> resp_ok st" using assms(2) by blast
  then show ?thesis using run [of E s] refused [of st E t body] assms(1) by auto
qed

lemma returns_iff:
  "fst (call E s) = Inr v \<longleftrightarrow>
     (\<exists>req st t body. ask E = Inr req \<and> respond E (sent s) req = Resp st t body \<and> resp_ok st \<and>
                      answer E (st, t, body) = Inr v)"
proof -
  have "answer E (st, t, body) = Inr v \<Longrightarrow> resp_ok st" for st t body
    using refused [of st E t body] by auto
  then show ?thesis by (auto simp: run split: sum.split fetch_result.split)
qed

end

lemma try_catch_jthrow [simp]: "try_catch m jthrow = m"
  by (auto simp: try_catch_def fun_eq_iff split: prod.split sum.split)

lemma read_refused:
  "\<not> resp_ok st \<Longrightarrow> \<exists>msg. read_status E (st, t, body) = Inl (Error msg)"
  "\<not> resp_ok st \<Longrightarrow> \<exists>msg. read_detail E (st, t, body) = Inl (Error msg)"
  by (simp_all add: Let_def)

lemma read_needs_json:
  "read_status E (st, t, body) = Inr v \<Longrightarrow> JSON_parse body = Some v"
  "read_detail E (st, t, body) = Inr v \<Longrightarrow> JSON_parse body = Some v"
  by (auto simp: parse_or_throw_def Let_def split: if_split_asm option.split_asm)

lemma fetch_and_read:
  "jbind (js_fetch E req) (\<lambda>r. jlift (f r)) s =
     (case respond E (sent s) req of NetFail e \<Rightarrow> Inl e | Resp st t body \<Rightarrow> f (st, t, body),
      s\<lparr>sent := sent s @ [req]\<rparr>)"
  by (simp add: jbind_run js_fetch_run split: fetch_result.split)

text \<open>The transaction object as it goes to the backend.\<close>

definition wire_tx :: "tx \<Rightarrow> jsval \<Rightarrow> jsval" where
  "wire_tx tx signature = JObj
     [(''type'', tx_type tx), (''from'', tx_from tx), (''amount'', tx_amount tx),
      (''payload'', js_or (tx_payload tx) (JObj [])), (''inputs'', js_or (tx_inputs tx) (JArr [])),
      (''outputs'', js_or (tx_outputs tx) (JArr [])), (''pk'', tx_pk tx),
      (''txId'', js_or (tx_id tx) (JStr [])), (''signature'', signature)]"

definition send_ask :: "tx \<Rightarrow> jsval \<Rightarrow> env \<Rightarrow> request outcome" where
  "send_ask tx signature E =
     (case canonicalize E (wire_tx tx signature) of
        Inl e \<Rightarrow> Inl e | Inr body \<Rightarrow> Inr (post_request (getBaseURL E @ ''/namecoin/handle'') body))"

definition miner_answer :: "env \<Rightarrow> nat \<times> string \<times> string \<Rightarrow> jsval outcome" where
  "miner_answer E r = (case read_status E r of Inl e \<Rightarrow> Inl e | Inr d \<Rightarrow> js_prop (type_msg E) d ''minerID'')"

interpretation send_tx: api_call "\<lambda>E. sendTransaction E tx signature" "send_ask tx signature" read_detail
  for tx signature
  by unfold_locales
    (auto simp: sendTransaction_def send_ask_def wire_tx_def jbind_run [of "jlift _"] fetch_and_read
       read_needs_json(2) simp del: read_detail.simps intro: read_refused split: sum.split)

interpretation tx_status: api_call "\<lambda>E. getTransactionStatus E txID"
    "\<lambda>E. Inr (get_request (getBaseURL E @ ''/namecoin/transaction/'' @ txID))" read_status for txID
  by unfold_locales
    (auto simp: getTransactionStatus_def fetch_and_read read_needs_json(1) simp del: read_status.simps intro: read_refused)

interpretation miner_id: api_call getMinerID
    "\<lambda>E. Inr (get_request (getBaseURL E @ ''/namecoin/minerid''))" miner_answer
proof unfold_locales
  fix E s
  show "getMinerID E s =
      (case Inr (get_request (getBaseURL E @ ''/namecoin/minerid'')) of
         Inl e \<Rightarrow> (Inl e, s)
       | Inr req \<Rightarrow>
           (case respond E (sent s) req of NetFail e \<Rightarrow> Inl e | Resp st t body \<Rightarrow> miner_answer E (st, t, body),
            s\<lparr>sent := sent s @ [req]\<rparr>))"
    by (simp add: getMinerID_def jbind_run js_fetch_run miner_answer_def split: fetch_result.split sum.split
        del: read_status.simps)
next
  fix st E t body
  assume "\<not> resp_ok st"
  then show "\<exists>msg. miner_answer E (st, t, body) = Inl (Error msg)" by (simp add: miner_answer_def)
qed (auto simp: miner_answer_def dest: read_needs_json(1) simp del: read_status.simps split: sum.split_asm)

interpretation set_miner: api_call "\<lambda>E. setMinerID E minerID"
    "\<lambda>E. Inr (post_request (getBaseURL E @ ''/namecoin/minerid'')
            (JSON_stringify (JObj [(''minerID'', minerID)])))" read_detail for minerID
  by unfold_locales
    (auto simp: setMinerID_def fetch_and_read read_needs_json(2) simp del: read_detail.simps intro: read_refused)

interpretation spend_plan: api_call "\<lambda>E. getSpendPlan E from amount"
    "\<lambda>E. Inr (post_request (getBaseURL E @ ''/namecoin/spendplan'')
            (JSON_stringify (JObj [(''from'', from), (''amount'', amount)])))" read_detail for "from" amount
  by unfold_locales
    (auto simp: getSpendPlan_def fetch_and_read read_needs_json(2) simp del: read_detail.simps intro: read_refused)

interpretation dns_record: api_call getDNSRecord
    "\<lambda>E. Inr (get_request (getBaseURL E @ ''/namecoin/dns''))" read_status
  by unfold_locales
    (auto simp: getDNSRecord_def fetch_and_read read_needs_json(1) simp del: read_status.simps intro: read_refused)

interpretation registered: api_call fetchRegisteredDomains
    "\<lambda>E. Inr (get_request (getBaseURL E @ ''/namecoin/dns''))" read_status
  by unfold_locales
    (auto simp: fetchRegisteredDomains_def fetch_and_read read_needs_json(1) simp del: read_status.simps intro: read_refused)

lemmas api_keeps [keeps_rules] =
  send_tx.keeps_call tx_status.keeps_call miner_id.keeps_call set_miner.keeps_call
  spend_plan.keeps_call dns_record.keeps_call registered.keeps_call

subsection \<open>The two requests of a transaction\<close>

definition plan_request :: "env \<Rightarrow> jsval \<Rightarrow> jsval \<Rightarrow> request" where
  "plan_request E payer amount =
     post_request (getBaseURL E @ ''/namecoin/spendplan'') (JSON_stringify (JObj [(''from'', payer), (''amount'', amount)]))"

definition handle_request :: "env \<Rightarrow> string option \<Rightarrow> request" where
  "handle_request E body = post_request (getBaseURL E @ ''/namecoin/handle'') body"

lemma wire_tx_hash [simp]: "wire_tx (tx\<lparr>tx_hash := h\<rparr>) sg = wire_tx tx sg"
  by (simp add: wire_tx_def)

lemma sendTransaction_Inr:
  "sendTransaction E tx sg s = (Inr r, t) \<Longrightarrow>
     \<exists>body. canonicalize E (wire_tx tx sg) = Inr body \<and>
            t = s\<lparr>sent := sent s @ [handle_request E body]\<rparr>"
  by (auto simp: send_tx.run send_ask_def handle_request_def split: sum.split_asm)

lemma getSpendPlan_Inr:
  "getSpendPlan E payer amount s = (Inr plan, t) \<Longrightarrow> t = s\<lparr>sent := sent s @ [plan_request E payer amount]\<rparr>"
  by (auto simp: spend_plan.run plan_request_def)

end
