(* ===== verification/UseTransaction.thy ===== *)
theory UseTransaction
  imports UseWallet ApiService
begin

section \<open>Transactions of the page (\<open>composables/useTransaction.js\<close>)\<close>

text \<open>
  The module keeps the transaction being prepared, a status and the history of what was
  sent. The operations are run to completion one after the other. The step relation
  \<open>tx_step\<close> and its invariant show that a transaction is only ever signed under the
  identifier it is sent with.
\<close>

record tx_entry =
  h_tx :: tx
  h_signature :: string
  h_timestamp :: string
  h_result :: jsval

record tx_world = wallet_world +
  currentTransaction :: "tx option"
  ut_isProcessing :: bool
  ut_status :: string
  ut_error :: jsval
  txHistory :: "tx_entry list"

text \<open>\<open>tx.inputs = plan.inputs || []; tx.outputs = plan.outputs || []\<close>\<close>

definition take_plan :: "env \<Rightarrow> tx \<Rightarrow> jsval \<Rightarrow> tx outcome" where
  "take_plan E tx plan =
     (case js_prop (type_msg E) plan ''inputs'' of
        Inl e \<Rightarrow> Inl e
      | Inr inputs \<Rightarrow> Inr (tx\<lparr>tx_inputs := js_or inputs (JArr []),
                             tx_outputs := js_or (opt_prop plan ''outputs'') (JArr [])\<rparr>))"

definition createTransaction :: "env \<Rightarrow> build_params \<Rightarrow> ('z tx_world_scheme, tx) js" where
  "createTransaction E params =
     try_finally
       (try_catch
         (jseq (jmodify (\<lambda>s. s\<lparr>ut_isProcessing := True, ut_error := JNull\<rparr>))
         (let tx = buildTransaction params
          in jbind (getSpendPlan E (tx_from tx) (tx_amount tx)) (\<lambda>spendPlan.
             jbind (jlift (take_plan E tx spendPlan)) (\<lambda>tx.
             jbind (jlift (computeTransactionID E tx)) (\<lambda>completeTx.
             case validateTransaction completeTx of (valid, errors) \<Rightarrow>
               if \<not> valid then jthrow (Error (join_with '', '' errors))
               else jseq (jmodify (\<lambda>s. s\<lparr>currentTransaction := Some completeTx\<rparr>)) (jret completeTx))))))
         (\<lambda>err.
            jseq (jmodify (\<lambda>s. s\<lparr>ut_error := JStr (to_str (err_msg err) @ '' (in createTransaction)'')\<rparr>))
              (jthrow err)))
       (jmodify (\<lambda>s. s\<lparr>ut_isProcessing := False\<rparr>))"

definition signAndSend :: "env \<Rightarrow> jsval \<Rightarrow> ('z tx_world_scheme, jsval) js" where
  "signAndSend E key =
     jbind (jget currentTransaction) (\<lambda>current. case current of
       None \<Rightarrow> jthrow (Error ''No transaction to sign'')
     | Some tx \<Rightarrow>
         try_finally
           (try_catch
             (jseq (jmodify (\<lambda>s. s\<lparr>ut_isProcessing := True, ut_status := ''signing'', ut_error := JNull\<rparr>))
             (jbind (jlift (hashTransaction E tx)) (\<lambda>txHash.
              let tx' = tx\<lparr>tx_hash := JStr txHash\<rparr>
              in jseq (jmodify (\<lambda>s. s\<lparr>currentTransaction := Some tx'\<rparr>))
                (jbind (jlift (generateTransactionSignature E txHash key)) (\<lambda>signature.
                 jseq (jmodify (\<lambda>s. s\<lparr>ut_status := ''sending''\<rparr>))
                (jbind (sendTransaction E tx' (JStr signature)) (\<lambda>result.
                 jseq (jmodify (\<lambda>s. s\<lparr>ut_status := ''success''\<rparr>))
                (jbind (date_iso E) (\<lambda>timestamp.
                 jseq (jmodify (\<lambda>s. s\<lparr>txHistory := txHistory s @
                         [\<lparr>h_tx = tx', h_signature = signature, h_timestamp = timestamp, h_result = result\<rparr>]\<rparr>))
                   (jret result))))))))))
             (\<lambda>err.
                jseq (jmodify (\<lambda>s. s\<lparr>ut_status := ''error'', ut_error := err_msg err\<rparr>)) (jthrow err)))
           (jmodify (\<lambda>s. s\<lparr>ut_isProcessing := False\<rparr>)))"

definition clearTransaction :: "('z tx_world_scheme, unit) js" where
  "clearTransaction =
     jmodify (\<lambda>s. s\<lparr>currentTransaction := None, ut_status := ''idle'', ut_error := JNull\<rparr>)"

subsection \<open>What a call does\<close>

text \<open>The transaction a call of \<open>createTransaction\<close> prepares, from the spend plan it got.\<close>

definition prepared :: "env \<Rightarrow> build_params \<Rightarrow> jsval \<Rightarrow> tx outcome" where
  "prepared E params plan =
     (case take_plan E (buildTransaction params) plan of
        Inl e \<Rightarrow> Inl e
      | Inr tx \<Rightarrow>
     (case computeTransactionID E tx of
        Inl e \<Rightarrow> Inl e
      | Inr c \<Rightarrow> if tx_errors c = [] then Inr c else Inl (Error (join_with '', '' (tx_errors c)))))"

lemma createTransaction_run:
  "createTransaction E params s =
     (case getSpendPlan E (b_walletID params) (b_fee params)
             (s\<lparr>ut_isProcessing := True, ut_error := JNull\<rparr>) of (r, t) \<Rightarrow>
      case (case r of Inl e \<Rightarrow> Inl e | Inr plan \<Rightarrow> prepared E params plan) of
        Inl e \<Rightarrow> (Inl e, t\<lparr>ut_error := JStr (to_str (err_msg e) @ '' (in createTransaction)''),
                           ut_isProcessing := False\<rparr>)
      | Inr c \<Rightarrow> (Inr c, t\<lparr>currentTransaction := Some c, ut_isProcessing := False\<rparr>))"
proof -
  let ?s = "s\<lparr>ut_isProcessing := True, ut_error := JNull\<rparr>"
  have "tx_from (buildTransaction params) = b_walletID params" "tx_amount (buildTransaction params) = b_fee params"
    by (simp_all add: buildTransaction_def)
  then show ?thesis
    by (simp add: createTransaction_def prepared_def validateTransaction_def Let_def
        try_finally_run try_catch_run jseq_run jbind_run split: prod.split sum.split)
qed

lemma signAndSend_run:
  assumes "currentTransaction s = Some tx"
  shows "signAndSend E key s =
    (let fail = (\<lambda>e t. (Inl e, t\<lparr>ut_status := ''error'', ut_error := err_msg e, ut_isProcessing := False\<rparr>));
         s1 = s\<lparr>ut_isProcessing := True, ut_status := ''signing'', ut_error := JNull\<rparr>
     in case hashTransaction E tx of
          Inl e \<Rightarrow> fail e s1
        | Inr h \<Rightarrow>
            (let tx' = tx\<lparr>tx_hash := JStr h\<rparr>; s2 = s1\<lparr>currentTransaction := Some tx'\<rparr>
             in case generateTransactionSignature E h key of
                  Inl e \<Rightarrow> fail e s2
                | Inr sg \<Rightarrow>
                    (case sendTransaction E tx' (JStr sg) (s2\<lparr>ut_status := ''sending''\<rparr>) of
                       (Inl e, t) \<Rightarrow> fail e t
                     | (Inr r, t) \<Rightarrow>
                         (Inr r, t\<lparr>ut_status := ''success'', ticks := Suc (ticks t),
                            txHistory := txHistory t @
                              [\<lparr>h_tx = tx', h_signature = sg, h_timestamp = iso_date E (ticks t), h_result = r\<rparr>],
                            ut_isProcessing := False\<rparr>))))"
  using assms
  by (simp add: signAndSend_def Let_def try_finally_run try_catch_run jseq_run jbind_run
      split: prod.split sum.split)

subsection \<open>The invariant\<close>

text \<open>
  A prepared transaction passes validation and carries the hash of its own fields as its
  identifier; so does every transaction of the history, signed under that very hash.
\<close>

definition identified :: "env \<Rightarrow> tx \<Rightarrow> bool" where
  "identified E tx \<longleftrightarrow>
     (case hashTransaction E tx of Inl _ \<Rightarrow> False | Inr h \<Rightarrow> tx_id tx = JStr h) \<and> tx_errors tx = []"

definition entry_ok :: "env \<Rightarrow> tx_entry \<Rightarrow> bool" where
  "entry_ok E h \<longleftrightarrow> identified E (h_tx h) \<and> tx_hash (h_tx h) = tx_id (h_tx h)"

definition tx_inv :: "env \<Rightarrow> 'z tx_world_scheme \<Rightarrow> bool" where
  "tx_inv E s \<longleftrightarrow>
     \<not> ut_isProcessing s \<and> ut_status s \<in> {''idle'', ''success'', ''error''} \<and>
     (case currentTransaction s of None \<Rightarrow> True | Some tx \<Rightarrow> identified E tx) \<and>
     list_all (entry_ok E) (txHistory s)"

lemma identified_hash [simp]: "identified E (tx\<lparr>tx_hash := h\<rparr>) = identified E tx"
  by (simp add: identified_def hashTransaction_eq split: sum.split)

lemma identified_iff:
  "identified E tx \<longleftrightarrow>
     validateTransaction tx = (True, []) \<and> map_sum id JStr (hashTransaction E tx) = Inr (tx_id tx)"
  by (auto simp: identified_def validateTransaction_def Let_def split: sum.split)

lemma prepared_identified: "prepared E params plan = Inr c \<Longrightarrow> identified E c"
  by (auto simp: prepared_def identified_def computeTransactionID_eq hashTransaction_eq split: sum.split_asm if_split_asm)

lemma api_frame:
  "currentTransaction (snd (getSpendPlan E a b s)) = currentTransaction s"
  "ut_status (snd (getSpendPlan E a b s)) = ut_status s"
  "txHistory (snd (getSpendPlan E a b s)) = txHistory s"
  "currentTransaction (snd (sendTransaction E tx sg s)) = currentTransaction s"
  "ut_status (snd (sendTransaction E tx sg s)) = ut_status s"
  "txHistory (snd (sendTransaction E tx sg s)) = txHistory s"
  for s :: "'z tx_world_scheme"
  by (simp_all add: keepsD [OF spend_plan.keeps_call] keepsD [OF send_tx.keeps_call])

lemma createTransaction_inv: "upholds (tx_inv E) (createTransaction E params)"
proof (rule upholdsI)
  fix s :: "'z tx_world_scheme"
  assume s: "tx_inv E s"
  obtain r t where rt: "getSpendPlan E (b_walletID params) (b_fee params)
      (s\<lparr>ut_isProcessing := True, ut_error := JNull\<rparr>) = (r, t)" by fastforce
  then have "currentTransaction t = currentTransaction s" "ut_status t = ut_status s" "txHistory t = txHistory s"
    using api_frame(1-3) [of E "b_walletID params" "b_fee params" "s\<lparr>ut_isProcessing := True, ut_error := JNull\<rparr>"]
    by simp_all
  then show "tx_inv E (snd (createTransaction E params s))"
    using s by (auto simp: createTransaction_run rt tx_inv_def dest: prepared_identified split: sum.split)
qed

lemma signAndSend_inv: "upholds (tx_inv E) (signAndSend E key)"
proof (rule upholdsI)
  fix s :: "'z tx_world_scheme"
  assume s: "tx_inv E s"
  show "tx_inv E (snd (signAndSend E key s))"
  proof (cases "currentTransaction s")
    case None
    then show ?thesis using s by (simp add: signAndSend_def jbind_run)
  next
    case (Some tx)
    then have tx: "identified E tx" using s by (simp add: tx_inv_def)
    then obtain h where h: "hashTransaction E tx = Inr h" "tx_id tx = JStr h"
      by (auto simp: identified_def split: sum.split_asm)
    show ?thesis
    proof (cases "generateTransactionSignature E h key")
      case (Inl e)
      then show ?thesis using s h tx Some by (simp add: signAndSend_run [OF Some] tx_inv_def)
    next
      case (Inr sg)
      let ?s = "s\<lparr>ut_isProcessing := True, ut_status := ''signing'', ut_error := JNull,
                  currentTransaction := Some (tx\<lparr>tx_hash := JStr h\<rparr>), ut_status := ''sending''\<rparr>"
      obtain r t where rt: "sendTransaction E (tx\<lparr>tx_hash := JStr h\<rparr>) (JStr sg) ?s = (r, t)" by fastforce
      then have "currentTransaction t = Some (tx\<lparr>tx_hash := JStr h\<rparr>)" "txHistory t = txHistory s"
        using api_frame(4,6) [of E "tx\<lparr>tx_hash := JStr h\<rparr>" "JStr sg" ?s] by simp_all
      then show ?thesis using s h tx Some Inr rt
        by (auto simp: signAndSend_run [OF Some] Let_def tx_inv_def entry_ok_def split: sum.split)
    qed
  qed
qed

subsection \<open>The state machine of the module\<close>

datatype tx_event = Create build_params | Sign jsval | Clear

fun tx_run :: "env \<Rightarrow> tx_event \<Rightarrow> 'z tx_world_scheme \<Rightarrow> 'z tx_world_scheme" where
  "tx_run E (Create params) s = snd (createTransaction E params s)"
| "tx_run E (Sign key) s = snd (signAndSend E key s)"
| "tx_run E Clear s = snd (clearTransaction s)"

inductive tx_reach :: "env \<Rightarrow> 'z tx_world_scheme \<Rightarrow> bool" for E where
  tx_start: "\<not> ut_isProcessing s \<Longrightarrow> ut_status s = ''idle'' \<Longrightarrow> currentTransaction s = None \<Longrightarrow>
    txHistory s = [] \<Longrightarrow> tx_reach E s"
| tx_next: "tx_reach E s \<Longrightarrow> tx_reach E (tx_run E ev s)"

lemma tx_run_inv: "tx_inv E s \<Longrightarrow> tx_inv E (tx_run E ev s)"
proof (cases ev)
  case Clear
  assume "tx_inv E s"
  with Clear show ?thesis by (simp add: clearTransaction_def tx_inv_def)
qed (simp_all add: upholdsD [OF createTransaction_inv] upholdsD [OF signAndSend_inv])

lemma tx_reach_inv: "tx_reach E s \<Longrightarrow> tx_inv E s"
proof (induction rule: tx_reach.induct)
  case (tx_start s)
  then show ?case by (simp add: tx_inv_def)
qed (rule tx_run_inv)

subsection \<open>A successful call\<close>

lemma createTransaction_success:
  assumes "createTransaction E params s = (Inr c, t)"
  shows "(\<exists>plan. prepared E params plan = Inr c) \<and> currentTransaction t = Some c \<and>
     sent t = sent s @ [plan_request E (b_walletID params) (b_fee params)]"
  using assms
  by (auto simp: createTransaction_run spend_plan.run plan_request_def split: prod.split_asm sum.split_asm)

lemma signAndSend_success:
  assumes "currentTransaction s = Some tx" "signAndSend E key s = (Inr r, t)"
  shows "\<exists>h sg body. hashTransaction E tx = Inr h \<and> generateTransactionSignature E h key = Inr sg \<and>
     canonicalize E (wire_tx tx (JStr sg)) = Inr body \<and>
     sent t = sent s @ [handle_request E body] \<and>
     ut_status t = ''success'' \<and>
     txHistory t = txHistory s @
       [\<lparr>h_tx = tx\<lparr>tx_hash := JStr h\<rparr>, h_signature = sg, h_timestamp = iso_date E (ticks s), h_result = r\<rparr>]"
  using assms(2)
  by (auto simp: signAndSend_run [OF assms(1)] Let_def dest!: sendTransaction_Inr
      split: sum.split_asm prod.split_asm)

lemma signAndSend_failure:
  assumes "signAndSend E key s = (Inl e, t)"
  shows "txHistory t = txHistory s \<and>
    (if currentTransaction s = None then t = s else ut_status t = ''error'' \<and> ut_error t = err_msg e \<and> \<not> ut_isProcessing t)"
proof (cases "currentTransaction s")
  case None
  then show ?thesis using assms by (simp add: signAndSend_def jbind_run)
next
  case (Some tx)
  have "sendTransaction E tx' sg s' = (x, t') \<Longrightarrow> txHistory t' = txHistory s'" for tx' sg x and s' t' :: "'a tx_world_scheme"
    using api_frame(6) [of E tx' sg s'] by simp
  then show ?thesis using assms Some
    by (fastforce simp: signAndSend_run [OF Some] Let_def split: sum.split_asm prod.split_asm)
qed

end
