(* ===== verification/JsRegex.thy ===== *)
theory JsRegex
  imports JsValue
begin

section \<open>Regular expressions\<close>

text \<open>
  The anchored patterns of the sources (\<open>^...$\<close>) are sequences of character classes, each
  with a least and a greatest number of repetitions. \<open>re_match\<close> tries the repetitions of
  a class and backtracks as the engine does; \<open>re_match_iff\<close> is its declarative meaning: the
  text splits into one part per class.
\<close>

record re_item =
  re_class :: "char \<Rightarrow> bool"
  re_min :: nat
  re_max :: "nat option"

definition re_one :: "(char \<Rightarrow> bool) \<Rightarrow> re_item" where
  "re_one p = \<lparr>re_class = p, re_min = 1, re_max = Some 1\<rparr>"

definition re_opt :: "(char \<Rightarrow> bool) \<Rightarrow> re_item" where
  "re_opt p = \<lparr>re_class = p, re_min = 0, re_max = Some 1\<rparr>"

definition re_many :: "(char \<Rightarrow> bool) \<Rightarrow> nat \<Rightarrow> re_item" where
  "re_many p n = \<lparr>re_class = p, re_min = n, re_max = None\<rparr>"

definition re_range :: "(char \<Rightarrow> bool) \<Rightarrow> nat \<Rightarrow> nat \<Rightarrow> re_item" where
  "re_range p m n = \<lparr>re_class = p, re_min = m, re_max = Some n\<rparr>"

definition re_upto :: "re_item \<Rightarrow> string \<Rightarrow> nat" where
  "re_upto i s =
     (let k = length (takeWhile (re_class i) s)
      in case re_max i of None \<Rightarrow> k | Some n \<Rightarrow> min n k)"

fun re_match :: "re_item list \<Rightarrow> string \<Rightarrow> bool" where
  "re_match [] s = (s = [])"
| "re_match (i # is) s =
     list_ex (\<lambda>n. re_match is (drop n s)) (rev [re_min i ..< Suc (re_upto i s)])"

definition re_fits :: "re_item \<Rightarrow> string \<Rightarrow> bool" where
  "re_fits i w \<longleftrightarrow> list_all (re_class i) w \<and> re_min i \<le> length w \<and>
     (case re_max i of None \<Rightarrow> True | Some n \<Rightarrow> length w \<le> n)"

lemma take_takeWhile: "n \<le> length (takeWhile P s) \<longleftrightarrow> n \<le> length s \<and> list_all P (take n s)"
proof (induction s arbitrary: n)
  case (Cons c s)
  then show ?case by (cases n) auto
qed simp

lemma re_upto_iff:
  "re_min i \<le> n \<and> n \<le> re_upto i s \<longleftrightarrow> n \<le> length s \<and> re_fits i (take n s)"
  by (auto simp: re_upto_def re_fits_def Let_def take_takeWhile split: option.splits)

lemma re_match_Cons_iff:
  "re_match (i # is) s \<longleftrightarrow> (\<exists>w r. s = w @ r \<and> re_fits i w \<and> re_match is r)"
proof
  assume "re_match (i # is) s"
  then obtain n where "re_min i \<le> n \<and> n \<le> re_upto i s" "re_match is (drop n s)"
    by (auto simp: list_ex_iff less_Suc_eq_le simp del: upt_Suc)
  then show "\<exists>w r. s = w @ r \<and> re_fits i w \<and> re_match is r"
    unfolding re_upto_iff by (metis append_take_drop_id)
next
  assume "\<exists>w r. s = w @ r \<and> re_fits i w \<and> re_match is r"
  then obtain w r where s: "s = w @ r" "re_fits i w" "re_match is r" by blast
  then have "re_min i \<le> length w \<and> length w \<le> re_upto i s" by (simp add: re_upto_iff)
  with s show "re_match (i # is) s"
    by (auto simp: list_ex_iff less_Suc_eq_le simp del: upt_Suc intro!: bexI [of _ "length w"])
qed

declare re_match.simps(2) [simp del]

lemma re_match_iff:
  "re_match is s \<longleftrightarrow> (\<exists>ws. list_all2 re_fits is ws \<and> s = concat ws)"
proof (induction "is" arbitrary: s)
  case (Cons i "is")
  then show ?case
    by (auto simp: re_match_Cons_iff list_all2_Cons1) (metis concat.simps(2))+
qed simp

lemma re_fits_simps [simp]:
  "re_fits (re_one p) w \<longleftrightarrow> (\<exists>c. w = [c] \<and> p c)"
  "re_fits (re_many p n) w \<longleftrightarrow> list_all p w \<and> n \<le> length w"
  "re_fits (re_range p m n) w \<longleftrightarrow> list_all p w \<and> m \<le> length w \<and> length w \<le> n"
  "re_fits (re_opt p) w \<longleftrightarrow> w = [] \<or> (\<exists>c. w = [c] \<and> p c)"
  by (cases w; cases "tl w"; auto simp: re_fits_def re_one_def re_many_def re_range_def re_opt_def)+

text \<open>\<open>\w\<close>\<close>

definition is_word_char :: "char \<Rightarrow> bool" where
  "is_word_char c \<longleftrightarrow> is_alnum c \<or> c = CHR ''_''"

text \<open>\<open>s.replace(/\s+/g, ' ')\<close>: each run of white space becomes one space.\<close>

function collapse_spaces :: "string \<Rightarrow> string" where
  "collapse_spaces [] = []"
| "collapse_spaces (c # s) =
     (if is_space c
      then CHR 0x20 # collapse_spaces (dropWhile is_space s)
      else c # collapse_spaces s)"
  by pat_completeness auto
termination
  by (relation "measure length") (auto simp: le_imp_less_Suc length_dropWhile_le)

subsection \<open>Patterns with groups\<close>

text \<open>
  A pattern with capture groups and lazy repetition, as the language defines its matcher: each
  part gets the text, the captures so far and a continuation, and the first alternative
  for which the continuation succeeds is the match. \<open>XLazy\<close> is \<open>p+?\<close> (fewest first), \<open>XMany\<close>
  is \<open>p+\<close> (most first).
\<close>

datatype rx =
    XStr string
  | XSeq rx rx
  | XAlt rx rx
  | XOpt rx
  | XLazy "char \<Rightarrow> bool"
  | XMany "char \<Rightarrow> bool"
  | XGroup nat rx

type_synonym captures = "(nat \<times> string) list"

fun first_some :: "('a \<Rightarrow> 'b option) \<Rightarrow> 'a list \<Rightarrow> 'b option" where
  "first_some f [] = None"
| "first_some f (x # xs) = (case f x of Some y \<Rightarrow> Some y | None \<Rightarrow> first_some f xs)"

lemma first_some_cong [fundef_cong]:
  "xs = ys \<Longrightarrow> (\<And>x. x \<in> set ys \<Longrightarrow> f x = g x) \<Longrightarrow> first_some f xs = first_some g ys"
  by (induction xs arbitrary: ys) (auto split: option.split)

definition rx_counts :: "(char \<Rightarrow> bool) \<Rightarrow> string \<Rightarrow> nat list" where
  "rx_counts p s = [1 ..< Suc (length (takeWhile p s))]"

primrec rx_run :: "rx \<Rightarrow> (string \<Rightarrow> captures \<Rightarrow> captures option) \<Rightarrow> string \<Rightarrow> captures \<Rightarrow> captures option" where
  "rx_run (XStr w) k s c = (if prefix w s then k (drop (length w) s) c else None)"
| "rx_run (XSeq a b) k s c = rx_run a (rx_run b k) s c"
| "rx_run (XAlt a b) k s c = (case rx_run a k s c of Some r \<Rightarrow> Some r | None \<Rightarrow> rx_run b k s c)"
| "rx_run (XOpt a) k s c = (case rx_run a k s c of Some r \<Rightarrow> Some r | None \<Rightarrow> k s c)"
| "rx_run (XLazy p) k s c = first_some (\<lambda>n. k (drop n s) c) (rx_counts p s)"
| "rx_run (XMany p) k s c = first_some (\<lambda>n. k (drop n s) c) (rev (rx_counts p s))"
| "rx_run (XGroup i a) k s c = rx_run a (\<lambda>s' c'. k s' ((i, take (length s - length s') s) # c')) s c"

text \<open>\<open>s.match(/^...$/)\<close>\<close>

definition rx_match :: "rx \<Rightarrow> string \<Rightarrow> captures option" where
  "rx_match r s = rx_run r (\<lambda>s' c. if s' = [] then Some c else None) s []"

text \<open>The character \<open>.\<close> stands for: all but line ends.\<close>

definition rx_dot :: "char \<Rightarrow> bool" where
  "rx_dot c \<longleftrightarrow> c \<noteq> CHR 0x0A \<and> c \<noteq> CHR 0x0D"

lemma first_some_append:
  "first_some f (xs @ ys) = (case first_some f xs of Some y \<Rightarrow> Some y | None \<Rightarrow> first_some f ys)"
  by (induction xs) (auto split: option.split)

lemma first_some_None: "first_some f xs = None \<longleftrightarrow> (\<forall>x\<in>set xs. f x = None)"
  by (induction xs) (auto split: option.split)

text \<open>A lazy repetition stops at the first place where the rest of the pattern matches.\<close>

lemma rx_run_lazy:
  assumes all: "list_all p w" and ne: "w \<noteq> []"
    and early: "\<And>u v. w = u @ v \<Longrightarrow> u \<noteq> [] \<Longrightarrow> v \<noteq> [] \<Longrightarrow> k (v @ r) c = None"
    and here: "k r c = Some x"
  shows "rx_run (XLazy p) k (w @ r) c = Some x"
proof -
  let ?n = "length w" and ?m = "length (takeWhile p (w @ r))"
  have le: "?n \<le> ?m" using all by (subst take_takeWhile) auto
  have "rx_counts p (w @ r) = [1 ..< ?n] @ [?n] @ [Suc ?n ..< Suc ?m]"
    using le ne upt_add_eq_append [of 1 ?n "Suc ?m - ?n"] by (simp add: rx_counts_def upt_conv_Cons Suc_leI del: upt_Suc)
  moreover have "k (drop j (w @ r)) c = None" if "j \<in> set [1 ..< ?n]" for j
  proof -
    have "k (drop j w @ r) c = None"
      using that by (intro early [of "take j w"]) auto
    then show ?thesis using that by simp
  qed
  ultimately show ?thesis using here by (simp add: first_some_append first_some_None [THEN iffD2])
qed

text \<open>A greedy repetition that may take the whole rest does.\<close>

lemma rx_run_many:
  assumes "list_all p w" "w \<noteq> []" "k [] c = Some x"
  shows "rx_run (XMany p) k w c = Some x"
proof -
  have "takeWhile p w = w" using assms(1) by (simp add: takeWhile_eq_all_conv list_all_iff)
  then have "rev (rx_counts p w) = rev [1 ..< Suc (length w)]" by (simp only: rx_counts_def)
  then have "rev (rx_counts p w) = length w # rev [1 ..< length w]" using assms(2) by (simp add: Suc_leI)
  then show ?thesis using assms(3) by simp
qed

end
