(* ===== verification/Validation.thy ===== *)
theory Validation
  imports JsRegex
begin

section \<open>Input validation (\<open>utils/validation.js\<close>)\<close>

text \<open>
  The four validators, over arbitrary JavaScript values. The lemmas give the exact set of
  inputs each accepts.
\<close>

definition label_char :: "char \<Rightarrow> bool" where
  "label_char c \<longleftrightarrow> is_alnum c \<or> c = CHR ''-''"

text \<open>\<open>/^[a-zA-Z0-9][a-zA-Z0-9-]{0,61}[a-zA-Z0-9]?\.[a-zA-Z]{2,}$/\<close>\<close>

definition domainRegex :: "re_item list" where
  "domainRegex =
     [re_one is_alnum, re_range label_char 0 61, re_opt is_alnum,
      re_one (\<lambda>c. c = CHR ''.''), re_many is_alpha 2]"

definition isValidDomain :: "jsval \<Rightarrow> bool" where
  "isValidDomain domain = re_match domainRegex (to_str domain)"

definition isValidFee :: "jsval \<Rightarrow> bool" where
  "isValidFee fee =
     (case fee of JNum x \<Rightarrow> num_less (Dec 0 0) x \<and> isInteger x | _ \<Rightarrow> False)"

definition isValidHex :: "jsval \<Rightarrow> bool" where
  "isValidHex str = re_match [re_many is_hex 1] (to_str str)"

text \<open>The conjunction returns its first falsy operand, so the result is a value.\<close>

definition isValidWalletID :: "jsval \<Rightarrow> jsval" where
  "isValidWalletID wid =
     (if \<not> truthy wid then wid
      else (case wid of
              JStr s \<Rightarrow> JBool (isValidHex wid \<and> 32 \<le> length s)
            | _ \<Rightarrow> JBool False))"

subsection \<open>What each accepts\<close>

definition valid_label :: "string \<Rightarrow> bool" where
  "valid_label l \<longleftrightarrow>
     1 \<le> length l \<and> length l \<le> 63 \<and> list_all label_char l \<and> is_alnum (hd l) \<and>
     (length l = 63 \<longrightarrow> is_alnum (last l))"

lemma alnum_label_char: "is_alnum c \<Longrightarrow> label_char c"
  by (simp add: label_char_def)

lemma label_split:
  "(\<exists>c m t. l = c # m @ t \<and> is_alnum c \<and> list_all label_char m \<and> length m \<le> 61 \<and>
      (t = [] \<or> (\<exists>d. t = [d] \<and> is_alnum d))) \<longleftrightarrow> valid_label l"
proof
  assume "\<exists>c m t. l = c # m @ t \<and> is_alnum c \<and> list_all label_char m \<and> length m \<le> 61 \<and>
      (t = [] \<or> (\<exists>d. t = [d] \<and> is_alnum d))"
  then show "valid_label l" by (auto simp: valid_label_def alnum_label_char)
next
  assume v: "valid_label l"
  then obtain c r where l: "l = c # r" by (cases l) (auto simp: valid_label_def)
  show "\<exists>c m t. l = c # m @ t \<and> is_alnum c \<and> list_all label_char m \<and> length m \<le> 61 \<and>
      (t = [] \<or> (\<exists>d. t = [d] \<and> is_alnum d))"
  proof (cases "length r \<le> 61")
    case True
    with v l show ?thesis by (intro exI [of _ c] exI [of _ r] exI [of _ "[]"]) (auto simp: valid_label_def)
  next
    case False
    with v l have len: "length r = 62" by (simp add: valid_label_def)
    then obtain m d where r: "r = m @ [d]" by (cases r rule: rev_cases) auto
    with v l len show ?thesis
      by (intro exI [of _ c] exI [of _ m] exI [of _ "[d]"]) (auto simp: valid_label_def)
  qed
qed

lemma domainRegex_iff:
  "re_match domainRegex s \<longleftrightarrow>
     (\<exists>l t. s = l @ ''.'' @ t \<and> valid_label l \<and> list_all is_alpha t \<and> 2 \<le> length t)"
proof
  assume "re_match domainRegex s"
  then obtain w m o' d t where split: "s = w @ m @ o' @ d @ t"
    and fits: "re_fits (re_one is_alnum) w" "re_fits (re_range label_char 0 61) m"
      "re_fits (re_opt is_alnum) o'" "re_fits (re_one (\<lambda>c. c = CHR ''.'')) d" "re_fits (re_many is_alpha 2) t"
    unfolding domainRegex_def re_match_Cons_iff re_match.simps(1)
    by (elim exE conjE) (drule sym, simp del: re_fits_simps)
  obtain c where s: "s = c # m @ o' @ ''.'' @ t" and c: "is_alnum c"
    using split fits(1,4) by auto
  have parts: "is_alnum c" "list_all label_char m" "length m \<le> 61" "o' = [] \<or> (\<exists>d. o' = [d] \<and> is_alnum d)"
    and t: "list_all is_alpha t" "2 \<le> length t"
    using c fits(2,3,5) by auto
  have "valid_label (c # m @ o')" using parts label_split by blast
  moreover have "s = (c # m @ o') @ ''.'' @ t" using s by simp
  ultimately show "\<exists>l t. s = l @ ''.'' @ t \<and> valid_label l \<and> list_all is_alpha t \<and> 2 \<le> length t"
    using t by blast
next
  assume "\<exists>l t. s = l @ ''.'' @ t \<and> valid_label l \<and> list_all is_alpha t \<and> 2 \<le> length t"
  then obtain l t where s: "s = l @ ''.'' @ t" and l: "valid_label l"
    and t: "list_all is_alpha t" "2 \<le> length t" by blast
  obtain c m o' where "l = c # m @ o'" "is_alnum c" "list_all label_char m" "length m \<le> 61"
    "o' = [] \<or> (\<exists>d. o' = [d] \<and> is_alnum d)"
    using l label_split by blast
  with s t show "re_match domainRegex s"
    unfolding domainRegex_def re_match_iff
    by (intro exI [of _ "[[c], m, o', ''.'', t]"]) auto
qed

lemma isValidHex_iff: "isValidHex v \<longleftrightarrow> to_str v \<noteq> [] \<and> list_all is_hex (to_str v)"
  by (auto simp: isValidHex_def re_match_Cons_iff Suc_le_eq)

lemma isValidFee_Dec: "isValidFee (JNum (Dec m e)) \<longleftrightarrow> 0 < m \<and> m mod 10 ^ e = 0"
  by (simp add: isValidFee_def)

end
