(* ===== verification/WalletView.thy ===== *)
theory WalletView
  imports UseWallet ApiService
begin

section \<open>The wallet page (\<open>views/Wallet.vue\<close>, script)\<close>

text \<open>
  The state of the component and its handlers. The rows of \<open>myDomains\<close> are objects the
  handlers mutate after the list that held them may have been replaced, so they live in a
  store \<open>row_store\<close> and the list holds their addresses. A handler runs to completion
  before the next; a promise it does not await is run where it is started (\<open>jdetach\<close>).
  The watcher of the wallet's identifier is an event of its own.
\<close>

record dns_row =
  dns_name :: jsval
  dns_owner :: jsval
  dns_ip :: jsval

record wallet_view = wallet_world +
  isConnected :: bool
  connectionStatus :: string
  domainName :: string
  wv_ttl :: jsval
  wv_isProcessing :: bool
  wv_status :: string
  lastTxId :: jsval
  wv_domains :: "dns_row list"
  domainsLoaded :: bool
  myDomains :: "nat list"
  backendMinerID :: jsval
  row_store :: "nat \<Rightarrow> (string \<times> jsval) list"
  next_row :: nat

subsection \<open>Reading and writing the state\<close>

definition set_status :: "string \<Rightarrow> ('z wallet_view_scheme, unit) js" where
  "set_status msg = jmodify (\<lambda>s. s\<lparr>wv_status := msg\<rparr>)"

definition row_get :: "nat \<Rightarrow> string \<Rightarrow> ('z wallet_view_scheme, jsval) js" where
  "row_get r k = jget (\<lambda>s. fields_get (row_store s r) k)"

definition row_set :: "nat \<Rightarrow> string \<Rightarrow> jsval \<Rightarrow> ('z wallet_view_scheme, unit) js" where
  "row_set r k v =
     jmodify (\<lambda>s. s\<lparr>row_store := (row_store s)(r := fields_put k v (row_store s r))\<rparr>)"

definition statusClass :: "string \<Rightarrow> string" where
  "statusClass status =
     (if str_includes status ''success'' \<or> str_includes status ''Success'' then ''success''
      else if str_includes status ''error'' \<or> str_includes status ''Error'' then ''error''
      else [])"

text \<open>\<open>v.trim()\<close>: only a string has the method.\<close>

definition js_trim :: "env \<Rightarrow> jsval \<Rightarrow> string outcome" where
  "js_trim E v = (case v of JStr s \<Rightarrow> Inr (trim s) | _ \<Rightarrow> Inl (TypeError (type_msg E)))"

text \<open>\<open>v = Math.max(0, Math.floor(Number(v) || 0))\<close>, the \<open>@input\<close> handler of the TTL fields.\<close>

definition ttl_input :: "jsval \<Rightarrow> jsval" where
  "ttl_input v = JNum (max_zero (num_floor (if num_truthy (to_num v) then to_num v else Dec 0 0)))"

subsection \<open>Connection and wallet\<close>

definition syncMinerID :: "env \<Rightarrow> ('z wallet_view_scheme, unit) js" where
  "syncMinerID E =
     jbind (jget walletID) (\<lambda>desiredID. case desiredID of
       None \<Rightarrow> jret ()
     | Some desiredID \<Rightarrow>
     jbind (jget backendMinerID) (\<lambda>b.
       if strict_eq b (JStr desiredID) then jret ()
       else try_catch
         (jbind (setMinerID E (JStr desiredID)) (\<lambda>_.
            jmodify (\<lambda>s. s\<lparr>backendMinerID := JStr desiredID\<rparr>)))
         (\<lambda>error. set_status (''Failed to sync miner ID: '' @ to_str (err_msg error)))))"

definition watch_id :: "env \<Rightarrow> ('z wallet_view_scheme, unit) js" where
  "watch_id E = jbind (jget walletID) (\<lambda>newID. if newID \<noteq> None then jdetach (syncMinerID E) else jret ())"

definition applySpendPlan :: "env \<Rightarrow> tx \<Rightarrow> ('z wallet_view_scheme, tx) js" where
  "applySpendPlan E tx =
     jbind (getSpendPlan E (tx_from tx) (tx_amount tx)) (\<lambda>plan.
     jbind (jlift (js_prop (type_msg E) plan ''inputs'')) (\<lambda>inputs.
       jret (tx\<lparr>tx_inputs := js_or inputs (JArr []),
               tx_outputs := js_or (opt_prop plan ''outputs'') (JArr [])\<rparr>)))"

subsection \<open>The list of domains\<close>

text \<open>The object \<open>loadMyDomains\<close> makes of a stored row, and the store with such objects added.\<close>

definition view_row :: "env \<Rightarrow> jsval \<Rightarrow> (string \<times> jsval) list outcome" where
  "view_row E d =
     (case js_prop (type_msg E) d ''ip'' of
        Inl e \<Rightarrow> Inl e
      | Inr ip \<Rightarrow> Inr (fold (\<lambda>(k, v). fields_put k v)
          [(''revealIp'', js_or ip (JStr [])),
           (''revealTtl'', JInt 0),
           (''newIp'', js_or ip (JStr [])),
           (''updateTtl'', JInt 0),
           (''isRevealing'', JBool False),
           (''isUpdating'', JBool False)] (spread d)))"

definition view_rows :: "env \<Rightarrow> jsval \<Rightarrow> (string \<times> jsval) list list outcome" where
  "view_rows E stored =
     (case stored of JArr vs \<Rightarrow> omap (view_row E) vs | _ \<Rightarrow> Inl (TypeError (type_msg E)))"

definition show_rows :: "(string \<times> jsval) list list \<Rightarrow> ('z wallet_view_scheme, unit) js" where
  "show_rows fss =
     jmodify (\<lambda>s. let n = next_row s in
       s\<lparr>row_store := (\<lambda>i. if n \<le> i \<and> i < n + length fss then fss ! (i - n) else row_store s i),
         next_row := n + length fss,
         myDomains := [n ..< n + length fss]\<rparr>)"

definition loadMyDomains :: "env \<Rightarrow> ('z wallet_view_scheme, unit) js" where
  "loadMyDomains E =
     jbind (jget walletID) (\<lambda>ownerID. case ownerID of
       None \<Rightarrow> jret ()
     | Some ownerID \<Rightarrow>
         jbind (getPendingDomains E ownerID) (\<lambda>stored.
         jbind (jlift (view_rows E stored)) show_rows))"

definition clearPendingDomains :: "env \<Rightarrow> ('z wallet_view_scheme, unit) js" where
  "clearPendingDomains E =
     jbind (js_confirm E) (\<lambda>yes.
       if \<not> yes then jret ()
       else jbind (jget walletID) (\<lambda>ownerID. case ownerID of
         None \<Rightarrow> jret ()
       | Some ownerID \<Rightarrow>
           jseq (clearAllPendingDomains ownerID)
           (jseq (jmodify (\<lambda>s. s\<lparr>myDomains := []\<rparr>))
             (set_status ''All domains cleared.''))))"

text \<open>\<open>record.Domain || record.domain\<close>, and so on, of one record of the backend.\<close>

definition dns_record_row :: "env \<Rightarrow> jsval \<Rightarrow> dns_row outcome" where
  "dns_record_row E record =
     (if nullish record then Inl (TypeError (type_msg E))
      else Inr \<lparr>dns_name = js_or (opt_prop record ''Domain'') (opt_prop record ''domain''),
                dns_owner = js_or (opt_prop record ''Owner'') (opt_prop record ''owner''),
                dns_ip = js_or (opt_prop record ''IP'') (opt_prop record ''ip'')\<rparr>)"

definition fetchDomains :: "env \<Rightarrow> ('z wallet_view_scheme, unit) js" where
  "fetchDomains E =
     try_catch
       (jbind (fetchRegisteredDomains E) (\<lambda>allDomains.
        jbind (jlift (case allDomains of JArr vs \<Rightarrow> omap (dns_record_row E) vs
                      | _ \<Rightarrow> Inl (TypeError (type_msg E)))) (\<lambda>rows.
          jmodify (\<lambda>s. s\<lparr>wv_domains := rows, domainsLoaded := True\<rparr>))))
       (\<lambda>error.
          jseq (set_status (''Error fetching domains: '' @ to_str (err_msg error)))
            (jmodify (\<lambda>s. s\<lparr>domainsLoaded := True\<rparr>)))"

subsection \<open>Mounting\<close>

definition onMounted :: "env \<Rightarrow> ('z wallet_view_scheme, unit) js" where
  "onMounted E =
     jseq
       (try_catch
         (jbind (getMinerID E) (\<lambda>minerID.
            jmodify (\<lambda>s. s\<lparr>isConnected := True, connectionStatus := ''Connected'', backendMinerID := minerID\<rparr>)))
         (\<lambda>error.
            jmodify (\<lambda>s. s\<lparr>isConnected := False, connectionStatus := ''Connection Failed'',
              wv_status := ''Failed to connect to backend. Please ensure the backend is running.''\<rparr>)))
     (jbind (loadWallet E) (\<lambda>walletLoaded.
      jseq
        (jwhen (\<not> walletLoaded)
          (try_catch (jbind (createWallet E) (\<lambda>_. jret ()))
            (\<lambda>error. set_status ''Failed to create wallet. Please refresh the page.'')))
      (jseq (syncMinerID E)
      (jseq (fetchDomains E)
        (loadMyDomains E)))))"

definition handleCreateWallet :: "env \<Rightarrow> ('z wallet_view_scheme, unit) js" where
  "handleCreateWallet E =
     try_catch
       (jbind (createWallet E) (\<lambda>_. set_status ''Wallet created successfully''))
       (\<lambda>error. set_status (''Error creating wallet: '' @ to_str (err_msg error)))"

subsection \<open>Sending a transaction\<close>

text \<open>
  The part the three handlers share: complete the transaction with a spend plan, identify
  it, sign its hash with the wallet's key, announce the sending and send it.
\<close>

definition signed_send :: "env \<Rightarrow> tx \<Rightarrow> string \<Rightarrow> ('z wallet_view_scheme, tx \<times> jsval) js" where
  "signed_send E transaction sending =
     jbind (applySpendPlan E transaction) (\<lambda>transaction.
     jbind (jlift (computeTransactionID E transaction)) (\<lambda>completeTx.
     jbind (jlift (hashTransaction E completeTx)) (\<lambda>txHash.
     jbind (jget (\<lambda>s. privateKey (wallet s))) (\<lambda>key.
     jbind (jlift (generateTransactionSignature E txHash key)) (\<lambda>signature.
     jseq (set_status sending)
     (jbind (sendTransaction E completeTx (JStr signature)) (\<lambda>response.
       jret (completeTx, response))))))))"

definition accepted :: "jsval \<Rightarrow> bool" where
  "accepted response \<longleftrightarrow> truthy response \<and> strict_eq (opt_prop response ''status'') (JStr ''success'')"

definition response_message :: "jsval \<Rightarrow> string" where
  "response_message response = to_str (js_or (opt_prop response ''message'') (JStr ''Unknown error''))"

definition error_text :: "jserr \<Rightarrow> string" where
  "error_text error = to_str (js_or (err_msg error) (JStr ''Unknown error occurred''))"

definition page_tx :: "string \<Rightarrow> string \<Rightarrow> jsval \<Rightarrow> jsval \<Rightarrow> tx" where
  "page_tx type senderID payload pk =
     buildTransaction \<lparr>b_type = JStr type, b_walletID = JStr senderID, b_fee = JInt 1,
       b_payload = payload, b_pk = pk, b_inputs = JUndef, b_outputs = JUndef\<rparr>"

subsection \<open>Committing to a domain\<close>

text \<open>The identifier of a completed transaction is a string, so \<open>to_str\<close> reads it as it is.\<close>

definition handleSubmit :: "env \<Rightarrow> ('z wallet_view_scheme, unit) js" where
  "handleSubmit E =
     jbind (jget domainName) (\<lambda>domain.
     jbind (jget isWalletLoaded) (\<lambda>loaded.
       if domain = [] \<or> \<not> loaded then jret ()
       else
         jseq (jmodify (\<lambda>s. s\<lparr>wv_isProcessing := True, wv_status := ''Creating commitment...''\<rparr>))
         (try_finally
           (try_catch
             (jbind (generateSalt E) (\<lambda>salt.
              jbind (jlift (hashDomainWithSalt E domain salt)) (\<lambda>hashedDomain.
              jbind (jget walletID) (\<lambda>senderID. case senderID of
                None \<Rightarrow> jmodify (\<lambda>s. s\<lparr>wv_status := ''Wallet ID not found. Please reload the page.'',
                                     wv_isProcessing := False\<rparr>)
              | Some senderID \<Rightarrow>
              jbind (jget wv_ttl) (\<lambda>ttl.
              jbind (jget (\<lambda>s. publicKey (wallet s))) (\<lambda>pk.
              jbind (signed_send E
                      (page_tx ''NameNew'' senderID
                        (JObj [(''commitment'', JStr hashedDomain), (''ttl'', js_or ttl (JInt 0))]) pk)
                      ''Sending transaction to network...'') (\<lambda>(completeTx, response).
                if accepted response
                then
                  jseq (jmodify (\<lambda>s. s\<lparr>lastTxId := tx_id completeTx\<rparr>))
                  (jbind (jget domainName) (\<lambda>domain.
                   jseq (savePendingDomain E senderID domain salt hashedDomain (to_str (tx_id completeTx)))
                  (jseq (jmodify (\<lambda>s. s\<lparr>wv_status := ''Commitment created! Wait for it to be mined in a block before revealing. Check '' @
                                          [CHR 0x22] @ ''My Domains'' @ [CHR 0x22] @ '' section below.'',
                                        domainName := []\<rparr>))
                    (loadMyDomains E))))
                else set_status (''Transaction failed: '' @ response_message response))))))))
             (\<lambda>error. set_status (''Error: '' @ error_text error)))
           (jmodify (\<lambda>s. s\<lparr>wv_isProcessing := False\<rparr>)))))"

subsection \<open>Revealing and updating a domain\<close>

text \<open>
  The part the two handlers share after a success: the rows of the domain in the
  wallet's stored list get new fields. And after a failure: the backend's words decide
  whether the domain is forgotten.
\<close>

definition rewrite_stored :: "env \<Rightarrow> string \<Rightarrow> jsval \<Rightarrow> (string \<times> jsval) list \<Rightarrow> ('z wallet_view_scheme, unit) js" where
  "rewrite_stored E senderID domain upd =
     (let key = pending_key senderID
      in jbind (read_list E key) (\<lambda>stored.
         jbind (jlift (arr_map E (with_fields E domain upd) stored)) (\<lambda>updated.
           ls_setItem E key (json_text updated))))"

definition reveal_shouldRemove :: "string \<Rightarrow> bool" where
  "reveal_shouldRemove msgLower \<longleftrightarrow>
     str_includes msgLower ''domain already exists'' \<or>
     str_includes msgLower ''already exists'' \<or>
     str_includes msgLower ''already claimed'' \<or>
     str_includes msgLower ''already registered'' \<or>
     str_includes msgLower ''no matching'' \<or>
     str_includes msgLower ''commitment mismatch'' \<or>
     str_includes msgLower ''expired''"

definition update_shouldRemove :: "string \<Rightarrow> bool" where
  "update_shouldRemove msgLower \<longleftrightarrow>
     str_includes msgLower ''non-existent'' \<or>
     str_includes msgLower ''expired'' \<or>
     str_includes msgLower ''does not exist'' \<or>
     str_includes msgLower ''not found'' \<or>
     str_includes msgLower ''cannot update domain you do not own''"

definition forget_domain :: "env \<Rightarrow> nat \<Rightarrow> ('z wallet_view_scheme, unit) js" where
  "forget_domain E r =
     jbind (jget walletID) (\<lambda>senderID. case senderID of
       None \<Rightarrow> jret ()
     | Some senderID \<Rightarrow>
         jbind (row_get r ''domain'') (\<lambda>domain.
         jseq (removePendingDomain E senderID domain)
         (jseq (loadMyDomains E)
           (jdetach (fetchDomains E)))))"

definition on_tx_error :: "env \<Rightarrow> (string \<Rightarrow> bool) \<Rightarrow> nat \<Rightarrow> jserr \<Rightarrow> ('z wallet_view_scheme, unit) js" where
  "on_tx_error E shouldRemove r error =
     (let msg = error_text error; msgLower = toLowerCase msg
      in jseq (set_status (''Error: '' @ msg))
           (jwhen (shouldRemove msgLower) (forget_domain E r)))"

definition quoted :: "jsval \<Rightarrow> string" where
  "quoted v = [CHR 0x22] @ to_str v @ [CHR 0x22]"

definition handleFirstUpdate :: "env \<Rightarrow> nat \<Rightarrow> ('z wallet_view_scheme, unit) js" where
  "handleFirstUpdate E pending =
     jbind (jget isWalletLoaded) (\<lambda>loaded.
     if \<not> loaded then jret ()
     else
     jbind (row_get pending ''revealIp'') (\<lambda>revealIp.
     jbind (if \<not> truthy revealIp then jret [] else jlift (js_trim E revealIp)) (\<lambda>trimmed.
     if trimmed = [] then set_status ''Please enter an IP address''
     else
       jseq (row_set pending ''isRevealing'' (JBool True))
       (jseq (set_status ''Revealing domain...'')
       (try_finally
         (try_catch
           (jbind (jget walletID) (\<lambda>senderID. case senderID of
              None \<Rightarrow> jseq (set_status ''Wallet ID not found. Please reload the page.'')
                        (row_set pending ''isRevealing'' (JBool False))
            | Some senderID \<Rightarrow>
            jbind (row_get pending ''domain'') (\<lambda>domain.
            jbind (row_get pending ''salt'') (\<lambda>salt.
            jbind (row_get pending ''revealTtl'') (\<lambda>revealTtl.
            jbind (row_get pending ''txid'') (\<lambda>txid.
            jbind (jget (\<lambda>s. publicKey (wallet s))) (\<lambda>pk.
            jbind (signed_send E
                    (page_tx ''NameFirstUpdate'' senderID
                      (JObj [(''domain'', domain), (''salt'', salt), (''ip'', JStr trimmed),
                             (''ttl'', js_or revealTtl (JInt 0)), (''txid'', txid)]) pk)
                    ''Sending reveal transaction...'') (\<lambda>(completeTx, response).
              if accepted response
              then
                jseq (jmodify (\<lambda>s. s\<lparr>lastTxId := tx_id completeTx\<rparr>))
                (jseq (set_status (''Domain '' @ quoted domain @ '' revealed successfully!''))
                (jseq (rewrite_stored E senderID domain [(''status'', JStr ''revealed''), (''ip'', JStr trimmed)])
                (jseq (loadMyDomains E)
                  (jdetach (fetchDomains E)))))
              else set_status (''Reveal failed: '' @ response_message response)))))))))
           (on_tx_error E reveal_shouldRemove pending))
         (row_set pending ''isRevealing'' (JBool False)))))))"

definition handleUpdate :: "env \<Rightarrow> nat \<Rightarrow> ('z wallet_view_scheme, unit) js" where
  "handleUpdate E domain_row =
     jbind (jget isWalletLoaded) (\<lambda>loaded.
     if \<not> loaded then jret ()
     else
     jbind (row_get domain_row ''newIp'') (\<lambda>newIp.
     jbind (if \<not> truthy newIp then jret [] else jlift (js_trim E newIp)) (\<lambda>trimmed.
     if trimmed = [] then set_status ''Please enter an IP address''
     else
       jbind (row_get domain_row ''domain'') (\<lambda>domain.
       jseq (row_set domain_row ''isUpdating'' (JBool True))
       (jseq (set_status (''Updating IP for '' @ to_str domain @ ''...''))
       (try_finally
         (try_catch
           (jbind (jget walletID) (\<lambda>senderID. case senderID of
              None \<Rightarrow> jseq (set_status ''Wallet ID not found. Please reload the page.'')
                        (row_set domain_row ''isUpdating'' (JBool False))
            | Some senderID \<Rightarrow>
            jbind (row_get domain_row ''updateTtl'') (\<lambda>updateTtl.
            jbind (jget (\<lambda>s. publicKey (wallet s))) (\<lambda>pk.
            jbind (signed_send E
                    (page_tx ''NameUpdate'' senderID
                      (JObj [(''domain'', domain), (''ip'', JStr trimmed), (''ttl'', js_or updateTtl (JInt 0))]) pk)
                    ''Sending update transaction...'') (\<lambda>(completeTx, response).
              if accepted response
              then
                jseq (jmodify (\<lambda>s. s\<lparr>lastTxId := tx_id completeTx\<rparr>))
                (jseq (set_status (''IP updated for '' @ quoted domain @ ''! Wait for it to be mined in a block.''))
                (jseq (rewrite_stored E senderID domain [(''ip'', JStr trimmed)])
                (jseq (row_set domain_row ''newIp'' (JStr []))
                  (loadMyDomains E))))
              else set_status (''Update failed: '' @ response_message response))))))
           (on_tx_error E update_shouldRemove domain_row))
         (row_set domain_row ''isUpdating'' (JBool False))))))))"

end
