(* ===== verification/WalletInv.thy ===== *)
theory WalletInv
  imports WalletView
begin

section \<open>Invariants of the wallet page\<close>

text \<open>
  Every row a wallet has stored is pending or revealed and holds the domain and the salt
  its commitment was made from; the rows on show are such rows; nothing stays marked as in
  progress after a handler has ended, however it ended. Each handler is shown to preserve
  this, and rule induction gives it for every sequence of events.
\<close>

subsection \<open>Stored and shown rows\<close>

definition row_committed :: "env \<Rightarrow> jsval \<Rightarrow> bool" where
  "row_committed E d =
     (case (opt_prop d ''domain'', opt_prop d ''salt'') of
        (JStr domain, JStr salt) \<Rightarrow> map_sum id JStr (generateHash E domain salt) = Inr (opt_prop d ''commitment'')
      | _ \<Rightarrow> False)"

definition row_good :: "env \<Rightarrow> jsval \<Rightarrow> bool" where
  "row_good E d \<longleftrightarrow> row_status_ok d \<and> row_committed E d"

definition shown_ok :: "env \<Rightarrow> 'z wallet_view_scheme \<Rightarrow> bool" where
  "shown_ok E s \<longleftrightarrow> (\<forall>r\<in>set (myDomains s). r < next_row s \<and> row_committed E (JObj (row_store s r)))"

definition rows_inv :: "env \<Rightarrow> 'z wallet_view_scheme \<Rightarrow> bool" where
  "rows_inv E s \<longleftrightarrow> books_good s \<and> (\<forall>n. list_all (row_good E) (rows s n)) \<and> shown_ok E s"

abbreviation rows_part :: "'z wallet_view_scheme \<Rightarrow> _" where
  "rows_part s \<equiv> (localStorage s, row_store s, next_row s, myDomains s)"

lemma rows_part_upholds:
  fixes m :: "('z wallet_view_scheme, 'a) js"
  assumes k: "keeps rows_part m"
  shows "upholds (rows_inv E) m"
proof (rule upholdsI)
  fix s :: "'z wallet_view_scheme"
  assume s: "rows_inv E s"
  from keepsD [OF k, of s] have
    "localStorage (snd (m s)) = localStorage s" "row_store (snd (m s)) = row_store s"
    "next_row (snd (m s)) = next_row s" "myDomains (snd (m s)) = myDomains s" by simp_all
  with s show "rows_inv E (snd (m s))"
    by (simp add: rows_inv_def shown_ok_def books_good_def rows_def)
qed

lemma set_status_keeps [keeps_rules]:
  "(\<And>s x. f (s\<lparr>wv_status := x\<rparr>) = f s) \<Longrightarrow> keeps f (set_status msg)"
  by (simp add: set_status_def keeps_def)

lemma row_get_pure [keeps_rules]: "keeps f (row_get r k)"
  by (simp add: row_get_def keeps_def)

lemma row_get_upholds [upholds_rules]: "upholds P (row_get r k)"
  by (simp add: row_get_def upholds_def)

lemma set_status_upholds [upholds_rules]: "upholds (rows_inv E) (set_status msg)"
  by (intro rows_part_upholds keeps_rules) simp

lemma fold_fields_get:
  "k \<notin> fst ` set upd \<Longrightarrow> fields_get (fold (\<lambda>(k, v). fields_put k v) upd fs) k = fields_get fs k"
  by (induction upd arbitrary: fs) auto

lemma row_committed_cong:
  "opt_prop d ''domain'' = opt_prop d' ''domain'' \<Longrightarrow> opt_prop d ''salt'' = opt_prop d' ''salt'' \<Longrightarrow>
   opt_prop d ''commitment'' = opt_prop d' ''commitment'' \<Longrightarrow> row_committed E d = row_committed E d'"
  unfolding row_committed_def by (auto split: jsval.split)

lemma row_committed_JObj: "row_committed E d \<Longrightarrow> \<exists>fs. d = JObj fs"
  by (cases d) (auto simp: row_committed_def)

lemma row_committed_put:
  assumes "row_committed E d" "{''domain'', ''salt'', ''commitment''} \<inter> fst ` set upd = {}"
  shows "row_committed E (put_fields upd d)"
proof -
  obtain fs where "d = JObj fs" using row_committed_JObj [OF assms(1)] by blast
  with assms(2) have "row_committed E (put_fields upd d) = row_committed E d"
    by (intro row_committed_cong) (simp_all add: put_fields_def fold_fields_get)
  with assms(1) show ?thesis by simp
qed

lemma row_set_upholds [upholds_rules]:
  "k \<notin> {''domain'', ''salt'', ''commitment''} \<Longrightarrow> upholds (rows_inv E) (row_set r k v)"
proof (rule upholdsI)
  fix s :: "'z wallet_view_scheme"
  assume k: "k \<notin> {''domain'', ''salt'', ''commitment''}" and s: "rows_inv E s"
  have "row_committed E (JObj (fields_put k v fs)) = row_committed E (JObj fs)" for fs
    using k by (intro row_committed_cong) auto
  with s show "rows_inv E (snd (row_set r k v s))"
    by (simp add: row_set_def rows_inv_def shown_ok_def books_good_def rows_def)
qed

subsection \<open>The operations on the rows\<close>

lemma view_row_ok:
  assumes "row_ok d"
  shows "\<exists>fs. view_row E d = Inr fs \<and> row_committed E (JObj fs) = row_committed E d \<and>
    fields_get fs ''isRevealing'' = JBool False \<and> fields_get fs ''isUpdating'' = JBool False"
proof -
  obtain fs where d: "d = JObj fs" using assms by (cases d) auto
  show ?thesis unfolding d
    by (rule exI, intro conjI, simp only: view_row_def js_prop_def, simp, rule row_committed_cong) simp_all
qed

lemma view_rows_ok:
  assumes "list_all row_ok vs"
  shows "\<exists>fss. view_rows E (JArr vs) = Inr fss \<and> length fss = length vs \<and>
    (\<forall>i<length vs. row_committed E (JObj (fss ! i)) = row_committed E (vs ! i)) \<and>
    (\<forall>i<length vs. fields_get (fss ! i) ''isRevealing'' = JBool False \<and> fields_get (fss ! i) ''isUpdating'' = JBool False)"
proof -
  have "\<forall>d\<in>set vs. \<exists>fs. view_row E d = Inr fs \<and> row_committed E (JObj fs) = row_committed E d \<and>
    fields_get fs ''isRevealing'' = JBool False \<and> fields_get fs ''isUpdating'' = JBool False"
    using assms view_row_ok by (auto simp: list_all_iff)
  then obtain g where g: "\<forall>d\<in>set vs. view_row E d = Inr (g d) \<and> row_committed E (JObj (g d)) = row_committed E d \<and>
    fields_get (g d) ''isRevealing'' = JBool False \<and> fields_get (g d) ''isUpdating'' = JBool False"
    by metis
  then have "view_rows E (JArr vs) = Inr (map g vs)"
    using omap_total [of vs "view_row E" g] by (simp add: view_rows_def)
  then show ?thesis using g by auto
qed

lemma loadMyDomains_run:
  assumes "books_good s" "walletID s = Some m"
  shows "\<exists>fss. loadMyDomains E s = show_rows fss s \<and> length fss = length (rows s m) \<and>
    (\<forall>i<length fss. row_committed E (JObj (fss ! i)) = row_committed E (rows s m ! i)) \<and>
    (\<forall>i<length fss. fields_get (fss ! i) ''isRevealing'' = JBool False \<and> fields_get (fss ! i) ''isUpdating'' = JBool False)"
  using view_rows_ok [OF books_good_rows [OF assms(1), of m], of E] assms
  by (auto simp: loadMyDomains_def jbind_run getPendingDomains_def read_list_rows)

lemma loadMyDomains_upholds [upholds_rules]: "upholds (rows_inv E) (loadMyDomains E)"
proof (rule upholdsI)
  fix s :: "'z wallet_view_scheme"
  assume s: "rows_inv E s"
  show "rows_inv E (snd (loadMyDomains E s))"
  proof (cases "walletID s")
    case None
    then show ?thesis using s by (simp add: loadMyDomains_def jbind_run)
  next
    case (Some m)
    obtain fss where run: "loadMyDomains E s = show_rows fss s" and
      fss: "length fss = length (rows s m)" "\<forall>i<length fss. row_committed E (JObj (fss ! i)) = row_committed E (rows s m ! i)"
      using loadMyDomains_run [OF _ Some, of E] s unfolding rows_inv_def by blast
    have "list_all (row_good E) (rows s m)" using s by (simp add: rows_inv_def)
    then have "\<forall>i<length fss. row_committed E (JObj (fss ! i))"
      using fss by (auto simp: list_all_length row_good_def)
    then show ?thesis
      using s by (auto simp: run show_rows_def Let_def rows_inv_def shown_ok_def books_good_def rows_def)
  qed
qed

text \<open>An operation of the book that keeps good rows good.\<close>

lemma book_rows_upholds:
  fixes op :: "('z wallet_view_scheme, unit) js"
  assumes "book_op_rows op m f (row_good E)" "keeps (\<lambda>s. (row_store s, next_row s, myDomains s)) op"
  shows "upholds (rows_inv E) op"
proof (rule upholdsI)
  fix s :: "'z wallet_view_scheme"
  assume s: "rows_inv E s"
  from keepsD [OF assms(2), of s] have
    "row_store (snd (op s)) = row_store s" "next_row (snd (op s)) = next_row s" "myDomains (snd (op s)) = myDomains s"
    by simp_all
  moreover have "books_good (snd (op s)) \<and> (\<forall>n. list_all (row_good E) (rows (snd (op s)) n))"
    using upholdsD [OF book_op_rows.op_upholds_rows [OF assms(1)], of s] s by (simp add: rows_inv_def)
  ultimately show "rows_inv E (snd (op s))" using s by (simp add: rows_inv_def shown_ok_def)
qed

lemma row_good_update:
  assumes "list_all (row_good E) vs" "{''domain'', ''salt'', ''commitment''} \<inter> fst ` set upd = {}"
    "list_all (\<lambda>(k, v). k = ''status'' \<longrightarrow> v \<in> {JStr ''pending'', JStr ''revealed''}) upd"
  shows "list_all (row_good E) (update_rows domain upd vs)"
proof -
  have "list_all row_status_ok vs" using assms(1) by (simp add: row_good_def list_all_iff)
  then have "list_all row_status_ok (update_rows domain upd vs)" by (rule row_status_update [OF _ assms(3)])
  moreover have "list_all (row_committed E) (update_rows domain upd vs)"
    using row_committed_put [OF _ assms(2)] assms(1) by (auto simp: update_rows_def row_good_def list_all_iff)
  ultimately show ?thesis by (simp add: row_good_def list_all_iff)
qed

lemma rewrite_stored_book:
  "list_all (\<lambda>(k, v). json_ok v) upd \<Longrightarrow>
     book_op (rewrite_stored E m domain upd) m (\<lambda>_. update_rows domain upd)"
  unfolding rewrite_stored_def Let_def
  by (rule book_op_rewrite) (simp_all add: arr_map_rows row_ok_update_rows)

interpretation reveal_stored: book_op_rows "rewrite_stored E m domain [(''status'', JStr ''revealed''), (''ip'', JStr ip)]" m
  "\<lambda>_. update_rows domain [(''status'', JStr ''revealed''), (''ip'', JStr ip)]" "row_good E" for E m domain ip
  by (intro book_op_rows.intro rewrite_stored_book book_op_rows_axioms.intro row_good_update) simp_all

interpretation update_stored: book_op_rows "rewrite_stored E m domain [(''ip'', JStr ip)]" m
  "\<lambda>_. update_rows domain [(''ip'', JStr ip)]" "row_good E" for E m domain ip
  by (intro book_op_rows.intro rewrite_stored_book book_op_rows_axioms.intro row_good_update) simp_all

interpretation forget_stored: book_op_rows "removePendingDomain E m domain" m
  "\<lambda>_. filter (\<lambda>d. \<not> row_is domain d)" "row_good E" for E m domain
  by unfold_locales (simp add: list_all_iff)

lemma commit_stored:
  assumes "generateHash E d sa = Inr c"
  shows "book_op_rows (savePendingDomain E m d sa c t) m
    (\<lambda>s vs. vs @ [pending_row d sa c t (now_ms E (ticks s))]) (row_good E)"
proof -
  have "row_good E (pending_row d sa c t now)" for now
    using assms row_status_pending by (simp add: row_good_def row_committed_def pending_row_def)
  then show ?thesis by unfold_locales simp
qed

lemma rewrite_stored_keeps [keeps_rules]:
  "(\<And>s m. f (s\<lparr>localStorage := m\<rparr>) = f s) \<Longrightarrow> keeps f (rewrite_stored E m domain upd)"
  unfolding rewrite_stored_def read_list_def Let_def by (intro keeps_rules)

lemma removePendingDomain_keeps [keeps_rules]:
  "(\<And>s m. f (s\<lparr>localStorage := m\<rparr>) = f s) \<Longrightarrow> keeps f (removePendingDomain E m domain)"
  unfolding removePendingDomain_def read_list_def Let_def by (intro keeps_rules)

lemma savePendingDomain_keeps [keeps_rules]:
  "(\<And>s m. f (s\<lparr>localStorage := m\<rparr>) = f s) \<Longrightarrow> (\<And>s n. f (s\<lparr>ticks := n\<rparr>) = f s) \<Longrightarrow>
     keeps f (savePendingDomain E m d sa c t)"
  unfolding savePendingDomain_def read_list_def Let_def by (intro keeps_rules)

lemma rewrite_upholds [upholds_rules]:
  "upholds (rows_inv E) (rewrite_stored E m domain [(''status'', JStr ''revealed''), (''ip'', JStr ip)])"
  "upholds (rows_inv E) (rewrite_stored E m domain [(''ip'', JStr ip)])"
  by (rule book_rows_upholds, rule reveal_stored.book_op_rows_axioms, intro keeps_rules, simp,
      rule book_rows_upholds, rule update_stored.book_op_rows_axioms, intro keeps_rules, simp)

lemma remove_upholds [upholds_rules]: "upholds (rows_inv E) (removePendingDomain E m domain)"
  by (rule book_rows_upholds, rule forget_stored.book_op_rows_axioms, intro keeps_rules, simp)

lemma save_upholds: "generateHash E d sa = Inr c \<Longrightarrow> upholds (rows_inv E) (savePendingDomain E m d sa c t)"
  by (rule book_rows_upholds, erule commit_stored, intro keeps_rules) simp_all

subsection \<open>The calls that leave the rows alone\<close>

lemma applySpendPlan_keeps [keeps_rules]:
  "(\<And>s r. f (s\<lparr>sent := r\<rparr>) = f s) \<Longrightarrow> keeps f (applySpendPlan E tx)"
  unfolding applySpendPlan_def by (intro keeps_rules)

lemma signed_send_keeps [keeps_rules]:
  "(\<And>s r. f (s\<lparr>sent := r\<rparr>) = f s) \<Longrightarrow> (\<And>s x. f (s\<lparr>wv_status := x\<rparr>) = f s) \<Longrightarrow>
     keeps f (signed_send E tx msg)"
  unfolding signed_send_def by (intro keeps_rules)

lemma fetchDomains_keeps [keeps_rules]:
  "(\<And>s r. f (s\<lparr>sent := r\<rparr>) = f s) \<Longrightarrow> (\<And>s x. f (s\<lparr>wv_status := x\<rparr>) = f s) \<Longrightarrow>
   (\<And>s x. f (s\<lparr>wv_domains := x, domainsLoaded := True\<rparr>) = f s) \<Longrightarrow> (\<And>s. f (s\<lparr>domainsLoaded := True\<rparr>) = f s) \<Longrightarrow>
     keeps f (fetchDomains E)"
  unfolding fetchDomains_def by (intro keeps_rules)

lemma syncMinerID_keeps [keeps_rules]:
  "(\<And>s r. f (s\<lparr>sent := r\<rparr>) = f s) \<Longrightarrow> (\<And>s x. f (s\<lparr>wv_status := x\<rparr>) = f s) \<Longrightarrow>
   (\<And>s x. f (s\<lparr>backendMinerID := x\<rparr>) = f s) \<Longrightarrow> keeps f (syncMinerID E)"
  unfolding syncMinerID_def by (intro keeps_rules)

lemma generateSalt_keeps [keeps_rules]:
  "(\<And>s n. f (s\<lparr>draws := n\<rparr>) = f s) \<Longrightarrow> (\<And>s n. f (s\<lparr>window_length := n\<rparr>) = f s) \<Longrightarrow> keeps f (generateSalt E)"
  unfolding generateSalt_def generateRandomSalt_def by (intro keeps_rules)

lemma getItem_keeps [keeps_rules]: "keeps f (getItem E k d)"
  by (simp add: keeps_def getItem_run)

lemma createWallet_keeps [keeps_rules]:
  "(\<And>s n. f (s\<lparr>draws := n\<rparr>) = f s) \<Longrightarrow> (\<And>s n. f (s\<lparr>ticks := n\<rparr>) = f s) \<Longrightarrow>
   (\<And>s m. f (s\<lparr>localStorage := m\<rparr>) = f s) \<Longrightarrow> (\<And>s w. f (s\<lparr>wallet := w\<rparr>) = f s) \<Longrightarrow> keeps f (createWallet E)"
  unfolding createWallet_def generateKeyPair_def by (intro keeps_rules)

lemma loadWallet_keeps [keeps_rules]:
  "(\<And>s w. f (s\<lparr>wallet := w\<rparr>) = f s) \<Longrightarrow> keeps f (loadWallet E)"
  unfolding loadWallet_def loadWallet_data_def getWalletData_def by (intro keeps_rules)

lemma calls_uphold_rows [upholds_rules]:
  "upholds (rows_inv E) (signed_send F tx msg)"
  "upholds (rows_inv E) (fetchDomains F)"
  "upholds (rows_inv E) (syncMinerID F)"
  "upholds (rows_inv E) (generateSalt F)"
  "upholds (rows_inv E) (loadWallet F)"
  "upholds (rows_inv E) (getMinerID F)"
  by (rule rows_part_upholds, intro keeps_rules, simp_all)+

lemma jmodify_rows_upholds [upholds_rules]:
  "(\<And>s. rows_part (g s) = rows_part s) \<Longrightarrow> upholds (rows_inv E) (jmodify g)"
  by (rule rows_part_upholds) (simp add: keeps_def)

text \<open>Saving the wallet writes under a key no list of domains is stored at.\<close>

lemma rows_inv_wallet_key:
  "rows_inv E (s\<lparr>ticks := n, localStorage := (localStorage s)(WALLET_key \<mapsto> v)\<rparr>) = rows_inv E s"
  "rows_inv E (s\<lparr>ticks := n\<rparr>) = rows_inv E s"
proof -
  have "book ((localStorage s)(WALLET_key \<mapsto> v)) m = book (localStorage s) m" for m
    by (rule book_frame) (metis WALLET_key_facts(3))
  then show "rows_inv E (s\<lparr>ticks := n, localStorage := (localStorage s)(WALLET_key \<mapsto> v)\<rparr>) = rows_inv E s"
    "rows_inv E (s\<lparr>ticks := n\<rparr>) = rows_inv E s"
    by (simp_all add: rows_inv_def shown_ok_def books_good_def book_ok_def rows_def)
qed

lemma saveWallet_upholds [upholds_rules]: "upholds (rows_inv E) (saveWallet F a b)"
  by (simp add: upholds_def saveWallet_run Let_def rows_inv_wallet_key)

lemma set_wallet_upholds [upholds_rules]: "upholds (rows_inv E) (set_wallet a b i)"
  by (intro rows_part_upholds keeps_rules) simp

lemma createWallet_upholds [upholds_rules]: "upholds (rows_inv E) (createWallet F)"
  unfolding createWallet_def generateKeyPair_def
  by (intro upholds_rules rows_part_upholds [of "sign_keyPair F"] keeps_rules) simp

lemma clear_upholds [upholds_rules]:
  "upholds (rows_inv E) (jseq (clearAllPendingDomains m) (jseq (jmodify (\<lambda>s. s\<lparr>myDomains := []\<rparr>)) n))"
  if "upholds (rows_inv E) n"
proof (rule upholdsI)
  fix s :: "'a wallet_view_scheme"
  assume s: "rows_inv E s"
  obtain t where run: "clearAllPendingDomains m s = (Inr (), t)" by (simp add: clearAllPendingDomains_def)
  have t: "books_good t" "rows t m = []" using clear_pending.op_ok [OF _ run] s by (simp_all add: rows_inv_def)
  have "list_all (row_good E) (rows t k)" for k
    using s t(2) clear_pending.op_other [of s k m] run by (cases "k = m") (simp_all add: rows_inv_def)
  then have "rows_inv E (t\<lparr>myDomains := []\<rparr>)"
    using t(1) by (simp add: rows_inv_def shown_ok_def books_good_def rows_def)
  then show "rows_inv E (snd (jseq (clearAllPendingDomains m) (jseq (jmodify (\<lambda>s. s\<lparr>myDomains := []\<rparr>)) n) s))"
    using upholdsD [OF that] run by (simp add: jseq_run)
qed

subsection \<open>Every handler keeps the rows good\<close>

lemma forget_domain_upholds [upholds_rules]: "upholds (rows_inv E) (forget_domain E r)"
  unfolding forget_domain_def by (intro upholds_rules)

lemma on_tx_error_upholds [upholds_rules]: "upholds (rows_inv E) (on_tx_error E sr r e)"
  unfolding on_tx_error_def Let_def by (intro upholds_rules)

lemma onMounted_rows: "upholds (rows_inv E) (onMounted E)"
  unfolding onMounted_def by (intro upholds_rules) simp_all

lemma handleFirstUpdate_rows: "upholds (rows_inv E) (handleFirstUpdate E r)"
  unfolding handleFirstUpdate_def by (intro upholds_rules) simp_all

lemma handleUpdate_rows: "upholds (rows_inv E) (handleUpdate E r)"
  unfolding handleUpdate_def by (intro upholds_rules) simp_all

lemma watch_id_rows: "upholds (rows_inv E) (watch_id E)"
  unfolding watch_id_def by (intro upholds_rules)

lemma handleCreateWallet_rows: "upholds (rows_inv E) (handleCreateWallet E)"
  unfolding handleCreateWallet_def by (intro upholds_rules)

lemma clearPendingDomains_rows: "upholds (rows_inv E) (clearPendingDomains E)"
  unfolding clearPendingDomains_def
  by (intro upholds_jbind clear_upholds upholds_rules rows_part_upholds [of "js_confirm E"] keeps_rules) simp

text \<open>
  Committing: the domain whose hash was sent is the domain stored, because nothing between
  the two changes the field it is read from.
\<close>

lemma store_commitment_rows:
  assumes "generateHash E domain salt = Inr h"
  shows "leads (\<lambda>s. rows_inv E s \<and> domainName s = domain)
    (jseq (jmodify (\<lambda>s. s\<lparr>lastTxId := i\<rparr>))
      (jbind (jget domainName) (\<lambda>domain. jseq (savePendingDomain E m domain salt h t) (jseq (jmodify (\<lambda>s. s\<lparr>wv_status := msg, domainName := []\<rparr>)) (loadMyDomains E)))))
    (rows_inv E)"
proof (rule leads_jseq)
  show "leads (\<lambda>s. rows_inv E s \<and> domainName s = domain) (jmodify (\<lambda>s. s\<lparr>lastTxId := i\<rparr>))
     (\<lambda>s. rows_inv E s \<and> domainName s = domain)"
    by (intro leads_keeps upholds_rules keeps_rules) simp_all
  show "leads (\<lambda>s. rows_inv E s \<and> domainName s = domain)
    (jbind (jget domainName) (\<lambda>domain. jseq (savePendingDomain E m domain salt h t) (jseq (jmodify (\<lambda>s. s\<lparr>wv_status := msg, domainName := []\<rparr>)) (loadMyDomains E))))
    (rows_inv E)"
  proof (rule leads_jget)
    fix x
    have "upholds (rows_inv E) (jseq (savePendingDomain E m domain salt h t)
        (jseq (jmodify (\<lambda>s. s\<lparr>wv_status := msg, domainName := []\<rparr>)) (loadMyDomains E)))"
      by (intro upholds_rules save_upholds assms) simp
    then show "leads (\<lambda>s. (rows_inv E s \<and> domainName s = domain) \<and> domainName s = x)
       (jseq (savePendingDomain E m x salt h t) (jseq (jmodify (\<lambda>s. s\<lparr>wv_status := msg, domainName := []\<rparr>)) (loadMyDomains E)))
       (rows_inv E)"
      by (cases "x = domain") (auto simp: upholds_leads leads_def)
  qed
qed simp

lemma handleSubmit_rows: "upholds (rows_inv E) (handleSubmit E)"
proof -
  let ?D = "\<lambda>domain s. rows_inv E s \<and> domainName s = domain"
  have weak: "?D d s \<Longrightarrow> rows_inv E s" for d s by simp
  have salt: "leads (?D d) (generateSalt E) (?D d)" for d
    by (intro leads_keeps upholds_rules keeps_rules) simp_all
  have send: "leads (?D d) (signed_send E tx msg) (?D d)" for d tx msg
    by (intro leads_keeps upholds_rules keeps_rules) simp_all
  have mark: "leads (?D d) (jmodify (\<lambda>s. s\<lparr>wv_isProcessing := b, wv_status := m\<rparr>)) (?D d)" for d b m
    by (intro leads_keeps upholds_rules keeps_rules) simp_all
  have up: "leads (?D d) (jmodify (\<lambda>s. s\<lparr>wv_status := x, wv_isProcessing := False\<rparr>)) (rows_inv E)"
    "leads (?D d) (set_status x) (rows_inv E)" "leads (?D d) (jret ()) (rows_inv E)" for d x
    by (intro leads_weaken upholds_rules; simp)+
  have fin: "leads (rows_inv E) (jmodify (\<lambda>s. s\<lparr>wv_isProcessing := False\<rparr>)) (rows_inv E)"
    unfolding upholds_leads [symmetric] by (intro upholds_rules) simp
  show ?thesis unfolding handleSubmit_def upholds_leads
    apply (rule leads_jget, rule leads_jget_any)
    apply (split if_split, intro conjI impI up(3))
    apply (rule leads_jseq [OF mark _ weak], rule leads_try_finally [OF leads_try_catch fin])
      apply (rule leads_jbind [OF salt _ weak], rule leads_jlift [OF weak], assumption)
       apply (rule leads_jget_any)
       apply (split option.split, intro conjI allI impI up(1) leads_jget_any)
       apply (rule leads_jbind [OF send _ weak])
        apply (split prod.split, intro allI impI)
        apply (split if_split, intro conjI impI up(2), rule store_commitment_rows)
        apply (simp_all add: hashDomainWithSalt_def upholds_rules)
    done
qed

subsection \<open>Nothing stays marked as busy\<close>

definition busy_keys :: "string set" where
  "busy_keys = {''isRevealing'', ''isUpdating''}"

text \<open>All rows ever made are idle, except for the marks in \<open>B\<close>.\<close>

definition idle_except :: "(nat \<times> string) set \<Rightarrow> 'z wallet_view_scheme \<Rightarrow> bool" where
  "idle_except B s \<longleftrightarrow>
     (\<forall>i<next_row s. \<forall>k\<in>busy_keys. (i, k) \<notin> B \<longrightarrow> fields_get (row_store s i) k = JBool False)"

lemma idle_keeps: "keeps (\<lambda>s. (row_store s, next_row s)) m \<Longrightarrow> upholds (idle_except B) m"
  by (simp add: upholds_def keeps_def idle_except_def)

lemma row_set_idle [upholds_rules]:
  "k \<notin> busy_keys \<or> (r, k) \<in> B \<Longrightarrow> upholds (idle_except B) (row_set r k v)"
  by (auto simp: upholds_def row_set_def idle_except_def)

lemma row_set_done: "leads (idle_except {(r, k)}) (row_set r k (JBool False)) (idle_except {})"
  by (auto simp: leads_def row_set_def idle_except_def)

lemma idle_mono: "idle_except {} s \<Longrightarrow> idle_except B s"
  by (simp add: idle_except_def)

lemma view_row_idle: "view_row E d = Inr fs \<Longrightarrow> k \<in> busy_keys \<Longrightarrow> fields_get fs k = JBool False"
  by (auto simp: view_row_def busy_keys_def split: sum.split_asm)

lemma omap_Inr_nth: "omap f xs = Inr ys \<Longrightarrow> length ys = length xs \<and> (\<forall>i<length xs. f (xs ! i) = Inr (ys ! i))"
proof (induction xs arbitrary: ys)
  case (Cons x xs)
  then show ?case by (auto simp: nth_Cons split: sum.split_asm nat.split)
qed simp

lemma show_rows_idle:
  assumes "view_rows E v = Inr fss"
  shows "upholds (idle_except B) (show_rows fss)"
proof -
  obtain vs where "omap (view_row E) vs = Inr fss" using assms by (auto simp: view_rows_def split: jsval.split_asm)
  then have "\<forall>i<length fss. \<forall>k\<in>busy_keys. fields_get (fss ! i) k = JBool False"
    using omap_Inr_nth view_row_idle by metis
  then show ?thesis by (auto simp: upholds_def show_rows_def Let_def idle_except_def)
qed

lemma loadMyDomains_cases:
  "snd (loadMyDomains E s) = s \<or> (\<exists>v fss. view_rows E v = Inr fss \<and> loadMyDomains E s = show_rows fss s)"
  by (auto simp: loadMyDomains_def getPendingDomains_def read_list_def jbind_run split: option.split sum.split)

lemma loadMyDomains_idle [upholds_rules]: "upholds (idle_except B) (loadMyDomains E)"
proof (rule upholdsI)
  fix s :: "'a wallet_view_scheme"
  assume "idle_except B s"
  then show "idle_except B (snd (loadMyDomains E s))"
    using loadMyDomains_cases [of E s] upholdsD [OF show_rows_idle, of E _ _ B s] by auto
qed

lemma loadMyDomains_keeps [keeps_rules]:
  "(\<And>s a b c. f (s\<lparr>row_store := a, next_row := b, myDomains := c\<rparr>) = f s) \<Longrightarrow> keeps f (loadMyDomains E)"
  unfolding keeps_def
proof
  fix s
  assume "\<And>s a b c. f (s\<lparr>row_store := a, next_row := b, myDomains := c\<rparr>) = f s"
  then show "f (snd (loadMyDomains E s)) = f s"
    using loadMyDomains_cases [of E s] by (auto simp: show_rows_def Let_def)
qed

lemma jmodify_idle [upholds_rules]:
  "(\<And>s. row_store (g s) = row_store s \<and> next_row (g s) = next_row s) \<Longrightarrow> upholds (idle_except B) (jmodify g)"
  by (simp add: upholds_def idle_except_def)

lemma calls_idle [upholds_rules]:
  "upholds (idle_except B) (signed_send F tx msg)"
  "upholds (idle_except B) (fetchDomains F)"
  "upholds (idle_except B) (syncMinerID F)"
  "upholds (idle_except B) (generateSalt F)"
  "upholds (idle_except B) (loadWallet F)"
  "upholds (idle_except B) (createWallet F)"
  "upholds (idle_except B) (getMinerID F)"
  "upholds (idle_except B) (set_status x)"
  "upholds (idle_except B) (js_confirm F)"
  "upholds (idle_except B) (rewrite_stored F m d upd)"
  "upholds (idle_except B) (removePendingDomain F m d)"
  "upholds (idle_except B) (savePendingDomain F m dd sa c t)"
  "upholds (idle_except B) (clearAllPendingDomains m)"
  unfolding clearAllPendingDomains_def
  by (rule idle_keeps, intro keeps_rules, simp_all)+

lemma on_tx_error_idle [upholds_rules]: "upholds (idle_except B) (on_tx_error E sr r e)"
  unfolding on_tx_error_def forget_domain_def Let_def by (intro upholds_rules)

lemma handler_idle:
  "upholds (idle_except {}) (onMounted E)"
  "upholds (idle_except {}) (watch_id E)"
  "upholds (idle_except {}) (clearPendingDomains E)"
  "upholds (idle_except {}) (handleCreateWallet E)"
  unfolding onMounted_def watch_id_def clearPendingDomains_def handleCreateWallet_def
  by (intro upholds_rules; simp)+

lemma handleSubmit_idle: "upholds (idle_except {}) (handleSubmit E)"
  unfolding handleSubmit_def by (intro upholds_rules; simp)

text \<open>A row is marked busy for the time of its handler: the \<open>finally\<close> clears the mark on every path.\<close>

lemma busy_handler:
  assumes "upholds (idle_except {(r, k)}) m"
  shows "upholds (idle_except {})
    (jseq (row_set r k (JBool True)) (jseq (set_status x) (try_finally m (row_set r k (JBool False)))))"
proof (rule upholdsI)
  fix s :: "'a wallet_view_scheme"
  assume "idle_except {} s"
  then have "idle_except {(r, k)} ((s\<lparr>row_store := (row_store s)(r := fields_put k (JBool True) (row_store s r))\<rparr>)\<lparr>wv_status := x\<rparr>)"
    by (auto simp: idle_except_def)
  with leads_try_finally [OF assms [unfolded upholds_leads] row_set_done]
  show "idle_except {} (snd (jseq (row_set r k (JBool True)) (jseq (set_status x) (try_finally m (row_set r k (JBool False)))) s))"
    unfolding leads_def by (simp add: jseq_run row_set_def set_status_def)
qed

lemma handleFirstUpdate_idle: "upholds (idle_except {}) (handleFirstUpdate E r)"
  unfolding handleFirstUpdate_def
  by (intro upholds_jbind busy_handler upholds_rules; simp add: busy_keys_def)

lemma handleUpdate_idle: "upholds (idle_except {}) (handleUpdate E r)"
  unfolding handleUpdate_def
  by (intro upholds_jbind busy_handler upholds_rules; simp add: busy_keys_def)

subsection \<open>The wallet and the progress mark\<close>

lemma row_set_keeps [keeps_rules]: "(\<And>s x. f (s\<lparr>row_store := x\<rparr>) = f s) \<Longrightarrow> keeps f (row_set r k v)"
  by (simp add: row_set_def keeps_def)

lemma on_tx_error_keeps [keeps_rules]:
  "(\<And>s r. f (s\<lparr>sent := r\<rparr>) = f s) \<Longrightarrow> (\<And>s x. f (s\<lparr>wv_status := x\<rparr>) = f s) \<Longrightarrow>
   (\<And>s x. f (s\<lparr>wv_domains := x, domainsLoaded := True\<rparr>) = f s) \<Longrightarrow> (\<And>s. f (s\<lparr>domainsLoaded := True\<rparr>) = f s) \<Longrightarrow>
   (\<And>s m. f (s\<lparr>localStorage := m\<rparr>) = f s) \<Longrightarrow>
   (\<And>s a b c. f (s\<lparr>row_store := a, next_row := b, myDomains := c\<rparr>) = f s) \<Longrightarrow>
     keeps f (on_tx_error E sr r e)"
  unfolding on_tx_error_def forget_domain_def Let_def by (intro keeps_rules)

lemma clearAll_keeps [keeps_rules]:
  "(\<And>s m. f (s\<lparr>localStorage := m\<rparr>) = f s) \<Longrightarrow> keeps f (clearAllPendingDomains m)"
  unfolding clearAllPendingDomains_def by (intro keeps_rules)

lemma handlers_keep_wallet:
  "keeps wallet (handleSubmit E)"
  "keeps wallet (handleFirstUpdate E r)"
  "keeps wallet (handleUpdate E r)"
  "keeps wallet (clearPendingDomains E)"
  "keeps wallet (watch_id E)"
  unfolding handleSubmit_def handleFirstUpdate_def handleUpdate_def clearPendingDomains_def watch_id_def
  by (intro keeps_rules; simp)+

lemma onMounted_coherent: "upholds (wallet_coherent E) (onMounted E)"
  unfolding onMounted_def
  by (intro upholds_jseq upholds_jbind upholds_jwhen upholds_try_catch upholds_pure
        loadWallet_coherent createWallet_coherent keeps_wallet_coherent keeps_rules) simp_all

lemma handleCreateWallet_coherent: "upholds (wallet_coherent E) (handleCreateWallet E)"
  unfolding handleCreateWallet_def
  by (intro upholds_jbind upholds_try_catch createWallet_coherent keeps_wallet_coherent keeps_rules) simp_all

lemma handlers_keep_processing:
  "keeps wv_isProcessing (onMounted E)"
  "keeps wv_isProcessing (handleFirstUpdate E r)"
  "keeps wv_isProcessing (handleUpdate E r)"
  "keeps wv_isProcessing (clearPendingDomains E)"
  "keeps wv_isProcessing (watch_id E)"
  "keeps wv_isProcessing (handleCreateWallet E)"
  "keeps wv_isProcessing (fetchDomains E)"
  unfolding onMounted_def handleFirstUpdate_def handleUpdate_def clearPendingDomains_def watch_id_def handleCreateWallet_def
  by (intro keeps_rules; simp)+

lemma handleSubmit_not_processing: "\<not> wv_isProcessing s \<Longrightarrow> \<not> wv_isProcessing (snd (handleSubmit E s))"
  by (simp add: handleSubmit_def jbind_run jseq_run try_finally_run split: prod.split)

subsection \<open>Sequences of events\<close>

text \<open>
  What can happen to the page, with the conditions the template puts on its controls: a
  form is shown when a wallet is loaded, a button works when it is not disabled. The text
  fields of a row give strings; its number fields pass through \<open>ttl_input\<close>.
\<close>

datatype view_event =
    Mount | Watch | TypeDomain string | TypeTtl jsval | Submit
  | TypeIp nat string string | TypeRowTtl nat string jsval | Reveal nat | UpdateIp nat
  | ClearDomains | Refresh

definition row_field :: "'z wallet_view_scheme \<Rightarrow> nat \<Rightarrow> string \<Rightarrow> jsval" where
  "row_field s r k = fields_get (row_store s r) k"

fun enabled :: "view_event \<Rightarrow> 'z wallet_view_scheme \<Rightarrow> bool" where
  "enabled Submit s \<longleftrightarrow> isWalletLoaded s \<and> \<not> wv_isProcessing s \<and> domainName s \<noteq> []"
| "enabled (TypeDomain t) s \<longleftrightarrow> isWalletLoaded s \<and> \<not> wv_isProcessing s"
| "enabled (TypeTtl v) s \<longleftrightarrow> isWalletLoaded s \<and> \<not> wv_isProcessing s"
| "enabled (TypeIp r k t) s \<longleftrightarrow> isWalletLoaded s \<and> r \<in> set (myDomains s) \<and>
     (k = ''revealIp'' \<and> row_field s r ''status'' = JStr ''pending'' \<and> \<not> truthy (row_field s r ''isRevealing'') \<or>
      k = ''newIp'' \<and> row_field s r ''status'' = JStr ''revealed'' \<and> \<not> truthy (row_field s r ''isUpdating''))"
| "enabled (TypeRowTtl r k v) s \<longleftrightarrow> isWalletLoaded s \<and> r \<in> set (myDomains s) \<and>
     (k = ''revealTtl'' \<and> row_field s r ''status'' = JStr ''pending'' \<and> \<not> truthy (row_field s r ''isRevealing'') \<or>
      k = ''updateTtl'' \<and> row_field s r ''status'' = JStr ''revealed'' \<and> \<not> truthy (row_field s r ''isUpdating''))"
| "enabled (Reveal r) s \<longleftrightarrow> isWalletLoaded s \<and> r \<in> set (myDomains s) \<and>
     row_field s r ''status'' = JStr ''pending'' \<and> \<not> truthy (row_field s r ''isRevealing'') \<and> truthy (row_field s r ''revealIp'')"
| "enabled (UpdateIp r) s \<longleftrightarrow> isWalletLoaded s \<and> r \<in> set (myDomains s) \<and>
     row_field s r ''status'' = JStr ''revealed'' \<and> \<not> truthy (row_field s r ''isUpdating'') \<and> truthy (row_field s r ''newIp'')"
| "enabled ClearDomains s \<longleftrightarrow> isWalletLoaded s \<and> myDomains s \<noteq> []"
| "enabled _ s \<longleftrightarrow> True"

fun view_op :: "env \<Rightarrow> view_event \<Rightarrow> ('z wallet_view_scheme, unit) js" where
  "view_op E Mount = onMounted E"
| "view_op E Watch = watch_id E"
| "view_op E (TypeDomain t) = jmodify (\<lambda>s. s\<lparr>domainName := t\<rparr>)"
| "view_op E (TypeTtl v) = jmodify (\<lambda>s. s\<lparr>wv_ttl := ttl_input v\<rparr>)"
| "view_op E Submit = handleSubmit E"
| "view_op E (TypeIp r k t) = row_set r k (JStr t)"
| "view_op E (TypeRowTtl r k v) = row_set r k (ttl_input v)"
| "view_op E (Reveal r) = handleFirstUpdate E r"
| "view_op E (UpdateIp r) = handleUpdate E r"
| "view_op E ClearDomains = clearPendingDomains E"
| "view_op E Refresh = fetchDomains E"

text \<open>
  A page starts with no rows on show, over a storage in which every wallet's list is one
  this program could have written.
\<close>

definition view_start :: "env \<Rightarrow> 'z wallet_view_scheme \<Rightarrow> bool" where
  "view_start E s \<longleftrightarrow>
     books_good s \<and> (\<forall>n. list_all (row_good E) (rows s n)) \<and> wallet s = no_wallet \<and>
     myDomains s = [] \<and> next_row s = 0 \<and> \<not> wv_isProcessing s"

inductive view_reach :: "env \<Rightarrow> 'z wallet_view_scheme \<Rightarrow> bool" for E where
  view_init: "view_start E s \<Longrightarrow> view_reach E s"
| view_event: "view_reach E s \<Longrightarrow> enabled ev s \<Longrightarrow> view_reach E (snd (view_op E ev s))"

definition view_inv :: "env \<Rightarrow> 'z wallet_view_scheme \<Rightarrow> bool" where
  "view_inv E s \<longleftrightarrow> rows_inv E s \<and> idle_except {} s \<and> wallet_coherent E s \<and> \<not> wv_isProcessing s"

lemma view_op_rows: "enabled ev s \<Longrightarrow> rows_inv E s \<Longrightarrow> rows_inv E (snd (view_op E ev s))"
  by (cases ev)
     (auto simp del: jmodify_run intro!: upholdsD [of "rows_inv E"] onMounted_rows watch_id_rows handleSubmit_rows
        handleFirstUpdate_rows handleUpdate_rows clearPendingDomains_rows upholds_rules)

lemma view_op_idle: "enabled ev s \<Longrightarrow> idle_except {} s \<Longrightarrow> idle_except {} (snd (view_op E ev s))"
  by (cases ev)
     (auto simp del: jmodify_run simp: busy_keys_def intro!: upholdsD [of "idle_except {}"] handler_idle handleSubmit_idle
        handleFirstUpdate_idle handleUpdate_idle upholds_rules)

lemma view_op_coherent: "wallet_coherent E s \<Longrightarrow> wallet_coherent E (snd (view_op E ev s))"
  by (cases ev)
     (auto simp del: jmodify_run intro!: upholdsD [of "wallet_coherent E"] onMounted_coherent keeps_wallet_coherent
        handlers_keep_wallet keeps_rules)

lemma view_op_processing: "\<not> wv_isProcessing s \<Longrightarrow> \<not> wv_isProcessing (snd (view_op E ev s))"
  by (cases ev)
     (auto simp: handleSubmit_not_processing row_set_def handlers_keep_processing [THEN keepsD])

lemma view_reach_inv: "view_reach E s \<Longrightarrow> view_inv E s"
proof (induction rule: view_reach.induct)
  case (view_init s)
  then show ?case
    by (simp add: view_start_def view_inv_def rows_inv_def shown_ok_def idle_except_def wallet_coherent_def no_wallet_def)
next
  case (view_event s ev)
  then show ?case
    by (simp add: view_inv_def view_op_rows view_op_idle view_op_coherent view_op_processing)
qed

end
