(* ===== verification/WalletRuns.thy ===== *)
theory WalletRuns
  imports WalletInv
begin

section \<open>What the handlers of the wallet page do\<close>

text \<open>
  The effect of committing, revealing and updating, branch by branch: what is sent, what is
  stored, what is shown. \<open>signed_send_Inr\<close> covers the part they share.
\<close>

subsection \<open>Sending\<close>

text \<open>
  A transaction that was answered left as exactly two requests; it carries its own hash as
  identifier, and the signature is the wallet's over that hash.
\<close>

lemma signed_send_Inr:
  assumes "signed_send E tx msg s = (Inr (c, resp), t)"
  shows "\<exists>inputs outputs h sg body.
     c = tx\<lparr>tx_inputs := inputs, tx_outputs := outputs, tx_id := JStr h\<rparr> \<and> hashTransaction E c = Inr h \<and>
     generateTransactionSignature E h (privateKey (wallet s)) = Inr sg \<and>
     canonicalize E (wire_tx c (JStr sg)) = Inr body \<and>
     t = s\<lparr>wv_status := msg, sent := sent s @ [plan_request E (tx_from tx) (tx_amount tx), handle_request E body]\<rparr>"
proof -
  obtain plan s1 where plan: "getSpendPlan E (tx_from tx) (tx_amount tx) s = (Inr plan, s1)"
    using assms by (cases "getSpendPlan E (tx_from tx) (tx_amount tx) s"; cases "fst (getSpendPlan E (tx_from tx) (tx_amount tx) s)")
      (auto simp: signed_send_def applySpendPlan_def jbind_run)
  note s1 = getSpendPlan_Inr [OF plan]
  define u where "u = tx\<lparr>tx_inputs := js_or (opt_prop plan ''inputs'') (JArr []),
                        tx_outputs := js_or (opt_prop plan ''outputs'') (JArr [])\<rparr>"
  have send: "jbind (jlift (computeTransactionID E u)) (\<lambda>completeTx.
     jbind (jlift (hashTransaction E completeTx)) (\<lambda>txHash.
     jbind (jget (\<lambda>s. privateKey (wallet s))) (\<lambda>key.
     jbind (jlift (generateTransactionSignature E txHash key)) (\<lambda>signature.
     jseq (set_status msg)
     (jbind (sendTransaction E completeTx (JStr signature)) (\<lambda>response.
       jret (completeTx, response))))))) s1 = (Inr (c, resp), t)"
    using assms plan by (auto simp: signed_send_def applySpendPlan_def jbind_run js_prop_def u_def split: if_split_asm)
  then obtain h sg where h: "computeTransactionID E u = Inr c" "hashTransaction E c = Inr h"
    "generateTransactionSignature E h (privateKey (wallet s1)) = Inr sg"
    "sendTransaction E c (JStr sg) (s1\<lparr>wv_status := msg\<rparr>) = (Inr resp, t)"
    by (auto simp: jbind_run jseq_run set_status_def split: sum.split_asm prod.split_asm)
  moreover have "c = u\<lparr>tx_id := JStr h\<rparr>"
    using h(1,2) by (auto simp: computeTransactionID_eq hashTransaction_eq split: sum.split_asm)
  ultimately show ?thesis using s1 sendTransaction_Inr [OF h(4)] by (fastforce simp: u_def)
qed

subsection \<open>Committing\<close>

definition domain_hash :: "env \<Rightarrow> string \<Rightarrow> string \<Rightarrow> string" where
  "domain_hash E domain salt = bytesToHex (digest E (utf8 (''DOMAIN_HASH_v1:'' @ domain @ '':'' @ salt)))"

lemma generateHash_eq: "generateHash E domain salt = Inr (domain_hash E domain salt)"
  by (simp add: generateHash_def sha256_def domain_hash_def)

definition submit_salt :: "env \<Rightarrow> 'z wallet_view_scheme \<Rightarrow> string" where
  "submit_salt E s = bytesToHex (random_bytes E (draws s) 16)"

definition submit_hash :: "env \<Rightarrow> 'z wallet_view_scheme \<Rightarrow> string" where
  "submit_hash E s = domain_hash E (domainName s) (submit_salt E s)"

definition submit_tx :: "env \<Rightarrow> 'z wallet_view_scheme \<Rightarrow> string \<Rightarrow> tx" where
  "submit_tx E s i = page_tx ''NameNew'' i
     (JObj [(''commitment'', JStr (submit_hash E s)), (''ttl'', js_or (wv_ttl s) (JInt 0))]) (publicKey (wallet s))"

text \<open>The state in which the transaction of a submission is sent, and the answer it gets.\<close>

definition submit_started :: "'z wallet_view_scheme \<Rightarrow> 'z wallet_view_scheme" where
  "submit_started s = s\<lparr>wv_isProcessing := True, wv_status := ''Creating commitment...'',
     window_length := Some 16, draws := Suc (draws s)\<rparr>"

definition submit_sent :: "env \<Rightarrow> 'z wallet_view_scheme \<Rightarrow> string \<Rightarrow> (tx \<times> jsval) outcome \<times> 'z wallet_view_scheme" where
  "submit_sent E s i = signed_send E (submit_tx E s i) ''Sending transaction to network...'' (submit_started s)"

lemma submit_parts:
  "walletID (s\<lparr>wv_isProcessing := a, wv_status := b, window_length := c, draws := d\<rparr>) = walletID s"
  "wallet (submit_started s) = wallet s" "localStorage (submit_started s) = localStorage s"
  "domainName (submit_started s) = domainName s" "ticks (submit_started s) = ticks s"
  by (simp_all add: walletID_def submit_started_def)

lemma handleSubmit_run:
  assumes "enabled Submit s" "walletID s = Some i" "window_length s = Some w"
  shows "handleSubmit E s =
    (case submit_sent E s i of
       (Inl e, t) \<Rightarrow> (Inr (), t\<lparr>wv_status := ''Error: '' @ error_text e, wv_isProcessing := False\<rparr>)
     | (Inr (c, resp), t) \<Rightarrow>
         if accepted resp
         then (case jseq (savePendingDomain E i (domainName t) (submit_salt E s) (submit_hash E s) (to_str (tx_id c)))
                      (jseq (jmodify (\<lambda>s. s\<lparr>wv_status := ''Commitment created! Wait for it to be mined in a block before revealing. Check '' @
                                          [CHR 0x22] @ ''My Domains'' @ [CHR 0x22] @ '' section below.'',
                                        domainName := []\<rparr>)) (loadMyDomains E)) (t\<lparr>lastTxId := tx_id c\<rparr>) of
                 (Inl e, u) \<Rightarrow> (Inr (), u\<lparr>wv_status := ''Error: '' @ error_text e, wv_isProcessing := False\<rparr>)
               | (Inr _, u) \<Rightarrow> (Inr (), u\<lparr>wv_isProcessing := False\<rparr>))
         else (Inr (), t\<lparr>wv_status := ''Transaction failed: '' @ response_message resp, wv_isProcessing := False\<rparr>))"
proof -
  have salt: "generateSalt E (s\<lparr>wv_isProcessing := True, wv_status := ''Creating commitment...''\<rparr>) =
      (Inr (submit_salt E s), submit_started s)"
    using assms(3) by (simp add: generateSalt_def generateRandomSalt_def jbind_run jseq_run submit_salt_def submit_started_def)
  have id: "walletID (submit_started s) = Some i"
    using assms(2) by (simp add: walletID_def submit_started_def)
  have fields: "wv_ttl (submit_started s) = wv_ttl s" "publicKey (wallet (submit_started s)) = publicKey (wallet s)"
    by (simp_all add: submit_started_def)
  have started: "isWalletLoaded s" "domainName s \<noteq> []" using assms(1) by simp_all
  show ?thesis
    using started
    apply (simp add: handleSubmit_def jbind_run [of "jget _"] jseq_run [of "jmodify _"])
    apply (simp add: try_finally_run try_catch_run jbind_run [of "generateSalt E"] salt
        jbind_run [of "jlift _"] jbind_run [of "jget _"] id fields hashDomainWithSalt_def generateHash_eq
        submit_hash_def [symmetric])
    apply (simp add: jbind_run [of "signed_send _ _ _"] submit_sent_def submit_tx_def)
    apply (simp add: jseq_run [of "jmodify _"] jbind_run [of "jget _"] set_status_def split: prod.split sum.split)
    done
qed

definition submit_row :: "env \<Rightarrow> 'z wallet_view_scheme \<Rightarrow> tx \<Rightarrow> jsval" where
  "submit_row E s c =
     pending_row (domainName s) (submit_salt E s) (submit_hash E s) (to_str (tx_id c)) (now_ms E (ticks s))"

lemma submit_sent_frame:
  assumes "submit_sent E s i = (Inr (c, resp), t)"
  shows "localStorage t = localStorage s" "ticks t = ticks s" "domainName t = domainName s" "wallet t = wallet s"
    "books_good t = books_good s" "rows t m = rows s m" "walletID t = walletID s"
  using signed_send_Inr [OF assms [unfolded submit_sent_def]]
  by (auto simp: submit_started_def books_good_def rows_def walletID_def)

text \<open>An accepted commitment is stored with its salt, and the list on show is made anew from the store.\<close>

lemma show_rows_frame:
  "localStorage (snd (show_rows fss s)) = localStorage s" "domainName (snd (show_rows fss s)) = domainName s"
  "lastTxId (snd (show_rows fss s)) = lastTxId s" "sent (snd (show_rows fss s)) = sent s"
  "length (myDomains (snd (show_rows fss s))) = length fss" "fst (show_rows fss s) = Inr ()"
  by (simp_all add: show_rows_def Let_def)

lemma submit_accepted:
  assumes good: "books_good s" and ready: "enabled Submit s" "walletID s = Some i" "window_length s = Some w"
    and answer: "submit_sent E s i = (Inr (c, resp), t)" "accepted resp"
    and room: "quota_ok E (localStorage s) (pending_key i) (json_text (JArr (rows s i @ [submit_row E s c])))"
    and u: "u = snd (handleSubmit E s)"
  shows "rows u i = rows s i @ [submit_row E s c]" "domainName u = []" "lastTxId u = tx_id c" "sent u = sent t"
    "length (myDomains u) = Suc (length (rows s i))"
proof -
  let ?t = "t\<lparr>lastTxId := tx_id c\<rparr>" and ?vs = "rows s i @ [submit_row E s c]"
  let ?t1 = "with_rows i ?vs (?t\<lparr>ticks := Suc (ticks s)\<rparr>)"
  have vs: "list_all row_ok ?vs"
    using books_good_rows [OF good] row_ok_pending by (simp add: submit_row_def)
  have bg: "books_good ?t" "rows ?t i = rows s i"
    using submit_sent_frame(5,6) [OF answer(1)] good by (simp_all add: books_good_def rows_def)
  have save: "savePendingDomain E i (domainName t) (submit_salt E s) (submit_hash E s) (to_str (tx_id c)) ?t = (Inr (), ?t1)"
    using savePendingDomain_run [OF bg(1)] bg(2) room submit_sent_frame(1,2,3) [OF answer(1)]
    by (simp add: submit_row_def Let_def del: json_text.simps)
  define v where "v = ?t1\<lparr>wv_status := ''Commitment created! Wait for it to be mined in a block before revealing. Check '' @
     [CHR 0x22] @ ''My Domains'' @ [CHR 0x22] @ '' section below.'', domainName := []\<rparr>"
  have v: "books_good v" "rows v i = ?vs"
    using with_rows(1,2) [OF _ vs, of "?t\<lparr>ticks := Suc (ticks s)\<rparr>" i] bg(1)
    by (simp_all add: v_def books_good_def rows_def)
  have "walletID v = Some i"
    using submit_sent_frame(7) [OF answer(1)] ready(2) by (simp add: v_def walletID_def with_rows_def)
  then obtain fss where load: "loadMyDomains E v = show_rows fss v" "length fss = length (rows v i)"
    using loadMyDomains_run [OF v(1)] by blast
  obtain x where x: "show_rows fss v = (Inr (), x)" by (simp add: show_rows_def Let_def)
  have "handleSubmit E s = (Inr (), x\<lparr>wv_isProcessing := False\<rparr>)"
    using answer save load(1) x by (simp add: handleSubmit_run [OF ready] jseq_run v_def)
  then show "rows u i = rows s i @ [submit_row E s c]" "domainName u = []" "lastTxId u = tx_id c" "sent u = sent t"
    "length (myDomains u) = Suc (length (rows s i))"
    using v(2) load(2) show_rows_frame [of fss v] x
    by (simp_all add: u rows_def v_def with_rows_def)
qed

lemma submit_refused:
  assumes "enabled Submit s" "walletID s = Some i" "window_length s = Some w"
    and "submit_sent E s i = (r, t)" "case r of Inl e \<Rightarrow> True | Inr (c, resp) \<Rightarrow> \<not> accepted resp"
  shows "localStorage (snd (handleSubmit E s)) = localStorage t \<and> domainName (snd (handleSubmit E s)) = domainName t"
  using assms(4,5) by (auto simp: handleSubmit_run [OF assms(1-3)] split: sum.split)

subsection \<open>Revealing\<close>

definition reveal_tx :: "'z wallet_view_scheme \<Rightarrow> nat \<Rightarrow> string \<Rightarrow> string \<Rightarrow> tx" where
  "reveal_tx s r i ip = page_tx ''NameFirstUpdate'' i
     (JObj [(''domain'', row_field s r ''domain''), (''salt'', row_field s r ''salt''), (''ip'', JStr ip),
            (''ttl'', js_or (row_field s r ''revealTtl'') (JInt 0)), (''txid'', row_field s r ''txid'')])
     (publicKey (wallet s))"

definition reveal_started :: "nat \<Rightarrow> 'z wallet_view_scheme \<Rightarrow> 'z wallet_view_scheme" where
  "reveal_started r s = s\<lparr>row_store := (row_store s)(r := fields_put ''isRevealing'' (JBool True) (row_store s r)),
     wv_status := ''Revealing domain...''\<rparr>"

definition reveal_sent :: "env \<Rightarrow> 'z wallet_view_scheme \<Rightarrow> nat \<Rightarrow> string \<Rightarrow> string \<Rightarrow> (tx \<times> jsval) outcome \<times> 'z wallet_view_scheme" where
  "reveal_sent E s r i ip = signed_send E (reveal_tx s r i ip) ''Sending reveal transaction...'' (reveal_started r s)"

text \<open>What follows an answer: the stored rows are rewritten, or the failure is looked at.\<close>

definition reveal_stores :: "env \<Rightarrow> string \<Rightarrow> jsval \<Rightarrow> string \<Rightarrow> tx \<Rightarrow> ('z wallet_view_scheme, unit) js" where
  "reveal_stores E i domain ip c =
     jseq (jmodify (\<lambda>s. s\<lparr>lastTxId := tx_id c\<rparr>))
       (jseq (set_status (''Domain '' @ quoted domain @ '' revealed successfully!''))
       (jseq (rewrite_stored E i domain [(''status'', JStr ''revealed''), (''ip'', JStr ip)])
       (jseq (loadMyDomains E)
         (jdetach (fetchDomains E)))))"

lemma handleFirstUpdate_run:
  assumes "isWalletLoaded s" "row_field s r ''revealIp'' = JStr ip" "trim ip \<noteq> []" "walletID s = Some i"
  shows "handleFirstUpdate E r s =
    try_finally
      (try_catch
        (\<lambda>_. case reveal_sent E s r i (trim ip) of
           (Inl e, t) \<Rightarrow> (Inl e, t)
         | (Inr (c, resp), t) \<Rightarrow>
             if accepted resp then reveal_stores E i (row_field s r ''domain'') (trim ip) c t
             else (Inr (), t\<lparr>wv_status := ''Reveal failed: '' @ response_message resp\<rparr>))
        (on_tx_error E reveal_shouldRemove r))
      (row_set r ''isRevealing'' (JBool False)) s"
proof -
  have ip: "truthy (JStr ip)" using assms(3) by (cases ip) (auto simp: trim_def)
  have get: "row_get r k (reveal_started r s) = (Inr (row_field s r k), reveal_started r s)" if "k \<noteq> ''isRevealing''" for k
    using that by (simp add: row_get_def reveal_started_def row_field_def)
  have wid: "walletID (reveal_started r s) = Some i" "publicKey (wallet (reveal_started r s)) = publicKey (wallet s)"
    using assms(4) by (simp_all add: walletID_def reveal_started_def)
  have fin: "try_finally (\<lambda>_. x) f s = try_finally (\<lambda>_. x) f t" for x f and s t :: "'a wallet_view_scheme"
    by (simp add: try_finally_def)
  show ?thesis
    using assms(1,2) ip
    apply (simp add: handleFirstUpdate_def jbind_run [of "jget _"] row_get_def [of r "''revealIp''"] row_field_def [symmetric]
        jbind_run [of "jlift _"] js_trim_def assms(3))
    apply (simp add: jseq_run [of "row_set _ _ _"] jseq_run [of "set_status _"] row_set_def [of r "''isRevealing''" "JBool True"]
        set_status_def [of "''Revealing domain...''"] reveal_started_def [symmetric])
    apply (simp add: try_finally_run try_catch_run jbind_run [of "jget _"] wid jbind_run [of "row_get _ _"] get
        jbind_run [of "signed_send _ _ _"] reveal_sent_def reveal_tx_def)
    apply (simp add: reveal_stores_def set_status_def split: prod.split sum.split)
    done
qed

lemma rows_keeps: "keeps localStorage m \<Longrightarrow> rows (snd (m s)) n = rows s n"
  by (simp add: keeps_def rows_def)

lemma quiet_tail:
  "keeps localStorage (jseq (loadMyDomains E) (jdetach (fetchDomains E)))"
  "keeps localStorage (row_set r k v)"
  "keeps localStorage (jseq (row_set r k v) (loadMyDomains E))"
  by (intro keeps_rules; simp)+

text \<open>
  Rewriting the stored rows and then showing them: when the storage takes the new list it
  stays as written, whatever the rest of the handler does.
\<close>

lemma rewrite_then_rows:
  assumes "books_good s" "list_all (\<lambda>(k, v). json_ok v) upd" "keeps localStorage n"
    "quota_ok E (localStorage s) (pending_key i) (json_text (JArr (update_rows domain upd (rows s i))))"
  shows "rows (snd (jseq (rewrite_stored E i domain upd) n s)) m =
    (if m = i then update_rows domain upd (rows s i) else rows s m)"
    and "fst (jseq (rewrite_stored E i domain upd) n s) = fst (n (with_rows i (update_rows domain upd (rows s i)) s))"
proof -
  have run: "rewrite_stored E i domain upd s = (Inr (), with_rows i (update_rows domain upd (rows s i)) s)"
    using rewrite_rows [OF assms(1), of "arr_map E (with_fields E domain upd)"] arr_map_rows [OF books_good_rows [OF assms(1)]] assms(4)
    by (simp add: rewrite_stored_def Let_def del: json_text.simps)
  have "list_all row_ok (update_rows domain upd (rows s i))"
    by (rule row_ok_update_rows [OF books_good_rows [OF assms(1)] assms(2)])
  then show "rows (snd (jseq (rewrite_stored E i domain upd) n s)) m =
    (if m = i then update_rows domain upd (rows s i) else rows s m)"
    using with_rows(2,3) [OF assms(1)] rows_keeps [OF assms(3)] by (simp add: jseq_run run)
  show "fst (jseq (rewrite_stored E i domain upd) n s) = fst (n (with_rows i (update_rows domain upd (rows s i)) s))"
    by (simp add: jseq_run run)
qed

text \<open>After an error the domain is forgotten or kept, as the words of the error say.\<close>

lemma on_tx_error_rows:
  assumes "books_good s" "walletID s = Some i"
    "quota_ok E (localStorage s) (pending_key i)
       (json_text (JArr (filter (\<lambda>d. \<not> row_is (row_field s r ''domain'') d) (rows s i))))"
  shows "rows (snd (on_tx_error E sr r e s)) m =
    (if m = i \<and> sr (toLowerCase (error_text e))
     then filter (\<lambda>d. \<not> row_is (row_field s r ''domain'') d) (rows s i) else rows s m)"
proof -
  define x where "x = ''Error: '' @ error_text e"
  let ?s = "s\<lparr>wv_status := x\<rparr>" and ?vs = "filter (\<lambda>d. \<not> row_is (row_field s r ''domain'') d) (rows s i)"
  have good: "books_good ?s" "rows ?s i = rows s i" "walletID ?s = Some i"
    using assms(1,2) by (simp_all add: books_good_def rows_def walletID_def)
  have vs: "list_all row_ok ?vs" using books_good_rows [OF assms(1), of i] by (simp add: list_all_iff)
  have rm: "removePendingDomain E i (row_field s r ''domain'') ?s = (Inr (), with_rows i ?vs ?s)"
    using rewrite_rows [OF good(1), of "arr_filter E (\<lambda>d. map_sum id Not (has_domain E (row_field s r ''domain'') d))"]
      arr_filter_rows [OF books_good_rows [OF assms(1)]] assms(3) good(2)
    by (simp add: removePendingDomain_def Let_def del: json_text.simps)
  have get: "row_get r ''domain'' ?s = (Inr (row_field s r ''domain''), ?s)"
    by (simp add: row_get_def row_field_def)
  have "forget_domain E r ?s = jseq (loadMyDomains E) (jdetach (fetchDomains E)) (with_rows i ?vs ?s)"
    by (simp add: forget_domain_def jbind_run get good(3) jseq_run [of "removePendingDomain _ _ _"] rm)
  then have "rows (snd (forget_domain E r ?s)) m = rows (with_rows i ?vs ?s) m"
    using rows_keeps [OF quiet_tail(1)] by simp
  also have "\<dots> = (if m = i then ?vs else rows s m)"
    using with_rows(2,3) [OF good(1) vs] by (cases "m = i") (simp_all add: rows_def)
  finally have "rows (snd (forget_domain E r ?s)) m = (if m = i then ?vs else rows s m)" .
  moreover have "on_tx_error E sr r e s = jwhen (sr (toLowerCase (error_text e))) (forget_domain E r) ?s"
    by (simp add: on_tx_error_def Let_def jseq_run set_status_def x_def)
  moreover have "rows ?s m = rows s m" by (simp add: rows_def)
  ultimately show ?thesis by (auto simp: jwhen_def)
qed

lemma reveal_sent_frame:
  "localStorage (snd (reveal_sent E s r i ip)) = localStorage s"
  "walletID (snd (reveal_sent E s r i ip)) = walletID s"
  "k \<noteq> ''isRevealing'' \<Longrightarrow> row_field (snd (reveal_sent E s r i ip)) r' k = row_field s r' k"
proof -
  let ?f = "\<lambda>s. (localStorage s, wallet s, row_store s)"
  have "keeps ?f (signed_send E (reveal_tx s r i ip) ''Sending reveal transaction...'')"
    by (intro keeps_rules) simp_all
  from keepsD [OF this, of "reveal_started r s"]
  have *: "localStorage (snd (reveal_sent E s r i ip)) = localStorage s" "wallet (snd (reveal_sent E s r i ip)) = wallet s"
    "row_store (snd (reveal_sent E s r i ip)) = row_store (reveal_started r s)"
    by (simp_all add: reveal_sent_def reveal_started_def)
  then show "localStorage (snd (reveal_sent E s r i ip)) = localStorage s"
    "walletID (snd (reveal_sent E s r i ip)) = walletID s"
    "k \<noteq> ''isRevealing'' \<Longrightarrow> row_field (snd (reveal_sent E s r i ip)) r' k = row_field s r' k"
    by (simp_all add: walletID_def row_field_def reveal_started_def)
qed

lemma books_rows_eq:
  "localStorage t = localStorage s \<Longrightarrow> books_good t = books_good s \<and> rows t m = rows s m"
  by (simp add: books_good_def rows_def)

lemma finally_rows:
  "rows (snd (try_finally m (row_set r k v) s)) n = rows (snd (m s)) n"
  by (simp add: try_finally_def row_set_def rows_def split: prod.split)

lemma loadMyDomains_total: "books_good s \<Longrightarrow> fst (loadMyDomains E s) = Inr ()"
proof (cases "walletID s")
  case (Some m)
  assume "books_good s"
  from loadMyDomains_run [OF this Some, of E] show ?thesis by (auto simp: show_rows_frame(6))
qed (simp add: loadMyDomains_def jbind_run)

lemma stored_tail:
  assumes "books_good s" "list_all (\<lambda>(k, v). json_ok v) upd"
    and "keeps localStorage n" "\<And>s. books_good s \<Longrightarrow> fst (n s) = Inr ()"
    and "quota_ok E (localStorage s) (pending_key i) (json_text (JArr (update_rows domain upd (rows s i))))"
  shows "fst (jseq (rewrite_stored E i domain upd) n s) = Inr ()"
    "rows (snd (jseq (rewrite_stored E i domain upd) n s)) m = (if m = i then update_rows domain upd (rows s i) else rows s m)"
  using rewrite_then_rows [OF assms(1,2,3,5)] with_rows(1) [OF assms(1) row_ok_update_rows [OF books_good_rows [OF assms(1)] assms(2)]] assms(4)
  by simp_all

text \<open>A revealed domain is marked so in the wallet's list, with its address.\<close>

lemma reveal_accepted:
  assumes good: "books_good s" and ready: "isWalletLoaded s" "row_field s r ''revealIp'' = JStr ip" "trim ip \<noteq> []" "walletID s = Some i"
    and answer: "reveal_sent E s r i (trim ip) = (Inr (c, resp), t)" "accepted resp"
    and room: "quota_ok E (localStorage s) (pending_key i) (json_text (JArr (update_rows (row_field s r ''domain'')
       [(''status'', JStr ''revealed''), (''ip'', JStr (trim ip))] (rows s i))))"
  shows "rows (snd (handleFirstUpdate E r s)) m =
    (if m = i then update_rows (row_field s r ''domain'') [(''status'', JStr ''revealed''), (''ip'', JStr (trim ip))] (rows s i)
     else rows s m)"
proof -
  let ?d = "row_field s r ''domain''" and ?upd = "[(''status'', JStr ''revealed''), (''ip'', JStr (trim ip))]"
  let ?t = "t\<lparr>lastTxId := tx_id c, wv_status := ''Domain '' @ quoted ?d @ '' revealed successfully!''\<rparr>"
  let ?n = "jseq (loadMyDomains E) (jdetach (fetchDomains E))"
  have ls: "localStorage ?t = localStorage s" using reveal_sent_frame(1) [of E s r i "trim ip"] answer(1) by simp
  note bt = books_rows_eq [OF ls]
  have n: "fst (?n s) = Inr ()" if "books_good s" for s
    using loadMyDomains_total [OF that, of E] by (cases "loadMyDomains E s") (simp add: jseq_run)
  have "fst (reveal_stores E i ?d (trim ip) c t) = Inr ()"
    "rows (snd (reveal_stores E i ?d (trim ip) c t)) m = (if m = i then update_rows ?d ?upd (rows s i) else rows s m)"
    using stored_tail(1) [where s = ?t and upd = ?upd and E = E and i = i and domain = ?d, OF _ _ quiet_tail(1) n]
      stored_tail(2) [where s = ?t and upd = ?upd and E = E and i = i and domain = ?d and m = m, OF _ _ quiet_tail(1) n] bt good room ls
    by (simp_all add: reveal_stores_def jseq_run [of "jmodify _"] jseq_run [of "set_status _"] set_status_def del: json_text.simps)
  then obtain u where "reveal_stores E i ?d (trim ip) c t = (Inr (), u)"
    "rows u m = (if m = i then update_rows ?d ?upd (rows s i) else rows s m)"
    by (cases "reveal_stores E i ?d (trim ip) c t") auto
  then show ?thesis
    using answer by (simp add: handleFirstUpdate_run [OF ready] finally_rows try_catch_def)
qed

lemma reveal_failed:
  assumes good: "books_good s" and ready: "isWalletLoaded s" "row_field s r ''revealIp'' = JStr ip" "trim ip \<noteq> []" "walletID s = Some i"
    and answer: "reveal_sent E s r i (trim ip) = (Inl e, t)"
    and room: "quota_ok E (localStorage s) (pending_key i)
       (json_text (JArr (filter (\<lambda>d. \<not> row_is (row_field s r ''domain'') d) (rows s i))))"
  shows "rows (snd (handleFirstUpdate E r s)) m =
    (if m = i \<and> reveal_shouldRemove (toLowerCase (error_text e))
     then filter (\<lambda>d. \<not> row_is (row_field s r ''domain'') d) (rows s i) else rows s m)"
proof -
  have t: "localStorage t = localStorage s" "walletID t = Some i" "row_field t r ''domain'' = row_field s r ''domain''"
    using reveal_sent_frame [where E = E and s = s and r = r and i = i and ip = "trim ip"] answer ready(4) by simp_all
  have "books_good t" "rows t n = rows s n" for n using books_rows_eq [OF t(1)] good by blast+
  then show ?thesis
    using on_tx_error_rows [where s = t and i = i and E = E and r = r and sr = reveal_shouldRemove and e = e and m = m] t room answer
    by (simp add: handleFirstUpdate_run [OF ready] finally_rows try_catch_def del: json_text.simps split: prod.split)
qed

subsection \<open>Updating\<close>

definition update_tx :: "'z wallet_view_scheme \<Rightarrow> nat \<Rightarrow> string \<Rightarrow> string \<Rightarrow> tx" where
  "update_tx s r i ip = page_tx ''NameUpdate'' i
     (JObj [(''domain'', row_field s r ''domain''), (''ip'', JStr ip), (''ttl'', js_or (row_field s r ''updateTtl'') (JInt 0))])
     (publicKey (wallet s))"

definition update_started :: "nat \<Rightarrow> 'z wallet_view_scheme \<Rightarrow> 'z wallet_view_scheme" where
  "update_started r s = s\<lparr>row_store := (row_store s)(r := fields_put ''isUpdating'' (JBool True) (row_store s r)),
     wv_status := ''Updating IP for '' @ to_str (row_field s r ''domain'') @ ''...''\<rparr>"

definition update_sent :: "env \<Rightarrow> 'z wallet_view_scheme \<Rightarrow> nat \<Rightarrow> string \<Rightarrow> string \<Rightarrow> (tx \<times> jsval) outcome \<times> 'z wallet_view_scheme" where
  "update_sent E s r i ip = signed_send E (update_tx s r i ip) ''Sending update transaction...'' (update_started r s)"

definition update_stores :: "env \<Rightarrow> nat \<Rightarrow> string \<Rightarrow> jsval \<Rightarrow> string \<Rightarrow> tx \<Rightarrow> ('z wallet_view_scheme, unit) js" where
  "update_stores E r i domain ip c =
     jseq (jmodify (\<lambda>s. s\<lparr>lastTxId := tx_id c\<rparr>))
       (jseq (set_status (''IP updated for '' @ quoted domain @ ''! Wait for it to be mined in a block.''))
       (jseq (rewrite_stored E i domain [(''ip'', JStr ip)])
       (jseq (row_set r ''newIp'' (JStr []))
         (loadMyDomains E))))"

lemma handleUpdate_run:
  assumes "isWalletLoaded s" "row_field s r ''newIp'' = JStr ip" "trim ip \<noteq> []" "walletID s = Some i"
  shows "handleUpdate E r s =
    try_finally
      (try_catch
        (\<lambda>_. case update_sent E s r i (trim ip) of
           (Inl e, t) \<Rightarrow> (Inl e, t)
         | (Inr (c, resp), t) \<Rightarrow>
             if accepted resp then update_stores E r i (row_field s r ''domain'') (trim ip) c t
             else (Inr (), t\<lparr>wv_status := ''Update failed: '' @ response_message resp\<rparr>))
        (on_tx_error E update_shouldRemove r))
      (row_set r ''isUpdating'' (JBool False)) s"
proof -
  have ip: "truthy (JStr ip)" using assms(3) by (cases ip) (auto simp: trim_def)
  have get: "row_get r k (update_started r s) = (Inr (row_field s r k), update_started r s)" if "k \<noteq> ''isUpdating''" for k
    using that by (simp add: row_get_def update_started_def row_field_def)
  have wid: "walletID (update_started r s) = Some i" "publicKey (wallet (update_started r s)) = publicKey (wallet s)"
    using assms(4) by (simp_all add: walletID_def update_started_def)
  have start: "jseq (row_set r ''isUpdating'' (JBool True))
      (jseq (set_status (''Updating IP for '' @ to_str (row_field s r ''domain'') @ ''...'')) m) s = m (update_started r s)"
    for m :: "('a wallet_view_scheme, unit) js"
    by (simp add: jseq_run [of "row_set _ _ _"] jseq_run [of "set_status _"] row_set_def set_status_def update_started_def)
  show ?thesis
    using assms(1,2) ip
    apply (simp add: handleUpdate_def jbind_run [of "jget _"] row_get_def [of r "''newIp''"] row_get_def [of r "''domain''"]
        row_field_def [symmetric] jbind_run [of "jlift _"] js_trim_def assms(3) start del: append_Cons)
    apply (simp add: try_finally_run try_catch_run jbind_run [of "jget _"] wid jbind_run [of "row_get _ _"] get
        jbind_run [of "signed_send _ _ _"] update_sent_def update_tx_def)
    apply (simp add: update_stores_def set_status_def split: prod.split sum.split)
    done
qed

lemma update_sent_frame:
  "localStorage (snd (update_sent E s r i ip)) = localStorage s"
  "walletID (snd (update_sent E s r i ip)) = walletID s"
  "k \<noteq> ''isUpdating'' \<Longrightarrow> row_field (snd (update_sent E s r i ip)) r' k = row_field s r' k"
proof -
  let ?f = "\<lambda>s. (localStorage s, wallet s, row_store s)"
  have "keeps ?f (signed_send E (update_tx s r i ip) ''Sending update transaction...'')"
    by (intro keeps_rules) simp_all
  from keepsD [OF this, of "update_started r s"]
  have *: "localStorage (snd (update_sent E s r i ip)) = localStorage s" "wallet (snd (update_sent E s r i ip)) = wallet s"
    "row_store (snd (update_sent E s r i ip)) = row_store (update_started r s)"
    by (simp_all add: update_sent_def update_started_def)
  then show "localStorage (snd (update_sent E s r i ip)) = localStorage s"
    "walletID (snd (update_sent E s r i ip)) = walletID s"
    "k \<noteq> ''isUpdating'' \<Longrightarrow> row_field (snd (update_sent E s r i ip)) r' k = row_field s r' k"
    by (simp_all add: walletID_def row_field_def update_started_def)
qed

lemma update_accepted:
  assumes good: "books_good s" and ready: "isWalletLoaded s" "row_field s r ''newIp'' = JStr ip" "trim ip \<noteq> []" "walletID s = Some i"
    and answer: "update_sent E s r i (trim ip) = (Inr (c, resp), t)" "accepted resp"
    and room: "quota_ok E (localStorage s) (pending_key i)
       (json_text (JArr (update_rows (row_field s r ''domain'') [(''ip'', JStr (trim ip))] (rows s i))))"
  shows "rows (snd (handleUpdate E r s)) m =
    (if m = i then update_rows (row_field s r ''domain'') [(''ip'', JStr (trim ip))] (rows s i) else rows s m)"
proof -
  let ?d = "row_field s r ''domain''" and ?upd = "[(''ip'', JStr (trim ip))]"
  let ?t = "t\<lparr>lastTxId := tx_id c, wv_status := ''IP updated for '' @ quoted ?d @ ''! Wait for it to be mined in a block.''\<rparr>"
  let ?n = "jseq (row_set r ''newIp'' (JStr [])) (loadMyDomains E)"
  have ls: "localStorage ?t = localStorage s" using update_sent_frame(1) [of E s r i "trim ip"] answer(1) by simp
  note bt = books_rows_eq [OF ls]
  have n: "fst (?n s) = Inr ()" if "books_good s" for s
  proof -
    let ?s = "snd (row_set r ''newIp'' (JStr []) s)"
    have "books_good ?s" using that by (simp add: row_set_def books_good_def)
    then show ?thesis using loadMyDomains_total [of ?s E] by (simp add: jseq_run row_set_def)
  qed
  have "fst (update_stores E r i ?d (trim ip) c t) = Inr ()"
    "rows (snd (update_stores E r i ?d (trim ip) c t)) m = (if m = i then update_rows ?d ?upd (rows s i) else rows s m)"
    using stored_tail(1) [where s = ?t and upd = ?upd and E = E and i = i and domain = ?d, OF _ _ quiet_tail(3) n]
      stored_tail(2) [where s = ?t and upd = ?upd and E = E and i = i and domain = ?d and m = m, OF _ _ quiet_tail(3) n] bt good room ls
    by (simp_all add: update_stores_def jseq_run [of "jmodify _"] jseq_run [of "set_status _"] set_status_def del: json_text.simps)
  then obtain u where "update_stores E r i ?d (trim ip) c t = (Inr (), u)"
    "rows u m = (if m = i then update_rows ?d ?upd (rows s i) else rows s m)"
    by (cases "update_stores E r i ?d (trim ip) c t") auto
  then show ?thesis
    using answer by (simp add: handleUpdate_run [OF ready] finally_rows try_catch_def)
qed

lemma update_failed:
  assumes good: "books_good s" and ready: "isWalletLoaded s" "row_field s r ''newIp'' = JStr ip" "trim ip \<noteq> []" "walletID s = Some i"
    and answer: "update_sent E s r i (trim ip) = (Inl e, t)"
    and room: "quota_ok E (localStorage s) (pending_key i)
       (json_text (JArr (filter (\<lambda>d. \<not> row_is (row_field s r ''domain'') d) (rows s i))))"
  shows "rows (snd (handleUpdate E r s)) m =
    (if m = i \<and> update_shouldRemove (toLowerCase (error_text e))
     then filter (\<lambda>d. \<not> row_is (row_field s r ''domain'') d) (rows s i) else rows s m)"
proof -
  have t: "localStorage t = localStorage s" "walletID t = Some i" "row_field t r ''domain'' = row_field s r ''domain''"
    using update_sent_frame [where E = E and s = s and r = r and i = i and ip = "trim ip"] answer ready(4) by simp_all
  have "books_good t" "rows t n = rows s n" for n using books_rows_eq [OF t(1)] good by blast+
  then show ?thesis
    using on_tx_error_rows [where s = t and i = i and E = E and r = r and sr = update_shouldRemove and e = e and m = m] t room answer
    by (simp add: handleUpdate_run [OF ready] finally_rows try_catch_def del: json_text.simps split: prod.split)
qed

subsection \<open>Handlers that always return\<close>

lemma set_status_settles [settles_rules]: "settles (set_status m)"
  by (simp add: set_status_def settles_rules)

lemma handlers_settle:
  "settles (syncMinerID E)" "settles (watch_id E)" "settles (fetchDomains E)" "settles (handleCreateWallet E)"
  "settles (handleSubmit E)"
  unfolding syncMinerID_def watch_id_def fetchDomains_def handleCreateWallet_def handleSubmit_def
  by (intro settles_rules)+

end
