(* ===== verification/Pages.thy ===== *)
theory Pages
  imports UseTransaction Validation
begin

section \<open>The other pages and components\<close>

text \<open>
  The scripts of \<open>views/Home.vue\<close>, \<open>router/index.js\<close>, \<open>components/DomainCreator.vue\<close>,
  \<open>components/TransactionSigner.vue\<close> and \<open>components/WalletManager.vue\<close>. A component's
  emitted events are a list in its state; the router is the list of paths pushed to it.
\<close>

subsection \<open>\<open>router/index.js\<close>\<close>

record route =
  route_path :: string
  route_name :: string
  route_title :: string

definition routes :: "route list" where
  "routes = [\<lparr>route_path = ''/'', route_name = ''Wallet'', route_title = ''Peerster Wallet''\<rparr>]"

text \<open>The title after a navigation: \<open>to.meta\<close> is empty where no route matched.\<close>

definition title_after :: "route option \<Rightarrow> string" where
  "title_after dest = (let title = (case dest of None \<Rightarrow> [] | Some r \<Rightarrow> route_title r)
                    in if title = [] then ''Peerster Wallet'' else title)"

text \<open>A static path matches the route of that path only.\<close>

definition find_route :: "string \<Rightarrow> route option" where
  "find_route path = find (\<lambda>r. route_path r = path) routes"

subsection \<open>\<open>views/Home.vue\<close>\<close>

record home = world +
  proxyAddr :: string
  home_error :: string
  pushed :: "string list"

text \<open>\<open>/^[\w\.-]+:\d+$/\<close>\<close>

definition addrPattern :: "re_item list" where
  "addrPattern =
     [re_many (\<lambda>c. is_word_char c \<or> c = CHR ''.'' \<or> c = CHR ''-'') 1, re_one (\<lambda>c. c = CHR '':''), re_many is_digit 1]"

definition connect :: "env \<Rightarrow> ('z home_scheme, unit) js" where
  "connect E =
     jseq (jmodify (\<lambda>s. s\<lparr>home_error := []\<rparr>))
     (jbind (jget proxyAddr) (\<lambda>addr.
        if addr = [] then jmodify (\<lambda>s. s\<lparr>home_error := ''Please enter a proxy address''\<rparr>)
        else if \<not> re_match addrPattern addr
        then jmodify (\<lambda>s. s\<lparr>home_error :=
               ''Invalid address format. Expected format: host:port (e.g., 127.0.0.1:8080)''\<rparr>)
        else
          jseq (ls_setItem E ''proxyAddr'' addr)
          (try_catch
            (jbind (ApiService.getMinerID E) (\<lambda>minerID.
             jseq (ls_setItem E ''minerID'' (to_str minerID))
               (jmodify (\<lambda>s. s\<lparr>pushed := pushed s @ [''/wallet'']\<rparr>))))
            (\<lambda>err.
               jseq (jmodify (\<lambda>s. s\<lparr>home_error := ''Failed to connect: '' @ to_str (err_msg err)\<rparr>))
                 (ls_removeItem ''proxyAddr'')))))"

subsection \<open>\<open>components/DomainCreator.vue\<close>\<close>

record created =
  cr_transaction :: tx
  cr_domain :: string
  cr_salt :: string
  cr_hash :: string

record domain_creator = tx_world +
  dc_domainName :: string
  dc_salt :: string
  dc_fee :: jsval
  dc_hashedValue :: string
  dc_error :: string
  dc_emitted :: "created list"

definition canSubmit :: "'z domain_creator_scheme \<Rightarrow> bool" where
  "canSubmit s \<longleftrightarrow> dc_domainName s \<noteq> [] \<and> dc_salt s \<noteq> [] \<and> dc_hashedValue s \<noteq> [] \<and> dc_error s = []"

definition regenerateSalt :: "env \<Rightarrow> ('z domain_creator_scheme, unit) js" where
  "regenerateSalt E = jbind (generateSalt E) (\<lambda>salt. jmodify (\<lambda>s. s\<lparr>dc_salt := salt\<rparr>))"

definition dc_onMounted :: "env \<Rightarrow> ('z domain_creator_scheme, unit) js" where
  "dc_onMounted E = regenerateSalt E"

definition dc_watch :: "env \<Rightarrow> ('z domain_creator_scheme, unit) js" where
  "dc_watch E =
     jbind (jget dc_domainName) (\<lambda>newDomain.
     jbind (jget dc_salt) (\<lambda>newSalt.
       if newDomain \<noteq> [] \<and> newSalt \<noteq> []
       then
         if \<not> isValidDomain (JStr newDomain)
         then jmodify (\<lambda>s. s\<lparr>dc_error := ''Invalid domain format'', dc_hashedValue := []\<rparr>)
         else
           jseq (jmodify (\<lambda>s. s\<lparr>dc_error := []\<rparr>))
           (try_catch
             (jbind (jlift (hashDomainWithSalt E newDomain newSalt)) (\<lambda>h. jmodify (\<lambda>s. s\<lparr>dc_hashedValue := h\<rparr>)))
             (\<lambda>err. jmodify (\<lambda>s. s\<lparr>dc_hashedValue := []\<rparr>)))
       else jmodify (\<lambda>s. s\<lparr>dc_hashedValue := []\<rparr>)))"

definition dc_params :: "jsval \<Rightarrow> 'z domain_creator_scheme \<Rightarrow> build_params" where
  "dc_params walletId s =
     \<lparr>b_type = JStr ''first_update'', b_walletID = walletId, b_fee = dc_fee s,
      b_payload = JObj [(''hash'', JStr (dc_hashedValue s)), (''domain'', JStr (dc_domainName s)), (''salt'', JStr (dc_salt s))],
      b_pk = JUndef, b_inputs = JUndef, b_outputs = JUndef\<rparr>"

definition dc_handleSubmit :: "env \<Rightarrow> jsval \<Rightarrow> ('z domain_creator_scheme, unit) js" where
  "dc_handleSubmit E walletId =
     jbind (jget canSubmit) (\<lambda>can.
       if \<not> can then jret ()
       else
         try_catch
           (jbind (jget (dc_params walletId)) (\<lambda>params.
            jbind (createTransaction E params) (\<lambda>tx.
              jmodify (\<lambda>s. s\<lparr>dc_emitted := dc_emitted s @
                [\<lparr>cr_transaction = tx, cr_domain = dc_domainName s, cr_salt = dc_salt s, cr_hash = dc_hashedValue s\<rparr>]\<rparr>))))
           (\<lambda>err. alert (''Failed to create transaction: '' @ to_str (err_msg err))))"

subsection \<open>\<open>components/TransactionSigner.vue\<close>\<close>

datatype signer_event = TransactionSent jsval | Cancel

record signer = tx_world +
  isSigning :: bool
  sg_emitted :: "signer_event list"

definition handleSign :: "env \<Rightarrow> jsval \<Rightarrow> ('z signer_scheme, unit) js" where
  "handleSign E privKey =
     jseq (jmodify (\<lambda>s. s\<lparr>isSigning := True\<rparr>))
     (try_finally
       (try_catch
         (jbind (signAndSend E privKey) (\<lambda>result.
            jmodify (\<lambda>s. s\<lparr>sg_emitted := sg_emitted s @ [TransactionSent result]\<rparr>)))
         (\<lambda>err. jret ()))
       (jmodify (\<lambda>s. s\<lparr>isSigning := False\<rparr>)))"

definition handleCancel :: "('z signer_scheme, unit) js" where
  "handleCancel = jmodify (\<lambda>s. s\<lparr>sg_emitted := sg_emitted s @ [Cancel]\<rparr>)"

subsection \<open>\<open>components/WalletManager.vue\<close>\<close>

record wallet_manager = wallet_world +
  wm_loading :: bool
  showKeys :: bool
  wallet_loaded :: nat          \<comment> \<open>times \<open>wallet-loaded\<close> was emitted\<close>

definition createNewWallet :: "env \<Rightarrow> ('z wallet_manager_scheme, unit) js" where
  "createNewWallet E =
     jseq (jmodify (\<lambda>s. s\<lparr>wm_loading := True\<rparr>))
     (try_finally
       (try_catch
         (jbind (createWallet E) (\<lambda>_. jmodify (\<lambda>s. s\<lparr>showKeys := True\<rparr>)))
         (\<lambda>error. alert (''Failed to create wallet: '' @ to_str (err_msg error))))
       (jmodify (\<lambda>s. s\<lparr>wm_loading := False\<rparr>)))"

definition handleImport :: "env \<Rightarrow> js_file list \<Rightarrow> ('z wallet_manager_scheme, unit) js" where
  "handleImport E files =
     (case files of
        [] \<Rightarrow> jret ()
      | f # _ \<Rightarrow>
          jseq (jmodify (\<lambda>s. s\<lparr>wm_loading := True\<rparr>))
          (try_finally
            (try_catch
              (jbind (importWallet E f) (\<lambda>_. jmodify (\<lambda>s. s\<lparr>wallet_loaded := Suc (wallet_loaded s)\<rparr>)))
              (\<lambda>error. alert (''Failed to import wallet: '' @ to_str (err_msg error))))
            (jmodify (\<lambda>s. s\<lparr>wm_loading := False\<rparr>))))"

definition wm_download :: "env \<Rightarrow> ('z wallet_manager_scheme, unit) js" where
  "wm_download E = exportWallet E"

definition continueToApp :: "('z wallet_manager_scheme, unit) js" where
  "continueToApp = jmodify (\<lambda>s. s\<lparr>wallet_loaded := Suc (wallet_loaded s)\<rparr>)"

subsection \<open>What they do\<close>

lemma addrPattern_iff:
  "re_match addrPattern s \<longleftrightarrow>
     (\<exists>host port. s = host @ '':'' @ port \<and> host \<noteq> [] \<and> port \<noteq> [] \<and> list_all is_digit port \<and>
        list_all (\<lambda>c. is_word_char c \<or> c = CHR ''.'' \<or> c = CHR ''-'') host)"
proof -
  have len: "Suc 0 \<le> length w \<longleftrightarrow> w \<noteq> []" for w :: string by (cases w) auto
  show ?thesis
    by (simp add: addrPattern_def re_match_Cons_iff len) blast
qed

text \<open>Without a public key no transaction passes validation.\<close>

lemma prepared_needs_pk: "prepared E params plan = Inr c \<Longrightarrow> truthy (b_pk params)"
  by (auto simp: prepared_def take_plan_def computeTransactionID_eq tx_errors_Nil buildTransaction_def
      split: sum.split_asm if_split_asm)

lemma createTransaction_needs_pk: "createTransaction E params s = (Inr c, t) \<Longrightarrow> truthy (b_pk params)"
  using createTransaction_success prepared_needs_pk by blast

lemma api_keeps_emitted:
  "keeps dc_emitted (createTransaction E params)" "keeps alerts (createTransaction E params)"
  for E :: env
  unfolding createTransaction_def Let_def by (intro keeps_rules; simp)+

lemma dc_handleSubmit_run:
  assumes "canSubmit s"
  shows "\<exists>e t. createTransaction E (dc_params w s) s = (Inl e, t) \<and>
     dc_handleSubmit E w s = (Inr (), t\<lparr>alerts := alerts t @ [''Failed to create transaction: '' @ to_str (err_msg e)]\<rparr>)"
proof (cases "createTransaction E (dc_params w s) s")
  case (Pair r t)
  then obtain e where "r = Inl e"
    using createTransaction_needs_pk [of E "dc_params w s" s _ t] by (cases r) (auto simp: dc_params_def)
  with Pair assms show ?thesis by (simp add: dc_handleSubmit_def jbind_run try_catch_run)
qed

lemma handleSign_run:
  "handleSign E k s =
     (case signAndSend E k (s\<lparr>isSigning := True\<rparr>) of
        (Inl e, t) \<Rightarrow> (Inr (), t\<lparr>isSigning := False\<rparr>)
      | (Inr r, t) \<Rightarrow> (Inr (), t\<lparr>sg_emitted := sg_emitted t @ [TransactionSent r], isSigning := False\<rparr>))"
  by (simp add: handleSign_def jseq_run try_finally_run try_catch_run jbind_run split: prod.split sum.split)

lemma createNewWallet_run:
  "createNewWallet E s =
     (case createWallet E (s\<lparr>wm_loading := True\<rparr>) of
        (Inl e, t) \<Rightarrow> (Inr (), t\<lparr>alerts := alerts t @ [''Failed to create wallet: '' @ to_str (err_msg e)], wm_loading := False\<rparr>)
      | (Inr _, t) \<Rightarrow> (Inr (), t\<lparr>showKeys := True, wm_loading := False\<rparr>))"
  by (simp add: createNewWallet_def jseq_run try_finally_run try_catch_run jbind_run split: prod.split sum.split)

text \<open>A hash is on show only for a valid domain, and it is the hash of the domain and salt on show.\<close>

lemma dc_watch_run:
  "dc_watch E s =
     (Inr (), if dc_domainName s = [] \<or> dc_salt s = [] then s\<lparr>dc_hashedValue := []\<rparr>
              else if \<not> isValidDomain (JStr (dc_domainName s))
              then s\<lparr>dc_error := ''Invalid domain format'', dc_hashedValue := []\<rparr>
              else s\<lparr>dc_error := [], dc_hashedValue :=
                case hashDomainWithSalt E (dc_domainName s) (dc_salt s) of Inl _ \<Rightarrow> [] | Inr h \<Rightarrow> h\<rparr>)"
  by (simp add: dc_watch_def jbind_run jseq_run try_catch_run split: sum.split)

subsection \<open>Handlers that always return\<close>

lemma alert_settles [settles_rules]: "settles (alert m)"
  by (simp add: alert_def settles_rules)

lemma page_handlers_settle:
  "settles (createNewWallet E)" "settles (handleImport E files)" "settles (handleSign E key)" "settles (dc_handleSubmit E w)"
  unfolding createNewWallet_def handleImport_def handleSign_def dc_handleSubmit_def
  by (intro settles_rules)+

text \<open>\<open>connect\<close> with a full storage aside: it ends at the wallet's path, or with a message and no stored address.\<close>

lemma connect_run:
  assumes "\<And>m k v. quota_ok E m k v"
  shows "connect E s =
    (if proxyAddr s = [] then (Inr (), s\<lparr>home_error := ''Please enter a proxy address''\<rparr>)
     else if \<not> re_match addrPattern (proxyAddr s)
     then (Inr (), s\<lparr>home_error := ''Invalid address format. Expected format: host:port (e.g., 127.0.0.1:8080)''\<rparr>)
     else case ApiService.getMinerID E (s\<lparr>home_error := [], localStorage := (localStorage s)(''proxyAddr'' \<mapsto> proxyAddr s)\<rparr>) of
       (Inl e, t) \<Rightarrow> (Inr (), t\<lparr>home_error := ''Failed to connect: '' @ to_str (err_msg e),
                             localStorage := (localStorage t)(''proxyAddr'' := None)\<rparr>)
     | (Inr m, t) \<Rightarrow> (Inr (), t\<lparr>localStorage := (localStorage t)(''minerID'' \<mapsto> to_str m), pushed := pushed t @ [''/wallet'']\<rparr>))"
  using assms
  by (simp add: connect_def jbind_run [of "jget _"] jseq_run [of "jmodify _"] jseq_run [of "ls_setItem _ _ _"] ls_setItem_run)
     (simp add: try_catch_run jbind_run jseq_run ls_setItem_run split: prod.split sum.split)

end
