(* ===== verification/Templates.thy ===== *)
theory Templates
  imports WalletInv Pages
begin

section \<open>The templates of the pages\<close>

text \<open>
  What each template renders, as a function of the component's state: elements with their
  attributes, the control they carry (a handler or a bound field), whether they are disabled,
  and their children. White space between elements is not kept; characters outside ASCII are
  written as character references. \<open>live\<close> collects the controls a user can operate; for the
  wallet page they are exactly the events \<open>enabled\<close> lets happen.
\<close>

datatype 'c html =
    Txt string
  | El string "(string \<times> string) list" "'c option" bool "'c html list"

abbreviation box :: "string \<Rightarrow> string \<Rightarrow> 'c html list \<Rightarrow> 'c html" where
  "box tag cls children \<equiv> El tag [(''class'', cls)] None False children"

abbreviation plain :: "string \<Rightarrow> 'c html list \<Rightarrow> 'c html" where
  "plain tag children \<equiv> El tag [] None False children"

definition v_if :: "bool \<Rightarrow> 'c html \<Rightarrow> 'c html list" where
  "v_if b n = (if b then [n] else [])"

fun live :: "'c html \<Rightarrow> 'c list" where
  "live (Txt _) = []"
| "live (El _ _ c off children) =
     (case c of None \<Rightarrow> [] | Some x \<Rightarrow> if off then [] else [x]) @ concat (map live children)"

fun texts :: "'c html \<Rightarrow> string list" where
  "texts (Txt t) = [t]"
| "texts (El _ _ _ _ children) = concat (map texts children)"

text \<open>\<open>{{ v }}\<close>\<close>

fun display :: "jsval \<Rightarrow> string" where
  "display JUndef = []"
| "display JNull = []"
| "display (JArr vs) = json_pretty [] (JArr vs)"
| "display (JObj fs) = json_pretty [] (JObj fs)"
| "display v = to_str v"

text \<open>the value a text or number input shows for its model\<close>

definition input_value :: "jsval \<Rightarrow> string" where
  "input_value v = (if v = JUndef \<or> v = JNull then [] else to_str v)"

text \<open>\<open>:class="v"\<close> beside a static class\<close>

fun norm_class :: "jsval \<Rightarrow> string" where
  "norm_class (JStr s) = s"
| "norm_class (JArr vs) = trim (concat (map (\<lambda>v. let c = norm_class v in if c = [] then [] else c @ '' '') vs))"
| "norm_class (JObj fs) = trim (concat (map (\<lambda>(k, v). if truthy v then k @ '' '' else []) fs))"
| "norm_class _ = []"

definition class_and :: "string \<Rightarrow> string \<Rightarrow> string" where
  "class_and cls dyn = (if dyn = [] then cls else cls @ '' '' @ dyn)"

text \<open>\<open>:disabled="v"\<close>: the empty string counts as set.\<close>

definition vue_disabled :: "jsval \<Rightarrow> bool" where
  "vue_disabled v \<longleftrightarrow> truthy v \<or> v = JStr []"

subsection \<open>\<open>views/Wallet.vue\<close>\<close>

datatype wallet_ctl =
    CDomain | CTtl | CSubmit | CClear | CRefresh
  | CIp nat string | CRowTtl nat string | CReveal nat | CUpdate nat

definition wallet_header :: "'z wallet_view_scheme \<Rightarrow> wallet_ctl html" where
  "wallet_header s =
     box ''header'' ''wallet-header''
       [box ''div'' ''header-content''
         [plain ''h1'' [Txt ''Peerster Wallet''],
          box ''div'' ''connection-info''
            [box ''span'' (class_and ''status-indicator'' (if isConnected s then ''connected'' else [])) [],
             box ''span'' ''connection-status'' [Txt (connectionStatus s)]]]]"

definition commit_form :: "'z wallet_view_scheme \<Rightarrow> wallet_ctl html" where
  "commit_form s =
     box ''form'' ''transaction-form''
       [box ''div'' ''form-group''
         [El ''label'' [(''for'', ''domain'')] None False [Txt ''Domain Name:''],
          El ''input'' [(''id'', ''domain''), (''value'', domainName s), (''type'', ''text''),
                        (''placeholder'', ''example.com''), (''required'', [])]
            (Some CDomain) (wv_isProcessing s) []],
        box ''div'' ''form-group''
         [El ''label'' [(''for'', ''ttl'')] None False [Txt ''TTL (blocks):''],
          El ''input'' [(''id'', ''ttl''), (''value'', input_value (wv_ttl s)), (''type'', ''number''), (''min'', ''0''),
                        (''step'', ''1''), (''placeholder'', ''0 for default'')]
            (Some CTtl) (wv_isProcessing s) [],
          box ''small'' ''form-hint''
            [Txt ''Number of blocks the reservation will live. 0 uses default TTL (36,000 blocks).'']],
        El ''button'' [(''type'', ''submit''), (''class'', ''submit-btn'')]
          (Some CSubmit) (wv_isProcessing s \<or> domainName s = [])
          [Txt (if wv_isProcessing s then ''Processing...'' else ''Create Commitment'')]]"

definition commit_section :: "'z wallet_view_scheme \<Rightarrow> wallet_ctl html" where
  "commit_section s =
     box ''div'' ''transaction-section''
       ([plain ''h2'' [Txt ''Register New Domain (Step 1: Commitment)''],
         box ''p'' ''section-description''
           [Txt ''Create a commitment for a new domain. This hides your domain choice from others.''],
         commit_form s] @
        v_if (wv_status s \<noteq> []) (box ''div'' (class_and ''status'' (statusClass (wv_status s))) [Txt (wv_status s)]) @
        v_if (truthy (lastTxId s)) (box ''div'' ''tx-info''
           [plain ''strong'' [Txt ''Transaction ID:''], Txt (display (lastTxId s))]))"

definition row_inputs :: "'z wallet_view_scheme \<Rightarrow> nat \<Rightarrow> string \<Rightarrow> string \<Rightarrow> string \<Rightarrow> string \<Rightarrow> wallet_ctl \<Rightarrow> string \<Rightarrow> wallet_ctl html" where
  "row_inputs s r ip ttl busy hint act label =
     box ''div'' ''domain-update''
       [El ''input'' [(''value'', input_value (row_field s r ip)), (''type'', ''text''), (''placeholder'', hint), (''class'', ''ip-input'')]
          (Some (CIp r ip)) (vue_disabled (row_field s r busy)) [],
        El ''input'' [(''value'', input_value (row_field s r ttl)), (''type'', ''number''), (''min'', ''0''), (''step'', ''1''),
                      (''placeholder'', ''TTL (0=default)''), (''class'', ''ttl-input'')]
          (Some (CRowTtl r ttl)) (vue_disabled (row_field s r busy)) [],
        El ''button'' [(''class'', ''action-btn primary'')]
          (Some act) (truthy (row_field s r busy) \<or> \<not> truthy (row_field s r ip)) [Txt label]]"

definition domain_item :: "'z wallet_view_scheme \<Rightarrow> nat \<Rightarrow> wallet_ctl html" where
  "domain_item s r =
     (let status = row_field s r ''status''
      in box ''div'' (class_and ''domain-item'' (norm_class status))
       ([box ''div'' ''domain-header''
          [box ''div'' ''domain-name'' [Txt (display (row_field s r ''domain''))],
           box ''span'' (class_and ''domain-badge'' (norm_class status))
             [Txt (if strict_eq status (JStr ''pending'') then ''Pending'' else ''Active'')]]] @
        v_if (strict_eq status (JStr ''revealed'') \<and> truthy (row_field s r ''ip''))
          (box ''div'' ''domain-info''
            [box ''span'' ''domain-ip'' [Txt (''Current IP: '' @ display (row_field s r ''ip''))]]) @
        v_if (strict_eq status (JStr ''pending''))
          (row_inputs s r ''revealIp'' ''revealTtl'' ''isRevealing'' ''Enter IP address'' (CReveal r) ''Reveal Domain'') @
        v_if (strict_eq status (JStr ''revealed''))
          (row_inputs s r ''newIp'' ''updateTtl'' ''isUpdating'' ''Enter new IP address'' (CUpdate r) ''Update IP'')))"

definition my_domains_section :: "'z wallet_view_scheme \<Rightarrow> wallet_ctl html" where
  "my_domains_section s =
     box ''div'' ''my-domains-section''
       ([plain ''h2'' [Txt ''My Domains'']] @
        v_if (length (myDomains s) > 0)
          (box ''div'' ''subsection''
            [box ''div'' ''subsection-header''
               [plain ''h3'' [Txt ''Your Domains''],
                El ''button'' [(''class'', ''clear-btn''), (''title'', ''Clear all pending domains'')] (Some CClear) False [Txt ''Clear All'']],
             box ''p'' ''section-description''
               [Txt ''&#x26A0;&#xFE0F; Wait for commitment to be mined before revealing. After reveal, you can update the IP address.''],
             box ''div'' ''domains-list'' (map (domain_item s) (myDomains s))]) @
        v_if (length (myDomains s) = 0)
          (box ''div'' ''no-domains'' [Txt (''You don'' @ [CHR 0x27] @ ''t have any domains yet. Register one above!'')]))"

definition dns_section :: "'z wallet_view_scheme \<Rightarrow> wallet_ctl html" where
  "dns_section s =
     box ''div'' ''dns-section''
       ([plain ''h2'' [Txt ''Registered Domains''],
         El ''button'' [(''class'', ''action-btn'')] (Some CRefresh) False [Txt ''Refresh Domains'']] @
        (if length (wv_domains s) > 0
         then [box ''div'' ''domains-list''
                 (map (\<lambda>d. box ''div'' ''domain-item''
                    [box ''div'' ''domain-name'' [Txt (display (dns_name d))],
                     box ''div'' ''domain-info'' [box ''span'' ''domain-owner'' [Txt (''Owner: '' @ display (dns_owner d))]]])
                   (wv_domains s))]
         else v_if (domainsLoaded s) (box ''div'' ''no-domains'' [Txt ''No domains registered yet.''])))"

definition wallet_html :: "'z wallet_view_scheme \<Rightarrow> wallet_ctl html" where
  "wallet_html s =
     box ''div'' ''wallet-view''
       [wallet_header s,
        box ''div'' ''wallet-container''
          (v_if (isWalletLoaded s) (commit_section s) @
           v_if (isWalletLoaded s) (my_domains_section s) @
           [dns_section s])]"

subsection \<open>\<open>views/Home.vue\<close>\<close>

datatype home_ctl = HAddr | HConnect

definition home_html :: "'z home_scheme \<Rightarrow> home_ctl html" where
  "home_html s =
     box ''div'' ''home-container''
       [box ''div'' ''connect-box''
         ([plain ''h1'' [Txt ''CS438 - Peerster Wallet''],
           box ''p'' ''subtitle'' [Txt (''Enter the peer'' @ [CHR 0x27] @ ''s proxy address'')],
           box ''form'' ''connect-form''
             [El ''input'' [(''value'', proxyAddr s), (''type'', ''text''), (''id'', ''addr''), (''placeholder'', ''127.0.0.1:8080''),
                            (''class'', ''proxy-input''), (''required'', [])] (Some HAddr) False [],
              El ''button'' [(''type'', ''submit''), (''class'', ''connect-btn'')] (Some HConnect) False [Txt ''Connect'']]] @
          v_if (home_error s \<noteq> []) (box ''div'' ''error-message'' [Txt (home_error s)]) @
          [box ''div'' ''instructions''
             [plain ''h3'' [Txt ''Quick Start:''],
              plain ''ol''
                [plain ''li'' [Txt ''Start a peer: '', plain ''code'' [Txt ''cd gui && go run gui.go start'']],
                 plain ''li'' [Txt ''Copy the proxy address from the log output''],
                 plain ''li'' [Txt (''Enter it above and click '' @ [CHR 0x22] @ ''Connect'' @ [CHR 0x22])]]]])]"

subsection \<open>\<open>components/DomainCreator.vue\<close>\<close>

datatype creator_ctl = DDomain | DRegenerate | DFee | DSubmit

definition creator_html :: "'z domain_creator_scheme \<Rightarrow> creator_ctl html" where
  "creator_html s =
     box ''div'' ''domain-creator''
       [plain ''h2'' [Txt ''Create Domain''],
        plain ''form''
          [box ''div'' ''field''
             ([El ''label'' [(''for'', ''domain'')] None False [Txt ''Domain Name:''],
               El ''input'' [(''id'', ''domain''), (''value'', dc_domainName s), (''type'', ''text''),
                             (''placeholder'', ''example.com''), (''required'', [])] (Some DDomain) False []] @
              v_if (dc_error s \<noteq> []) (box ''span'' ''error'' [Txt (dc_error s)])),
           box ''div'' ''field''
             [plain ''label'' [Txt ''Salt (auto-generated):''],
              box ''div'' ''value-box''
                [Txt (dc_salt s),
                 El ''button'' [(''type'', ''button''), (''class'', ''small-btn'')] (Some DRegenerate) False [Txt ''&#x1F504;'']],
              box ''p'' ''info'' [Txt (''&#x26A0;&#xFE0F; Save this salt! You'' @ [CHR 0x27] @ ''ll need it later.'')]],
           box ''div'' ''field''
             [plain ''label'' [Txt ''Hash (domain + salt):''],
              box ''div'' ''value-box hash'' [Txt (if dc_hashedValue s \<noteq> [] then dc_hashedValue s else ''Calculating...'')]],
           box ''div'' ''field''
             [El ''label'' [(''for'', ''fee'')] None False [Txt ''Fee:''],
              El ''input'' [(''id'', ''fee''), (''value'', input_value (dc_fee s)), (''type'', ''number''), (''min'', ''1''), (''required'', [])]
                (Some DFee) False []],
           El ''button'' [(''type'', ''submit''), (''class'', ''btn-primary'')] (Some DSubmit) (\<not> canSubmit s) [Txt ''Create Transaction'']]]"

subsection \<open>\<open>components/TransactionSigner.vue\<close>\<close>

datatype signer_ctl = SSign | SCancel

text \<open>A transaction as the object the template reads properties of.\<close>

definition tx_obj :: "tx \<Rightarrow> jsval" where
  "tx_obj tx = JObj
     ([(''type'', tx_type tx), (''from'', tx_from tx), (''amount'', tx_amount tx), (''payload'', tx_payload tx),
      (''pk'', tx_pk tx), (''inputs'', tx_inputs tx), (''outputs'', tx_outputs tx), (''transactionID'', tx_id tx)] @
      (if tx_hash tx = JUndef then [] else [(''txHash'', tx_hash tx)]))"

definition signer_detail :: "jsval \<Rightarrow> string \<Rightarrow> string \<Rightarrow> string \<Rightarrow> signer_ctl html" where
  "signer_detail transaction label cls key =
     box ''div'' ''detail''
       [box ''span'' ''label'' [Txt label], box ''span'' cls [Txt (display (opt_prop transaction key))]]"

definition signer_html :: "jsval \<Rightarrow> 'z signer_scheme \<Rightarrow> signer_ctl html" where
  "signer_html transaction s =
     box ''div'' ''transaction-signer''
       ([plain ''h3'' [Txt ''Transaction Preview''],
         box ''div'' ''tx-details''
           [signer_detail transaction ''Type:'' ''value'' ''type'',
            signer_detail transaction ''Source:'' ''value mono'' ''source'',
            signer_detail transaction ''Fee:'' ''value'' ''fee'',
            signer_detail transaction ''Nonce:'' ''value'' ''nonce'',
            signer_detail transaction ''Transaction ID:'' ''value mono'' ''transactionID'']] @
        v_if (ut_status s = ''idle'') (box ''div'' ''actions''
          [El ''button'' [(''class'', ''btn-primary'')] (Some SSign) (isSigning s)
             [Txt (if isSigning s then ''Signing...'' else ''Sign & Send'')],
           El ''button'' [(''class'', ''btn-cancel'')] (Some SCancel) False [Txt ''Cancel'']]) @
        v_if (ut_status s = ''signing'') (box ''div'' ''status signing'' [Txt ''&#x1F510; Signing transaction...'']) @
        v_if (ut_status s = ''sending'') (box ''div'' ''status sending'' [Txt ''&#x1F4E4; Sending to network...'']) @
        v_if (ut_status s = ''success'') (box ''div'' ''status success'' [Txt ''&#x2705; Transaction sent successfully!'']) @
        v_if (ut_status s = ''error'') (box ''div'' ''status error'' [Txt (''&#x274C; Error: '' @ display (ut_error s))]))"

subsection \<open>\<open>components/WalletManager.vue\<close>\<close>

datatype manager_ctl = MCreate | MImport | MDownload | MContinue

definition manager_html :: "'z wallet_manager_scheme \<Rightarrow> manager_ctl html" where
  "manager_html s =
     box ''div'' ''wallet-manager''
       [plain ''h2'' [Txt ''Wallet Setup''],
        (if \<not> showKeys s
         then box ''div'' ''options''
           [El ''button'' [(''class'', ''btn-primary'')] (Some MCreate) (wm_loading s)
              [Txt (if wm_loading s then ''Creating...'' else ''Create New Wallet'')],
            box ''p'' ''separator'' [Txt ''or''],
            box ''div'' ''import-section''
              [El ''label'' [(''for'', ''wallet-file'')] None False [Txt ''Import Wallet:''],
               El ''input'' [(''id'', ''wallet-file''), (''type'', ''file''), (''accept'', ''.json'')] (Some MImport) (wm_loading s) []]]
         else box ''div'' ''wallet-info''
           [box ''div'' ''success'' [Txt ''&#x2705; Wallet Created!''],
            box ''div'' ''field''
              [plain ''label'' [Txt ''Wallet ID:''],
               box ''div'' ''value'' [Txt (case walletID s of None \<Rightarrow> [] | Some i \<Rightarrow> i)]],
            box ''div'' ''field warning''
              [plain ''label'' [Txt ''&#x26A0;&#xFE0F; Private Key (SAVE THIS!):''],
               box ''div'' ''value'' [Txt (display (privateKey (wallet s)))],
               box ''p'' ''warning-text'' [Txt ''Store this securely. You cannot recover it!'']],
            box ''div'' ''actions''
              [El ''button'' [(''class'', ''btn-secondary'')] (Some MDownload) False [Txt ''&#x1F4BE; Download''],
               El ''button'' [(''class'', ''btn-primary'')] (Some MContinue) False [Txt ''Continue &#x2192;'']]])]"

subsection \<open>What a user can do\<close>

fun ctl_of :: "view_event \<Rightarrow> wallet_ctl option" where
  "ctl_of (TypeDomain _) = Some CDomain"
| "ctl_of (TypeTtl _) = Some CTtl"
| "ctl_of Submit = Some CSubmit"
| "ctl_of (TypeIp r k _) = Some (CIp r k)"
| "ctl_of (TypeRowTtl r k _) = Some (CRowTtl r k)"
| "ctl_of (Reveal r) = Some (CReveal r)"
| "ctl_of (UpdateIp r) = Some (CUpdate r)"
| "ctl_of ClearDomains = Some CClear"
| "ctl_of Refresh = Some CRefresh"
| "ctl_of _ = None"

lemma live_v_if [simp]: "concat (map live (v_if b n)) = (if b then live n else [])"
  by (simp add: v_if_def)

lemma live_header [simp]: "live (wallet_header s) = []"
  by (simp add: wallet_header_def)

lemma live_commit [simp]:
  "live (commit_section s) =
     (if wv_isProcessing s then [] else [CDomain, CTtl]) @ (if wv_isProcessing s \<or> domainName s = [] then [] else [CSubmit])"
  by (simp add: commit_section_def commit_form_def)

lemma live_dns [simp]: "live (dns_section s) = [CRefresh]"
  by (auto simp: dns_section_def comp_def v_if_def)

lemma live_row_inputs:
  "set (live (row_inputs s r ip ttl busy hint act label)) =
     (if vue_disabled (row_field s r busy) then {} else {CIp r ip, CRowTtl r ttl}) \<union>
     (if truthy (row_field s r busy) \<or> \<not> truthy (row_field s r ip) then {} else {act})"
  by (auto simp: row_inputs_def)

lemma live_item:
  "set (live (domain_item s r)) =
     (if row_field s r ''status'' = JStr ''pending''
      then set (live (row_inputs s r ''revealIp'' ''revealTtl'' ''isRevealing'' ''Enter IP address'' (CReveal r) ''Reveal Domain''))
      else if row_field s r ''status'' = JStr ''revealed''
      then set (live (row_inputs s r ''newIp'' ''updateTtl'' ''isUpdating'' ''Enter new IP address'' (CUpdate r) ''Update IP''))
      else {})"
  by (simp add: domain_item_def Let_def)

lemma live_my_domains:
  "set (live (my_domains_section s)) =
     (if myDomains s = [] then {} else {CClear} \<union> (\<Union>r\<in>set (myDomains s). set (live (domain_item s r))))"
  by (auto simp: my_domains_section_def comp_def)

lemma live_wallet:
  "set (live (wallet_html s)) =
     (if isWalletLoaded s then set (live (commit_section s)) \<union> set (live (my_domains_section s)) else {}) \<union> {CRefresh}"
  by (auto simp: wallet_html_def simp del: live_commit)

lemma idle_rows_on:
  assumes "idle_except {} s" "r < next_row s"
  shows "row_field s r ''isRevealing'' = JBool False" "row_field s r ''isUpdating'' = JBool False"
  using assms by (auto simp: idle_except_def busy_keys_def row_field_def)

lemma live_item_idle:
  assumes "row_field s r ''isRevealing'' = JBool False" "row_field s r ''isUpdating'' = JBool False"
  shows "c \<in> set (live (domain_item s r)) \<longleftrightarrow>
     row_field s r ''status'' = JStr ''pending'' \<and>
       (c = CIp r ''revealIp'' \<or> c = CRowTtl r ''revealTtl'' \<or> c = CReveal r \<and> truthy (row_field s r ''revealIp'')) \<or>
     row_field s r ''status'' = JStr ''revealed'' \<and>
       (c = CIp r ''newIp'' \<or> c = CRowTtl r ''updateTtl'' \<or> c = CUpdate r \<and> truthy (row_field s r ''newIp''))"
  by (simp add: live_item live_row_inputs vue_disabled_def assms)

lemma live_rows_idle:
  assumes "\<forall>r\<in>set (myDomains s). row_field s r ''isRevealing'' = JBool False \<and> row_field s r ''isUpdating'' = JBool False"
  shows "c \<in> set (live (my_domains_section s)) \<longleftrightarrow>
     c = CClear \<and> myDomains s \<noteq> [] \<or>
     (\<exists>r\<in>set (myDomains s).
       row_field s r ''status'' = JStr ''pending'' \<and>
         (c = CIp r ''revealIp'' \<or> c = CRowTtl r ''revealTtl'' \<or> c = CReveal r \<and> truthy (row_field s r ''revealIp'')) \<or>
       row_field s r ''status'' = JStr ''revealed'' \<and>
         (c = CIp r ''newIp'' \<or> c = CRowTtl r ''updateTtl'' \<or> c = CUpdate r \<and> truthy (row_field s r ''newIp'')))"
  using assms by (simp add: live_my_domains live_item_idle)

lemma live_iff_enabled:
  assumes inv: "view_inv E s" and ctl: "ctl_of ev = Some c"
  shows "c \<in> set (live (wallet_html s)) \<longleftrightarrow> enabled ev s"
proof -
  have "idle_except {} s" "\<forall>r\<in>set (myDomains s). r < next_row s"
    using inv by (auto simp: view_inv_def rows_inv_def shown_ok_def)
  then have idle: "\<forall>r\<in>set (myDomains s). row_field s r ''isRevealing'' = JBool False \<and> row_field s r ''isUpdating'' = JBool False"
    using idle_rows_on by blast
  note parts = live_wallet live_rows_idle [OF idle]
  show ?thesis
  proof (cases ev)
    case (TypeIp r k t)
    then have c: "c = CIp r k" using ctl by simp
    show ?thesis using idle unfolding TypeIp c by (cases "isWalletLoaded s") (auto simp: parts)
  next
    case (TypeRowTtl r k v)
    then have c: "c = CRowTtl r k" using ctl by simp
    show ?thesis using idle unfolding TypeRowTtl c by (cases "isWalletLoaded s") (auto simp: parts)
  next
    case (Reveal r)
    then have c: "c = CReveal r" using ctl by simp
    show ?thesis using idle unfolding Reveal c by (cases "isWalletLoaded s") (auto simp: parts)
  next
    case (UpdateIp r)
    then have c: "c = CUpdate r" using ctl by simp
    show ?thesis using idle unfolding UpdateIp c by (cases "isWalletLoaded s") (auto simp: parts)
  qed (use ctl in \<open>auto simp: parts\<close>)
qed

end
