(* ===== verification/StMaps.thy ===== *)
theory StMaps
  imports JsValue
begin

section \<open>Sets, maps and multimaps of the page library\<close>

text \<open>
  The collections of \<open>gui/web/assets/scripts/stimulus.js\<close>. A JavaScript \<open>Set\<close> is a list
  without repetitions and a \<open>Map\<close> an association list with one entry per key, both in the
  order of insertion. On them stand \<open>Multimap\<close> and \<open>IndexedMultimap\<close>. The locale \<open>multimap\<close>
  is what their users rely on: a multimap is a relation between keys and values; both
  classes are shown to implement it.
\<close>

subsection \<open>\<open>Set\<close> and \<open>Map\<close>\<close>

definition set_add :: "'a \<Rightarrow> 'a list \<Rightarrow> 'a list" where
  "set_add x xs = (if x \<in> set xs then xs else xs @ [x])"

definition set_delete :: "'a \<Rightarrow> 'a list \<Rightarrow> 'a list" where
  "set_delete x xs = filter (\<lambda>y. y \<noteq> x) xs"

text \<open>\<open>new Set(xs)\<close>\<close>

definition set_of :: "'a list \<Rightarrow> 'a list" where
  "set_of xs = fold set_add xs []"

fun map_set :: "'k \<Rightarrow> 'v \<Rightarrow> ('k \<times> 'v) list \<Rightarrow> ('k \<times> 'v) list" where
  "map_set k v [] = [(k, v)]"
| "map_set k v ((k', v') # m) = (if k = k' then (k, v) # m else (k', v') # map_set k v m)"

definition map_delete :: "'k \<Rightarrow> ('k \<times> 'v) list \<Rightarrow> ('k \<times> 'v) list" where
  "map_delete k m = filter (\<lambda>(k', _). k' \<noteq> k) m"

abbreviation map_get :: "('k \<times> 'v) list \<Rightarrow> 'k \<Rightarrow> 'v option" where
  "map_get m k \<equiv> map_of m k"

abbreviation map_keys :: "('k \<times> 'v) list \<Rightarrow> 'k list" where
  "map_keys m \<equiv> map fst m"

lemma set_set_add [simp]: "set (set_add x xs) = insert x (set xs)"
  by (auto simp: set_add_def)

lemma distinct_set_add [simp]: "distinct (set_add x xs) = distinct xs"
  by (auto simp: set_add_def)

lemma set_set_delete [simp]: "set (set_delete x xs) = set xs - {x}"
  by (auto simp: set_delete_def)

lemma distinct_set_delete [simp]: "distinct xs \<Longrightarrow> distinct (set_delete x xs)"
  by (simp add: set_delete_def)

lemma set_of_props [simp]: "set (set_of xs) = set xs" "distinct (set_of xs)"
proof -
  have "set (fold set_add xs ys) = set xs \<union> set ys \<and> (distinct ys \<longrightarrow> distinct (fold set_add xs ys))" for ys
    by (induction xs arbitrary: ys) auto
  from this [of "[]"] show "set (set_of xs) = set xs" "distinct (set_of xs)" by (simp_all add: set_of_def)
qed

lemma set_of_distinct: "distinct xs \<Longrightarrow> set_of xs = xs"
proof -
  have "distinct (ys @ xs) \<Longrightarrow> fold set_add xs ys = ys @ xs" for ys
    by (induction xs arbitrary: ys) (auto simp: set_add_def)
  from this [of "[]"] show "distinct xs \<Longrightarrow> set_of xs = xs" by (simp add: set_of_def)
qed

lemma map_get_set [simp]: "map_get (map_set k v m) k' = (if k' = k then Some v else map_get m k')"
  by (induction k v m rule: map_set.induct) auto

lemma map_get_delete [simp]: "map_get (map_delete k m) k' = (if k' = k then None else map_get m k')"
  by (induction m) (auto simp: map_delete_def)

lemma map_set_same: "map_get m k = Some v \<Longrightarrow> map_set k v m = m"
  by (induction k v m rule: map_set.induct) (auto split: if_split_asm)

lemma map_set_twice: "map_set k v (map_set k u m) = map_set k v m"
  by (induction k u m rule: map_set.induct) auto

lemma keys_map_set: "set (map_keys (map_set k v m)) = insert k (set (map_keys m))"
  by (induction k v m rule: map_set.induct) auto

lemma distinct_map_set [simp]: "distinct (map_keys (map_set k v m)) = distinct (map_keys m)"
  by (induction k v m rule: map_set.induct) (auto simp: keys_map_set [unfolded set_map])

lemma keys_map_delete: "map_keys (map_delete k m) = filter (\<lambda>x. x \<noteq> k) (map_keys m)"
  by (induction m) (auto simp: map_delete_def)

lemma distinct_map_delete [simp]: "distinct (map_keys m) \<Longrightarrow> distinct (map_keys (map_delete k m))"
  by (simp add: keys_map_delete)

lemma in_map_iff: "distinct (map_keys m) \<Longrightarrow> (k, v) \<in> set m \<longleftrightarrow> map_get m k = Some v"
  by simp

subsection \<open>\<open>Multimap\<close>\<close>

type_synonym ('k, 'v) mm = "('k \<times> 'v list) list"

text \<open>\<open>fetch(map, key)\<close>: the set of the key, made if there is none, and the map with it.\<close>

definition mm_fetch :: "('k, 'v) mm \<Rightarrow> 'k \<Rightarrow> 'v list \<times> ('k, 'v) mm" where
  "mm_fetch m k = (case map_get m k of Some vs \<Rightarrow> (vs, m) | None \<Rightarrow> ([], map_set k [] m))"

definition mm_prune :: "('k, 'v) mm \<Rightarrow> 'k \<Rightarrow> ('k, 'v) mm" where
  "mm_prune m k = (case map_get m k of Some vs \<Rightarrow> if length vs = 0 then map_delete k m else m | None \<Rightarrow> m)"

definition mm_add :: "'k \<Rightarrow> 'v \<Rightarrow> ('k, 'v) mm \<Rightarrow> ('k, 'v) mm" where
  "mm_add k v m = (case mm_fetch m k of (vs, m') \<Rightarrow> map_set k (set_add v vs) m')"

definition mm_del :: "'k \<Rightarrow> 'v \<Rightarrow> ('k, 'v) mm \<Rightarrow> ('k, 'v) mm" where
  "mm_del k v m = (case mm_fetch m k of (vs, m') \<Rightarrow> mm_prune (map_set k (set_delete v vs) m') k)"

definition mm_values :: "('k, 'v) mm \<Rightarrow> 'v list" where
  "mm_values m = foldl (\<lambda>vs (k, set). vs @ set) [] m"

definition mm_size :: "('k, 'v) mm \<Rightarrow> nat" where
  "mm_size m = foldl (\<lambda>n (k, set). n + length set) 0 m"

definition mm_has :: "('k, 'v) mm \<Rightarrow> 'k \<Rightarrow> 'v \<Rightarrow> bool" where
  "mm_has m k v = (case map_get m k of None \<Rightarrow> False | Some vs \<Rightarrow> v \<in> set vs)"

definition mm_hasKey :: "('k, 'v) mm \<Rightarrow> 'k \<Rightarrow> bool" where
  "mm_hasKey m k \<longleftrightarrow> map_get m k \<noteq> None"

definition mm_hasValue :: "('k, 'v) mm \<Rightarrow> 'v \<Rightarrow> bool" where
  "mm_hasValue m v = list_ex (\<lambda>(k, vs). v \<in> set vs) m"

definition getValuesForKey :: "('k, 'v) mm \<Rightarrow> 'k \<Rightarrow> 'v list" where
  "getValuesForKey m k = (case map_get m k of None \<Rightarrow> [] | Some vs \<Rightarrow> vs)"

definition getKeysForValue :: "('k, 'v) mm \<Rightarrow> 'v \<Rightarrow> 'k list" where
  "getKeysForValue m v = map fst (filter (\<lambda>(k, vs). v \<in> set vs) m)"

subsection \<open>\<open>IndexedMultimap\<close>\<close>

record ('k, 'v) imm =
  valuesByKey :: "('k, 'v) mm"
  keysByValue :: "('v, 'k) mm"

definition imm_empty :: "('k, 'v) imm" where
  "imm_empty = \<lparr>valuesByKey = [], keysByValue = []\<rparr>"

definition imm_values :: "('k, 'v) imm \<Rightarrow> 'v list" where
  "imm_values m = map_keys (keysByValue m)"

definition imm_add :: "'k \<Rightarrow> 'v \<Rightarrow> ('k, 'v) imm \<Rightarrow> ('k, 'v) imm" where
  "imm_add k v m = m\<lparr>valuesByKey := mm_add k v (valuesByKey m), keysByValue := mm_add v k (keysByValue m)\<rparr>"

definition imm_del :: "'k \<Rightarrow> 'v \<Rightarrow> ('k, 'v) imm \<Rightarrow> ('k, 'v) imm" where
  "imm_del k v m = m\<lparr>valuesByKey := mm_del k v (valuesByKey m), keysByValue := mm_del v k (keysByValue m)\<rparr>"

definition imm_hasValue :: "('k, 'v) imm \<Rightarrow> 'v \<Rightarrow> bool" where
  "imm_hasValue m v \<longleftrightarrow> map_get (keysByValue m) v \<noteq> None"

definition imm_getKeysForValue :: "('k, 'v) imm \<Rightarrow> 'v \<Rightarrow> 'k list" where
  "imm_getKeysForValue m v = (case map_get (keysByValue m) v of None \<Rightarrow> [] | Some ks \<Rightarrow> ks)"

subsection \<open>The interface\<close>

text \<open>A multimap is a relation, kept in a representation with an invariant.\<close>

locale multimap =
  fixes empty :: 'm and add del :: "'k \<Rightarrow> 'v \<Rightarrow> 'm \<Rightarrow> 'm"
    and vals :: "'m \<Rightarrow> 'v list" and valsOf :: "'m \<Rightarrow> 'k \<Rightarrow> 'v list" and keysOf :: "'m \<Rightarrow> 'v \<Rightarrow> 'k list"
    and hasV :: "'m \<Rightarrow> 'v \<Rightarrow> bool"
    and rel :: "'m \<Rightarrow> ('k \<times> 'v) set" and ok :: "'m \<Rightarrow> bool"
  assumes ok_empty: "ok empty" and rel_empty: "rel empty = {}"
    and ok_add: "ok m \<Longrightarrow> ok (add k v m)" and rel_add: "ok m \<Longrightarrow> rel (add k v m) = insert (k, v) (rel m)"
    and ok_del: "ok m \<Longrightarrow> ok (del k v m)" and rel_del: "ok m \<Longrightarrow> rel (del k v m) = rel m - {(k, v)}"
    and vals_rel: "ok m \<Longrightarrow> set (vals m) = snd ` rel m"
    and valsOf_rel: "ok m \<Longrightarrow> set (valsOf m k) = {v. (k, v) \<in> rel m} \<and> distinct (valsOf m k)"
    and keysOf_rel: "ok m \<Longrightarrow> set (keysOf m v) = {k. (k, v) \<in> rel m} \<and> distinct (keysOf m v)"
    and hasV_rel: "ok m \<Longrightarrow> hasV m v \<longleftrightarrow> v \<in> snd ` rel m"
begin

text \<open>Any sequence of additions (true) and deletions (false).\<close>

fun run :: "(bool \<times> 'k \<times> 'v) list \<Rightarrow> 'm \<Rightarrow> 'm" where
  "run [] m = m"
| "run ((b, k, v) # os) m = run os (if b then add k v m else del k v m)"

fun spec_run :: "(bool \<times> 'k \<times> 'v) list \<Rightarrow> ('k \<times> 'v) set \<Rightarrow> ('k \<times> 'v) set" where
  "spec_run [] R = R"
| "spec_run ((b, k, v) # os) R = spec_run os (if b then insert (k, v) R else R - {(k, v)})"

lemma run_refines: "ok m \<Longrightarrow> ok (run os m) \<and> rel (run os m) = spec_run os (rel m)"
  by (induction os m rule: run.induct) (auto simp: ok_add ok_del rel_add rel_del)

lemma del_add: "ok m \<Longrightarrow> (k, v) \<notin> rel m \<Longrightarrow> rel (del k v (add k v m)) = rel m"
  by (simp add: ok_add rel_add rel_del)

lemma found_iff: "ok m \<Longrightarrow> v \<in> set (valsOf m k) \<longleftrightarrow> k \<in> set (keysOf m v)"
  by (simp add: valsOf_rel keysOf_rel)

end

subsection \<open>\<open>Multimap\<close> implements it\<close>

definition mm_ok :: "('k, 'v) mm \<Rightarrow> bool" where
  "mm_ok m \<longleftrightarrow> distinct (map_keys m) \<and> list_all (\<lambda>(k, vs). distinct vs \<and> vs \<noteq> []) m"

definition mm_rel :: "('k, 'v) mm \<Rightarrow> ('k \<times> 'v) set" where
  "mm_rel m = {(k, v). mm_has m k v}"

lemma mm_rel_get: "(k, v) \<in> mm_rel m \<longleftrightarrow> v \<in> set (getValuesForKey m k)"
  by (simp add: mm_rel_def mm_has_def getValuesForKey_def split: option.split)

lemma mm_ok_iff: "mm_ok m \<longleftrightarrow> distinct (map_keys m) \<and> (\<forall>k vs. map_get m k = Some vs \<longrightarrow> distinct vs \<and> vs \<noteq> [])"
  by (fastforce simp: mm_ok_def list_all_iff simp flip: in_map_iff)

lemma get_mm_add: "map_get (mm_add k v m) k' = (if k' = k then Some (set_add v (getValuesForKey m k)) else map_get m k')"
  by (simp add: mm_add_def mm_fetch_def getValuesForKey_def split: option.split)

lemma get_mm_del:
  "map_get (mm_del k v m) k' =
     (if k' = k then (let vs = set_delete v (getValuesForKey m k) in if vs = [] then None else Some vs) else map_get m k')"
  by (simp add: mm_del_def mm_fetch_def mm_prune_def getValuesForKey_def Let_def split: option.split)

lemma distinct_mm_keys:
  "distinct (map_keys m) \<Longrightarrow> distinct (map_keys (mm_add k v m))"
  "distinct (map_keys m) \<Longrightarrow> distinct (map_keys (mm_del k v m))"
  by (simp_all add: mm_add_def mm_del_def mm_fetch_def mm_prune_def split: option.split)

lemma values_mm_add:
  "getValuesForKey (mm_add k v m) k' = (if k' = k then set_add v (getValuesForKey m k) else getValuesForKey m k')"
  by (simp add: getValuesForKey_def get_mm_add)

lemma values_mm_del:
  "getValuesForKey (mm_del k v m) k' = (if k' = k then set_delete v (getValuesForKey m k) else getValuesForKey m k')"
  by (simp add: getValuesForKey_def get_mm_del Let_def)

lemma mm_ok_values: "mm_ok m \<Longrightarrow> distinct (getValuesForKey m k)"
  by (simp add: mm_ok_iff getValuesForKey_def split: option.split)

lemma mm_ok_add: "mm_ok m \<Longrightarrow> mm_ok (mm_add k v m)"
  using distinct_mm_keys(1) [of m k v] mm_ok_values [of m k]
  by (auto simp: mm_ok_iff get_mm_add set_add_def split: if_split_asm)

lemma mm_ok_del: "mm_ok m \<Longrightarrow> mm_ok (mm_del k v m)"
  using distinct_mm_keys(2) [of m k v] mm_ok_values [of m k]
  by (auto simp: mm_ok_iff get_mm_del Let_def split: if_split_asm)

lemma mm_values_concat: "mm_values m = concat (map snd m)"
proof -
  have "foldl (\<lambda>vs (k, set). vs @ set) xs m = xs @ concat (map snd m)" for xs
    by (induction m arbitrary: xs) auto
  then show ?thesis by (simp add: mm_values_def)
qed

lemma mm_size_sum: "mm_size m = sum_list (map (\<lambda>(k, vs). length vs) m)"
proof -
  have "foldl (\<lambda>n (k, set). n + length set) j m = j + sum_list (map (\<lambda>(k, vs). length vs) m)" for j
    by (induction m arbitrary: j) (auto simp: add.assoc)
  then show ?thesis by (simp add: mm_size_def)
qed

lemma mm_rel_entries:
  assumes "distinct (map_keys m)"
  shows "mm_rel m = {(k, v). \<exists>vs. (k, vs) \<in> set m \<and> v \<in> set vs}"
  using in_map_iff [OF assms] by (auto simp: mm_rel_def mm_has_def split: option.split simp del: map_of_eq_Some_iff)

lemma finite_mm_rel: "distinct (map_keys m) \<Longrightarrow> finite (mm_rel m)"
proof (rule finite_subset)
  assume "distinct (map_keys m)"
  from mm_rel_entries [OF this] show "mm_rel m \<subseteq> fst ` set m \<times> (\<Union>(k, vs)\<in>set m. set vs)" by force
qed auto

lemma mm_size_card: "mm_ok m \<Longrightarrow> mm_size m = card (mm_rel m)"
proof (induction m)
  case Nil
  then show ?case by (simp add: mm_size_sum mm_rel_def mm_has_def)
next
  case (Cons e m)
  obtain k vs where e: "e = (k, vs)" by (cases e)
  have ok: "mm_ok m" "distinct vs" "k \<notin> fst ` set m" "distinct (map_keys (e # m))" "distinct (map_keys m)"
    using Cons.prems e by (auto simp: mm_ok_def)
  have eq: "mm_rel (e # m) = Pair k ` set vs \<union> mm_rel m"
    unfolding mm_rel_entries [OF ok(4)] mm_rel_entries [OF ok(5)] using e by auto
  have "finite (mm_rel m)" by (rule finite_mm_rel [OF ok(5)])
  moreover have "Pair k ` set vs \<inter> mm_rel m = {}"
    unfolding mm_rel_entries [OF ok(5)] using ok(3) by force
  ultimately have "card (mm_rel (e # m)) = card (Pair k ` set vs) + card (mm_rel m)"
    unfolding eq by (intro card_Un_disjoint) auto
  also have "card (Pair k ` set vs) = length vs"
    using ok(2) by (simp add: card_image inj_on_def distinct_card)
  finally show ?case using Cons.IH [OF ok(1)] e by (simp add: mm_size_sum)
qed

interpretation mmap: multimap "[]" mm_add mm_del mm_values getValuesForKey getKeysForValue mm_hasValue mm_rel mm_ok
proof
  fix m :: "('a, 'b) mm" and k v
  assume ok: "mm_ok m"
  show "mm_ok (mm_add k v m)" "mm_ok (mm_del k v m)" using ok by (simp_all add: mm_ok_add mm_ok_del)
  show "mm_rel (mm_add k v m) = insert (k, v) (mm_rel m)"
    by (rule set_eqI, case_tac x) (auto simp: mm_rel_get values_mm_add)
  show "mm_rel (mm_del k v m) = mm_rel m - {(k, v)}"
    by (rule set_eqI, case_tac x) (auto simp: mm_rel_get values_mm_del)
  have keys: "distinct (map_keys m)" using ok by (simp add: mm_ok_def)
  show "set (mm_values m) = snd ` mm_rel m"
    unfolding mm_rel_entries [OF keys] mm_values_concat by force
  show "mm_hasValue m v \<longleftrightarrow> v \<in> snd ` mm_rel m"
    unfolding mm_rel_entries [OF keys] mm_hasValue_def list_ex_iff by force
  show "set (getValuesForKey m k) = {v. (k, v) \<in> mm_rel m} \<and> distinct (getValuesForKey m k)"
    using mm_ok_values [OF ok] by (simp add: mm_rel_get)
  have "set (getKeysForValue m v) = {k. (k, v) \<in> mm_rel m}"
    unfolding mm_rel_entries [OF keys] getKeysForValue_def by force
  moreover have "distinct (getKeysForValue m v)"
    unfolding getKeysForValue_def using keys by (rule distinct_map_filter)
  ultimately show "set (getKeysForValue m v) = {k. (k, v) \<in> mm_rel m} \<and> distinct (getKeysForValue m v)" ..
qed (simp_all add: mm_ok_def mm_rel_def mm_has_def)

subsection \<open>\<open>IndexedMultimap\<close> implements it\<close>

text \<open>The two maps of an indexed multimap are converses of each other.\<close>

definition imm_ok :: "('k, 'v) imm \<Rightarrow> bool" where
  "imm_ok m \<longleftrightarrow> mm_ok (valuesByKey m) \<and> mm_ok (keysByValue m) \<and> mm_rel (keysByValue m) = (mm_rel (valuesByKey m))\<inverse>"

abbreviation imm_rel :: "('k, 'v) imm \<Rightarrow> ('k \<times> 'v) set" where
  "imm_rel m \<equiv> mm_rel (valuesByKey m)"

lemma mm_keys_rel: "mm_ok m \<Longrightarrow> k \<in> set (map_keys m) \<longleftrightarrow> (\<exists>v. (k, v) \<in> mm_rel m)"
proof -
  assume ok: "mm_ok m"
  have "k \<in> set (map_keys m) \<longleftrightarrow> (\<exists>vs. map_get m k = Some vs)"
    using map_of_eq_None_iff [of m k] by auto
  also have "\<dots> \<longleftrightarrow> (\<exists>v. (k, v) \<in> mm_rel m)"
  proof (cases "map_get m k")
    case (Some vs)
    with ok have "vs \<noteq> []" by (simp add: mm_ok_iff del: map_of_eq_Some_iff)
    with Some show ?thesis by (cases vs) (auto simp: mm_rel_get getValuesForKey_def)
  qed (simp add: mm_rel_get getValuesForKey_def)
  finally show ?thesis .
qed

interpretation imap: multimap imm_empty imm_add imm_del imm_values "\<lambda>m. getValuesForKey (valuesByKey m)" imm_getKeysForValue
  imm_hasValue imm_rel imm_ok
proof
  show "imm_ok imm_empty" "imm_rel imm_empty = {}"
    by (simp_all add: imm_ok_def imm_empty_def mmap.ok_empty mmap.rel_empty)
  fix m :: "('a, 'b) imm" and k v
  assume ok: "imm_ok m"
  then have parts: "mm_ok (valuesByKey m)" "mm_ok (keysByValue m)" "mm_rel (keysByValue m) = (imm_rel m)\<inverse>"
    by (simp_all add: imm_ok_def)
  show "imm_ok (imm_add k v m)" "imm_ok (imm_del k v m)"
    using parts by (auto simp: imm_ok_def imm_add_def imm_del_def mmap.ok_add mmap.ok_del mmap.rel_add mmap.rel_del)
  show "imm_rel (imm_add k v m) = insert (k, v) (imm_rel m)" "imm_rel (imm_del k v m) = imm_rel m - {(k, v)}"
    using parts by (simp_all add: imm_add_def imm_del_def mmap.rel_add mmap.rel_del)
  have vals: "set (imm_values m) = snd ` imm_rel m"
    using mm_keys_rel [OF parts(2)] parts(3) by (auto simp: imm_values_def image_iff set_eq_iff Bex_def simp del: set_map)
  then show "set (imm_values m) = snd ` imm_rel m" .
  have "v \<in> set (map_keys (keysByValue m)) \<longleftrightarrow> imm_hasValue m v"
    by (auto simp: imm_hasValue_def dom_map_of_conv_image_fst [symmetric] domIff)
  then show "imm_hasValue m v \<longleftrightarrow> v \<in> snd ` imm_rel m" using vals by (simp add: imm_values_def)
  show "set (getValuesForKey (valuesByKey m) k) = {v. (k, v) \<in> imm_rel m} \<and> distinct (getValuesForKey (valuesByKey m) k)"
    using mmap.valsOf_rel [OF parts(1)] .
  show "set (imm_getKeysForValue m v) = {k. (k, v) \<in> imm_rel m} \<and> distinct (imm_getKeysForValue m v)"
    using mmap.valsOf_rel [OF parts(2), of v] parts(3) by (auto simp: imm_getKeysForValue_def getValuesForKey_def [symmetric])
qed

text \<open>The index answers as the search through all entries does.\<close>

lemma indexed_same_keys: "imm_ok m \<Longrightarrow> set (imm_getKeysForValue m v) = set (getKeysForValue (valuesByKey m) v)"
  using imap.keysOf_rel [of m v] mmap.keysOf_rel [of "valuesByKey m" v] by (simp add: imm_ok_def)

lemma indexed_same_value: "imm_ok m \<Longrightarrow> imm_hasValue m v = mm_hasValue (valuesByKey m) v"
  using imap.hasV_rel [of m v] mmap.hasV_rel [of "valuesByKey m" v] by (simp add: imm_ok_def)

end
