(* ===== verification/StDom.thy ===== *)
theory StDom
  imports StMaps JsRegex
begin

section \<open>The document\<close>

text \<open>
  What the page library of \<open>gui/web/assets/scripts/stimulus.js\<close> reads of the browser's
  document: a tree of elements (text nodes play no part in it), the trees that are not in
  the document, and per element its tag and its attributes. Attribute names are compared
  without regard to the case of A to Z, as in every HTML document.
\<close>

type_synonym elt = nat

datatype dtree = DNode (dt_elt: elt) (dt_kids: "dtree list")

record dom =
  dom_root :: dtree
  dom_detached :: "dtree list"
  dom_tag :: "elt \<Rightarrow> string"
  dom_attrs :: "elt \<Rightarrow> (string \<times> string) list"

definition ascii_lower :: "string \<Rightarrow> string" where
  "ascii_lower s = map (\<lambda>c. if char_between 65 90 c then char_of (of_char c + (32::nat)) else c) s"

text \<open>The elements of a tree in document order.\<close>

fun dt_elems :: "dtree \<Rightarrow> elt list" where
  "dt_elems (DNode e ts) = e # concat (map dt_elems ts)"

text \<open>The tree below an element, and the elements from it up to the root.\<close>

fun dt_find :: "elt \<Rightarrow> dtree \<Rightarrow> dtree option" where
  "dt_find x (DNode e ts) = (if x = e then Some (DNode e ts) else first_some (dt_find x) ts)"

fun dt_path :: "elt \<Rightarrow> dtree \<Rightarrow> elt list option" where
  "dt_path x (DNode e ts) =
     (if x = e then Some [e] else map_option (\<lambda>p. p @ [e]) (first_some (dt_path x) ts))"

definition dom_trees :: "dom \<Rightarrow> dtree list" where
  "dom_trees d = dom_root d # dom_detached d"

definition dom_isConnected :: "dom \<Rightarrow> elt \<Rightarrow> bool" where
  "dom_isConnected d e \<longleftrightarrow> e \<in> set (dt_elems (dom_root d))"

definition dom_path :: "dom \<Rightarrow> elt \<Rightarrow> elt list" where
  "dom_path d e = (case first_some (dt_path e) (dom_trees d) of Some p \<Rightarrow> p | None \<Rightarrow> [e])"

definition dom_below :: "dom \<Rightarrow> elt \<Rightarrow> elt list" where
  "dom_below d e = (case first_some (dt_find e) (dom_trees d) of Some t \<Rightarrow> dt_elems t | None \<Rightarrow> [e])"

text \<open>\<open>a.contains(b)\<close>, which holds of the element itself.\<close>

definition dom_contains :: "dom \<Rightarrow> elt \<Rightarrow> elt \<Rightarrow> bool" where
  "dom_contains d a b \<longleftrightarrow> a \<in> set (dom_path d b)"

definition getAttribute :: "dom \<Rightarrow> elt \<Rightarrow> string \<Rightarrow> string option" where
  "getAttribute d e n = map_get (dom_attrs d e) (ascii_lower n)"

definition hasAttribute :: "dom \<Rightarrow> elt \<Rightarrow> string \<Rightarrow> bool" where
  "hasAttribute d e n \<longleftrightarrow> getAttribute d e n \<noteq> None"

definition setAttribute :: "elt \<Rightarrow> string \<Rightarrow> string \<Rightarrow> dom \<Rightarrow> dom" where
  "setAttribute e n v d = d\<lparr>dom_attrs := (dom_attrs d)(e := map_set (ascii_lower n) v (dom_attrs d e))\<rparr>"

definition removeAttribute :: "elt \<Rightarrow> string \<Rightarrow> dom \<Rightarrow> dom" where
  "removeAttribute e n d = d\<lparr>dom_attrs := (dom_attrs d)(e := map_delete (ascii_lower n) (dom_attrs d e))\<rparr>"

text \<open>The two selectors of the library, \<open>[name]\<close> and \<open>[name~="token"]\<close>. The second one never
  matches for a token that is empty or has white space in it.\<close>

datatype sel = SelAttr string | SelToken string string

text \<open>The white space of HTML and CSS.\<close>

definition html_space :: "char \<Rightarrow> bool" where
  "html_space c \<longleftrightarrow> c = CHR 0x09 \<or> c = CHR 0x0A \<or> c = CHR 0x0C \<or> c = CHR 0x0D \<or> c = CHR 0x20"

fun words_on :: "(char \<Rightarrow> bool) \<Rightarrow> string \<Rightarrow> string \<Rightarrow> string list" where
  "words_on p w [] = (if w = [] then [] else [rev w])"
| "words_on p w (c # s) =
     (if p c then (if w = [] then words_on p [] s else rev w # words_on p [] s) else words_on p (c # w) s)"

fun sel_matches :: "dom \<Rightarrow> sel \<Rightarrow> elt \<Rightarrow> bool" where
  "sel_matches d (SelAttr n) e = hasAttribute d e n"
| "sel_matches d (SelToken n t) e =
     (case getAttribute d e n of None \<Rightarrow> False | Some v \<Rightarrow> t \<in> set (words_on html_space [] v))"

definition querySelectorAll :: "dom \<Rightarrow> elt \<Rightarrow> sel \<Rightarrow> elt list" where
  "querySelectorAll d e q = filter (sel_matches d q) (tl (dom_below d e))"

definition closest :: "dom \<Rightarrow> elt \<Rightarrow> sel \<Rightarrow> elt option" where
  "closest d e q = List.find (sel_matches d q) (dom_path d e)"

text \<open>Every element stands in one place.\<close>

definition dom_wf :: "dom \<Rightarrow> bool" where
  "dom_wf d \<longleftrightarrow> distinct (concat (map dt_elems (dom_trees d)))"

subsection \<open>Lemmas\<close>

lemma dt_elems_ne [simp]: "dt_elems t \<noteq> []"
  by (cases t) simp

lemma hd_dt_elems [simp]: "hd (dt_elems t) = dt_elt t"
  by (cases t) simp

lemma dt_path_None: "dt_path x t = None \<longleftrightarrow> x \<notin> set (dt_elems t)"
  by (induction t) (auto simp: first_some_None)

lemma dt_find_None: "dt_find x t = None \<longleftrightarrow> x \<notin> set (dt_elems t)"
  by (induction t) (auto simp: first_some_None)

lemma first_some_Some: "first_some f xs = Some y \<Longrightarrow> \<exists>x\<in>set xs. f x = Some y"
  by (induction xs) (auto split: option.split_asm)

text \<open>In a list where only one member can give an answer, that answer is the first.\<close>

lemma first_some_unique:
  "x \<in> set xs \<Longrightarrow> (\<And>y. y \<in> set xs \<Longrightarrow> y \<noteq> x \<Longrightarrow> f y = None) \<Longrightarrow> first_some f xs = f x"
proof (induction xs)
  case (Cons a xs)
  then show ?case
    by (cases "a = x"; cases "x \<in> set xs") (auto split: option.split simp: first_some_None)
qed simp

lemma distinct_concat_unique:
  "distinct (concat (map dt_elems ts)) \<Longrightarrow> t \<in> set ts \<Longrightarrow> t' \<in> set ts \<Longrightarrow> x \<in> set (dt_elems t) \<Longrightarrow>
    x \<in> set (dt_elems t') \<Longrightarrow> t = t'"
  by (induction ts) auto

lemma dt_find_elt: "dt_find x t = Some u \<Longrightarrow> dt_elt u = x \<and> set (dt_elems u) \<subseteq> set (dt_elems t)"
proof (induction t)
  case (DNode e ts)
  show ?case
  proof (cases "x = e")
    case False
    then obtain t where "t \<in> set ts" "dt_find x t = Some u"
      using DNode.prems by (auto dest: first_some_Some)
    then show ?thesis using DNode.IH by fastforce
  qed (use DNode.prems in auto)
qed

lemma dt_path_sub: "dt_path x t = Some p \<Longrightarrow> p \<noteq> [] \<and> hd p = x \<and> set p \<subseteq> set (dt_elems t)"
proof (induction t arbitrary: p)
  case (DNode e ts)
  show ?case
  proof (cases "x = e")
    case False
    then obtain t q where "t \<in> set ts" "dt_path x t = Some q" "p = q @ [e]"
      using DNode.prems by (auto dest: first_some_Some)
    then show ?thesis using DNode.IH by fastforce
  qed (use DNode.prems in auto)
qed

lemma first_tree:
  assumes "distinct (concat (map dt_elems ts))" "t \<in> set ts" "x \<in> set (dt_elems t)"
  shows "first_some (dt_find x) ts = dt_find x t" "first_some (dt_path x) ts = dt_path x t"
proof -
  have "x \<notin> set (dt_elems u)" if "u \<in> set ts" "u \<noteq> t" for u
    using distinct_concat_unique [OF assms(1,2) that(1) assms(3)] that(2) by blast
  then show "first_some (dt_find x) ts = dt_find x t" "first_some (dt_path x) ts = dt_path x t"
    using assms(2) by (simp_all add: first_some_unique dt_find_None dt_path_None)
qed

lemma dt_path_find:
  "distinct (dt_elems t) \<Longrightarrow> x \<in> set (dt_elems t) \<Longrightarrow> y \<in> set (dt_elems t) \<Longrightarrow>
    y \<in> set (the (dt_path x t)) \<longleftrightarrow> x \<in> set (dt_elems (the (dt_find y t)))"
proof (induction t)
  case (DNode e ts)
  have sub: "distinct (concat (map dt_elems ts))" "e \<notin> set (concat (map dt_elems ts))" using DNode.prems(1) by auto
  note uniqf = first_tree(1) [OF sub(1)] and uniqp = first_tree(2) [OF sub(1)]
  show ?case
  proof (cases "x = e")
    case True
    show ?thesis
    proof (cases "y = e")
      case False
      then obtain u where u: "u \<in> set ts" "y \<in> set (dt_elems u)" using DNode.prems(3) by auto
      then obtain v where "dt_find y u = Some v" using dt_find_None [of y u] by auto
      then show ?thesis using True False u sub(2) uniqf [OF u] dt_find_elt [of y u v] by auto
    qed (use True in simp)
  next
    case False
    then obtain u where u: "u \<in> set ts" "x \<in> set (dt_elems u)" using DNode.prems(2) by auto
    then obtain p where p: "dt_path x u = Some p" using dt_path_None [of x u] by auto
    have px: "dt_path x (DNode e ts) = Some (p @ [e])" using False uniqp [OF u] p by simp
    show ?thesis
    proof (cases "y = e")
      case True
      then show ?thesis using px u False by auto
    next
      case ny: False
      then obtain w where w: "w \<in> set ts" "y \<in> set (dt_elems w)" using DNode.prems(3) by auto
      then obtain v where v: "dt_find y w = Some v" using dt_find_None [of y w] by auto
      have fy: "dt_find y (DNode e ts) = Some v" using ny uniqf [OF w] v by simp
      show ?thesis
      proof (cases "w = u")
        case True
        have "distinct (dt_elems u)" using sub(1) u(1) by (auto simp: distinct_concat_iff)
        from DNode.IH [OF u(1) this u(2)] show ?thesis using True w(2) p v px fy ny by simp
      next
        case False
        then have "x \<notin> set (dt_elems w)" "y \<notin> set (dt_elems u)"
          using distinct_concat_unique [OF sub(1)] u w by blast+
        moreover have "set p \<subseteq> set (dt_elems u)" using dt_path_sub [OF p] by simp
        moreover have "set (dt_elems v) \<subseteq> set (dt_elems w)" using v dt_find_elt by blast
        ultimately show ?thesis using px fy ny by auto
      qed
    qed
  qed
qed

lemma self_in_path [simp]: "x \<in> set (dom_path d x)"
proof (cases "first_some (dt_path x) (dom_trees d)")
  case (Some p)
  then obtain t where "dt_path x t = Some p" using first_some_Some by fastforce
  then have "p \<noteq> []" "hd p = x" using dt_path_sub by auto
  then show ?thesis using hd_in_set [of p] by (simp add: dom_path_def Some)
qed (simp add: dom_path_def)

lemma hd_dom_below [simp]: "dom_below d x \<noteq> [] \<and> hd (dom_below d x) = x"
proof (cases "first_some (dt_find x) (dom_trees d)")
  case (Some u)
  then obtain t where "dt_find x t = Some u" using first_some_Some by fastforce
  then show ?thesis using dt_find_elt by (simp add: dom_below_def Some)
qed (simp add: dom_below_def)

lemma self_below [simp]: "x \<in> set (dom_below d x)"
  using hd_in_set [of "dom_below d x"] by simp

lemma dom_tree_of:
  assumes "dom_wf d" "t \<in> set (dom_trees d)" "x \<in> set (dt_elems t)"
  shows "dom_path d x = the (dt_path x t)" "dom_below d x = dt_elems (the (dt_find x t))"
proof -
  have u: "distinct (concat (map dt_elems (dom_trees d)))" using assms(1) by (simp add: dom_wf_def)
  have "first_some (dt_path x) (dom_trees d) = dt_path x t" "first_some (dt_find x) (dom_trees d) = dt_find x t"
    using first_tree [OF u assms(2,3)] by simp_all
  moreover have "dt_path x t \<noteq> None" "dt_find x t \<noteq> None" using assms(3) by (simp_all add: dt_path_None dt_find_None)
  ultimately show "dom_path d x = the (dt_path x t)" "dom_below d x = dt_elems (the (dt_find x t))"
    by (auto simp: dom_path_def dom_below_def)
qed

text \<open>An element contains another one iff that one is in the tree below it.\<close>

lemma dom_contains_below:
  assumes wf: "dom_wf d"
  shows "dom_contains d a b \<longleftrightarrow> b \<in> set (dom_below d a)"
proof (cases "\<exists>t\<in>set (dom_trees d). a \<in> set (dt_elems t) \<and> b \<in> set (dt_elems t)")
  case True
  then obtain t where t: "t \<in> set (dom_trees d)" "a \<in> set (dt_elems t)" "b \<in> set (dt_elems t)" by blast
  have "distinct (dt_elems t)" using wf t(1) by (auto simp: dom_wf_def distinct_concat_iff)
  then show ?thesis
    using dt_path_find [of t b a] t dom_tree_of(1) [OF wf t(1,3)] dom_tree_of(2) [OF wf t(1,2)] by (simp add: dom_contains_def)
next
  case False
  have "b \<notin> set (dom_below d a) \<or> a = b"
  proof (cases "first_some (dt_find a) (dom_trees d)")
    case (Some u)
    then obtain t where "t \<in> set (dom_trees d)" "dt_find a t = Some u" using first_some_Some by fastforce
    then show ?thesis using False dt_find_elt [of a t u] dt_find_None [of a t] by (auto simp: dom_below_def Some)
  qed (auto simp: dom_below_def)
  moreover have "a \<notin> set (dom_path d b) \<or> a = b"
  proof (cases "first_some (dt_path b) (dom_trees d)")
    case (Some p)
    then obtain t where "t \<in> set (dom_trees d)" "dt_path b t = Some p" using first_some_Some by fastforce
    then show ?thesis using False dt_path_sub [of b t p] dt_path_None [of b t] by (auto simp: dom_path_def Some)
  qed (auto simp: dom_path_def)
  moreover have "a \<in> set (dom_path d a)" "a \<in> set (dom_below d a)" by (rule self_in_path, rule self_below)
  ultimately show ?thesis by (auto simp: dom_contains_def)
qed

end
