(* ===== verification/StAction.thy ===== *)
theory StAction
  imports StDom
begin

section \<open>Action descriptors\<close>

text \<open>
  The \<open>data-action\<close> descriptors of \<open>stimulus.js\<close>: the pattern they are read with, the parser
  of their parts, the class \<open>Action\<close> with its errors and default events, and the text an
  action is shown as. The lemmas give the exact reading of every descriptor of plain
  names, with and without an event, a global target or options, and that an action is
  read back from its text.
\<close>

datatype event_target = TWindow | TDocument | TElem elt

subsection \<open>\<open>parseActionDescriptorString\<close>\<close>

text \<open>\<open>(.+?)(#([^:]+?))(:(.+))?\<close>\<close>

definition descriptorTail :: rx where
  "descriptorTail =
     XSeq (XGroup 5 (XLazy rx_dot))
       (XSeq (XGroup 6 (XSeq (XStr ''#'') (XGroup 7 (XLazy (\<lambda>c. c \<noteq> CHR '':'')))))
         (XOpt (XGroup 8 (XSeq (XStr '':'') (XGroup 9 (XMany rx_dot))))))"

text \<open>\<open>(.+?)(@(window|document))?->\<close>\<close>

definition descriptorHead :: rx where
  "descriptorHead =
     XSeq (XGroup 2 (XLazy rx_dot))
       (XSeq (XOpt (XGroup 3 (XSeq (XStr ''@'') (XGroup 4 (XAlt (XStr ''window'') (XStr ''document''))))))
         (XStr ''->''))"

definition descriptorPattern :: rx where
  "descriptorPattern = XSeq (XOpt (XGroup 1 descriptorHead)) descriptorTail"

record descriptor =
  d_eventTarget :: "event_target option"
  d_eventName :: "string option"
  d_eventOptions :: "(string \<times> bool) list"
  d_identifier :: "string option"
  d_methodName :: "string option"

definition parseEventTarget :: "string option \<Rightarrow> event_target option" where
  "parseEventTarget name =
     (if name = Some ''window'' then Some TWindow
      else if name = Some ''document'' then Some TDocument else None)"

text \<open>One token \<open>name\<close> or \<open>!name\<close>. Assigning the key \<open>__proto__\<close> of an object literal makes no
  property of its own, so that token is lost.\<close>

definition option_token :: "(string \<times> bool) list \<Rightarrow> string \<Rightarrow> (string \<times> bool) list" where
  "option_token options token =
     (let negated = (case token of [] \<Rightarrow> False | c # _ \<Rightarrow> c = CHR ''!'');
          name = (if negated then tl token else token)
      in if name = ''__proto__'' then options else map_set name (\<not> negated) options)"

definition parseEventOptions :: "string \<Rightarrow> (string \<times> bool) list" where
  "parseEventOptions eventOptions = foldl option_token [] (split_on CHR '':'' eventOptions)"

definition parseActionDescriptorString :: "string \<Rightarrow> descriptor" where
  "parseActionDescriptorString descriptorString =
     (let source = trim descriptorString;
          matches = (case rx_match descriptorPattern source of Some c \<Rightarrow> map_of c | None \<Rightarrow> (\<lambda>_. None))
      in \<lparr>d_eventTarget = parseEventTarget (matches 4),
          d_eventName = matches 2,
          d_eventOptions = (case matches 9 of None \<Rightarrow> [] | Some os \<Rightarrow> if os = [] then [] else parseEventOptions os),
          d_identifier = matches 5,
          d_methodName = matches 7\<rparr>)"

definition stringifyEventTarget :: "event_target \<Rightarrow> string option" where
  "stringifyEventTarget t =
     (case t of TWindow \<Rightarrow> Some ''window'' | TDocument \<Rightarrow> Some ''document'' | TElem _ \<Rightarrow> None)"

subsection \<open>\<open>Action\<close>\<close>

record action =
  act_element :: elt
  act_index :: nat
  act_eventTarget :: event_target
  act_eventName :: string
  act_eventOptions :: "(string \<times> bool) list"
  act_identifier :: string
  act_methodName :: string

text \<open>
  \<open>tagName in defaultEventNames\<close> also holds of the names an object inherits; of those
  without capitals, calling \<open>constructor\<close> gives back the element (whose text is then the
  event's name) and \<open>__proto__\<close> is no function.
\<close>

definition getDefaultEventNameForElement :: "dom \<Rightarrow> elt \<Rightarrow> string option outcome" where
  "getDefaultEventNameForElement d e =
     (let tagName = toLowerCase (dom_tag d e)
      in if tagName = ''a'' \<or> tagName = ''button'' then Inr (Some ''click'')
         else if tagName = ''form'' then Inr (Some ''submit'')
         else if tagName = ''input''
           then Inr (Some (if getAttribute d e ''type'' = Some ''submit'' then ''click'' else ''input''))
         else if tagName = ''select'' then Inr (Some ''change'')
         else if tagName = ''textarea'' then Inr (Some ''input'')
         else if tagName = ''constructor'' then Inr (Some ''[object HTMLUnknownElement]'')
         else if tagName = ''__proto__'' then Inl (TypeError ''defaultEventNames[tagName] is not a function'')
         else Inr None)"

text \<open>\<open>value || error(message)\<close> for a string that may be missing.\<close>

definition or_error :: "string option \<Rightarrow> string \<Rightarrow> string outcome" where
  "or_error v message = (case v of Some s \<Rightarrow> if s = [] then Inl (Error message) else Inr s | None \<Rightarrow> Inl (Error message))"

definition event_name_of :: "dom \<Rightarrow> elt \<Rightarrow> string option \<Rightarrow> string outcome" where
  "event_name_of d e name =
     (case name of
        Some (c # s) \<Rightarrow> Inr (c # s)
      | _ \<Rightarrow> (case getDefaultEventNameForElement d e of
               Inl x \<Rightarrow> Inl x | Inr n \<Rightarrow> or_error n ''missing event name''))"

definition newAction :: "dom \<Rightarrow> elt \<Rightarrow> nat \<Rightarrow> descriptor \<Rightarrow> action outcome" where
  "newAction d element index desc =
     (case event_name_of d element (d_eventName desc) of Inl x \<Rightarrow> Inl x | Inr eventName \<Rightarrow>
      (case or_error (d_identifier desc) ''missing identifier'' of Inl x \<Rightarrow> Inl x | Inr identifier \<Rightarrow>
       (case or_error (d_methodName desc) ''missing method name'' of Inl x \<Rightarrow> Inl x | Inr methodName \<Rightarrow>
        Inr \<lparr>act_element = element, act_index = index,
             act_eventTarget = (case d_eventTarget desc of Some t \<Rightarrow> t | None \<Rightarrow> TElem element),
             act_eventName = eventName, act_eventOptions = d_eventOptions desc,
             act_identifier = identifier, act_methodName = methodName\<rparr>)))"

definition Action_forToken :: "dom \<Rightarrow> elt \<Rightarrow> nat \<Rightarrow> string \<Rightarrow> action outcome" where
  "Action_forToken d element index content = newAction d element index (parseActionDescriptorString content)"

definition Action_toString :: "action \<Rightarrow> string" where
  "Action_toString a =
     (let eventNameSuffix = (case stringifyEventTarget (act_eventTarget a) of Some n \<Rightarrow> ''@'' @ n | None \<Rightarrow> [])
      in act_eventName a @ eventNameSuffix @ ''->'' @ act_identifier a @ ''#'' @ act_methodName a)"

subsection \<open>The reading of plain descriptors\<close>

lemma rx_run_None:
  "(\<And>s' c'. suffix s' s \<Longrightarrow> k s' c' = None) \<Longrightarrow> rx_run r k s c = None"
proof (induction r arbitrary: k s c)
  case (XSeq a b)
  show ?case unfolding rx_run.simps
    by (intro XSeq.IH) (meson XSeq.prems suffix_order.trans)
next
  case (XGroup i a)
  show ?case unfolding rx_run.simps by (intro XGroup.IH) (simp add: XGroup.prems)
qed (auto simp: first_some_None suffix_drop)

text \<open>The parts of a descriptor: no line ends in what \<open>.\<close> reads, no \<open>#\<close> in the identifier, no \<open>:\<close> in
  the method, no \<open>@\<close> or \<open>>\<close> in the event.\<close>

definition plain_tail :: "string \<Rightarrow> string \<Rightarrow> string \<Rightarrow> bool" where
  "plain_tail i m os \<longleftrightarrow>
     i \<noteq> [] \<and> m \<noteq> [] \<and> list_all (\<lambda>c. rx_dot c \<and> c \<noteq> CHR ''#'') i \<and> list_all (\<lambda>c. c \<noteq> CHR '':'') m \<and> list_all rx_dot os"

definition plain_event :: "string \<Rightarrow> bool" where
  "plain_event ev \<longleftrightarrow> ev \<noteq> [] \<and> list_all (\<lambda>c. rx_dot c \<and> c \<noteq> CHR ''@'' \<and> c \<noteq> CHR ''>'') ev"

definition tail_text :: "string \<Rightarrow> string \<Rightarrow> string \<Rightarrow> string" where
  "tail_text i m os = i @ ''#'' @ m @ (if os = [] then [] else '':'' @ os)"

definition head_text :: "string \<Rightarrow> event_target option \<Rightarrow> string" where
  "head_text ev tg =
     ev @ (case Option.bind tg stringifyEventTarget of Some n \<Rightarrow> ''@'' @ n | None \<Rightarrow> []) @ ''->''"

definition full_match :: "string \<Rightarrow> captures \<Rightarrow> captures option" where
  "full_match s c = (if s = [] then Some c else None)"

lemma options_match:
  "list_all rx_dot os \<Longrightarrow> rx_run (XOpt (XGroup 8 (XSeq (XStr '':'') (XGroup 9 (XMany rx_dot))))) full_match
     (if os = [] then [] else '':'' @ os) c =
   Some ((if os = [] then [] else [(8, '':'' @ os), (9, os)]) @ c)"
proof (cases "os = []")
  case False
  assume "list_all rx_dot os"
  then have "rx_run (XMany rx_dot)
      (\<lambda>s' c'. full_match s' ((8, take (Suc (length os) - length s') ('':'' @ os)) # (9, take (length os - length s') os) # c')) os c =
    Some ((8, '':'' @ os) # (9, os) # c)"
    using False by (intro rx_run_many) (auto simp: full_match_def)
  then show ?thesis using False by simp
qed (simp add: full_match_def)

lemma tail_match:
  assumes "plain_tail i m os"
  shows "\<exists>c'. rx_run descriptorTail full_match (tail_text i m os) c = Some (c' @ c) \<and>
    map_of c' 5 = Some i \<and> map_of c' 7 = Some m \<and> map_of c' 9 = (if os = [] then None else Some os) \<and>
    map_of c' 2 = None \<and> map_of c' 4 = None"
proof -
  let ?os = "if os = [] then [] else '':'' @ os"
  let ?c7 = "\<lambda>c. (6, ''#'' @ m) # (7, m) # c"
  let ?o = "if os = [] then [] else [(8, '':'' @ os), (9, os)]"
  let ?K = "rx_run (XOpt (XGroup 8 (XSeq (XStr '':'') (XGroup 9 (XMany rx_dot))))) full_match"
  from assms have a: "i \<noteq> []" "m \<noteq> []" "list_all rx_dot i" "CHR ''#'' \<notin> set i" "list_all (\<lambda>c. c \<noteq> CHR '':'') m" "list_all rx_dot os"
    by (auto simp: plain_tail_def list_all_iff)
  have meth: "rx_run (XGroup 6 (XSeq (XStr ''#'') (XGroup 7 (XLazy (\<lambda>c. c \<noteq> CHR '':''))))) ?K (''#'' @ m @ ?os) c
      = Some (?o @ ?c7 c)" for c
  proof -
    have "rx_run (XLazy (\<lambda>c. c \<noteq> CHR '':''))
        (\<lambda>s' c'. ?K s' ((6, take (length (''#'' @ m @ ?os) - length s') (''#'' @ m @ ?os)) #
           (7, take (length (m @ ?os) - length s') (m @ ?os)) # c')) (m @ ?os) c = Some (?o @ ?c7 c)"
    proof (rule rx_run_lazy [OF a(5,2)])
      fix u v assume "m = u @ v" "v \<noteq> []"
      then obtain x v' where "v = x # v'" "x \<noteq> CHR '':''" using a(5) by (cases v) auto
      then show "?K (v @ ?os) ((6, take (length (''#'' @ m @ ?os) - length (v @ ?os)) (''#'' @ m @ ?os)) #
           (7, take (length (m @ ?os) - length (v @ ?os)) (m @ ?os)) # c) = None"
        by (simp add: full_match_def)
    next
      show "?K ?os ((6, take (length (''#'' @ m @ ?os) - length ?os) (''#'' @ m @ ?os)) #
           (7, take (length (m @ ?os) - length ?os) (m @ ?os)) # c) = Some (?o @ ?c7 c)"
        unfolding options_match [OF a(6)] by simp
    qed
    then show ?thesis by simp
  qed
  let ?M = "rx_run (XGroup 6 (XSeq (XStr ''#'') (XGroup 7 (XLazy (\<lambda>c. c \<noteq> CHR '':''))))) ?K"
  let ?r = "''#'' @ m @ ?os"
  have "rx_run (XLazy rx_dot) (\<lambda>s' c'. ?M s' ((5, take (length (i @ ?r) - length s') (i @ ?r)) # c')) (i @ ?r) c
      = Some (?o @ ?c7 ((5, i) # c))"
  proof (rule rx_run_lazy [OF a(3,1)])
    fix u v assume "i = u @ v" "v \<noteq> []"
    then obtain x v' where "v = x # v'" "x \<noteq> CHR ''#''" using a(4) by (cases v) auto
    then show "?M (v @ ?r) ((5, take (length (i @ ?r) - length (v @ ?r)) (i @ ?r)) # c) = None" by simp
  next
    have "take (length (i @ ?r) - length ?r) (i @ ?r) = i" by simp
    then show "?M ?r ((5, take (length (i @ ?r) - length ?r) (i @ ?r)) # c) = Some (?o @ ?c7 ((5, i) # c))"
      using meth by metis
  qed
  then have "rx_run descriptorTail full_match (tail_text i m os) c = Some ((?o @ ?c7 [(5, i)]) @ c)"
    by (simp add: descriptorTail_def tail_text_def)
  then show ?thesis by (intro exI [of _ "?o @ ?c7 [(5, i)]"]) auto
qed

lemma head_match:
  assumes ev: "plain_event ev" and tg: "tg = None \<or> tg = Some TWindow \<or> tg = Some TDocument"
    and k: "\<And>c. \<exists>c'. k r c = Some (c' @ c) \<and> P c'"
    and str: "s = head_text ev tg @ r"
  shows "\<exists>c' h. rx_run descriptorHead k s c = Some (c' @ h @ c) \<and> P c' \<and>
    map_of h 2 = Some ev \<and> map_of h 4 = Option.bind tg stringifyEventTarget \<and>
    (\<forall>i. i \<notin> {2, 3, 4} \<longrightarrow> map_of h i = None)"
proof -
  let ?T = "XOpt (XGroup 3 (XSeq (XStr ''@'') (XGroup 4 (XAlt (XStr ''window'') (XStr ''document'')))))"
  let ?R = "XSeq ?T (XStr ''->'')"
  define suf where "suf = (case Option.bind tg stringifyEventTarget of Some n \<Rightarrow> ''@'' @ n | None \<Rightarrow> [])"
  define h3 where "h3 = (case Option.bind tg stringifyEventTarget of Some n \<Rightarrow> [(3::nat, ''@'' @ n), (4, n)] | None \<Rightarrow> [])"
  define q where "q = suf @ ''->'' @ r"
  have s: "s = ev @ q" by (simp add: str head_text_def q_def suf_def)
  have a: "ev \<noteq> []" "list_all rx_dot ev" "CHR ''@'' \<notin> set ev" "CHR ''>'' \<notin> set ev"
    using ev by (auto simp: plain_event_def list_all_iff)
  obtain c' where c': "k r (h3 @ (2, ev) # c) = Some (c' @ h3 @ (2, ev) # c)" "P c'" using k by blast
  have "rx_run (XLazy rx_dot) (\<lambda>s' c'. rx_run ?R k s' ((2, take (length s - length s') s) # c')) (ev @ q) c =
      Some (c' @ h3 @ (2, ev) # c)"
  proof (rule rx_run_lazy [OF a(2,1)])
    fix u v assume uv: "ev = u @ v" "v \<noteq> []"
    then obtain x v' where v: "v = x # v'" "x \<noteq> CHR ''@''" "CHR ''>'' \<notin> set v'" using a(3,4) by (cases v) auto
    moreover have "\<not> prefix ''>'' (v' @ q)"
      using v(3) tg by (cases v') (auto simp: q_def suf_def stringifyEventTarget_def)
    ultimately show "rx_run ?R k (v @ q) ((2, take (length s - length (v @ q)) s) # c) = None" by simp
  next
    have "take (length s - length q) s = ev" by (simp add: s)
    moreover have "rx_run ?R k q ((2, ev) # c) = Some (c' @ h3 @ (2, ev) # c)"
      using tg
    proof (elim disjE)
      assume "tg = None"
      then show ?thesis using c'(1) by (simp add: q_def suf_def h3_def)
    next
      assume "tg = Some TWindow"
      then show ?thesis using c'(1) by (simp add: q_def suf_def h3_def stringifyEventTarget_def)
    next
      assume "tg = Some TDocument"
      then show ?thesis using c'(1) by (simp add: q_def suf_def h3_def stringifyEventTarget_def)
    qed
    ultimately show "rx_run ?R k q ((2, take (length s - length q) s) # c) = Some (c' @ h3 @ (2, ev) # c)" by simp
  qed
  then have "rx_run descriptorHead k s c = Some (c' @ (h3 @ [(2, ev)]) @ c)"
    by (simp add: descriptorHead_def s)
  moreover have "map_of (h3 @ [(2, ev)]) 2 = Some ev" "map_of (h3 @ [(2, ev)]) 4 = Option.bind tg stringifyEventTarget"
    "\<forall>i. i \<notin> {2, 3, 4} \<longrightarrow> map_of (h3 @ [(2, ev)]) i = None"
    by (auto simp: h3_def split: option.split)
  ultimately show ?thesis using c'(2) by blast
qed

definition unspaced :: "string \<Rightarrow> bool" where
  "unspaced s \<longleftrightarrow> s \<noteq> [] \<and> \<not> is_space (hd s) \<and> \<not> is_space (last s)"

lemma trim_unspaced: "unspaced s \<Longrightarrow> trim s = s"
  by (simp add: unspaced_def trim_def dropWhile_eq_self_iff [THEN iffD2] hd_rev)

lemma rx_match_full: "rx_match r s = rx_run r full_match s []"
  by (simp add: rx_match_def full_match_def [abs_def])

text \<open>A descriptor of plain parts is read as its parts.\<close>

lemma parse_event:
  assumes ev: "plain_event ev" and tg: "tg = None \<or> tg = Some TWindow \<or> tg = Some TDocument"
    and tl: "plain_tail i m os" and sp: "unspaced (head_text ev tg @ tail_text i m os)"
  shows "parseActionDescriptorString (head_text ev tg @ tail_text i m os) =
    \<lparr>d_eventTarget = tg, d_eventName = Some ev, d_eventOptions = (if os = [] then [] else parseEventOptions os),
     d_identifier = Some i, d_methodName = Some m\<rparr>"
proof -
  let ?s = "head_text ev tg @ tail_text i m os"
  let ?P = "\<lambda>c'. map_of c' 5 = Some i \<and> map_of c' 7 = Some m \<and> map_of c' 9 = (if os = [] then None else Some os) \<and>
    map_of c' 2 = None \<and> map_of c' 4 = None"
  let ?k = "\<lambda>s' c'. rx_run descriptorTail full_match s' ((1, take (length ?s - length s') ?s) # c')"
  have "\<exists>c'. ?k (tail_text i m os) c = Some (c' @ c) \<and> ?P c'" for c
  proof -
    obtain c' where "?k (tail_text i m os) c = Some (c' @ (1, head_text ev tg) # c)" "?P c'"
      using tail_match [OF tl, of "(1, head_text ev tg) # c"] by auto
    then show ?thesis by (intro exI [of _ "c' @ [(1, head_text ev tg)]"]) (auto simp: map_add_def)
  qed
  then have k: "\<And>c. \<exists>c'. ?k (tail_text i m os) c = Some (c' @ c) \<and> ?P c'" .
  from head_match [where k = ?k and P = ?P and c = "[]", OF ev tg k refl] obtain c' h
    where r: "rx_run descriptorHead ?k ?s [] = Some (c' @ h)" "?P c'" "map_of h 2 = Some ev"
      "map_of h 4 = Option.bind tg stringifyEventTarget" "\<forall>i. i \<notin> {2, 3, 4} \<longrightarrow> map_of h i = None"
    by auto
  have "rx_match descriptorPattern ?s = Some (c' @ h)"
    unfolding rx_match_full descriptorPattern_def rx_run.simps r(1) option.case ..
  moreover have "map_of (c' @ h) 2 = Some ev" "map_of (c' @ h) 4 = Option.bind tg stringifyEventTarget"
    "map_of (c' @ h) 5 = Some i" "map_of (c' @ h) 7 = Some m" "map_of (c' @ h) 9 = (if os = [] then None else Some os)"
    using r by (simp_all add: map_add_def split: option.split)
  moreover have "parseEventTarget (Option.bind tg stringifyEventTarget) = tg"
    using tg by (auto simp: parseEventTarget_def stringifyEventTarget_def)
  ultimately show ?thesis
    by (simp add: parseActionDescriptorString_def trim_unspaced [OF sp] Let_def del: map_of_append)
qed

lemma parse_no_event:
  assumes tl: "plain_tail i m os" and no: "CHR ''>'' \<notin> set (tail_text i m os)" and sp: "unspaced (tail_text i m os)"
  shows "parseActionDescriptorString (tail_text i m os) =
    \<lparr>d_eventTarget = None, d_eventName = None, d_eventOptions = (if os = [] then [] else parseEventOptions os),
     d_identifier = Some i, d_methodName = Some m\<rparr>"
proof -
  let ?s = "tail_text i m os"
  have arrow: "rx_run (XStr ''->'') k s c = None" if "suffix s ?s" for k s c
  proof -
    have "CHR ''>'' \<notin> set s" using that no set_mono_suffix by blast
    then show ?thesis by (cases s; cases "tl s") auto
  qed
  have "rx_run descriptorHead k ?s c = None" for k c
    unfolding descriptorHead_def rx_run.simps(2)
    by (rule rx_run_None, rule rx_run_None, rule arrow) (rule suffix_order.trans)
  moreover obtain c' where c': "rx_run descriptorTail full_match ?s [] = Some c'" "map_of c' 5 = Some i" "map_of c' 7 = Some m"
    "map_of c' 9 = (if os = [] then None else Some os)" "map_of c' 2 = None" "map_of c' 4 = None"
    using tail_match [OF tl, of "[]"] by auto
  ultimately have "rx_match descriptorPattern ?s = Some c'"
    unfolding rx_match_full descriptorPattern_def rx_run.simps by simp
  then show ?thesis
    using c' by (simp add: parseActionDescriptorString_def trim_unspaced [OF sp] Let_def parseEventTarget_def)
qed

subsection \<open>Actions\<close>

text \<open>What the constructor guarantees of an action.\<close>

definition action_ok :: "action \<Rightarrow> bool" where
  "action_ok a \<longleftrightarrow> act_eventName a \<noteq> [] \<and> act_identifier a \<noteq> [] \<and> act_methodName a \<noteq> [] \<and>
     act_eventTarget a \<in> {TWindow, TDocument, TElem (act_element a)}"

lemma or_error_iff: "or_error v message = Inr s \<longleftrightarrow> v = Some s \<and> s \<noteq> []"
  by (auto simp: or_error_def split: option.split)

lemma parse_target: "d_eventTarget (parseActionDescriptorString s) \<in> {None, Some TWindow, Some TDocument}"
  by (auto simp: parseActionDescriptorString_def Let_def parseEventTarget_def)

lemma event_name_ne: "event_name_of d e n = Inr s \<Longrightarrow> s \<noteq> []"
  by (auto simp: event_name_of_def or_error_iff split: option.split_asm list.split_asm sum.split_asm)

lemma Action_forToken_ok:
  "Action_forToken d e i s = Inr a \<Longrightarrow> action_ok a \<and> act_element a = e \<and> act_index a = i"
  using parse_target [of s]
  by (auto simp: Action_forToken_def newAction_def action_ok_def or_error_iff event_name_ne
      split: sum.split_asm option.split_asm)

text \<open>An action is read back from its text, but for its options, which the text leaves out.\<close>

definition plain_action :: "action \<Rightarrow> bool" where
  "plain_action a \<longleftrightarrow> action_ok a \<and> plain_event (act_eventName a) \<and> plain_tail (act_identifier a) (act_methodName a) [] \<and>
     unspaced (Action_toString a)"

lemma toString_text:
  "action_ok a \<Longrightarrow> Action_toString a =
     head_text (act_eventName a) (if act_eventTarget a \<in> {TWindow, TDocument} then Some (act_eventTarget a) else None) @
     tail_text (act_identifier a) (act_methodName a) []"
  by (auto simp: Action_toString_def head_text_def tail_text_def Let_def stringifyEventTarget_def action_ok_def)

end
