(* ===== verification/StScope.thy ===== *)
theory StScope
  imports StAction
begin

section \<open>Scopes, targets, data and classes\<close>

text \<open>
  The classes \<open>Scope\<close>, \<open>TargetSet\<close>, \<open>DataMap\<close>, \<open>ClassMap\<close> and \<open>Guide\<close> of \<open>stimulus.js\<close>: how a
  controller finds the elements and attributes that belong to it. The lemmas say exactly
  which elements those are: the ones whose nearest controller of that name is the scope's
  own element. Names are taken to be such that they can stand in a selector and in an
  attribute's name.
\<close>

record schema =
  controllerAttribute :: string
  actionAttribute :: string
  targetAttribute :: string

definition defaultSchema :: schema where
  "defaultSchema = \<lparr>controllerAttribute = ''data-controller'', actionAttribute = ''data-action'', targetAttribute = ''data-target''\<rparr>"

text \<open>A scope is determined by its element and its identifier.\<close>

record scope =
  sc_element :: elt
  sc_identifier :: string

subsection \<open>Names\<close>

text \<open>\<open>toUpperCase\<close> of one character: the letters a to z and the accented ones of Latin-1; the sharp
  s becomes two letters. The micro sign and the y with diaeresis, whose capitals are
  outside of Latin-1, are left as they are.\<close>

definition upper_char :: "char \<Rightarrow> string" where
  "upper_char c =
     (if char_between 97 122 c \<or> (char_between 0xE0 0xFE c \<and> c \<noteq> CHR 0xF7) then [char_of (of_char c - (32::nat))]
      else if c = CHR 0xDF then ''SS'' else [c])"

fun camelize :: "string \<Rightarrow> string" where
  "camelize (c # x # s) =
     (if (c = CHR ''_'' \<or> c = CHR ''-'') \<and> (char_between 97 122 x \<or> is_digit x)
      then upper_char x @ camelize s else c # camelize (x # s))"
| "camelize s = s"

definition capitalize :: "string \<Rightarrow> string" where
  "capitalize s = (case s of [] \<Rightarrow> [] | c # r \<Rightarrow> upper_char c @ r)"

definition dasherize :: "string \<Rightarrow> string" where
  "dasherize s = concat (map (\<lambda>c. if char_between 65 90 c then [CHR ''-'', lower_char c] else [c]) s)"

subsection \<open>\<open>DataMap\<close> and \<open>ClassMap\<close>\<close>

definition getAttributeNameForKey :: "scope \<Rightarrow> string \<Rightarrow> string" where
  "getAttributeNameForKey sc key = ''data-'' @ sc_identifier sc @ ''-'' @ dasherize key"

definition data_get :: "scope \<Rightarrow> string \<Rightarrow> dom \<Rightarrow> string option" where
  "data_get sc key d = getAttribute d (sc_element sc) (getAttributeNameForKey sc key)"

definition data_set :: "scope \<Rightarrow> string \<Rightarrow> string \<Rightarrow> dom \<Rightarrow> string option \<times> dom" where
  "data_set sc key v d =
     (let d' = setAttribute (sc_element sc) (getAttributeNameForKey sc key) v d in (data_get sc key d', d'))"

definition data_has :: "scope \<Rightarrow> string \<Rightarrow> dom \<Rightarrow> bool" where
  "data_has sc key d = hasAttribute d (sc_element sc) (getAttributeNameForKey sc key)"

definition data_delete :: "scope \<Rightarrow> string \<Rightarrow> dom \<Rightarrow> bool \<times> dom" where
  "data_delete sc key d =
     (if data_has sc key d then (True, removeAttribute (sc_element sc) (getAttributeNameForKey sc key) d) else (False, d))"

definition getDataKey :: "string \<Rightarrow> string" where
  "getDataKey name = name @ ''-class''"

definition classes_has :: "scope \<Rightarrow> string \<Rightarrow> dom \<Rightarrow> bool" where
  "classes_has sc name d = data_has sc (getDataKey name) d"

definition classes_get :: "scope \<Rightarrow> string \<Rightarrow> dom \<Rightarrow> string option" where
  "classes_get sc name d = data_get sc (getDataKey name) d"

definition classes_getAttributeName :: "scope \<Rightarrow> string \<Rightarrow> string" where
  "classes_getAttributeName sc name = getAttributeNameForKey sc (getDataKey name)"

subsection \<open>\<open>Guide\<close>\<close>

record guide =
  warnedKeysByObject :: "(elt, string) mm"
  warnings :: "(string \<times> elt) list"

definition guide_warn :: "elt \<Rightarrow> string \<Rightarrow> string \<Rightarrow> guide \<Rightarrow> guide" where
  "guide_warn e key message g =
     (case mm_fetch (warnedKeysByObject g) e of (warnedKeys, m) \<Rightarrow>
       if key \<in> set warnedKeys then g\<lparr>warnedKeysByObject := m\<rparr>
       else g\<lparr>warnedKeysByObject := map_set e (set_add key warnedKeys) m, warnings := warnings g @ [(message, e)]\<rparr>)"

subsection \<open>\<open>Scope\<close>\<close>

definition attributeValueContainsToken :: "string \<Rightarrow> string \<Rightarrow> sel" where
  "attributeValueContainsToken attributeName token = SelToken attributeName token"

definition controllerSelector :: "schema \<Rightarrow> scope \<Rightarrow> sel" where
  "controllerSelector S sc = attributeValueContainsToken (controllerAttribute S) (sc_identifier sc)"

definition containsElement :: "schema \<Rightarrow> dom \<Rightarrow> scope \<Rightarrow> elt \<Rightarrow> bool" where
  "containsElement S d sc e \<longleftrightarrow> closest d e (controllerSelector S sc) = Some (sc_element sc)"

definition queryElements :: "dom \<Rightarrow> scope \<Rightarrow> sel \<Rightarrow> elt list" where
  "queryElements d sc q = querySelectorAll d (sc_element sc) q"

definition findElement :: "schema \<Rightarrow> dom \<Rightarrow> scope \<Rightarrow> sel \<Rightarrow> elt option" where
  "findElement S d sc q =
     (if sel_matches d q (sc_element sc) then Some (sc_element sc)
      else List.find (containsElement S d sc) (queryElements d sc q))"

definition findAllElements :: "schema \<Rightarrow> dom \<Rightarrow> scope \<Rightarrow> sel \<Rightarrow> elt list" where
  "findAllElements S d sc q =
     (if sel_matches d q (sc_element sc) then [sc_element sc] else []) @
     filter (containsElement S d sc) (queryElements d sc q)"

subsection \<open>\<open>TargetSet\<close>\<close>

definition getSelectorForTargetName :: "scope \<Rightarrow> string \<Rightarrow> sel" where
  "getSelectorForTargetName sc targetName =
     attributeValueContainsToken (''data-'' @ sc_identifier sc @ ''-target'') targetName"

definition getLegacySelectorForTargetName :: "schema \<Rightarrow> scope \<Rightarrow> string \<Rightarrow> sel" where
  "getLegacySelectorForTargetName S sc targetName =
     attributeValueContainsToken (targetAttribute S) (sc_identifier sc @ ''.'' @ targetName)"

definition deprecate_text :: "schema \<Rightarrow> scope \<Rightarrow> string \<Rightarrow> string" where
  "deprecate_text S sc targetName =
     ''Please replace '' @ targetAttribute S @ ''=\"'' @ sc_identifier sc @ ''.'' @ targetName @
     ''\" with data-'' @ sc_identifier sc @ ''-target=\"'' @ targetName @ ''\". '' @
     ''The '' @ targetAttribute S @ '' attribute is deprecated and will be removed in a future version of Stimulus.''"

definition deprecate :: "schema \<Rightarrow> scope \<Rightarrow> elt \<Rightarrow> string \<Rightarrow> guide \<Rightarrow> guide" where
  "deprecate S sc e targetName g = guide_warn e (''target:'' @ targetName) (deprecate_text S sc targetName) g"

definition findTarget :: "schema \<Rightarrow> dom \<Rightarrow> scope \<Rightarrow> string \<Rightarrow> elt option" where
  "findTarget S d sc n = findElement S d sc (getSelectorForTargetName sc n)"

definition findAllTargets :: "schema \<Rightarrow> dom \<Rightarrow> scope \<Rightarrow> string \<Rightarrow> elt list" where
  "findAllTargets S d sc n = findAllElements S d sc (getSelectorForTargetName sc n)"

definition findLegacyTarget :: "schema \<Rightarrow> dom \<Rightarrow> scope \<Rightarrow> string \<Rightarrow> guide \<Rightarrow> elt option \<times> guide" where
  "findLegacyTarget S d sc n g =
     (case findElement S d sc (getLegacySelectorForTargetName S sc n) of
        None \<Rightarrow> (None, g) | Some e \<Rightarrow> (Some e, deprecate S sc e n g))"

definition findAllLegacyTargets :: "schema \<Rightarrow> dom \<Rightarrow> scope \<Rightarrow> string \<Rightarrow> guide \<Rightarrow> elt list \<times> guide" where
  "findAllLegacyTargets S d sc n g =
     (let es = findAllElements S d sc (getLegacySelectorForTargetName S sc n)
      in (es, fold (\<lambda>e. deprecate S sc e n) es g))"

definition find_step :: "schema \<Rightarrow> dom \<Rightarrow> scope \<Rightarrow> elt option \<times> guide \<Rightarrow> string \<Rightarrow> elt option \<times> guide" where
  "find_step S d sc r n =
     (case r of
        (Some e, g) \<Rightarrow> (Some e, g)
      | (None, g) \<Rightarrow> (case findTarget S d sc n of Some e \<Rightarrow> (Some e, g) | None \<Rightarrow> findLegacyTarget S d sc n g))"

definition targets_find :: "schema \<Rightarrow> dom \<Rightarrow> scope \<Rightarrow> string list \<Rightarrow> guide \<Rightarrow> elt option \<times> guide" where
  "targets_find S d sc ns g = foldl (find_step S d sc) (None, g) ns"

definition findAll_step :: "schema \<Rightarrow> dom \<Rightarrow> scope \<Rightarrow> elt list \<times> guide \<Rightarrow> string \<Rightarrow> elt list \<times> guide" where
  "findAll_step S d sc r n =
     (case findAllLegacyTargets S d sc n (snd r) of (legacy, g) \<Rightarrow> (fst r @ findAllTargets S d sc n @ legacy, g))"

definition targets_findAll :: "schema \<Rightarrow> dom \<Rightarrow> scope \<Rightarrow> string list \<Rightarrow> guide \<Rightarrow> elt list \<times> guide" where
  "targets_findAll S d sc ns g = foldl (findAll_step S d sc) ([], g) ns"

definition targets_has :: "schema \<Rightarrow> dom \<Rightarrow> scope \<Rightarrow> string \<Rightarrow> guide \<Rightarrow> bool \<times> guide" where
  "targets_has S d sc n g = (case targets_find S d sc [n] g of (r, g') \<Rightarrow> (r \<noteq> None, g'))"

subsection \<open>What a scope finds\<close>

text \<open>The element of a scope carries its identifier.\<close>

definition scope_ok :: "schema \<Rightarrow> dom \<Rightarrow> scope \<Rightarrow> bool" where
  "scope_ok S d sc \<longleftrightarrow> dom_wf d \<and> sel_matches d (controllerSelector S sc) (sc_element sc)"

lemma find_filter: "List.find P xs = (case filter P xs of [] \<Rightarrow> None | x # _ \<Rightarrow> Some x)"
  by (induction xs) auto

lemma findElement_first:
  "findElement S d sc q = (case findAllElements S d sc q of [] \<Rightarrow> None | e # _ \<Rightarrow> Some e)"
  by (simp add: findElement_def findAllElements_def find_filter)

lemma closest_contains: "closest d e q = Some x \<Longrightarrow> dom_contains d x e \<and> sel_matches d q x"
  by (auto simp: closest_def find_Some_iff dom_contains_def)

lemma dom_path_self: "\<exists>p. dom_path d e = e # p"
proof (cases "first_some (dt_path e) (dom_trees d)")
  case (Some p)
  then obtain t where "dt_path e t = Some p" using first_some_Some by fastforce
  then have "p \<noteq> [] \<and> hd p = e" using dt_path_sub by blast
  then show ?thesis by (cases p) (auto simp: dom_path_def Some)
qed (simp add: dom_path_def)

lemma closest_self: "sel_matches d q e \<Longrightarrow> closest d e q = Some e"
  using dom_path_self [of d e] by (auto simp: closest_def)

lemma below_tl: "set (dom_below d a) = insert a (set (tl (dom_below d a)))"
  using hd_dom_below [of d a] by (cases "dom_below d a") auto

lemma distinct_dom_below:
  assumes "dom_wf d" shows "distinct (dom_below d a)"
proof (cases "first_some (dt_find a) (dom_trees d)")
  case (Some u)
  then obtain t where t: "t \<in> set (dom_trees d)" "dt_find a t = Some u" using first_some_Some by fastforce
  have "distinct (dt_elems t)" using assms t(1) by (auto simp: dom_wf_def distinct_concat_iff)
  with t(2) have "distinct (dt_elems u)"
  proof (induction t)
    case (DNode e ts)
    then show ?case
      by (auto split: if_split_asm dest!: first_some_Some simp: distinct_concat_iff)
  qed
  then show ?thesis by (simp add: dom_below_def Some)
qed (simp add: dom_below_def)

text \<open>The elements found are the ones that match and whose nearest controller of that
  identifier is the scope's element, each once.\<close>

lemma findAllElements_exact:
  assumes "scope_ok S d sc"
  shows "distinct (findAllElements S d sc q) \<and>
    set (findAllElements S d sc q) = {e. sel_matches d q e \<and> containsElement S d sc e}"
proof -
  have wf: "dom_wf d" and self: "containsElement S d sc (sc_element sc)"
    using assms by (simp_all add: scope_ok_def containsElement_def closest_self)
  let ?b = "dom_below d (sc_element sc)"
  have below: "e = sc_element sc \<or> e \<in> set (tl ?b)" if "containsElement S d sc e" for e
    using that closest_contains [of d e] dom_contains_below [OF wf] below_tl [of d "sc_element sc"]
    by (auto simp: containsElement_def)
  have dis: "distinct ?b" "sc_element sc \<notin> set (tl ?b)"
    using distinct_dom_below [OF wf, of "sc_element sc"] hd_dom_below [of d "sc_element sc"]
    by (cases ?b; simp)+
  then have "distinct (tl ?b)" by (simp add: distinct_tl)
  then show ?thesis using below self dis(2)
    by (auto simp: findAllElements_def queryElements_def querySelectorAll_def)
qed

text \<open>Scopes of one identifier share no element.\<close>

lemma scopes_disjoint:
  "containsElement S d sc e \<Longrightarrow> containsElement S d sc' e \<Longrightarrow> sc_identifier sc = sc_identifier sc' \<Longrightarrow>
    sc_element sc = sc_element sc'"
  by (simp add: containsElement_def controllerSelector_def)

lemma find_one:
  "targets_find S d sc [n] g =
     (case findAllTargets S d sc n of
        e # _ \<Rightarrow> (Some e, g)
      | [] \<Rightarrow> (case findAllElements S d sc (getLegacySelectorForTargetName S sc n) of
                 e # _ \<Rightarrow> (Some e, deprecate S sc e n g) | [] \<Rightarrow> (None, g)))"
  by (simp add: targets_find_def find_step_def findTarget_def findLegacyTarget_def findElement_first findAllTargets_def
      split: list.split)

lemma findAll_one:
  "fst (targets_findAll S d sc [n] g) =
     findAllTargets S d sc n @ findAllElements S d sc (getLegacySelectorForTargetName S sc n)"
  by (simp add: targets_findAll_def findAll_step_def findAllLegacyTargets_def Let_def)

lemma targets_has_iff: "fst (targets_has S d sc n g) \<longleftrightarrow> fst (targets_findAll S d sc [n] g') \<noteq> []"
  by (auto simp: targets_has_def find_one findAll_one split: list.split)

lemma targets_find_first:
  "fst (targets_find S d sc [n] g) = (case fst (targets_findAll S d sc [n] g') of [] \<Rightarrow> None | e # _ \<Rightarrow> Some e)"
  by (auto simp: find_one findAll_one split: list.split)

subsection \<open>Laws of the data map and the guide\<close>

lemma data_get_set:
  "data_get sc k (snd (data_set sc k v d)) = Some v" "fst (data_set sc k v d) = Some v"
  by (simp_all add: data_get_def data_set_def Let_def getAttribute_def setAttribute_def)

lemma data_get_delete: "data_get sc k (snd (data_delete sc k d)) = None"
  by (auto simp: data_get_def data_delete_def data_has_def hasAttribute_def getAttribute_def removeAttribute_def)

lemma data_delete_result: "fst (data_delete sc k d) = data_has sc k d"
  by (simp add: data_delete_def)

lemma data_has_get: "data_has sc k d \<longleftrightarrow> data_get sc k d \<noteq> None"
  by (simp add: data_has_def data_get_def hasAttribute_def)

text \<open>A guide warns once per object and key.\<close>

definition guide_ok :: "guide \<Rightarrow> bool" where
  "guide_ok g \<longleftrightarrow> mm_ok (warnedKeysByObject g) \<and> length (warnings g) = mm_size (warnedKeysByObject g)"

lemma guide_warn_eq:
  assumes "guide_ok g"
  shows "warnedKeysByObject (guide_warn e k m g) = mm_add e k (warnedKeysByObject g)"
    and "warnings (guide_warn e k m g) =
      warnings g @ (if (e, k) \<in> mm_rel (warnedKeysByObject g) then [] else [(m, e)])"
  using assms
  by (auto simp: guide_warn_def mm_add_def mm_fetch_def mm_rel_get getValuesForKey_def set_add_def map_set_same split: option.split)

lemma guide_warn_ok:
  assumes "guide_ok g" shows "guide_ok (guide_warn e k m g)"
proof -
  let ?w = "warnedKeysByObject g"
  have ok: "mm_ok ?w" "length (warnings g) = card (mm_rel ?w)" "finite (mm_rel ?w)"
    using assms by (simp_all add: guide_ok_def mm_size_card finite_mm_rel mm_ok_def)
  have "length (warnings (guide_warn e k m g)) = card (mm_rel (mm_add e k ?w))"
    using ok by (simp add: guide_warn_eq [OF assms] mmap.rel_add card_insert_if)
  then show ?thesis
    using ok(1) by (simp add: guide_ok_def guide_warn_eq [OF assms] mm_ok_add mm_size_card)
qed

lemma guide_warn_once:
  "guide_ok g \<Longrightarrow> warnings (guide_warn e k m' (guide_warn e k m g)) = warnings (guide_warn e k m g)"
  using guide_warn_eq(2) [OF guide_warn_ok, of g e k m' e k m]
  by (simp add: guide_warn_eq(1) mmap.rel_add guide_ok_def)

subsection \<open>Camel case\<close>

lemma upper_lower: "char_between 65 90 c \<Longrightarrow> upper_char (lower_char c) = [c]"
  by (auto simp: upper_char_def lower_char_def char_between_def)

lemma lower_between: "char_between 65 90 c \<Longrightarrow> char_between 97 122 (lower_char c)"
  by (auto simp: lower_char_def char_between_def)

lemma camelize_Cons: "c \<noteq> CHR ''_'' \<Longrightarrow> c \<noteq> CHR ''-'' \<Longrightarrow> camelize (c # s) = c # camelize s"
  by (cases s) auto

lemma camelize_dasherize:
  "list_all (\<lambda>c. c \<noteq> CHR ''_'' \<and> c \<noteq> CHR ''-'') s \<Longrightarrow> camelize (dasherize s) = s"
proof (induction s)
  case (Cons c s)
  then show ?case
    by (cases "char_between 65 90 c") (simp_all add: dasherize_def camelize_Cons upper_lower lower_between)
qed (simp add: dasherize_def)

end
