(* ===== verification/StDispatch.thy ===== *)
theory StDispatch
  imports StScope "HOL-Library.Multiset" "HOL-Library.List_Lexorder" "HOL-Library.Char_ord"
begin

section \<open>Events\<close>

text \<open>
  The classes \<open>EventListener\<close>, \<open>Dispatcher\<close> and \<open>Binding\<close> of \<open>stimulus.js\<close>: which methods of which
  controllers an event runs, in which order, and what becomes of their errors. The
  browser's side of a listener is the flag \<open>l_connected\<close>. Controllers' methods are
  parameters: computations on the page and on the event's stop flag, which can change the
  document, stop the event and throw, but cannot reach the library's own tables.
\<close>

record page =
  pg_dom :: dom

text \<open>A binding: a context, given by its scope, and an action. Every one is a new object.\<close>

record binding =
  b_uid :: nat
  b_scope :: scope
  b_action :: action

record listener =
  l_eventTarget :: event_target
  l_eventName :: string
  l_eventOptions :: "(string \<times> bool) list"
  l_unorderedBindings :: "binding list"
  l_connected :: bool

record dispatcher =
  eventListenerMaps :: "(event_target \<times> (string \<times> listener) list) list"
  d_started :: bool

text \<open>What the console shows of an error: the message, the error, and of the details the
  identifier, the element and the index of the action, if it is an action's.\<close>

type_synonym error_entry = "string \<times> jserr \<times> string \<times> elt \<times> nat option"

record 'u lworld =
  lw_dispatcher :: dispatcher
  lw_errors :: "error_entry list"
  lw_stopped :: "bool option" \<comment> \<open>\<open>immediatePropagationStopped\<close> of the event at hand, once it has it\<close>
  lw_page :: 'u

definition on_page :: "('u, 'a) js \<Rightarrow> ('u lworld, 'a) js" where
  "on_page m = (\<lambda>w. case m (lw_page w) of (r, p) \<Rightarrow> (r, w\<lparr>lw_page := p\<rparr>))"

definition on_event :: "('u \<times> bool, 'a) js \<Rightarrow> ('u lworld, 'a) js" where
  "on_event m = (\<lambda>w. case m (lw_page w, lw_stopped w = Some True) of (r, p, b) \<Rightarrow> (r, w\<lparr>lw_page := p, lw_stopped := Some b\<rparr>))"

subsection \<open>\<open>EventListener\<close>\<close>

definition newEventListener :: "event_target \<Rightarrow> string \<Rightarrow> (string \<times> bool) list \<Rightarrow> listener" where
  "newEventListener t n os =
     \<lparr>l_eventTarget = t, l_eventName = n, l_eventOptions = os, l_unorderedBindings = [], l_connected = False\<rparr>"

definition listener_connect :: "listener \<Rightarrow> listener" where
  "listener_connect l = l\<lparr>l_connected := True\<rparr>"

definition listener_disconnect :: "listener \<Rightarrow> listener" where
  "listener_disconnect l = l\<lparr>l_connected := False\<rparr>"

definition listener_bindingConnected :: "binding \<Rightarrow> listener \<Rightarrow> listener" where
  "listener_bindingConnected b l = l\<lparr>l_unorderedBindings := set_add b (l_unorderedBindings l)\<rparr>"

definition listener_bindingDisconnected :: "binding \<Rightarrow> listener \<Rightarrow> listener" where
  "listener_bindingDisconnected b l = l\<lparr>l_unorderedBindings := set_delete b (l_unorderedBindings l)\<rparr>"

definition listener_bindings :: "listener \<Rightarrow> binding list" where
  "listener_bindings l = sort_key (\<lambda>b. act_index (b_action b)) (l_unorderedBindings l)"

definition extendEvent :: "bool option \<Rightarrow> bool option" where
  "extendEvent stopped = (case stopped of Some b \<Rightarrow> Some b | None \<Rightarrow> Some False)"

subsection \<open>\<open>Binding\<close>\<close>

definition willBeInvokedByEvent :: "schema \<Rightarrow> dom \<Rightarrow> binding \<Rightarrow> event_target \<Rightarrow> bool" where
  "willBeInvokedByEvent S d b t =
     (let sc = b_scope b
      in case t of
           TElem e \<Rightarrow>
             (if sc_element sc = e then True
              else if dom_contains d (sc_element sc) e then containsElement S d sc e
              else containsElement S d sc (act_element (b_action b)))
         | _ \<Rightarrow> containsElement S d sc (act_element (b_action b)))"

definition handleError :: "string \<Rightarrow> jserr \<Rightarrow> scope \<Rightarrow> nat option \<Rightarrow> ('u lworld, unit) js" where
  "handleError message e sc index =
     jmodify (\<lambda>w. w\<lparr>lw_errors := lw_errors w @ [(''Error '' @ message, e, sc_identifier sc, sc_element sc, index)]\<rparr>)"

text \<open>The methods of the controllers: by scope and name, \<open>None\<close> where there is no function.\<close>

type_synonym 'u methods = "scope \<Rightarrow> string \<Rightarrow> (event_target \<Rightarrow> ('u \<times> bool, unit) js) option"

definition binding_method :: "'u methods \<Rightarrow> binding \<Rightarrow> (event_target \<Rightarrow> ('u \<times> bool, unit) js) outcome" where
  "binding_method ms b =
     (case ms (b_scope b) (act_methodName (b_action b)) of
        Some m \<Rightarrow> Inr m
      | None \<Rightarrow> Inl (Error (''Action \"'' @ Action_toString (b_action b) @
                 ''\" references undefined method \"'' @ act_methodName (b_action b) @ ''\"'')))"

definition invokeWithEvent :: "'u methods \<Rightarrow> binding \<Rightarrow> event_target \<Rightarrow> ('u lworld, unit) js" where
  "invokeWithEvent ms b t =
     try_catch (jbind (jlift (binding_method ms b)) (\<lambda>m. on_event (m t)))
       (\<lambda>e. handleError (''invoking action \"'' @ Action_toString (b_action b) @ ''\"'') e (b_scope b)
              (Some (act_index (b_action b))))"

definition binding_handleEvent :: "schema \<Rightarrow> ('z page_scheme) methods \<Rightarrow> event_target \<Rightarrow> binding \<Rightarrow> ('z page_scheme lworld, unit) js" where
  "binding_handleEvent S ms t b =
     jbind (jget (\<lambda>w. willBeInvokedByEvent S (pg_dom (lw_page w)) b t)) (\<lambda>go.
       jwhen go (invokeWithEvent ms b t))"

text \<open>The loop of \<open>EventListener.handleEvent\<close> over the bindings there were when it began.\<close>

fun handle_bindings :: "schema \<Rightarrow> ('z page_scheme) methods \<Rightarrow> event_target \<Rightarrow> binding list \<Rightarrow> ('z page_scheme lworld, unit) js" where
  "handle_bindings S ms t [] = jret ()"
| "handle_bindings S ms t (b # bs) =
     jbind (jget (\<lambda>w. lw_stopped w = Some True)) (\<lambda>stopped.
       if stopped then jret ()
       else jseq (binding_handleEvent S ms t b) (handle_bindings S ms t bs))"

definition listener_handleEvent :: "schema \<Rightarrow> ('z page_scheme) methods \<Rightarrow> event_target \<Rightarrow> listener \<Rightarrow> ('z page_scheme lworld, unit) js" where
  "listener_handleEvent S ms t l =
     jseq (jmodify (\<lambda>w. w\<lparr>lw_stopped := extendEvent (lw_stopped w)\<rparr>))
       (handle_bindings S ms t (listener_bindings l))"

subsection \<open>\<open>Dispatcher\<close>\<close>

definition newDispatcher :: dispatcher where
  "newDispatcher = \<lparr>eventListenerMaps = [], d_started = False\<rparr>"

definition map_listeners :: "(listener \<Rightarrow> listener) \<Rightarrow> dispatcher \<Rightarrow> dispatcher" where
  "map_listeners f D = D\<lparr>eventListenerMaps := map (\<lambda>(t, m). (t, map (\<lambda>(k, l). (k, f l)) m)) (eventListenerMaps D)\<rparr>"

definition dispatcher_start :: "dispatcher \<Rightarrow> dispatcher" where
  "dispatcher_start D = (if d_started D then D else map_listeners listener_connect (D\<lparr>d_started := True\<rparr>))"

definition dispatcher_stop :: "dispatcher \<Rightarrow> dispatcher" where
  "dispatcher_stop D = (if d_started D then map_listeners listener_disconnect (D\<lparr>d_started := False\<rparr>) else D)"

definition eventListeners :: "dispatcher \<Rightarrow> listener list" where
  "eventListeners D = foldl (\<lambda>ls (t, m). ls @ map snd m) [] (eventListenerMaps D)"

definition cacheKey :: "string \<Rightarrow> (string \<times> bool) list \<Rightarrow> string" where
  "cacheKey eventName os =
     join_with '':'' (eventName #
       map (\<lambda>k. (if map_get os k = Some True then [] else ''!'') @ k) (sort (map fst os)))"

definition fetchEventListenerMapForEventTarget :: "event_target \<Rightarrow> dispatcher \<Rightarrow> (string \<times> listener) list \<times> dispatcher" where
  "fetchEventListenerMapForEventTarget t D =
     (case map_get (eventListenerMaps D) t of
        Some m \<Rightarrow> (m, D)
      | None \<Rightarrow> ([], D\<lparr>eventListenerMaps := map_set t [] (eventListenerMaps D)\<rparr>))"

definition createEventListener :: "dispatcher \<Rightarrow> event_target \<Rightarrow> string \<Rightarrow> (string \<times> bool) list \<Rightarrow> listener" where
  "createEventListener D t n os =
     (if d_started D then listener_connect (newEventListener t n os) else newEventListener t n os)"

definition fetchEventListener :: "event_target \<Rightarrow> string \<Rightarrow> (string \<times> bool) list \<Rightarrow> dispatcher \<Rightarrow> listener \<times> dispatcher" where
  "fetchEventListener t n os D =
     (case fetchEventListenerMapForEventTarget t D of (m, D') \<Rightarrow>
       (case map_get m (cacheKey n os) of
          Some l \<Rightarrow> (l, D')
        | None \<Rightarrow>
            (let l = createEventListener D' t n os
             in (l, D'\<lparr>eventListenerMaps := map_set t (map_set (cacheKey n os) l m) (eventListenerMaps D')\<rparr>))))"

text \<open>Fetching the listener of a binding and changing it.\<close>

definition with_listener :: "(listener \<Rightarrow> listener) \<Rightarrow> binding \<Rightarrow> dispatcher \<Rightarrow> dispatcher" where
  "with_listener f b D =
     (let a = b_action b; t = act_eventTarget a; n = act_eventName a; os = act_eventOptions a
      in case fetchEventListener t n os D of (l, D') \<Rightarrow>
           (let m = (case map_get (eventListenerMaps D') t of Some m \<Rightarrow> m | None \<Rightarrow> [])
            in D'\<lparr>eventListenerMaps := map_set t (map_set (cacheKey n os) (f l) m) (eventListenerMaps D')\<rparr>))"

definition dispatcher_bindingConnected :: "binding \<Rightarrow> dispatcher \<Rightarrow> dispatcher" where
  "dispatcher_bindingConnected b D = with_listener (listener_bindingConnected b) b D"

definition dispatcher_bindingDisconnected :: "binding \<Rightarrow> dispatcher \<Rightarrow> dispatcher" where
  "dispatcher_bindingDisconnected b D = with_listener (listener_bindingDisconnected b) b D"

text \<open>
  The browser delivers an event named \<open>n\<close> at a target where listeners are registered: the
  listeners of that target and name, in the order of their registration, each with the
  bindings it has when its turn comes; a listener with the option \<open>once\<close> is removed first.
  The origin of the event, \<open>event.target\<close>, is \<open>t\<close>.
\<close>

definition listeners_for :: "dispatcher \<Rightarrow> event_target \<Rightarrow> string \<Rightarrow> (string \<times> listener) list" where
  "listeners_for D at n =
     filter (\<lambda>(k, l). l_connected l \<and> l_eventName l = n)
       (case map_get (eventListenerMaps D) at of Some m \<Rightarrow> m | None \<Rightarrow> [])"

definition is_once :: "listener \<Rightarrow> bool" where
  "is_once l \<longleftrightarrow> map_get (l_eventOptions l) ''once'' = Some True"

definition expire_once :: "event_target \<Rightarrow> string \<Rightarrow> dispatcher \<Rightarrow> dispatcher" where
  "expire_once at k D = D\<lparr>eventListenerMaps := map (\<lambda>(t, m). (t, map (\<lambda>(k', l).
     (k', if t = at \<and> k' = k \<and> is_once l then listener_disconnect l else l)) m)) (eventListenerMaps D)\<rparr>"

fun deliver_to :: "schema \<Rightarrow> ('z page_scheme) methods \<Rightarrow> event_target \<Rightarrow> event_target \<Rightarrow> (string \<times> listener) list \<Rightarrow>
    ('z page_scheme lworld, unit) js" where
  "deliver_to S ms at t [] = jret ()"
| "deliver_to S ms at t ((k, l) # ls) =
     jbind (jget (\<lambda>w. lw_stopped w = Some True)) (\<lambda>stopped.
       if stopped then jret ()
       else jseq (jmodify (\<lambda>w. w\<lparr>lw_dispatcher := expire_once at k (lw_dispatcher w)\<rparr>))
              (jseq (listener_handleEvent S ms t l) (deliver_to S ms at t ls)))"

definition deliver :: "schema \<Rightarrow> ('z page_scheme) methods \<Rightarrow> event_target \<Rightarrow> string \<Rightarrow> event_target \<Rightarrow> ('z page_scheme lworld, unit) js" where
  "deliver S ms at n t = jbind (jget (\<lambda>w. listeners_for (lw_dispatcher w) at n)) (deliver_to S ms at t)"

subsection \<open>Order, stopping and errors\<close>

lemma invoke_settles: "fst (invokeWithEvent ms b t w) = Inr ()"
  by (simp add: invokeWithEvent_def try_catch_def handleError_def split: prod.split sum.split)

lemma binding_handle_settles: "fst (binding_handleEvent S ms t b w) = Inr ()"
  by (simp add: binding_handleEvent_def jbind_run invoke_settles)

lemma handle_settles: "fst (handle_bindings S ms t bs w) = Inr ()"
proof (induction bs arbitrary: w)
  case (Cons b bs)
  obtain w' where "binding_handleEvent S ms t b w = (Inr (), w')"
    using binding_handle_settles [of S ms t b w] by (metis prod.collapse)
  then show ?case using Cons by (simp add: jbind_run)
qed simp

text \<open>No method runs once the event is stopped.\<close>

lemma handle_stopped: "lw_stopped w = Some True \<Longrightarrow> handle_bindings S ms t bs w = (Inr (), w)"
  by (cases bs) (simp_all add: jbind_run)

lemma handle_append:
  "handle_bindings S ms t (xs @ ys) w = handle_bindings S ms t ys (snd (handle_bindings S ms t xs w))"
proof (induction xs arbitrary: w)
  case (Cons b bs)
  show ?case
  proof (cases "lw_stopped w = Some True")
    case False
    obtain w' where "binding_handleEvent S ms t b w = (Inr (), w')"
      using binding_handle_settles [of S ms t b w] by (metis prod.collapse)
    then show ?thesis using False Cons by (simp add: jbind_run)
  qed (simp add: handle_stopped)
qed simp

text \<open>The bindings of a listener run in the order of their indices, and of equal indices in the
  order in which they were connected.\<close>

lemma listener_bindings_order:
  "mset (listener_bindings l) = mset (l_unorderedBindings l)"
  "sorted (map (\<lambda>b. act_index (b_action b)) (listener_bindings l))"
  "filter (\<lambda>b. act_index (b_action b) = i) (listener_bindings l) = filter (\<lambda>b. act_index (b_action b) = i) (l_unorderedBindings l)"
  by (simp_all add: listener_bindings_def sort_key_stable)

text \<open>Errors of methods are reported, one entry each, and go no further.\<close>

lemma invoke_error:
  "m t (lw_page w, lw_stopped w = Some True) = (Inl e, p, b') \<Longrightarrow> ms (b_scope b) (act_methodName (b_action b)) = Some m \<Longrightarrow>
   invokeWithEvent ms b t w =
     (Inr (), w\<lparr>lw_page := p, lw_stopped := Some b', lw_errors := lw_errors w @
        [(''Error invoking action \"'' @ Action_toString (b_action b) @ ''\"'', e, sc_identifier (b_scope b), sc_element (b_scope b),
          Some (act_index (b_action b)))]\<rparr>)"
  by (simp add: invokeWithEvent_def binding_method_def on_event_def handleError_def)

lemma invoke_ok:
  "m t (lw_page w, lw_stopped w = Some True) = (Inr x, p, b') \<Longrightarrow> ms (b_scope b) (act_methodName (b_action b)) = Some m \<Longrightarrow>
   invokeWithEvent ms b t w = (Inr x, w\<lparr>lw_page := p, lw_stopped := Some b'\<rparr>)"
  by (simp add: invokeWithEvent_def binding_method_def on_event_def)

subsection \<open>The dispatcher's tables\<close>

definition b_target :: "binding \<Rightarrow> event_target" where
  "b_target b = act_eventTarget (b_action b)"

definition b_key :: "binding \<Rightarrow> string" where
  "b_key b = cacheKey (act_eventName (b_action b)) (act_eventOptions (b_action b))"

definition listener_ok :: "bool \<Rightarrow> event_target \<Rightarrow> string \<Rightarrow> listener \<Rightarrow> bool" where
  "listener_ok started t k l \<longleftrightarrow>
     l_eventTarget l = t \<and> k = cacheKey (l_eventName l) (l_eventOptions l) \<and> distinct (l_unorderedBindings l) \<and>
     list_all (\<lambda>b. b_target b = t \<and> b_key b = k) (l_unorderedBindings l) \<and>
     (l_connected l \<longrightarrow> started) \<and> (started \<and> \<not> is_once l \<longrightarrow> l_connected l)"

definition disp_ok :: "dispatcher \<Rightarrow> bool" where
  "disp_ok D \<longleftrightarrow> distinct (map_keys (eventListenerMaps D)) \<and>
     list_all (\<lambda>(t, m). distinct (map_keys m) \<and> list_all (\<lambda>(k, l). listener_ok (d_started D) t k l) m) (eventListenerMaps D)"

definition listener_at :: "dispatcher \<Rightarrow> event_target \<Rightarrow> string \<Rightarrow> listener option" where
  "listener_at D t k = Option.bind (map_get (eventListenerMaps D) t) (\<lambda>m. map_get m k)"

definition bound :: "dispatcher \<Rightarrow> binding set" where
  "bound D = {b. \<exists>t k l. listener_at D t k = Some l \<and> b \<in> set (l_unorderedBindings l)}"

lemma list_all_map_get:
  "distinct (map_keys m) \<Longrightarrow> list_all (\<lambda>(k, v). P k v) m \<longleftrightarrow> (\<forall>k v. map_get m k = Some v \<longrightarrow> P k v)"
  by (auto simp: list_all_iff)

lemma disp_ok_iff:
  "disp_ok D \<longleftrightarrow> distinct (map_keys (eventListenerMaps D)) \<and>
     (\<forall>t m. map_get (eventListenerMaps D) t = Some m \<longrightarrow> distinct (map_keys m)) \<and>
     (\<forall>t k l. listener_at D t k = Some l \<longrightarrow> listener_ok (d_started D) t k l)"
proof (cases "distinct (map_keys (eventListenerMaps D))")
  case True
  have inner: "distinct (map_keys m) \<and> list_all (\<lambda>(k, l). listener_ok (d_started D) t k l) m \<longleftrightarrow>
      distinct (map_keys m) \<and> (\<forall>k l. map_get m k = Some l \<longrightarrow> listener_ok (d_started D) t k l)" for t m
    using list_all_map_get [of m "listener_ok (d_started D) t"] by blast
  have at: "listener_at D t k = Some l \<longleftrightarrow> (\<exists>m. map_get (eventListenerMaps D) t = Some m \<and> map_get m k = Some l)" for t k l
    by (simp add: listener_at_def bind_eq_Some_conv)
  show ?thesis
    unfolding disp_ok_def list_all_map_get [OF True] inner at using True by blast
qed (simp add: disp_ok_def)

lemma disp_okD:
  "disp_ok D \<Longrightarrow> listener_at D t k = Some l \<Longrightarrow> listener_ok (d_started D) t k l"
  by (simp add: disp_ok_iff)

lemma with_listener_eq:
  "with_listener f b D = D\<lparr>eventListenerMaps := map_set (b_target b)
     (map_set (b_key b)
       (f (case listener_at D (b_target b) (b_key b) of
             Some l \<Rightarrow> l
           | None \<Rightarrow> createEventListener D (b_target b) (act_eventName (b_action b)) (act_eventOptions (b_action b))))
       (case map_get (eventListenerMaps D) (b_target b) of Some m \<Rightarrow> m | None \<Rightarrow> []))
     (eventListenerMaps D)\<rparr>"
  by (auto simp: with_listener_def fetchEventListener_def fetchEventListenerMapForEventTarget_def Let_def b_target_def b_key_def
      listener_at_def createEventListener_def map_set_twice split: option.split)

lemma with_listener_at:
  "listener_at (with_listener f b D) t k =
     (if t = b_target b \<and> k = b_key b
      then Some (f (case listener_at D t k of
             Some l \<Rightarrow> l
           | None \<Rightarrow> createEventListener D (b_target b) (act_eventName (b_action b)) (act_eventOptions (b_action b))))
      else listener_at D t k)"
  by (simp add: with_listener_eq listener_at_def split: option.split)

lemma with_listener_keys:
  assumes "distinct (map_keys (eventListenerMaps D))"
    "\<And>t m. map_get (eventListenerMaps D) t = Some m \<Longrightarrow> distinct (map_keys m)"
  shows "distinct (map_keys (eventListenerMaps (with_listener f b D)))"
    "map_get (eventListenerMaps (with_listener f b D)) t = Some m \<Longrightarrow> distinct (map_keys m)"
  using assms by (auto simp: with_listener_eq split: if_split_asm option.split_asm)

lemma with_listener_ok:
  assumes D: "disp_ok D"
    and f: "\<And>l. listener_ok (d_started D) (b_target b) (b_key b) l \<Longrightarrow> listener_ok (d_started D) (b_target b) (b_key b) (f l)"
  shows "disp_ok (with_listener f b D)"
proof -
  have "listener_ok (d_started D) (b_target b) (b_key b)
      (createEventListener D (b_target b) (act_eventName (b_action b)) (act_eventOptions (b_action b)))"
    by (simp add: listener_ok_def createEventListener_def newEventListener_def listener_connect_def b_key_def)
  with f D have "listener_ok (d_started D) t k l" if "listener_at (with_listener f b D) t k = Some l" for t k l
    using that disp_okD [OF D] by (auto simp: with_listener_at split: if_split_asm option.split_asm)
  moreover have "d_started (with_listener f b D) = d_started D" by (simp add: with_listener_eq)
  ultimately show ?thesis using D with_listener_keys [of D f b] by (simp add: disp_ok_iff)
qed

lemma connected_ok: "disp_ok D \<Longrightarrow> disp_ok (dispatcher_bindingConnected b D)"
  unfolding dispatcher_bindingConnected_def
  by (rule with_listener_ok) (auto simp: listener_ok_def listener_bindingConnected_def is_once_def list_all_iff)

lemma disconnected_ok: "disp_ok D \<Longrightarrow> disp_ok (dispatcher_bindingDisconnected b D)"
  unfolding dispatcher_bindingDisconnected_def
  by (rule with_listener_ok) (auto simp: listener_ok_def listener_bindingDisconnected_def is_once_def list_all_iff)

lemma bound_place: "disp_ok D \<Longrightarrow> b \<in> bound D \<longleftrightarrow>
    (\<exists>l. listener_at D (b_target b) (b_key b) = Some l \<and> b \<in> set (l_unorderedBindings l))"
  using disp_okD [of D] by (fastforce simp: bound_def listener_ok_def list_all_iff)

text \<open>Connecting a binding adds exactly it, disconnecting removes exactly it.\<close>

lemma bound_connected:
  assumes D: "disp_ok D" shows "bound (dispatcher_bindingConnected b D) = insert b (bound D)"
proof -
  have "c \<in> bound (dispatcher_bindingConnected b D) \<longleftrightarrow> c \<in> insert b (bound D)" for c
  proof -
    have "c \<in> bound (dispatcher_bindingConnected b D) \<longleftrightarrow>
        (\<exists>l. listener_at (dispatcher_bindingConnected b D) (b_target c) (b_key c) = Some l \<and> c \<in> set (l_unorderedBindings l))"
      by (rule bound_place [OF connected_ok [OF D]])
    also have "\<dots> \<longleftrightarrow> c \<in> insert b (bound D)"
      using bound_place [OF D, of c] bound_place [OF D, of b]
      by (auto simp: dispatcher_bindingConnected_def with_listener_at listener_bindingConnected_def createEventListener_def newEventListener_def
          listener_connect_def split: option.split)
    finally show ?thesis .
  qed
  then show ?thesis by blast
qed

lemma bound_disconnected:
  assumes D: "disp_ok D" shows "bound (dispatcher_bindingDisconnected b D) = bound D - {b}"
proof -
  have "c \<in> bound (dispatcher_bindingDisconnected b D) \<longleftrightarrow> c \<in> bound D - {b}" for c
  proof -
    have "c \<in> bound (dispatcher_bindingDisconnected b D) \<longleftrightarrow>
        (\<exists>l. listener_at (dispatcher_bindingDisconnected b D) (b_target c) (b_key c) = Some l \<and> c \<in> set (l_unorderedBindings l))"
      by (rule bound_place [OF disconnected_ok [OF D]])
    also have "\<dots> \<longleftrightarrow> c \<in> bound D - {b}"
      using bound_place [OF D, of c] bound_place [OF D, of b]
      by (auto simp: dispatcher_bindingDisconnected_def with_listener_at listener_bindingDisconnected_def createEventListener_def newEventListener_def
          listener_connect_def split: option.split)
    finally show ?thesis .
  qed
  then show ?thesis by blast
qed

lemma map_listeners_at: "listener_at (map_listeners f D) t k = map_option f (listener_at D t k)"
proof -
  have "map_get (map (\<lambda>(k, l). (k, f l)) m) k = map_option f (map_get m k)" for m :: "(string \<times> listener) list"
    by (induction m) auto
  moreover have "map_get (map (\<lambda>(t, m). (t, map (\<lambda>(k, l). (k, f l)) m)) ms) t =
      map_option (map (\<lambda>(k, l). (k, f l))) (map_get ms t)" for ms :: "(event_target \<times> (string \<times> listener) list) list"
    by (induction ms) auto
  ultimately show ?thesis by (cases "map_get (eventListenerMaps D) t") (simp_all add: listener_at_def map_listeners_def)
qed

lemma map_listeners_keys:
  "map_keys (eventListenerMaps (map_listeners f D)) = map_keys (eventListenerMaps D)"
  "map_get (eventListenerMaps (map_listeners f D)) t = map_option (map (\<lambda>(k, l). (k, f l))) (map_get (eventListenerMaps D) t)"
proof -
  show "map_keys (eventListenerMaps (map_listeners f D)) = map_keys (eventListenerMaps D)"
    by (simp add: map_listeners_def comp_def case_prod_beta)
  have "map_get (map (\<lambda>(t, m). (t, map (\<lambda>(k, l). (k, f l)) m)) ms) t =
      map_option (map (\<lambda>(k, l). (k, f l))) (map_get ms t)" for ms :: "(event_target \<times> (string \<times> listener) list) list"
    by (induction ms) auto
  then show "map_get (eventListenerMaps (map_listeners f D)) t = map_option (map (\<lambda>(k, l). (k, f l))) (map_get (eventListenerMaps D) t)"
    by (simp add: map_listeners_def)
qed

lemma map_listeners_ok:
  assumes D: "disp_ok D"
    and f: "\<And>t k l. listener_ok (d_started D) t k l \<Longrightarrow> listener_ok started t k (f l)"
  shows "disp_ok (map_listeners f (D\<lparr>d_started := started\<rparr>))"
proof -
  let ?D = "map_listeners f (D\<lparr>d_started := started\<rparr>)"
  have "map_keys (eventListenerMaps ?D) = map_keys (eventListenerMaps D)" by (simp add: map_listeners_keys)
  moreover have "distinct (map_keys m)" if "map_get (eventListenerMaps ?D) t = Some m" for t m
    using that D by (auto simp: map_listeners_keys disp_ok_iff comp_def case_prod_beta)
  moreover have "listener_ok started t k l" if "listener_at ?D t k = Some l" for t k l
  proof -
    have "listener_at (D\<lparr>d_started := started\<rparr>) t k = listener_at D t k" by (simp add: listener_at_def)
    then show ?thesis using that f disp_okD [OF D] by (auto simp: map_listeners_at)
  qed
  moreover have "d_started ?D = started" by (simp add: map_listeners_def)
  ultimately show ?thesis using D by (simp add: disp_ok_iff)
qed

lemma start_ok: "disp_ok D \<Longrightarrow> disp_ok (dispatcher_start D)"
  by (auto simp: dispatcher_start_def listener_ok_def listener_connect_def intro!: map_listeners_ok)

lemma stop_ok: "disp_ok D \<Longrightarrow> disp_ok (dispatcher_stop D)"
  by (auto simp: dispatcher_stop_def listener_ok_def listener_disconnect_def intro!: map_listeners_ok)

lemma bound_map_listeners:
  assumes "\<And>l. l_unorderedBindings (f l) = l_unorderedBindings l"
  shows "bound (map_listeners f (D\<lparr>d_started := x\<rparr>)) = bound D"
proof -
  have "listener_at (D\<lparr>d_started := x\<rparr>) t k = listener_at D t k" for t k by (simp add: listener_at_def)
  then have "listener_at (map_listeners f (D\<lparr>d_started := x\<rparr>)) t k = map_option f (listener_at D t k)" for t k
    by (simp add: map_listeners_at)
  then have "(\<exists>l. listener_at (map_listeners f (D\<lparr>d_started := x\<rparr>)) t k = Some l \<and> b \<in> set (l_unorderedBindings l)) \<longleftrightarrow>
      (\<exists>l. listener_at D t k = Some l \<and> b \<in> set (l_unorderedBindings l))" for b t k
    using assms by (cases "listener_at D t k") simp_all
  then show ?thesis unfolding bound_def by simp
qed

lemma bound_start [simp]: "bound (dispatcher_start D) = bound D" "bound (dispatcher_stop D) = bound D"
  by (simp_all add: dispatcher_start_def dispatcher_stop_def bound_map_listeners listener_connect_def listener_disconnect_def)

text \<open>Distinct event names have distinct listeners, if they have no colon.\<close>

lemma cacheKey_name:
  assumes "CHR '':'' \<notin> set n" "CHR '':'' \<notin> set n'" "cacheKey n os = cacheKey n' os'"
  shows "n = n'"
proof -
  have name: "takeWhile (\<lambda>c. c \<noteq> CHR '':'') (join_with '':'' (n # ps)) = n" if "CHR '':'' \<notin> set n" for n ps
    using that by (cases ps) (auto simp: takeWhile_append takeWhile_eq_all_conv)
  have "takeWhile (\<lambda>c. c \<noteq> CHR '':'') (cacheKey n os) = n" "takeWhile (\<lambda>c. c \<noteq> CHR '':'') (cacheKey n' os') = n'"
    unfolding cacheKey_def by (rule name [OF assms(1)], rule name [OF assms(2)])
  then show ?thesis using assms(3) by simp
qed

text \<open>The order in which options are given does not matter.\<close>

lemma cacheKey_options:
  assumes "distinct (map fst os)" "distinct (map fst os')" "map_of os = map_of os'"
  shows "cacheKey n os = cacheKey n os'"
proof -
  have "set (map fst os) = set (map fst os')" using assms(3) by (metis dom_map_of_conv_image_fst set_map)
  then have "sort (map fst os) = sort (map fst os')"
    using assms(1,2) by (intro sorted_distinct_set_unique) simp_all
  then show ?thesis using assms(3) by (simp add: cacheKey_def)
qed

lemma cacheKey_collision: "cacheKey ''a:b'' [] = cacheKey ''a'' [(''b'', True)]"
  by (simp add: cacheKey_def)

subsection \<open>Delivery\<close>

text \<open>All bindings an event at a target runs through, in order.\<close>

definition bindings_for :: "dispatcher \<Rightarrow> event_target \<Rightarrow> string \<Rightarrow> binding list" where
  "bindings_for D at n = concat (map (\<lambda>(k, l). listener_bindings l) (listeners_for D at n))"

lemma invoke_dispatcher:
  "invokeWithEvent ms b t (w\<lparr>lw_dispatcher := D\<rparr>) =
     (fst (invokeWithEvent ms b t w), (snd (invokeWithEvent ms b t w))\<lparr>lw_dispatcher := D\<rparr>)"
  by (simp add: invokeWithEvent_def try_catch_def jbind_def on_event_def handleError_def split: prod.split sum.split)

lemma handle_dispatcher:
  "handle_bindings S ms t bs (w\<lparr>lw_dispatcher := D\<rparr>) =
     (Inr (), (snd (handle_bindings S ms t bs w))\<lparr>lw_dispatcher := D\<rparr>)"
proof (induction bs arbitrary: w)
  case (Cons b bs)
  have b: "binding_handleEvent S ms t b (w\<lparr>lw_dispatcher := D\<rparr>) = (Inr (), (snd (binding_handleEvent S ms t b w))\<lparr>lw_dispatcher := D\<rparr>)"
    by (simp add: binding_handleEvent_def jbind_run invoke_dispatcher invoke_settles)
  obtain w' where w': "binding_handleEvent S ms t b w = (Inr (), w')"
    using binding_handle_settles [of S ms t b w] by (metis prod.collapse)
  show ?case
  proof (cases "lw_stopped w = Some True")
    case True
    then show ?thesis by (simp add: handle_stopped)
  next
    case False
    then show ?thesis using b w' Cons by (simp add: jbind_run)
  qed
qed simp

lemma handle_extended: "lw_stopped w \<noteq> None \<Longrightarrow> lw_stopped (snd (handle_bindings S ms t bs w)) \<noteq> None"
proof (induction bs arbitrary: w)
  case (Cons b bs)
  have "lw_stopped (snd (binding_handleEvent S ms t b w)) \<noteq> None"
    using Cons.prems by (auto simp: binding_handleEvent_def jbind_def invokeWithEvent_def try_catch_def on_event_def handleError_def
        split: prod.split sum.split)
  moreover obtain w' where "binding_handleEvent S ms t b w = (Inr (), w')"
    using binding_handle_settles [of S ms t b w] by (metis prod.collapse)
  ultimately show ?case using Cons by (cases "lw_stopped w = Some True") (auto simp: jbind_run)
qed simp

text \<open>Delivering an event is handling it with all of these bindings.\<close>

lemma deliver_to_handles:
  assumes "lw_stopped w \<noteq> None"
  shows "\<exists>D'. deliver_to S ms at t ls w =
     (Inr (), (snd (handle_bindings S ms t (concat (map (\<lambda>(k, l). listener_bindings l) ls)) w))\<lparr>lw_dispatcher := D'\<rparr>)"
  using assms
proof (induction ls arbitrary: w)
  case Nil
  show ?case by (intro exI [of _ "lw_dispatcher w"]) simp
next
  case (Cons kl ls)
  obtain k l where kl: "kl = (k, l)" by (cases kl)
  show ?case
  proof (cases "lw_stopped w = Some True")
    case True
    then show ?thesis using kl by (intro exI [of _ "lw_dispatcher w"]) (simp add: handle_stopped jbind_run)
  next
    case False
    let ?D = "expire_once at k (lw_dispatcher w)"
    let ?v = "snd (handle_bindings S ms t (listener_bindings l) w)"
    let ?bs = "concat (map (\<lambda>(k, l). listener_bindings l) ls)"
    have "w\<lparr>lw_dispatcher := ?D, lw_stopped := extendEvent (lw_stopped w)\<rparr> = w\<lparr>lw_dispatcher := ?D\<rparr>"
      using Cons.prems by (cases w) (auto simp: extendEvent_def)
    then have l: "listener_handleEvent S ms t l (w\<lparr>lw_dispatcher := ?D\<rparr>) = (Inr (), ?v\<lparr>lw_dispatcher := ?D\<rparr>)"
      using handle_dispatcher [of S ms t "listener_bindings l" ?D w] by (simp add: listener_handleEvent_def)
    have "lw_stopped (?v\<lparr>lw_dispatcher := ?D\<rparr>) \<noteq> None" using handle_extended [OF Cons.prems] by simp
    from Cons.IH [OF this] obtain D' where "deliver_to S ms at t ls (?v\<lparr>lw_dispatcher := ?D\<rparr>) =
        (Inr (), (snd (handle_bindings S ms t ?bs (?v\<lparr>lw_dispatcher := ?D\<rparr>)))\<lparr>lw_dispatcher := D'\<rparr>)" by blast
    then show ?thesis using False l kl
      by (intro exI [of _ D']) (simp add: jbind_run handle_append handle_dispatcher)
  qed
qed

lemma extend_deliver: "ls \<noteq> [] \<Longrightarrow> lw_stopped w = None \<Longrightarrow>
    deliver_to S ms at t ls w = deliver_to S ms at t ls (w\<lparr>lw_stopped := Some False\<rparr>)"
  by (cases ls) (auto simp: jbind_run jseq_run listener_handleEvent_def extendEvent_def split: prod.split)

lemma deliver_handles:
  assumes "lw_stopped w = None"
  shows "\<exists>D' st. deliver S ms at n t w =
     (Inr (), (snd (handle_bindings S ms t (bindings_for (lw_dispatcher w) at n) (w\<lparr>lw_stopped := Some False\<rparr>)))
        \<lparr>lw_dispatcher := D', lw_stopped := st\<rparr>)"
proof (cases "listeners_for (lw_dispatcher w) at n = []")
  case True
  then show ?thesis
    by (intro exI [of _ "lw_dispatcher w"] exI [of _ None]) (simp add: deliver_def jbind_run bindings_for_def assms)
next
  case False
  let ?ls = "listeners_for (lw_dispatcher w) at n"
  have "lw_stopped (w\<lparr>lw_stopped := Some False\<rparr>) \<noteq> None" by simp
  from deliver_to_handles [OF this, of S ms at t ?ls] obtain D' where
    "deliver_to S ms at t ?ls (w\<lparr>lw_stopped := Some False\<rparr>) =
      (Inr (), (snd (handle_bindings S ms t (bindings_for (lw_dispatcher w) at n) (w\<lparr>lw_stopped := Some False\<rparr>)))\<lparr>lw_dispatcher := D'\<rparr>)"
    unfolding bindings_for_def by blast
  then show ?thesis using extend_deliver [OF False assms, of S ms at t]
    by (intro exI [of _ D'] exI [of _ "lw_stopped (snd (handle_bindings S ms t (bindings_for (lw_dispatcher w) at n) (w\<lparr>lw_stopped := Some False\<rparr>)))"])
      (simp add: deliver_def jbind_run)
qed

text \<open>Event names without a colon, no listener that expires: then the bindings of an event are
  the connected ones of its target and name, each once.\<close>

definition plain_names :: "dispatcher \<Rightarrow> bool" where
  "plain_names D \<longleftrightarrow> (\<forall>t k l. listener_at D t k = Some l \<longrightarrow> CHR '':'' \<notin> set (l_eventName l) \<and> \<not> is_once l \<and>
     (\<forall>b\<in>set (l_unorderedBindings l). CHR '':'' \<notin> set (act_eventName (b_action b))))"

definition plain_act :: "action \<Rightarrow> bool" where
  "plain_act a \<longleftrightarrow> CHR '':'' \<notin> set (act_eventName a) \<and> map_get (act_eventOptions a) ''once'' \<noteq> Some True"

definition plain_binding :: "binding \<Rightarrow> bool" where
  "plain_binding b \<longleftrightarrow> plain_act (b_action b)"

lemma plain_with_listener:
  assumes "plain_names D" "plain_binding b"
    and "\<And>l. l_eventName (f l) = l_eventName l" "\<And>l. l_eventOptions (f l) = l_eventOptions l"
    and "\<And>l. set (l_unorderedBindings (f l)) \<subseteq> insert b (set (l_unorderedBindings l))"
  shows "plain_names (with_listener f b D)"
proof -
  let ?new = "createEventListener D (b_target b) (act_eventName (b_action b)) (act_eventOptions (b_action b))"
  have new: "CHR '':'' \<notin> set (l_eventName ?new) \<and> \<not> is_once ?new \<and> l_unorderedBindings ?new = []"
    using assms(2) by (simp add: plain_binding_def plain_act_def createEventListener_def newEventListener_def listener_connect_def is_once_def)
  have b: "CHR '':'' \<notin> set (act_eventName (b_action b))" using assms(2) by (simp add: plain_binding_def plain_act_def)
  have "CHR '':'' \<notin> set (l_eventName l) \<and> \<not> is_once l \<and>
      (\<forall>c\<in>set (l_unorderedBindings l). CHR '':'' \<notin> set (act_eventName (b_action c)))"
    if l: "listener_at (with_listener f b D) t k = Some l" for t k l
  proof (cases "t = b_target b \<and> k = b_key b")
    case True
    obtain l0 where l0: "l = f l0" "CHR '':'' \<notin> set (l_eventName l0) \<and> \<not> is_once l0 \<and>
        (\<forall>c\<in>set (l_unorderedBindings l0). CHR '':'' \<notin> set (act_eventName (b_action c)))"
      using l True new assms(1) unfolding with_listener_at plain_names_def
      by (cases "listener_at D t k") auto
    have "c = b \<or> c \<in> set (l_unorderedBindings l0)" if "c \<in> set (l_unorderedBindings l)" for c
      using that assms(5) [of l0] l0(1) by blast
    then show ?thesis using l0 b assms(3,4) by (auto simp: is_once_def)
  next
    case False
    then show ?thesis using l assms(1) by (auto simp: with_listener_at plain_names_def)
  qed
  then show ?thesis unfolding plain_names_def by blast
qed

lemma plain_connected:
  "plain_names D \<Longrightarrow> plain_binding b \<Longrightarrow> plain_names (dispatcher_bindingConnected b D)"
  unfolding dispatcher_bindingConnected_def by (auto intro!: plain_with_listener simp: listener_bindingConnected_def)

text \<open>Taking off a binding that is connected, starting and stopping create no listener.\<close>

lemma plain_disconnected:
  assumes D: "disp_ok D" "plain_names D" and b: "b \<in> bound D"
  shows "plain_names (dispatcher_bindingDisconnected b D)"
proof -
  obtain l0 where l0: "listener_at D (b_target b) (b_key b) = Some l0" using b bound_place [OF D(1)] by blast
  have "CHR '':'' \<notin> set (l_eventName l) \<and> \<not> is_once l \<and> (\<forall>c\<in>set (l_unorderedBindings l). CHR '':'' \<notin> set (act_eventName (b_action c)))"
    if "listener_at (dispatcher_bindingDisconnected b D) t k = Some l" for t k l
    using that D(2) l0 unfolding dispatcher_bindingDisconnected_def with_listener_at plain_names_def
    by (auto simp: listener_bindingDisconnected_def is_once_def split: if_split_asm)
  then show ?thesis unfolding plain_names_def by blast
qed

lemma plain_map_listeners:
  assumes "plain_names D" "\<And>l. l_eventName (f l) = l_eventName l" "\<And>l. l_eventOptions (f l) = l_eventOptions l"
    "\<And>l. l_unorderedBindings (f l) = l_unorderedBindings l"
  shows "plain_names (map_listeners f (D\<lparr>d_started := x\<rparr>))"
proof -
  have "listener_at (D\<lparr>d_started := x\<rparr>) t k = listener_at D t k" for t k by (simp add: listener_at_def)
  then show ?thesis using assms unfolding plain_names_def map_listeners_at by (fastforce simp: is_once_def)
qed

lemma plain_start: "plain_names D \<Longrightarrow> plain_names (dispatcher_start D)"
  by (auto simp: dispatcher_start_def listener_connect_def intro!: plain_map_listeners)

lemma plain_stop: "plain_names D \<Longrightarrow> plain_names (dispatcher_stop D)"
  by (auto simp: dispatcher_stop_def listener_disconnect_def intro!: plain_map_listeners)

lemma plain_new: "plain_names newDispatcher"
  by (simp add: plain_names_def newDispatcher_def listener_at_def)

lemma in_listeners_for:
  assumes "disp_ok D"
  shows "(k, l) \<in> set (listeners_for D at n) \<longleftrightarrow> listener_at D at k = Some l \<and> l_connected l \<and> l_eventName l = n"
proof (cases "map_get (eventListenerMaps D) at")
  case None
  then show ?thesis by (simp add: listeners_for_def listener_at_def)
next
  case (Some m)
  then have "distinct (map_keys m)" using assms by (simp add: disp_ok_iff)
  then show ?thesis using Some by (auto simp: listeners_for_def listener_at_def)
qed

lemma distinct_listeners_for:
  assumes "disp_ok D" shows "distinct (map_keys (listeners_for D at n))"
proof (cases "map_get (eventListenerMaps D) at")
  case (Some m)
  then have "distinct (map_keys m)" using assms by (simp add: disp_ok_iff)
  then show ?thesis using Some by (simp add: listeners_for_def distinct_map_filter)
qed (simp add: listeners_for_def)

lemma bindings_for_set:
  assumes D: "disp_ok D" "d_started D" "plain_names D"
  shows "set (bindings_for D at n) = {b \<in> bound D. b_target b = at \<and> act_eventName (b_action b) = n}"
proof -
  have "b \<in> set (bindings_for D at n) \<longleftrightarrow> b \<in> bound D \<and> b_target b = at \<and> act_eventName (b_action b) = n" for b
  proof
    assume "b \<in> set (bindings_for D at n)"
    then obtain k l where l: "listener_at D at k = Some l" "l_eventName l = n" "b \<in> set (l_unorderedBindings l)"
      by (auto simp: bindings_for_def in_listeners_for [OF D(1)] listener_bindings_def)
    have ok: "listener_ok (d_started D) at k l" using disp_okD [OF D(1) l(1)] .
    then have "b_target b = at" "b_key b = k" "k = cacheKey n (l_eventOptions l)"
      using l(2,3) by (auto simp: listener_ok_def list_all_iff)
    moreover have "CHR '':'' \<notin> set n" "CHR '':'' \<notin> set (act_eventName (b_action b))"
      using D(3) l by (auto simp: plain_names_def)
    ultimately have "act_eventName (b_action b) = n" using cacheKey_name by (simp add: b_key_def)
    then show "b \<in> bound D \<and> b_target b = at \<and> act_eventName (b_action b) = n"
      using l \<open>b_target b = at\<close> by (auto simp: bound_def)
  next
    assume b: "b \<in> bound D \<and> b_target b = at \<and> act_eventName (b_action b) = n"
    then obtain l where l: "listener_at D at (b_key b) = Some l" "b \<in> set (l_unorderedBindings l)"
      using bound_place [OF D(1), of b] by auto
    have ok: "listener_ok (d_started D) at (b_key b) l" using disp_okD [OF D(1) l(1)] .
    have pl: "\<not> is_once l" "CHR '':'' \<notin> set (l_eventName l)" "CHR '':'' \<notin> set n"
      using D(3) l b by (auto simp: plain_names_def)
    have "cacheKey n (act_eventOptions (b_action b)) = cacheKey (l_eventName l) (l_eventOptions l)"
      using ok b by (simp add: listener_ok_def b_key_def)
    then have "l_eventName l = n" by (rule cacheKey_name [OF pl(3,2), symmetric])
    then show "b \<in> set (bindings_for D at n)"
      using l ok pl(1) D(2) in_listeners_for [OF D(1), of "b_key b" l at n]
      by (force simp: bindings_for_def listener_bindings_def listener_ok_def)
  qed
  then show ?thesis by blast
qed

lemma distinct_bindings_for:
  assumes D: "disp_ok D" shows "distinct (bindings_for D at n)"
proof -
  have apart: "b_key b = k \<and> distinct (l_unorderedBindings l)" if "(k, l) \<in> set (listeners_for D at n)" "b \<in> set (l_unorderedBindings l)" for k l b
    using that disp_okD [OF D] by (auto simp: in_listeners_for [OF D] listener_ok_def list_all_iff)
  have "distinct (map_keys ls) \<Longrightarrow> set ls \<subseteq> set (listeners_for D at n) \<Longrightarrow> distinct (concat (map (\<lambda>(k, l). listener_bindings l) ls))" for ls
  proof (induction ls)
    case (Cons kl ls)
    obtain k l where kl: "kl = (k, l)" by (cases kl)
    have "distinct (l_unorderedBindings l)" using Cons.prems kl disp_okD [OF D] by (auto simp: in_listeners_for [OF D] listener_ok_def)
    moreover have "b \<notin> set (concat (map (\<lambda>(k, l). listener_bindings l) ls))" if "b \<in> set (l_unorderedBindings l)" for b
    proof
      assume "b \<in> set (concat (map (\<lambda>(k, l). listener_bindings l) ls))"
      then obtain k' l' where "(k', l') \<in> set ls" "b \<in> set (l_unorderedBindings l')" by (auto simp: listener_bindings_def)
      then have "k' = k" using apart [of k' l' b] apart [of k l b] that Cons.prems(2) kl by auto
      then show False using Cons.prems(1) kl \<open>(k', l') \<in> set ls\<close> by force
    qed
    ultimately show ?case using Cons kl by (auto simp: listener_bindings_def)
  qed simp
  then show ?thesis unfolding bindings_for_def using distinct_listeners_for [OF D] by blast
qed

text \<open>The dispatcher keeps its tables and its bindings while an event is delivered.\<close>

lemma expire_once_at:
  "listener_at (expire_once at k D) t k' =
     map_option (\<lambda>l. if t = at \<and> k' = k \<and> is_once l then listener_disconnect l else l) (listener_at D t k')"
proof -
  let ?f = "\<lambda>t k' l. if t = at \<and> k' = k \<and> is_once l then listener_disconnect l else l"
  have in1: "map_get (map (\<lambda>(k', l). (k', ?f t k' l)) m) k' = map_option (?f t k') (map_get m k')" for t k' and m :: "(string \<times> listener) list"
    by (induction m) auto
  have "map_get (map (\<lambda>(t, m). (t, map (\<lambda>(k', l). (k', ?f t k' l)) m)) ms) t =
      map_option (map (\<lambda>(k', l). (k', ?f t k' l))) (map_get ms t)" for t and ms :: "(event_target \<times> (string \<times> listener) list) list"
    by (induction ms) auto
  then show ?thesis unfolding listener_at_def expire_once_def
    by (cases "map_get (eventListenerMaps D) t") (simp_all add: in1)
qed

lemma expire_once_ok:
  assumes D: "disp_ok D" shows "disp_ok (expire_once at k D)" "bound (expire_once at k D) = bound D"
proof -
  let ?D = "expire_once at k D"
  let ?g = "\<lambda>t. map (\<lambda>(k', l). (k', if t = at \<and> k' = k \<and> is_once l then listener_disconnect l else l))"
  have get: "map_get (eventListenerMaps ?D) t = map_option (?g t) (map_get (eventListenerMaps D) t)" for t
  proof -
    have "map_get (map (\<lambda>(t, m). (t, ?g t m)) ms) t = map_option (?g t) (map_get ms t)"
      for ms :: "(event_target \<times> (string \<times> listener) list) list" by (induction ms) auto
    then show ?thesis by (simp add: expire_once_def)
  qed
  have keys: "map_keys (eventListenerMaps ?D) = map_keys (eventListenerMaps D)"
    by (simp add: expire_once_def comp_def case_prod_beta)
  have inner: "distinct (map_keys m)" if "map_get (eventListenerMaps ?D) t = Some m" for t m
    using that D unfolding get disp_ok_iff by (auto simp: comp_def case_prod_beta)
  have lok: "listener_ok (d_started ?D) t k' l" if at: "listener_at ?D t k' = Some l" for t k' l
  proof -
    obtain l0 where l0: "listener_at D t k' = Some l0" "l = (if t = at \<and> k' = k \<and> is_once l0 then listener_disconnect l0 else l0)"
      using at unfolding expire_once_at by (cases "listener_at D t k'") simp_all
    then show ?thesis using disp_okD [OF D l0(1)] by (auto simp: listener_ok_def listener_disconnect_def is_once_def expire_once_def)
  qed
  show "disp_ok ?D" unfolding disp_ok_iff [of ?D] keys using D inner lok by (auto simp: disp_ok_iff)
  have "(\<exists>l. listener_at ?D t k' = Some l \<and> b \<in> set (l_unorderedBindings l)) \<longleftrightarrow>
      (\<exists>l. listener_at D t k' = Some l \<and> b \<in> set (l_unorderedBindings l))" for t k' b
    by (cases "listener_at D t k'") (auto simp: expire_once_at listener_disconnect_def)
  then show "bound ?D = bound D" by (auto simp: bound_def)
qed

lemma handle_keeps_dispatcher: "lw_dispatcher (snd (handle_bindings S ms t bs w)) = lw_dispatcher w"
  using handle_dispatcher [of S ms t bs "lw_dispatcher w" w] by (metis lworld.surjective lworld.update_convs(1) lworld.select_convs(1) snd_conv)

lemma deliver_to_inv:
  assumes "\<And>k D. P D \<Longrightarrow> P (expire_once at k D)" "P (lw_dispatcher w)"
  shows "fst (deliver_to S ms at t ls w) = Inr () \<and> P (lw_dispatcher (snd (deliver_to S ms at t ls w)))"
  using assms(2)
proof (induction ls arbitrary: w)
  case (Cons kl ls)
  obtain k l where kl: "kl = (k, l)" by (cases kl)
  let ?w1 = "w\<lparr>lw_dispatcher := expire_once at k (lw_dispatcher w)\<rparr>"
  obtain w2 where w2: "listener_handleEvent S ms t l ?w1 = (Inr (), w2)" "lw_dispatcher w2 = lw_dispatcher ?w1"
    by (auto simp: listener_handleEvent_def jseq_run extendEvent_def handle_keeps_dispatcher prod_eq_iff handle_settles)
  have "P (lw_dispatcher w2)" using w2(2) assms(1) Cons.prems by simp
  then show ?case using Cons.IH [of w2] Cons.prems w2(1) by (simp add: kl jbind_run jseq_run)
qed simp

lemma deliver_inv:
  assumes "\<And>k D. P D \<Longrightarrow> P (expire_once at k D)" "P (lw_dispatcher w)"
  shows "P (lw_dispatcher (snd (deliver S ms at n t w)))"
  using deliver_to_inv [of P at w] assms by (simp add: deliver_def jbind_run)

lemma expire_once_plain: "plain_names D \<Longrightarrow> plain_names (expire_once at k D)"
  unfolding plain_names_def expire_once_at by (fastforce simp: listener_disconnect_def is_once_def split: if_split_asm)

lemma deliver_keeps:
  assumes "disp_ok (lw_dispatcher w)"
  shows "fst (deliver S ms at n t w) = Inr ()" "disp_ok (lw_dispatcher (snd (deliver S ms at n t w)))"
    "bound (lw_dispatcher (snd (deliver S ms at n t w))) = bound (lw_dispatcher w)"
    "plain_names (lw_dispatcher w) \<Longrightarrow> plain_names (lw_dispatcher (snd (deliver S ms at n t w)))"
proof -
  show "fst (deliver S ms at n t w) = Inr ()"
    using deliver_to_inv [of "\<lambda>D. True"] by (simp add: deliver_def jbind_run)
  have "disp_ok (lw_dispatcher (snd (deliver S ms at n t w))) \<and> bound (lw_dispatcher (snd (deliver S ms at n t w))) = bound (lw_dispatcher w)"
    by (rule deliver_inv [where P = "\<lambda>D. disp_ok D \<and> bound D = bound (lw_dispatcher w)"]) (simp_all add: assms expire_once_ok)
  then show "disp_ok (lw_dispatcher (snd (deliver S ms at n t w)))"
    "bound (lw_dispatcher (snd (deliver S ms at n t w))) = bound (lw_dispatcher w)" by simp_all
  show "plain_names (lw_dispatcher w) \<Longrightarrow> plain_names (lw_dispatcher (snd (deliver S ms at n t w)))"
    by (rule deliver_inv [where P = plain_names]) (simp_all add: expire_once_plain)
qed

text \<open>Methods that leave the document as it is do so in a delivery.\<close>

definition doc_kept :: "'z page_scheme methods \<Rightarrow> bool" where
  "doc_kept ms \<longleftrightarrow> (\<forall>sc n m t p b. ms sc n = Some m \<longrightarrow> pg_dom (fst (snd (m t (p, b)))) = pg_dom p)"

lemma binding_doc:
  assumes "doc_kept ms" shows "pg_dom (lw_page (snd (binding_handleEvent S ms t b w))) = pg_dom (lw_page w)"
proof (cases "ms (b_scope b) (act_methodName (b_action b))")
  case None
  then show ?thesis by (simp add: binding_handleEvent_def jbind_run invokeWithEvent_def binding_method_def handleError_def)
next
  case (Some m)
  obtain r p st where m: "m t (lw_page w, lw_stopped w = Some True) = (r, p, st)" by (metis prod.exhaust)
  then have "pg_dom p = pg_dom (lw_page w)" using assms Some unfolding doc_kept_def by (metis fst_conv snd_conv)
  then show ?thesis using invoke_error [of m t w _ p st ms b] invoke_ok [of m t w _ p st ms b] m Some
    by (cases r) (auto simp: binding_handleEvent_def jbind_run)
qed

lemma handle_doc:
  assumes "doc_kept ms" shows "pg_dom (lw_page (snd (handle_bindings S ms t bs w))) = pg_dom (lw_page w)"
proof (induction bs arbitrary: w)
  case (Cons b bs)
  obtain w' where w': "binding_handleEvent S ms t b w = (Inr (), w')"
    using binding_handle_settles [of S ms t b w] by (metis prod.collapse)
  then have "pg_dom (lw_page w') = pg_dom (lw_page w)" using binding_doc [OF assms, of S t b w] by simp
  then show ?case using Cons [of w'] w' by (simp add: jbind_run)
qed simp

lemma deliver_doc:
  assumes "doc_kept ms" shows "pg_dom (lw_page (snd (deliver S ms at n t w))) = pg_dom (lw_page w)"
proof -
  have "pg_dom (lw_page (snd (deliver_to S ms at t ls w))) = pg_dom (lw_page w)" for ls w
  proof (induction ls arbitrary: w)
    case (Cons kl ls)
    obtain k l where kl: "kl = (k, l)" by (cases kl)
    let ?w1 = "w\<lparr>lw_dispatcher := expire_once at k (lw_dispatcher w)\<rparr>"
    obtain w2 where w2: "listener_handleEvent S ms t l ?w1 = (Inr (), w2)" "pg_dom (lw_page w2) = pg_dom (lw_page ?w1)"
      by (auto simp: listener_handleEvent_def jseq_run extendEvent_def handle_doc [OF assms] prod_eq_iff handle_settles)
    then show ?case using Cons [of w2] by (simp add: kl jbind_run jseq_run)
  qed simp
  then show ?thesis by (simp add: deliver_def jbind_run)
qed

end
