(* ===== verification/StObserve.thy ===== *)
theory StObserve
  imports StDispatch
begin

section \<open>Observers\<close>

text \<open>
  The observers of \<open>stimulus.js\<close>: \<open>ElementObserver\<close>, \<open>AttributeObserver\<close>, \<open>TokenListObserver\<close> and
  \<open>ValueListObserver\<close>. Each one creates the next and is its only delegate, so one record
  \<open>vlo\<close> holds the state of all four; the delegate of the last one, which differs, is a
  parameter with a state of its own inside the record. Tokens are objects: each one read
  has a number of its own. The locale \<open>vl_client\<close> is the contract between a value list
  observer and its delegate; the lemmas show that the delegate is told of exactly the
  values that stand in the document, each one once, and that processing the records of
  a change brings the observer up to date.
\<close>

record token =
  tk_id :: nat
  tk_element :: elt
  tk_attributeName :: string
  tk_content :: string
  tk_index :: nat

datatype 'v parse_result = PValue "'v option" | PError jserr

record ('v, 'd) vlo =
  eo_element :: elt
  eo_started :: bool
  eo_elements :: "elt list"
  ao_attributeName :: string
  tl_tokensByElement :: "(elt, token) mm"
  vl_parseResultsByToken :: "(token \<times> 'v parse_result) list"
  vl_valuesByTokenByElement :: "(elt \<times> (token \<times> 'v) list) list"
  vl_next :: nat
  vl_delegate :: 'd

record ('v, 'd, 'w) vl_delegate_ops =
  dg_parse :: "token \<Rightarrow> 'd \<times> 'w \<Rightarrow> 'v option outcome \<times> 'd"
  dg_matched :: "elt \<Rightarrow> 'v \<Rightarrow> ('d \<times> 'w, unit) js"
  dg_unmatched :: "elt \<Rightarrow> 'v \<Rightarrow> ('d \<times> 'w, unit) js"

definition newValueListObserver :: "elt \<Rightarrow> string \<Rightarrow> 'd \<Rightarrow> ('v, 'd) vlo" where
  "newValueListObserver e an d =
     \<lparr>eo_element = e, eo_started = False, eo_elements = [], ao_attributeName = an, tl_tokensByElement = [],
      vl_parseResultsByToken = [], vl_valuesByTokenByElement = [], vl_next = 0, vl_delegate = d\<rparr>"

definition on_delegate :: "('d \<times> 'w, 'a) js \<Rightarrow> (('v, 'd) vlo \<times> 'w, 'a) js" where
  "on_delegate m = (\<lambda>(ob, w). case m (vl_delegate ob, w) of (r, d, w') \<Rightarrow> (r, ob\<lparr>vl_delegate := d\<rparr>, w'))"

definition on_vlo :: "(('v, 'd) vlo \<Rightarrow> ('v, 'd) vlo) \<Rightarrow> (('v, 'd) vlo \<times> 'w, unit) js" where
  "on_vlo f = jmodify (\<lambda>(ob, w). (f ob, w))"

text \<open>The document a world shows.\<close>

definition doc_of :: "'z page_scheme lworld \<Rightarrow> dom" where
  "doc_of w = pg_dom (lw_page w)"

subsection \<open>Tokens\<close>

text \<open>\<open>s.split(/\s+/)\<close>\<close>

function split_spaces :: "string \<Rightarrow> string list" where
  "split_spaces s =
     (let w = takeWhile (\<lambda>c. \<not> is_space c) s; r = dropWhile (\<lambda>c. \<not> is_space c) s
      in if r = [] then [w] else w # split_spaces (dropWhile is_space r))"
  by pat_completeness auto
termination
proof (relation "measure length")
  fix s :: string and w r
  assume r: "r = dropWhile (\<lambda>c. \<not> is_space c) s" "r \<noteq> []"
  then have "is_space (hd r)" using hd_dropWhile [of "\<lambda>c. \<not> is_space c" s] by blast
  then obtain c t where "r = c # t" "is_space c" using r(2) by (cases r) auto
  moreover have "length r \<le> length s" using r(1) by (simp add: length_dropWhile_le)
  ultimately show "(dropWhile is_space r, s) \<in> measure length"
    using length_dropWhile_le [of is_space t] by simp
qed simp

declare split_spaces.simps [simp del]

definition token_contents :: "string \<Rightarrow> string list" where
  "token_contents s = filter (\<lambda>c. c \<noteq> []) (split_spaces (trim s))"

definition parseTokenString :: "nat \<Rightarrow> string \<Rightarrow> elt \<Rightarrow> string \<Rightarrow> token list" where
  "parseTokenString next tokenString e an =
     map (\<lambda>(i, content). \<lparr>tk_id = next + i, tk_element = e, tk_attributeName = an, tk_content = content, tk_index = i\<rparr>)
       (enumerate 0 (token_contents tokenString))"

definition nth_opt :: "'a list \<Rightarrow> nat \<Rightarrow> 'a option" where
  "nth_opt xs i = (if i < length xs then Some (xs ! i) else None)"

definition zip_longest :: "'a list \<Rightarrow> 'b list \<Rightarrow> ('a option \<times> 'b option) list" where
  "zip_longest left right = map (\<lambda>i. (nth_opt left i, nth_opt right i)) [0 ..< max (length left) (length right)]"

fun tokensAreEqual :: "token option \<times> token option \<Rightarrow> bool" where
  "tokensAreEqual (Some l, Some r) \<longleftrightarrow> tk_index l = tk_index r \<and> tk_content l = tk_content r"
| "tokensAreEqual _ \<longleftrightarrow> False"

fun find_index :: "('a \<Rightarrow> bool) \<Rightarrow> 'a list \<Rightarrow> nat option" where
  "find_index P [] = None"
| "find_index P (x # xs) = (if P x then Some 0 else map_option Suc (find_index P xs))"

subsection \<open>\<open>ValueListObserver\<close>\<close>

definition parseToken :: "('v, 'd, 'w) vl_delegate_ops \<Rightarrow> token \<Rightarrow> (('v, 'd) vlo \<times> 'w, 'v parse_result) js" where
  "parseToken G t = (\<lambda>(ob, w). case dg_parse G t (vl_delegate ob, w) of
     (Inr v, d) \<Rightarrow> (Inr (PValue v), ob\<lparr>vl_delegate := d\<rparr>, w)
   | (Inl e, d) \<Rightarrow> (Inr (PError e), ob\<lparr>vl_delegate := d\<rparr>, w))"

definition fetchParseResultForToken :: "('v, 'd, 'w) vl_delegate_ops \<Rightarrow> token \<Rightarrow> (('v, 'd) vlo \<times> 'w, 'v parse_result) js" where
  "fetchParseResultForToken G t =
     jbind (jget (\<lambda>(ob, w). map_get (vl_parseResultsByToken ob) t)) (\<lambda>r.
       case r of
         Some p \<Rightarrow> jret p
       | None \<Rightarrow> jbind (parseToken G t) (\<lambda>p.
           jseq (on_vlo (\<lambda>ob. ob\<lparr>vl_parseResultsByToken := map_set t p (vl_parseResultsByToken ob)\<rparr>)) (jret p)))"

fun result_value :: "'v parse_result \<Rightarrow> 'v option" where
  "result_value (PValue v) = v"
| "result_value (PError _) = None"

text \<open>\<open>fetchValuesByTokenForElement\<close>, and the map changed in its place.\<close>

definition with_values :: "elt \<Rightarrow> ((token \<times> 'v) list \<Rightarrow> (token \<times> 'v) list) \<Rightarrow> ('v, 'd) vlo \<Rightarrow> ('v, 'd) vlo" where
  "with_values e f ob =
     ob\<lparr>vl_valuesByTokenByElement :=
        map_set e (f (case map_get (vl_valuesByTokenByElement ob) e of Some m \<Rightarrow> m | None \<Rightarrow> [])) (vl_valuesByTokenByElement ob)\<rparr>"

definition vl_tokenMatched :: "('v, 'd, 'w) vl_delegate_ops \<Rightarrow> token \<Rightarrow> (('v, 'd) vlo \<times> 'w, unit) js" where
  "vl_tokenMatched G t =
     jbind (fetchParseResultForToken G t) (\<lambda>p. case result_value p of
       None \<Rightarrow> jret ()
     | Some v \<Rightarrow> jseq (on_vlo (with_values (tk_element t) (map_set t v))) (on_delegate (dg_matched G (tk_element t) v)))"

definition vl_tokenUnmatched :: "('v, 'd, 'w) vl_delegate_ops \<Rightarrow> token \<Rightarrow> (('v, 'd) vlo \<times> 'w, unit) js" where
  "vl_tokenUnmatched G t =
     jbind (fetchParseResultForToken G t) (\<lambda>p. case result_value p of
       None \<Rightarrow> jret ()
     | Some v \<Rightarrow> jseq (on_vlo (with_values (tk_element t) (map_delete t))) (on_delegate (dg_unmatched G (tk_element t) v)))"

subsection \<open>\<open>TokenListObserver\<close>\<close>

definition tokenMatched :: "('v, 'd, 'w) vl_delegate_ops \<Rightarrow> token \<Rightarrow> (('v, 'd) vlo \<times> 'w, unit) js" where
  "tokenMatched G t =
     jseq (vl_tokenMatched G t)
       (on_vlo (\<lambda>ob. ob\<lparr>tl_tokensByElement := mm_add (tk_element t) t (tl_tokensByElement ob)\<rparr>))"

definition tokenUnmatched :: "('v, 'd, 'w) vl_delegate_ops \<Rightarrow> token \<Rightarrow> (('v, 'd) vlo \<times> 'w, unit) js" where
  "tokenUnmatched G t =
     jseq (vl_tokenUnmatched G t)
       (on_vlo (\<lambda>ob. ob\<lparr>tl_tokensByElement := mm_del (tk_element t) t (tl_tokensByElement ob)\<rparr>))"

definition tokensMatched :: "('v, 'd, 'w) vl_delegate_ops \<Rightarrow> token list \<Rightarrow> (('v, 'd) vlo \<times> 'w, unit) js" where
  "tokensMatched G ts = jforeach (tokenMatched G) ts"

definition tokensUnmatched :: "('v, 'd, 'w) vl_delegate_ops \<Rightarrow> token list \<Rightarrow> (('v, 'd) vlo \<times> 'w, unit) js" where
  "tokensUnmatched G ts = jforeach (tokenUnmatched G) ts"

definition readTokensForElement :: "elt \<Rightarrow> (('v, 'd) vlo \<times> 'z page_scheme lworld, token list) js" where
  "readTokensForElement e = (\<lambda>(ob, w).
     let an = ao_attributeName ob;
         tokenString = (case getAttribute (doc_of w) e an of Some s \<Rightarrow> s | None \<Rightarrow> []);
         ts = parseTokenString (vl_next ob) tokenString e an
     in (Inr ts, ob\<lparr>vl_next := vl_next ob + length ts\<rparr>, w))"

definition refreshTokensForElement :: "elt \<Rightarrow> (('v, 'd) vlo \<times> 'z page_scheme lworld, token list \<times> token list) js" where
  "refreshTokensForElement e =
     jbind (jget (\<lambda>(ob, w). getValuesForKey (tl_tokensByElement ob) e)) (\<lambda>previousTokens.
     jbind (readTokensForElement e) (\<lambda>currentTokens.
       case find_index (\<lambda>p. \<not> tokensAreEqual p) (zip_longest previousTokens currentTokens) of
         None \<Rightarrow> jret ([], [])
       | Some i \<Rightarrow> jret (drop i previousTokens, drop i currentTokens)))"

definition elementMatchedAttribute :: "('v, 'd, 'z page_scheme lworld) vl_delegate_ops \<Rightarrow> elt \<Rightarrow> (('v, 'd) vlo \<times> 'z page_scheme lworld, unit) js" where
  "elementMatchedAttribute G e = jbind (readTokensForElement e) (tokensMatched G)"

definition elementAttributeValueChanged :: "('v, 'd, 'z page_scheme lworld) vl_delegate_ops \<Rightarrow> elt \<Rightarrow> (('v, 'd) vlo \<times> 'z page_scheme lworld, unit) js" where
  "elementAttributeValueChanged G e =
     jbind (refreshTokensForElement e) (\<lambda>(unmatchedTokens, matchedTokens).
       jseq (tokensUnmatched G unmatchedTokens) (tokensMatched G matchedTokens))"

definition elementUnmatchedAttribute :: "('v, 'd, 'w) vl_delegate_ops \<Rightarrow> elt \<Rightarrow> (('v, 'd) vlo \<times> 'w, unit) js" where
  "elementUnmatchedAttribute G e =
     jbind (jget (\<lambda>(ob, w). getValuesForKey (tl_tokensByElement ob) e)) (tokensUnmatched G)"

subsection \<open>\<open>AttributeObserver\<close>\<close>

definition matchElement :: "dom \<Rightarrow> string \<Rightarrow> elt \<Rightarrow> bool" where
  "matchElement d an e = hasAttribute d e an"

definition matchElementsInTree :: "dom \<Rightarrow> string \<Rightarrow> elt \<Rightarrow> elt list" where
  "matchElementsInTree d an tree = (if matchElement d an tree then [tree] else []) @ querySelectorAll d tree (SelAttr an)"

definition elementAttributeChanged :: "('v, 'd, 'z page_scheme lworld) vl_delegate_ops \<Rightarrow> elt \<Rightarrow> string \<Rightarrow> (('v, 'd) vlo \<times> 'z page_scheme lworld, unit) js" where
  "elementAttributeChanged G e attributeName =
     jbind (jget (\<lambda>(ob, w). ao_attributeName ob = attributeName)) (\<lambda>same.
       jwhen same (elementAttributeValueChanged G e))"

subsection \<open>\<open>ElementObserver\<close>\<close>

definition elementIsActive :: "dom \<Rightarrow> elt \<Rightarrow> elt \<Rightarrow> bool" where
  "elementIsActive d root e = (if dom_isConnected d e \<noteq> dom_isConnected d root then False else dom_contains d root e)"

definition addElement :: "('v, 'd, 'z page_scheme lworld) vl_delegate_ops \<Rightarrow> elt \<Rightarrow> (('v, 'd) vlo \<times> 'z page_scheme lworld, unit) js" where
  "addElement G e =
     jbind (jget (\<lambda>(ob, w). e \<notin> set (eo_elements ob) \<and> elementIsActive (doc_of w) (eo_element ob) e)) (\<lambda>go.
       jwhen go (jseq (on_vlo (\<lambda>ob. ob\<lparr>eo_elements := set_add e (eo_elements ob)\<rparr>)) (elementMatchedAttribute G e)))"

definition removeElement :: "('v, 'd, 'z page_scheme lworld) vl_delegate_ops \<Rightarrow> elt \<Rightarrow> (('v, 'd) vlo \<times> 'z page_scheme lworld, unit) js" where
  "removeElement G e =
     jbind (jget (\<lambda>(ob, w). e \<in> set (eo_elements ob))) (\<lambda>go.
       jwhen go (jseq (on_vlo (\<lambda>ob. ob\<lparr>eo_elements := set_delete e (eo_elements ob)\<rparr>)) (elementUnmatchedAttribute G e)))"

definition observer_refresh :: "('v, 'd, 'z page_scheme lworld) vl_delegate_ops \<Rightarrow> (('v, 'd) vlo \<times> 'z page_scheme lworld, unit) js" where
  "observer_refresh G =
     jbind (jget (\<lambda>(ob, w). eo_started ob)) (\<lambda>started.
       jwhen started
         (jbind (jget (\<lambda>(ob, w). set_of (matchElementsInTree (doc_of w) (ao_attributeName ob) (eo_element ob)))) (\<lambda>matches.
          jbind (jget (\<lambda>(ob, w). eo_elements ob)) (\<lambda>elements.
            jseq (jforeach (\<lambda>e. jwhen (e \<notin> set matches) (removeElement G e)) elements)
              (jforeach (addElement G) matches)))))"

definition observer_start :: "('v, 'd, 'z page_scheme lworld) vl_delegate_ops \<Rightarrow> (('v, 'd) vlo \<times> 'z page_scheme lworld, unit) js" where
  "observer_start G =
     jbind (jget (\<lambda>(ob, w). eo_started ob)) (\<lambda>started.
       jwhen (\<not> started) (jseq (on_vlo (\<lambda>ob. ob\<lparr>eo_started := True\<rparr>)) (observer_refresh G)))"

definition observer_stop :: "(('v, 'd) vlo \<times> 'w, unit) js" where
  "observer_stop = on_vlo (\<lambda>ob. if eo_started ob then ob\<lparr>eo_started := False\<rparr> else ob)"

text \<open>The records of changes: an attribute of an element, or nodes removed from and added to some
  element. A node that is no element is \<open>None\<close>.\<close>

datatype mutation =
    MAttributes elt string
  | MChildList (removedNodes: "elt option list") (addedNodes: "elt option list")

definition processAttributeChange :: "('v, 'd, 'z page_scheme lworld) vl_delegate_ops \<Rightarrow> elt \<Rightarrow> string \<Rightarrow> (('v, 'd) vlo \<times> 'z page_scheme lworld, unit) js" where
  "processAttributeChange G e attributeName =
     jbind (jget (\<lambda>(ob, w). (e \<in> set (eo_elements ob), matchElement (doc_of w) (ao_attributeName ob) e))) (\<lambda>(known, match).
       if known then (if match then elementAttributeChanged G e attributeName else removeElement G e)
       else jwhen match (addElement G e))"

definition processTree :: "(elt \<Rightarrow> (('v, 'd) vlo \<times> 'z page_scheme lworld, unit) js) \<Rightarrow> elt \<Rightarrow> (('v, 'd) vlo \<times> 'z page_scheme lworld, unit) js" where
  "processTree processor tree =
     jbind (jget (\<lambda>(ob, w). matchElementsInTree (doc_of w) (ao_attributeName ob) tree)) (jforeach processor)"

definition processRemovedNodes :: "('v, 'd, 'z page_scheme lworld) vl_delegate_ops \<Rightarrow> elt option list \<Rightarrow> (('v, 'd) vlo \<times> 'z page_scheme lworld, unit) js" where
  "processRemovedNodes G nodes =
     jforeach (\<lambda>node. case node of None \<Rightarrow> jret () | Some e \<Rightarrow> processTree (removeElement G) e) nodes"

definition processAddedNodes :: "('v, 'd, 'z page_scheme lworld) vl_delegate_ops \<Rightarrow> elt option list \<Rightarrow> (('v, 'd) vlo \<times> 'z page_scheme lworld, unit) js" where
  "processAddedNodes G nodes =
     jforeach (\<lambda>node. case node of
         None \<Rightarrow> jret ()
       | Some e \<Rightarrow> jbind (jget (\<lambda>(ob, w). elementIsActive (doc_of w) (eo_element ob) e)) (\<lambda>active.
           jwhen active (processTree (addElement G) e))) nodes"

definition processMutation :: "('v, 'd, 'z page_scheme lworld) vl_delegate_ops \<Rightarrow> mutation \<Rightarrow> (('v, 'd) vlo \<times> 'z page_scheme lworld, unit) js" where
  "processMutation G m =
     (case m of
        MAttributes e attributeName \<Rightarrow> processAttributeChange G e attributeName
      | MChildList removed added \<Rightarrow> jseq (processRemovedNodes G removed) (processAddedNodes G added))"

definition processMutations :: "('v, 'd, 'z page_scheme lworld) vl_delegate_ops \<Rightarrow> mutation list \<Rightarrow> (('v, 'd) vlo \<times> 'z page_scheme lworld, unit) js" where
  "processMutations G ms =
     jbind (jget (\<lambda>(ob, w). eo_started ob)) (\<lambda>started. jwhen started (jforeach (processMutation G) ms))"

subsection \<open>The contract with the delegate\<close>

definition value_of_token :: "('v, 'd) vlo \<Rightarrow> token \<Rightarrow> 'v option" where
  "value_of_token ob t = (case map_get (vl_parseResultsByToken ob) t of None \<Rightarrow> None | Some p \<Rightarrow> result_value p)"

abbreviation tokens_of :: "('v, 'd) vlo \<Rightarrow> elt \<Rightarrow> token list" where
  "tokens_of ob e \<equiv> getValuesForKey (tl_tokensByElement ob) e"

text \<open>The values that stand, by their tokens.\<close>

definition token_values :: "('v, 'd) vlo \<Rightarrow> token \<Rightarrow> 'v option" where
  "token_values ob t = (if t \<in> set (tokens_of ob (tk_element t)) then value_of_token ob t else None)"

text \<open>What an observer keeps of its own tables.\<close>

definition tables_ok :: "('v, 'd) vlo \<Rightarrow> bool" where
  "tables_ok ob \<longleftrightarrow> mm_ok (tl_tokensByElement ob) \<and>
     (\<forall>e. \<forall>t\<in>set (tokens_of ob e). tk_element t = e \<and> map_get (vl_parseResultsByToken ob) t \<noteq> None) \<and>
     (\<forall>t. map_get (vl_parseResultsByToken ob) t \<noteq> None \<longrightarrow> tk_id t < vl_next ob)"

text \<open>A token that is new has a number of its own.\<close>

definition fresh_token :: "('v, 'd) vlo \<Rightarrow> token \<Rightarrow> bool" where
  "fresh_token ob t \<longleftrightarrow> (\<forall>t'. map_get (vl_parseResultsByToken ob) t' \<noteq> None \<longrightarrow> tk_id t' \<noteq> tk_id t) \<and> tk_id t < vl_next ob"

text \<open>The parts of an observer its delegate's calls leave alone.\<close>

definition frame_of :: "('v, 'd) vlo \<Rightarrow> elt \<times> bool \<times> elt list \<times> string \<times> nat" where
  "frame_of ob = (eo_element ob, eo_started ob, eo_elements ob, ao_attributeName ob, vl_next ob)"

text \<open>What an observer knows of an element: \<open>None\<close> if it does not match, else its tokens. The
  tokens are numbered from 0.\<close>

definition view :: "('v, 'd) vlo \<Rightarrow> elt \<Rightarrow> string list option" where
  "view ob e = (if e \<in> set (eo_elements ob) then Some (map tk_content (tokens_of ob e)) else None)"

definition numbered :: "token list \<Rightarrow> bool" where
  "numbered ts \<longleftrightarrow> map tk_index ts = [0 ..< length ts]"

definition elements_ok :: "('v, 'd) vlo \<Rightarrow> bool" where
  "elements_ok ob \<longleftrightarrow> distinct (eo_elements ob) \<and> (\<forall>e. numbered (tokens_of ob e) \<and> (e \<notin> set (eo_elements ob) \<longrightarrow> tokens_of ob e = []))"

text \<open>What it should know of it, for the document at hand.\<close>

definition attr_string :: "dom \<Rightarrow> string \<Rightarrow> elt \<Rightarrow> string" where
  "attr_string d an e = (case getAttribute d e an of Some s \<Rightarrow> s | None \<Rightarrow> [])"

definition wanted :: "dom \<Rightarrow> elt \<Rightarrow> string \<Rightarrow> elt \<Rightarrow> string list option" where
  "wanted d root an e =
     (if elementIsActive d root e \<and> hasAttribute d e an then Some (token_contents (attr_string d an e)) else None)"

text \<open>A token that stands in the document at hand, in its element's attribute \<open>an\<close>.\<close>

definition in_attr :: "dom \<Rightarrow> string \<Rightarrow> token \<Rightarrow> bool" where
  "in_attr d an t \<longleftrightarrow> tk_content t \<in> set (token_contents (attr_string d an (tk_element t)))"

lemma parse_tokens:
  defines "ts \<equiv> \<lambda>n s e an. parseTokenString n s e an"
  shows "distinct (map tk_id (ts n s e an))" "map tk_content (ts n s e an) = token_contents s" "numbered (ts n s e an)"
    "t \<in> set (ts n s e an) \<Longrightarrow> tk_element t = e \<and> n \<le> tk_id t \<and> tk_id t < n + length (ts n s e an)"
proof -
  have len: "length (ts n s e an) = length (token_contents s)" by (simp add: ts_def parseTokenString_def)
  have nth: "ts n s e an ! i = \<lparr>tk_id = n + i, tk_element = e, tk_attributeName = an, tk_content = token_contents s ! i, tk_index = i\<rparr>"
    if "i < length (token_contents s)" for i
    using that by (simp add: ts_def parseTokenString_def nth_enumerate_eq)
  show "map tk_content (ts n s e an) = token_contents s" "numbered (ts n s e an)"
    by (auto simp: numbered_def len nth intro!: nth_equalityI)
  show "distinct (map tk_id (ts n s e an))" by (auto simp: distinct_conv_nth len nth)
  show "tk_element t = e \<and> n \<le> tk_id t \<and> tk_id t < n + length (ts n s e an)" if t: "t \<in> set (ts n s e an)"
  proof -
    obtain i where "i < length (token_contents s)" "t = ts n s e an ! i" using t len by (auto simp: in_set_conv_nth)
    then show ?thesis using nth len by simp
  qed
qed

lemma find_index_None: "find_index P xs = None \<longleftrightarrow> (\<forall>x\<in>set xs. \<not> P x)"
  by (induction xs) auto

lemma find_index_Some: "find_index P xs = Some i \<Longrightarrow> i < length xs \<and> P (xs ! i) \<and> (\<forall>j<i. \<not> P (xs ! j))"
proof (induction xs arbitrary: i)
  case (Cons x xs)
  show ?case
  proof (cases "P x")
    case False
    then obtain k where "i = Suc k" "find_index P xs = Some k" using Cons.prems by auto
    then show ?thesis using Cons.IH False by (auto simp: less_Suc_eq_0_disj)
  qed (use Cons.prems in auto)
qed simp

text \<open>The refreshed tokens: the old ones up to the first difference, the new ones from there.\<close>

lemma refreshed_tokens:
  assumes p: "numbered p" and c: "numbered c"
  shows "find_index (\<lambda>q. \<not> tokensAreEqual q) (zip_longest p c) = None \<Longrightarrow> map tk_content p = map tk_content c"
    and "find_index (\<lambda>q. \<not> tokensAreEqual q) (zip_longest p c) = Some i \<Longrightarrow>
      map tk_content (take i p @ drop i c) = map tk_content c \<and> numbered (take i p @ drop i c)"
proof -
  let ?n = "max (length p) (length c)"
  have nth: "zip_longest p c ! j = (nth_opt p j, nth_opt c j)" if "j < ?n" for j
    using that by (simp add: zip_longest_def)
  have eq: "j < length p \<and> j < length c \<and> tk_content (p ! j) = tk_content (c ! j)"
    if "tokensAreEqual (nth_opt p j, nth_opt c j)" for j
    using that by (auto simp: nth_opt_def split: if_split_asm)
  show "map tk_content p = map tk_content c"
    if none: "find_index (\<lambda>q. \<not> tokensAreEqual q) (zip_longest p c) = None"
  proof -
    have all: "tokensAreEqual (nth_opt p j, nth_opt c j)" if "j < ?n" for j
      using none that unfolding find_index_None zip_longest_def by auto
    have "length p = length c"
    proof (rule ccontr)
      assume "length p \<noteq> length c"
      then have "min (length p) (length c) < ?n" by simp
      from eq [OF all [OF this]] show False by (simp add: min_def split: if_split_asm)
    qed
    then show ?thesis using all eq by (auto intro!: nth_equalityI)
  qed
  show "map tk_content (take i p @ drop i c) = map tk_content c \<and> numbered (take i p @ drop i c)"
    if some: "find_index (\<lambda>q. \<not> tokensAreEqual q) (zip_longest p c) = Some i"
  proof -
    have i: "i < ?n" "\<forall>j<i. tokensAreEqual (nth_opt p j, nth_opt c j)"
      using find_index_Some [OF some] nth by (auto simp: zip_longest_def)
    have le: "i \<le> length p" "i \<le> length c"
      using i(2) eq by (metis not_le_imp_less less_irrefl)+
    have "map tk_content (take i p) = map tk_content (take i c)" using le i(2) eq by (auto intro!: nth_equalityI)
    moreover have "map tk_index (take i p @ drop i c) = [0 ..< length c]"
    proof -
      have "map tk_index (take i p) = [0 ..< i]" using p le by (simp add: numbered_def take_map [symmetric])
      moreover have "map tk_index (drop i c) = [i ..< length c]" using c by (simp add: numbered_def drop_map [symmetric])
      ultimately show ?thesis using le upt_add_eq_append [of 0 i "length c - i"] by simp
    qed
    ultimately show ?thesis using le by (simp add: numbered_def take_map [symmetric] drop_map [symmetric])
  qed
qed

text \<open>The effect of adding and of removing elements on what an observer knows.\<close>

definition upd_add :: "dom \<Rightarrow> elt \<Rightarrow> string \<Rightarrow> elt \<Rightarrow> (elt \<Rightarrow> string list option) \<Rightarrow> elt \<Rightarrow> string list option" where
  "upd_add d root an e V =
     (if V e = None \<and> elementIsActive d root e then V(e \<mapsto> token_contents (attr_string d an e)) else V)"

definition upd_remove :: "elt \<Rightarrow> (elt \<Rightarrow> string list option) \<Rightarrow> elt \<Rightarrow> string list option" where
  "upd_remove e V = V(e := None)"

definition upd_attribute :: "dom \<Rightarrow> elt \<Rightarrow> string \<Rightarrow> elt \<Rightarrow> string \<Rightarrow> (elt \<Rightarrow> string list option) \<Rightarrow> elt \<Rightarrow> string list option" where
  "upd_attribute d root an e n V =
     (if V e \<noteq> None
      then (if hasAttribute d e an then (if n = an then V(e \<mapsto> token_contents (attr_string d n e)) else V) else V(e := None))
      else if hasAttribute d e an then upd_add d root an e V else V)"

definition upd_removed :: "dom \<Rightarrow> string \<Rightarrow> elt option \<Rightarrow> (elt \<Rightarrow> string list option) \<Rightarrow> elt \<Rightarrow> string list option" where
  "upd_removed d an node V = (case node of None \<Rightarrow> V | Some q \<Rightarrow> fold upd_remove (matchElementsInTree d an q) V)"

definition upd_added :: "dom \<Rightarrow> elt \<Rightarrow> string \<Rightarrow> elt option \<Rightarrow> (elt \<Rightarrow> string list option) \<Rightarrow> elt \<Rightarrow> string list option" where
  "upd_added d root an node V =
     (case node of None \<Rightarrow> V
      | Some q \<Rightarrow> if elementIsActive d root q then fold (upd_add d root an) (matchElementsInTree d an q) V else V)"

fun upd_mutation :: "dom \<Rightarrow> elt \<Rightarrow> string \<Rightarrow> mutation \<Rightarrow> (elt \<Rightarrow> string list option) \<Rightarrow> elt \<Rightarrow> string list option" where
  "upd_mutation d root an (MAttributes e n) V = upd_attribute d root an e n V"
| "upd_mutation d root an (MChildList rs as) V = fold (upd_added d root an) as (fold (upd_removed d an) rs V)"

lemma fold_upd_add:
  "fold (upd_add d root an) es V x =
     (if V x = None \<and> x \<in> set es \<and> elementIsActive d root x then Some (token_contents (attr_string d an x)) else V x)"
  by (induction es arbitrary: V) (auto simp: upd_add_def)

lemma fold_upd_remove: "fold upd_remove es V x = (if x \<in> set es then None else V x)"
  by (induction es arbitrary: V) (auto simp: upd_remove_def)

lemma set_matchElementsInTree: "set (matchElementsInTree d an e) = {x \<in> set (dom_below d e). hasAttribute d x an}"
  using below_tl [of d e] by (auto simp: matchElementsInTree_def matchElement_def querySelectorAll_def)

lemma contains_connected:
  assumes wf: "dom_wf d" and c: "dom_contains d a b" and root: "a \<in> set (concat (map dt_elems (dom_trees d)))"
  shows "dom_isConnected d b = dom_isConnected d a"
proof -
  obtain t where t: "t \<in> set (dom_trees d)" "a \<in> set (dt_elems t)" using root by auto
  obtain u where u: "dt_find a t = Some u" using t(2) dt_find_None [of a t] by auto
  have "b \<in> set (dt_elems u)" using c dom_tree_of(2) [OF wf t] u by (simp add: dom_contains_below [OF wf])
  then have b: "b \<in> set (dt_elems t)" using dt_find_elt [OF u] by auto
  have one: "distinct (concat (map dt_elems (dom_trees d)))" using wf by (simp add: dom_wf_def)
  have "x \<in> set (dt_elems (dom_root d)) \<longleftrightarrow> t = dom_root d" if "x \<in> set (dt_elems t)" for x
    using distinct_concat_unique [OF one t(1) _ that, of "dom_root d"] that by (auto simp: dom_trees_def)
  then show ?thesis using b t(2) by (simp add: dom_isConnected_def)
qed

lemma active_iff:
  assumes "dom_wf d" "root \<in> set (concat (map dt_elems (dom_trees d)))"
  shows "elementIsActive d root e \<longleftrightarrow> e \<in> set (dom_below d root)"
  unfolding dom_contains_below [OF assms(1), symmetric] elementIsActive_def
  using contains_connected [OF assms(1) _ assms(2), of e] by auto

locale vl_client =
  fixes G :: "('v, 'd, 'z page_scheme lworld) vl_delegate_ops"
    and inv :: "(token \<Rightarrow> 'v option) \<Rightarrow> 'd \<Rightarrow> 'z page_scheme lworld \<Rightarrow> bool"
    and spec :: "dom \<Rightarrow> token \<Rightarrow> 'v option"
    and an :: string
  assumes parse_inv: "inv M d w \<Longrightarrow> dg_parse G t (d, w) = (r, d') \<Longrightarrow>
        inv M d' w \<and> (case r of Inr v \<Rightarrow> v | Inl _ \<Rightarrow> None) = spec (doc_of w) t"
    and matched_inv: "inv M d w \<Longrightarrow> (\<And>t'. M t' \<noteq> None \<Longrightarrow> tk_id t' \<noteq> tk_id t) \<Longrightarrow> in_attr (doc_of w) an t \<Longrightarrow> spec (doc_of w) t = Some v \<Longrightarrow>
        \<exists>d' w'. dg_matched G (tk_element t) v (d, w) = (Inr (), d', w') \<and> inv (M(t \<mapsto> v)) d' w' \<and> doc_of w' = doc_of w"
    and unmatched_inv: "inv M d w \<Longrightarrow> M t = Some v \<Longrightarrow>
        \<exists>d' w'. dg_unmatched G (tk_element t) v (d, w) = (Inr (), d', w') \<and> inv (M(t := None)) d' w' \<and> doc_of w' = doc_of w"
begin

definition good :: "('v, 'd) vlo \<Rightarrow> 'z page_scheme lworld \<Rightarrow> bool" where
  "good ob w \<longleftrightarrow> tables_ok ob \<and> ao_attributeName ob = an \<and> inv (token_values ob) (vl_delegate ob) w"

lemma good_elements: "good (ob\<lparr>eo_elements := es\<rparr>) w = good ob w"
proof -
  have "token_values (ob\<lparr>eo_elements := es\<rparr>) = token_values ob"
    by (simp add: token_values_def value_of_token_def fun_eq_iff)
  then show ?thesis by (simp add: good_def tables_ok_def)
qed

lemma tokens_element: "good ob w \<Longrightarrow> t \<in> set (tokens_of ob e) \<Longrightarrow> tk_element t = e"
  by (simp add: good_def tables_ok_def)

lemma parse_fresh:
  assumes "good ob w" "map_get (vl_parseResultsByToken ob) t = None"
  shows "\<exists>p d'. fetchParseResultForToken G t (ob, w) =
      (Inr p, ob\<lparr>vl_delegate := d', vl_parseResultsByToken := map_set t p (vl_parseResultsByToken ob)\<rparr>, w) \<and>
    result_value p = spec (doc_of w) t \<and> inv (token_values ob) d' w"
proof -
  obtain r d' where r: "dg_parse G t (vl_delegate ob, w) = (r, d')" by (metis surj_pair)
  have i: "inv (token_values ob) d' w" "(case r of Inr v \<Rightarrow> v | Inl _ \<Rightarrow> None) = spec (doc_of w) t"
    using parse_inv [OF _ r, of "token_values ob"] assms(1) by (simp_all add: good_def)
  show ?thesis
  proof (cases r)
    case (Inl e)
    then show ?thesis using assms(2) r i
      by (intro exI [of _ "PError e"] exI [of _ d'])
        (simp add: fetchParseResultForToken_def jbind_run jseq_run parseToken_def on_vlo_def)
  next
    case (Inr v)
    then show ?thesis using assms(2) r i
      by (intro exI [of _ "PValue v"] exI [of _ d'])
        (simp add: fetchParseResultForToken_def jbind_run jseq_run parseToken_def on_vlo_def)
  qed
qed

lemma tokenMatched_run:
  assumes good: "good ob w" and new_id: "fresh_token ob t" and real: "in_attr (doc_of w) an t"
  shows "\<exists>ob' w'. tokenMatched G t (ob, w) = (Inr (), ob', w') \<and> good ob' w' \<and> doc_of w' = doc_of w \<and>
    frame_of ob' = frame_of ob \<and>
    tl_tokensByElement ob' = mm_add (tk_element t) t (tl_tokensByElement ob) \<and>
    (\<exists>p. result_value p = spec (doc_of w) t \<and> vl_parseResultsByToken ob' = map_set t p (vl_parseResultsByToken ob))"
proof -
  let ?e = "tk_element t"
  have fresh: "map_get (vl_parseResultsByToken ob) t = None" and id: "tk_id t < vl_next ob"
    using new_id unfolding fresh_token_def by blast+
  obtain p d1 where p: "fetchParseResultForToken G t (ob, w) =
      (Inr p, ob\<lparr>vl_delegate := d1, vl_parseResultsByToken := map_set t p (vl_parseResultsByToken ob)\<rparr>, w)"
    "result_value p = spec (doc_of w) t" "inv (token_values ob) d1 w"
    using parse_fresh [OF good fresh] by blast
  have ok: "tables_ok ob" and an: "ao_attributeName ob = an" using good by (simp_all add: good_def)
  have new: "t \<notin> set (tokens_of ob e)" for e using ok fresh unfolding tables_ok_def by blast
  have none: "token_values ob t = None" using new by (simp add: token_values_def)
  have apart: "tk_id t' \<noteq> tk_id t" if "token_values ob t' \<noteq> None" for t'
  proof -
    have "map_get (vl_parseResultsByToken ob) t' \<noteq> None"
      using that by (auto simp: token_values_def value_of_token_def split: if_split_asm option.split_asm)
    then show ?thesis using new_id unfolding fresh_token_def by blast
  qed
  have res: "tables_ok ob'" "token_values ob' = (token_values ob)(t := result_value p)"
    if "tl_tokensByElement ob' = mm_add ?e t (tl_tokensByElement ob)" "vl_next ob' = vl_next ob"
      "vl_parseResultsByToken ob' = map_set t p (vl_parseResultsByToken ob)" for ob' :: "('v, 'd) vlo"
  proof -
    show "tables_ok ob'" using ok id that by (auto simp: tables_ok_def mm_ok_add values_mm_add)
    show "token_values ob' = (token_values ob)(t := result_value p)"
      using that by (auto simp: token_values_def value_of_token_def values_mm_add fun_eq_iff)
  qed
  show ?thesis
  proof (cases "result_value p")
    case None
    let ?ob = "ob\<lparr>vl_delegate := d1, vl_parseResultsByToken := map_set t p (vl_parseResultsByToken ob),
      tl_tokensByElement := mm_add ?e t (tl_tokensByElement ob)\<rparr>"
    have "tokenMatched G t (ob, w) = (Inr (), ?ob, w)"
      using None p(1) by (simp add: tokenMatched_def vl_tokenMatched_def jseq_run jbind_run on_vlo_def)
    moreover have "(token_values ob)(t := None) = token_values ob" using none by (simp add: fun_upd_idem)
    then have "good ?ob w" using res [of ?ob] None p(3) an by (simp add: good_def)
    ultimately show ?thesis using p(2) None by (intro exI [of _ ?ob] exI [of _ w]) (auto simp: frame_of_def)
  next
    case (Some v)
    obtain d2 w2 where d2: "dg_matched G ?e v (d1, w) = (Inr (), d2, w2)" "inv ((token_values ob)(t \<mapsto> v)) d2 w2"
      "doc_of w2 = doc_of w" using matched_inv [OF p(3) apart real, of v] p(2) Some by auto
    let ?ob1 = "with_values ?e (map_set t v) (ob\<lparr>vl_delegate := d1, vl_parseResultsByToken := map_set t p (vl_parseResultsByToken ob)\<rparr>)"
    let ?ob = "?ob1\<lparr>vl_delegate := d2, tl_tokensByElement := mm_add ?e t (tl_tokensByElement ob)\<rparr>"
    have "tokenMatched G t (ob, w) = (Inr (), ?ob, w2)"
      using Some p(1) d2(1)
      by (simp add: tokenMatched_def vl_tokenMatched_def jseq_run jbind_run on_vlo_def on_delegate_def with_values_def)
    moreover have "good ?ob w2" using res [of ?ob] Some d2(2) an by (simp add: good_def with_values_def)
    ultimately show ?thesis using p(2) d2(3) by (intro exI [of _ ?ob] exI [of _ w2]) (auto simp: frame_of_def with_values_def)
  qed
qed

lemma tokenUnmatched_run:
  assumes good: "good ob w" and t: "t \<in> set (tokens_of ob (tk_element t))"
  shows "\<exists>ob' w'. tokenUnmatched G t (ob, w) = (Inr (), ob', w') \<and> good ob' w' \<and> doc_of w' = doc_of w \<and>
    frame_of ob' = frame_of ob \<and>
    tl_tokensByElement ob' = mm_del (tk_element t) t (tl_tokensByElement ob) \<and>
    vl_parseResultsByToken ob' = vl_parseResultsByToken ob"
proof -
  let ?e = "tk_element t"
  have ok: "tables_ok ob" "inv (token_values ob) (vl_delegate ob) w" and an: "ao_attributeName ob = an" using good by (simp_all add: good_def)
  obtain p where p: "map_get (vl_parseResultsByToken ob) t = Some p" using ok(1) t by (fastforce simp: tables_ok_def)
  have fetch: "fetchParseResultForToken G t (ob, w) = (Inr p, ob, w)"
    using p by (simp add: fetchParseResultForToken_def jbind_run)
  have val: "token_values ob t = result_value p" using t p by (simp add: token_values_def value_of_token_def)
  have res: "tables_ok ob'" "token_values ob' = (token_values ob)(t := None)"
    if "tl_tokensByElement ob' = mm_del ?e t (tl_tokensByElement ob)" "vl_next ob' = vl_next ob"
      "vl_parseResultsByToken ob' = vl_parseResultsByToken ob" for ob' :: "('v, 'd) vlo"
  proof -
    show "tables_ok ob'" using ok(1) that by (auto simp: tables_ok_def mm_ok_del values_mm_del)
    show "token_values ob' = (token_values ob)(t := None)"
      using that by (auto simp: token_values_def value_of_token_def values_mm_del fun_eq_iff)
  qed
  show ?thesis
  proof (cases "result_value p")
    case None
    let ?ob = "ob\<lparr>tl_tokensByElement := mm_del ?e t (tl_tokensByElement ob)\<rparr>"
    have "tokenUnmatched G t (ob, w) = (Inr (), ?ob, w)"
      using None fetch by (simp add: tokenUnmatched_def vl_tokenUnmatched_def jseq_run jbind_run on_vlo_def)
    moreover have "(token_values ob)(t := None) = token_values ob" using val None by (simp add: fun_upd_idem)
    then have "good ?ob w" using res [of ?ob] ok(2) an by (simp add: good_def)
    ultimately show ?thesis by (intro exI [of _ ?ob] exI [of _ w]) (auto simp: frame_of_def)
  next
    case (Some v)
    obtain d2 w2 where d2: "dg_unmatched G ?e v (vl_delegate ob, w) = (Inr (), d2, w2)" "inv ((token_values ob)(t := None)) d2 w2"
      "doc_of w2 = doc_of w" using unmatched_inv [OF ok(2), of t v] val Some by auto
    let ?ob = "(with_values ?e (map_delete t) ob)\<lparr>vl_delegate := d2, tl_tokensByElement := mm_del ?e t (tl_tokensByElement ob)\<rparr>"
    have "tokenUnmatched G t (ob, w) = (Inr (), ?ob, w2)"
      using Some fetch d2(1)
      by (simp add: tokenUnmatched_def vl_tokenUnmatched_def jseq_run jbind_run on_vlo_def on_delegate_def with_values_def)
    moreover have "good ?ob w2" using res [of ?ob] d2(2) an by (simp add: good_def with_values_def)
    ultimately show ?thesis using d2(3) by (intro exI [of _ ?ob] exI [of _ w2]) (auto simp: frame_of_def with_values_def)
  qed
qed

lemma tokensMatched_run:
  assumes "good ob w" "distinct (map tk_id ts)" "\<forall>t\<in>set ts. fresh_token ob t" "\<forall>t\<in>set ts. in_attr (doc_of w) an t"
  shows "\<exists>ob' w'. tokensMatched G ts (ob, w) = (Inr (), ob', w') \<and> good ob' w' \<and> doc_of w' = doc_of w \<and>
    frame_of ob' = frame_of ob \<and>
    (\<forall>e. tokens_of ob' e = tokens_of ob e @ filter (\<lambda>t. tk_element t = e) ts) \<and>
    (\<forall>t. value_of_token ob' t = (if t \<in> set ts then spec (doc_of w) t else value_of_token ob t))"
  using assms
proof (induction ts arbitrary: ob w)
  case Nil
  then show ?case by (intro exI [of _ ob] exI [of _ w]) (simp add: tokensMatched_def)
next
  case (Cons t ts)
  obtain ob1 w1 p where one: "tokenMatched G t (ob, w) = (Inr (), ob1, w1)" "good ob1 w1" "doc_of w1 = doc_of w"
    "frame_of ob1 = frame_of ob" "tl_tokensByElement ob1 = mm_add (tk_element t) t (tl_tokensByElement ob)"
    "result_value p = spec (doc_of w) t" "vl_parseResultsByToken ob1 = map_set t p (vl_parseResultsByToken ob)"
    using tokenMatched_run [OF Cons.prems(1), of t] Cons.prems(3,4) by auto
  have real: "\<forall>t\<in>set ts. in_attr (doc_of w1) an t" using Cons.prems(4) one(3) by simp
  have "\<forall>s\<in>set ts. fresh_token ob1 s"
  proof
    fix s assume s: "s \<in> set ts"
    have "tk_id t' \<noteq> tk_id s" if t': "map_get (vl_parseResultsByToken ob1) t' \<noteq> None" for t'
    proof (cases "t' = t")
      case False
      then have "map_get (vl_parseResultsByToken ob) t' \<noteq> None" using t' one(7) by simp
      then show ?thesis using s Cons.prems(3) unfolding fresh_token_def by simp
    qed (use s Cons.prems(2) in force)
    moreover have "tk_id s < vl_next ob1" using s Cons.prems(3) one(4) by (simp add: fresh_token_def frame_of_def)
    ultimately show "fresh_token ob1 s" unfolding fresh_token_def by blast
  qed
  from Cons.IH [OF one(2) _ this real] Cons.prems(2) obtain ob2 w2 where two: "tokensMatched G ts (ob1, w1) = (Inr (), ob2, w2)"
    "good ob2 w2" "doc_of w2 = doc_of w1" "frame_of ob2 = frame_of ob1"
    "\<forall>e. tokens_of ob2 e = tokens_of ob1 e @ filter (\<lambda>t. tk_element t = e) ts"
    "\<forall>s. value_of_token ob2 s = (if s \<in> set ts then spec (doc_of w1) s else value_of_token ob1 s)" by auto
  have new: "t \<notin> set (tokens_of ob (tk_element t))"
    using Cons.prems(1,3) unfolding good_def tables_ok_def fresh_token_def by (metis list.set_intros(1))
  have "tokens_of ob1 e = tokens_of ob e @ (if tk_element t = e then [t] else [])" for e
    using new by (simp add: one(5) values_mm_add set_add_def)
  moreover have "value_of_token ob1 s = (if s = t then spec (doc_of w) t else value_of_token ob s)" for s
    using one(6,7) by (simp add: value_of_token_def)
  ultimately show ?case using one two
    by (intro exI [of _ ob2] exI [of _ w2]) (simp add: tokensMatched_def)
qed

lemma tokensUnmatched_run:
  assumes "good ob w" "distinct ts" "\<forall>t\<in>set ts. t \<in> set (tokens_of ob (tk_element t))"
  shows "\<exists>ob' w'. tokensUnmatched G ts (ob, w) = (Inr (), ob', w') \<and> good ob' w' \<and> doc_of w' = doc_of w \<and>
    frame_of ob' = frame_of ob \<and>
    (\<forall>e. tokens_of ob' e = filter (\<lambda>t. t \<notin> set ts \<or> tk_element t \<noteq> e) (tokens_of ob e)) \<and>
    vl_parseResultsByToken ob' = vl_parseResultsByToken ob"
  using assms
proof (induction ts arbitrary: ob w)
  case Nil
  then show ?case by (intro exI [of _ ob] exI [of _ w]) (simp add: tokensUnmatched_def)
next
  case (Cons t ts)
  obtain ob1 w1 where one: "tokenUnmatched G t (ob, w) = (Inr (), ob1, w1)" "good ob1 w1" "doc_of w1 = doc_of w"
    "frame_of ob1 = frame_of ob" "tl_tokensByElement ob1 = mm_del (tk_element t) t (tl_tokensByElement ob)"
    "vl_parseResultsByToken ob1 = vl_parseResultsByToken ob"
    using tokenUnmatched_run [OF Cons.prems(1), of t] Cons.prems(3) by auto
  have t1: "tokens_of ob1 e = filter (\<lambda>s. s \<noteq> t \<or> tk_element t \<noteq> e) (tokens_of ob e)" for e
    by (auto simp: one(5) values_mm_del set_delete_def)
  have "\<forall>s\<in>set ts. s \<in> set (tokens_of ob1 (tk_element s))"
    using Cons.prems(2,3) by (auto simp: t1)
  from Cons.IH [OF one(2) _ this] Cons.prems(2) obtain ob2 w2 where two: "tokensUnmatched G ts (ob1, w1) = (Inr (), ob2, w2)"
    "good ob2 w2" "doc_of w2 = doc_of w1" "frame_of ob2 = frame_of ob1"
    "\<forall>e. tokens_of ob2 e = filter (\<lambda>t. t \<notin> set ts \<or> tk_element t \<noteq> e) (tokens_of ob1 e)"
    "vl_parseResultsByToken ob2 = vl_parseResultsByToken ob1" by auto
  have "tokens_of ob2 e = filter (\<lambda>s. s \<notin> set (t # ts) \<or> tk_element s \<noteq> e) (tokens_of ob e)" for e
    by (auto simp: two(5) t1 intro!: filter_cong)
  then show ?case using one two
    by (intro exI [of _ ob2] exI [of _ w2]) (simp add: tokensUnmatched_def)
qed

definition consistent :: "('v, 'd) vlo \<Rightarrow> 'z page_scheme lworld \<Rightarrow> bool" where
  "consistent ob w \<longleftrightarrow> good ob w \<and> elements_ok ob"

text \<open>Every token stands for what the document at hand gives it.\<close>

definition all_spec :: "dom \<Rightarrow> ('v, 'd) vlo \<Rightarrow> bool" where
  "all_spec d ob \<longleftrightarrow> (\<forall>e. \<forall>t\<in>set (tokens_of ob e). value_of_token ob t = spec d t)"

text \<open>A computation on a consistent observer that returns, keeps the document and changes what the
  observer knows to \<open>V\<close>.\<close>

definition yields :: "(('v, 'd) vlo \<times> 'z page_scheme lworld, unit) js \<Rightarrow> ('v, 'd) vlo \<Rightarrow> 'z page_scheme lworld \<Rightarrow>
    (elt \<Rightarrow> string list option) \<Rightarrow> bool" where
  "yields m ob w V \<longleftrightarrow> (\<exists>ob' w'. m (ob, w) = (Inr (), ob', w') \<and> consistent ob' w' \<and> doc_of w' = doc_of w \<and>
     eo_element ob' = eo_element ob \<and> eo_started ob' = eo_started ob \<and> ao_attributeName ob' = ao_attributeName ob \<and>
     view ob' = V \<and> (all_spec (doc_of w) ob \<longrightarrow> all_spec (doc_of w) ob'))"

lemma read_run:
  assumes "good ob w"
  shows "\<exists>ts. readTokensForElement e (ob, w) = (Inr ts, ob\<lparr>vl_next := vl_next ob + length ts\<rparr>, w) \<and>
    distinct (map tk_id ts) \<and> numbered ts \<and> map tk_content ts = token_contents (attr_string (doc_of w) (ao_attributeName ob) e) \<and>
    (\<forall>t\<in>set ts. tk_element t = e \<and> fresh_token (ob\<lparr>vl_next := vl_next ob + length ts\<rparr>) t) \<and>
    good (ob\<lparr>vl_next := vl_next ob + length ts\<rparr>) w"
proof -
  let ?ts = "parseTokenString (vl_next ob) (attr_string (doc_of w) (ao_attributeName ob) e) e (ao_attributeName ob)"
  let ?ob = "ob\<lparr>vl_next := vl_next ob + length ?ts\<rparr>"
  have run: "readTokensForElement e (ob, w) = (Inr ?ts, ?ob, w)"
    by (simp add: readTokensForElement_def attr_string_def Let_def)
  have "tables_ok ob" using assms by (simp add: good_def)
  then have new: "tk_id t' < vl_next ob" if "map_get (vl_parseResultsByToken ob) t' \<noteq> None" for t'
    using that unfolding tables_ok_def by blast
  have fresh: "\<forall>t\<in>set ?ts. tk_element t = e \<and> fresh_token ?ob t"
  proof
    fix t assume "t \<in> set ?ts"
    then have t: "tk_element t = e" "vl_next ob \<le> tk_id t" "tk_id t < vl_next ob + length ?ts"
      using parse_tokens(4) by blast+
    have "tk_id t' \<noteq> tk_id t" if "map_get (vl_parseResultsByToken ob) t' \<noteq> None" for t' using new [OF that] t(2) by simp
    then show "tk_element t = e \<and> fresh_token ?ob t" using t by (simp add: fresh_token_def)
  qed
  have "token_values ?ob = token_values ob" by (simp add: token_values_def value_of_token_def fun_eq_iff)
  moreover have "tables_ok ?ob" using \<open>tables_ok ob\<close> by (auto simp: tables_ok_def)
  ultimately have "good ?ob w" using assms by (simp add: good_def)
  then show ?thesis
    using run parse_tokens(1-3) [where n = "vl_next ob" and e = e and an = "ao_attributeName ob"] fresh
    by (intro exI [of _ ?ts]) blast
qed

lemma read_real:
  assumes "good ob w" "readTokensForElement e (ob, w) = (Inr ts, ob', w')"
  shows "\<forall>t\<in>set ts. in_attr (doc_of w) an t"
proof -
  have "ao_attributeName ob = an" using assms(1) by (simp add: good_def)
  then obtain n where ts: "ts = parseTokenString n (attr_string (doc_of w) an e) e an"
    using assms(2) by (auto simp: readTokensForElement_def attr_string_def Let_def)
  have c: "tk_content t \<in> set (map tk_content ts)" if "t \<in> set ts" for t using that by simp
  have "tk_content t \<in> set (token_contents (attr_string (doc_of w) an e)) \<and> tk_element t = e" if t: "t \<in> set ts" for t
    using c [OF t] parse_tokens(4) [of t n _ e an] t unfolding ts parse_tokens(2) by blast
  then show ?thesis by (simp add: in_attr_def)
qed

lemma add_yields:
  assumes c: "consistent ob w"
  shows "yields (addElement G e) ob w
    (if view ob e = None \<and> elementIsActive (doc_of w) (eo_element ob) e
     then (view ob)(e \<mapsto> token_contents (attr_string (doc_of w) (ao_attributeName ob) e)) else view ob)"
proof (cases "e \<notin> set (eo_elements ob) \<and> elementIsActive (doc_of w) (eo_element ob) e")
  case False
  then have "addElement G e (ob, w) = (Inr (), ob, w)" by (auto simp: addElement_def jbind_run)
  moreover have "\<not> (view ob e = None \<and> elementIsActive (doc_of w) (eo_element ob) e)" using False by (auto simp: view_def)
  ultimately show ?thesis using c unfolding yields_def by auto
next
  case True
  have g: "good ob w" "elements_ok ob" using c by (simp_all add: consistent_def)
  let ?o1 = "ob\<lparr>eo_elements := set_add e (eo_elements ob)\<rparr>"
  have o1: "good ?o1 w" using g(1) by (simp add: good_elements)
  obtain ts where ts: "readTokensForElement e (?o1, w) = (Inr ts, ?o1\<lparr>vl_next := vl_next ?o1 + length ts\<rparr>, w)"
    "distinct (map tk_id ts)" "numbered ts" "map tk_content ts = token_contents (attr_string (doc_of w) (ao_attributeName ob) e)"
    "\<forall>t\<in>set ts. tk_element t = e \<and> fresh_token (?o1\<lparr>vl_next := vl_next ?o1 + length ts\<rparr>) t"
    "good (?o1\<lparr>vl_next := vl_next ?o1 + length ts\<rparr>) w"
    using read_run [OF o1, of e] by auto
  let ?o2 = "?o1\<lparr>vl_next := vl_next ?o1 + length ts\<rparr>"
  have "\<forall>t\<in>set ts. fresh_token ?o2 t" using ts(5) by simp
  from tokensMatched_run [OF ts(6,2) this read_real [OF o1 ts(1)]] obtain o3 w3 where o3: "tokensMatched G ts (?o2, w) = (Inr (), o3, w3)" "good o3 w3"
    "doc_of w3 = doc_of w" "frame_of o3 = frame_of ?o2" "\<forall>x. tokens_of o3 x = tokens_of ob x @ filter (\<lambda>t. tk_element t = x) ts"
    "\<forall>t. value_of_token o3 t = (if t \<in> set ts then spec (doc_of w) t else value_of_token ob t)"
    by (auto simp: value_of_token_def)
  have run: "addElement G e (ob, w) = (Inr (), o3, w3)"
    using True ts(1) o3(1) by (simp add: addElement_def jbind_run jseq_run on_vlo_def elementMatchedAttribute_def)
  have none: "tokens_of ob e = []" using g(2) True by (simp add: elements_ok_def)
  have tok: "tokens_of o3 x = (if x = e then ts else tokens_of ob x)" for x
    using o3(5) none ts(5) by (auto simp: filter_id_conv filter_empty_conv)
  have els: "eo_elements o3 = eo_elements ob @ [e]" using o3(4) True by (simp add: frame_of_def set_add_def)
  have "elements_ok o3" using g(2) True ts(3) by (auto simp: elements_ok_def tok els)
  moreover have "view o3 = (view ob)(e \<mapsto> token_contents (attr_string (doc_of w) (ao_attributeName ob) e))"
    using ts(4) True by (auto simp: view_def tok els fun_eq_iff)
  moreover have "all_spec (doc_of w) o3" if "all_spec (doc_of w) ob"
    using that o3(6) unfolding all_spec_def tok by auto
  ultimately show ?thesis
    using run o3(2,3,4) True unfolding yields_def consistent_def by (auto simp: frame_of_def view_def)
qed

lemma remove_yields:
  assumes c: "consistent ob w"
  shows "yields (removeElement G e) ob w ((view ob)(e := None))"
proof (cases "e \<in> set (eo_elements ob)")
  case False
  then have "removeElement G e (ob, w) = (Inr (), ob, w)" by (simp add: removeElement_def jbind_run)
  moreover have "(view ob)(e := None) = view ob" using False by (simp add: fun_upd_idem view_def)
  ultimately show ?thesis using c unfolding yields_def by auto
next
  case True
  have g: "good ob w" "elements_ok ob" using c by (simp_all add: consistent_def)
  let ?o1 = "ob\<lparr>eo_elements := set_delete e (eo_elements ob)\<rparr>"
  have o1: "good ?o1 w" using g(1) by (simp add: good_elements)
  have elt: "\<forall>t\<in>set (tokens_of ob e). tk_element t = e" "distinct (tokens_of ob e)"
    using g(1) by (auto simp: good_def tables_ok_def mm_ok_values)
  then have "\<forall>t\<in>set (tokens_of ob e). t \<in> set (tokens_of ?o1 (tk_element t))" by auto
  from tokensUnmatched_run [OF o1 elt(2) this] obtain o2 w2 where o2: "tokensUnmatched G (tokens_of ob e) (?o1, w) = (Inr (), o2, w2)"
    "good o2 w2" "doc_of w2 = doc_of w" "frame_of o2 = frame_of ?o1"
    "\<forall>x. tokens_of o2 x = filter (\<lambda>t. t \<notin> set (tokens_of ob e) \<or> tk_element t \<noteq> x) (tokens_of ob x)"
    "vl_parseResultsByToken o2 = vl_parseResultsByToken ob" by auto
  have run: "removeElement G e (ob, w) = (Inr (), o2, w2)"
    using True o2(1) by (simp add: removeElement_def jbind_run jseq_run on_vlo_def elementUnmatchedAttribute_def)
  have tok: "tokens_of o2 x = (if x = e then [] else tokens_of ob x)" for x
  proof (cases "x = e")
    case False
    have "t \<notin> set (tokens_of ob e)" if "t \<in> set (tokens_of ob x)" for t
      using that False tokens_element [OF g(1)] by blast
    then show ?thesis using False o2(5) by (auto simp: filter_id_conv)
  qed (use o2(5) elt(1) in \<open>auto simp: filter_empty_conv\<close>)
  have els: "eo_elements o2 = set_delete e (eo_elements ob)" using o2(4) by (simp add: frame_of_def)
  have "elements_ok o2" using g(2) by (auto simp: elements_ok_def tok els numbered_def)
  moreover have "view o2 = (view ob)(e := None)" by (auto simp: view_def tok els fun_eq_iff)
  moreover have "all_spec (doc_of w) o2" if "all_spec (doc_of w) ob"
    using that o2(6) unfolding all_spec_def tok value_of_token_def by auto
  ultimately show ?thesis
    using run o2(2,3,4) unfolding yields_def consistent_def by (auto simp: frame_of_def)
qed

lemma changed_yields:
  assumes c: "consistent ob w" and e: "e \<in> set (eo_elements ob)"
  shows "yields (elementAttributeValueChanged G e) ob w
    ((view ob)(e \<mapsto> token_contents (attr_string (doc_of w) (ao_attributeName ob) e)))"
proof -
  have g: "good ob w" "elements_ok ob" using c by (simp_all add: consistent_def)
  let ?p = "tokens_of ob e"
  obtain ts where ts: "readTokensForElement e (ob, w) = (Inr ts, ob\<lparr>vl_next := vl_next ob + length ts\<rparr>, w)"
    "distinct (map tk_id ts)" "numbered ts" "map tk_content ts = token_contents (attr_string (doc_of w) (ao_attributeName ob) e)"
    "\<forall>t\<in>set ts. tk_element t = e \<and> fresh_token (ob\<lparr>vl_next := vl_next ob + length ts\<rparr>) t"
    "good (ob\<lparr>vl_next := vl_next ob + length ts\<rparr>) w"
    using read_run [OF g(1), of e] by auto
  let ?o1 = "ob\<lparr>vl_next := vl_next ob + length ts\<rparr>"
  let ?f = "find_index (\<lambda>q. \<not> tokensAreEqual q) (zip_longest ?p ts)"
  have p: "numbered ?p" "distinct ?p" "\<forall>t\<in>set ?p. tk_element t = e"
    using g by (auto simp: elements_ok_def good_def tables_ok_def mm_ok_values)
  show ?thesis
  proof (cases ?f)
    case None
    have "elementAttributeValueChanged G e (ob, w) = (Inr (), ?o1, w)"
      using None ts(1) by (simp add: elementAttributeValueChanged_def refreshTokensForElement_def jbind_run jseq_run
          tokensMatched_def tokensUnmatched_def)
    moreover have "(view ob)(e \<mapsto> token_contents (attr_string (doc_of w) (ao_attributeName ob) e)) = view ?o1"
      using refreshed_tokens(1) [OF p(1) ts(3) None] ts(4) e by (auto simp: view_def fun_eq_iff)
    moreover have "consistent ?o1 w" using g(2) ts(6) by (simp add: consistent_def elements_ok_def)
    moreover have "all_spec (doc_of w) ob \<longrightarrow> all_spec (doc_of w) ?o1" by (simp add: all_spec_def value_of_token_def)
    ultimately show ?thesis unfolding yields_def by auto
  next
    case (Some i)
    have new: "map tk_content (take i ?p @ drop i ts) = map tk_content ts" "numbered (take i ?p @ drop i ts)"
      using refreshed_tokens(2) [OF p(1) ts(3) Some] by auto
    have "\<forall>t\<in>set (drop i ?p). t \<in> set (tokens_of ?o1 (tk_element t))" using p(3) by (auto dest: in_set_dropD)
    moreover have "distinct (drop i ?p)" using p(2) by simp
    ultimately obtain o2 w2 where o2: "tokensUnmatched G (drop i ?p) (?o1, w) = (Inr (), o2, w2)"
      "good o2 w2" "doc_of w2 = doc_of w" "frame_of o2 = frame_of ?o1"
      "\<forall>x. tokens_of o2 x = filter (\<lambda>t. t \<notin> set (drop i ?p) \<or> tk_element t \<noteq> x) (tokens_of ob x)"
      "vl_parseResultsByToken o2 = vl_parseResultsByToken ob" using tokensUnmatched_run [OF ts(6), of "drop i ?p"] by auto
    have "\<forall>t\<in>set (drop i ts). fresh_token o2 t"
      using ts(5) o2(4,6) by (auto simp: frame_of_def fresh_token_def dest!: in_set_dropD)
    moreover have "distinct (map tk_id (drop i ts))" using ts(2) by (simp add: drop_map [symmetric])
    moreover have "\<forall>t\<in>set (drop i ts). in_attr (doc_of w2) an t"
      using read_real [OF g(1) ts(1)] o2(3) by (auto dest!: in_set_dropD)
    ultimately obtain o3 w3 where o3: "tokensMatched G (drop i ts) (o2, w2) = (Inr (), o3, w3)" "good o3 w3"
      "doc_of w3 = doc_of w2" "frame_of o3 = frame_of o2"
      "\<forall>x. tokens_of o3 x = tokens_of o2 x @ filter (\<lambda>t. tk_element t = x) (drop i ts)"
      "\<forall>t. value_of_token o3 t = (if t \<in> set (drop i ts) then spec (doc_of w2) t else value_of_token o2 t)"
      using tokensMatched_run [OF o2(2)] by blast
    have run: "elementAttributeValueChanged G e (ob, w) = (Inr (), o3, w3)"
      using Some ts(1) o2(1) o3(1)
      by (simp add: elementAttributeValueChanged_def refreshTokensForElement_def jbind_run jseq_run)
    have kept: "filter (\<lambda>t. t \<notin> set (drop i ?p) \<or> tk_element t \<noteq> e) ?p = take i ?p"
    proof -
      have dj: "set (take i ?p) \<inter> set (drop i ?p) = {}" using distinct_append [of "take i ?p" "drop i ?p"] p(2) by simp
      have "filter (\<lambda>t. t \<notin> set (drop i ?p) \<or> tk_element t \<noteq> e) ?p = filter (\<lambda>t. t \<notin> set (drop i ?p)) (take i ?p @ drop i ?p)"
        using p(3) by (auto intro!: filter_cong)
      also have "\<dots> = filter (\<lambda>t. t \<notin> set (drop i ?p)) (take i ?p) @ filter (\<lambda>t. t \<notin> set (drop i ?p)) (drop i ?p)"
        by (rule filter_append)
      also have "\<dots> = take i ?p" using dj by (auto simp: filter_id_conv filter_empty_conv)
      finally show ?thesis .
    qed
    have tok: "tokens_of o3 x = (if x = e then take i ?p @ drop i ts else tokens_of ob x)" for x
    proof (cases "x = e")
      case True
      have "filter (\<lambda>t. tk_element t = e) (drop i ts) = drop i ts" using ts(5) by (auto simp: filter_id_conv dest!: in_set_dropD)
      then show ?thesis using True o2(5) o3(5) kept by simp
    next
      case False
      have "t \<notin> set ?p" if "t \<in> set (tokens_of ob x)" for t
        using that False tokens_element [OF g(1)] by blast
      then have "filter (\<lambda>t. t \<notin> set (drop i ?p) \<or> tk_element t \<noteq> x) (tokens_of ob x) = tokens_of ob x"
        by (auto simp: filter_id_conv dest: in_set_dropD)
      moreover have "filter (\<lambda>t. tk_element t = x) (drop i ts) = []" using ts(5) False by (auto simp: filter_empty_conv dest!: in_set_dropD)
      ultimately show ?thesis using False o2(5) o3(5) by simp
    qed
    have els: "eo_elements o3 = eo_elements ob" using o2(4) o3(4) by (simp add: frame_of_def)
    have "elements_ok o3" using g(2) new(2) e by (auto simp: elements_ok_def tok els)
    moreover have "view o3 = (view ob)(e \<mapsto> token_contents (attr_string (doc_of w) (ao_attributeName ob) e))"
      using new(1) ts(4) e by (auto simp: view_def tok els fun_eq_iff)
    moreover have "all_spec (doc_of w) o3" if a: "all_spec (doc_of w) ob"
    proof -
      have "value_of_token o3 t = spec (doc_of w) t" if "t \<in> set (tokens_of o3 x)" for x t
        using that a o3(6) o2(3,6) unfolding all_spec_def tok value_of_token_def
        by (auto split: if_split_asm dest: in_set_takeD)
      then show ?thesis by (simp add: all_spec_def)
    qed
    ultimately show ?thesis
      using run o2(3,4) o3(2,3,4) unfolding yields_def consistent_def by (auto simp: frame_of_def)
  qed
qed

lemma yields_skip: "consistent ob w \<Longrightarrow> yields (jret ()) ob w (view ob)"
  by (auto simp: yields_def)

lemma yields_seq:
  assumes "yields m ob w V"
    and "\<And>ob' w'. consistent ob' w' \<Longrightarrow> doc_of w' = doc_of w \<Longrightarrow> eo_element ob' = eo_element ob \<Longrightarrow>
      eo_started ob' = eo_started ob \<Longrightarrow> ao_attributeName ob' = ao_attributeName ob \<Longrightarrow> view ob' = V \<Longrightarrow> yields n ob' w' V'"
  shows "yields (jseq m n) ob w V'"
proof -
  obtain ob1 w1 where one: "m (ob, w) = (Inr (), ob1, w1)" "consistent ob1 w1" "doc_of w1 = doc_of w" "eo_element ob1 = eo_element ob"
    "eo_started ob1 = eo_started ob" "ao_attributeName ob1 = ao_attributeName ob" "view ob1 = V"
    "all_spec (doc_of w) ob \<longrightarrow> all_spec (doc_of w) ob1" using assms(1) unfolding yields_def by blast
  from assms(2) [OF one(2-7)] one show ?thesis unfolding yields_def by (auto simp: jseq_run)
qed

lemma yields_foreach:
  assumes "consistent ob w"
    and "\<And>e ob' w'. consistent ob' w' \<Longrightarrow> doc_of w' = doc_of w \<Longrightarrow> eo_element ob' = eo_element ob \<Longrightarrow>
      eo_started ob' = eo_started ob \<Longrightarrow> ao_attributeName ob' = ao_attributeName ob \<Longrightarrow> yields (f e) ob' w' (F e (view ob'))"
  shows "yields (jforeach f es) ob w (fold F es (view ob))"
  using assms
proof (induction es arbitrary: ob w)
  case (Cons e es)
  have "yields (jseq (f e) (jforeach f es)) ob w (fold F es (F e (view ob)))"
  proof (rule yields_seq)
    show "yields (f e) ob w (F e (view ob))" using Cons.prems by blast
  next
    fix ob' w'
    assume a: "consistent ob' w'" "doc_of w' = doc_of w" "eo_element ob' = eo_element ob" "eo_started ob' = eo_started ob"
      "ao_attributeName ob' = ao_attributeName ob" "view ob' = F e (view ob)"
    then show "yields (jforeach f es) ob' w' (fold F es (F e (view ob)))"
      using Cons.IH [of ob' w'] Cons.prems(2) by simp
  qed
  then show ?case by simp
qed (simp add: yields_skip)

lemma add_yields_upd:
  "consistent ob w \<Longrightarrow> yields (addElement G e) ob w (upd_add (doc_of w) (eo_element ob) (ao_attributeName ob) e (view ob))"
  unfolding upd_add_def by (rule add_yields)

lemma remove_yields_upd: "consistent ob w \<Longrightarrow> yields (removeElement G e) ob w (upd_remove e (view ob))"
  unfolding upd_remove_def by (rule remove_yields)

lemma add_all_yields:
  "consistent ob w \<Longrightarrow> yields (jforeach (addElement G) es) ob w (fold (upd_add (doc_of w) (eo_element ob) (ao_attributeName ob)) es (view ob))"
  by (rule yields_foreach) (metis add_yields_upd)+

lemma remove_all_yields: "consistent ob w \<Longrightarrow> yields (jforeach (removeElement G) es) ob w (fold upd_remove es (view ob))"
  by (rule yields_foreach) (simp_all add: remove_yields_upd)

text \<open>Refreshing: known elements stay as they are, unless they match no more; others that match are added.\<close>

lemma refresh_yields:
  assumes c: "consistent ob w" and on: "eo_started ob"
  shows "yields (observer_refresh G) ob w (\<lambda>x.
    if x \<in> set (matchElementsInTree (doc_of w) (ao_attributeName ob) (eo_element ob))
    then (if view ob x = None \<and> elementIsActive (doc_of w) (eo_element ob) x
          then Some (token_contents (attr_string (doc_of w) (ao_attributeName ob) x)) else view ob x)
    else None)"
proof -
  let ?ms = "set_of (matchElementsInTree (doc_of w) (ao_attributeName ob) (eo_element ob))"
  let ?F = "\<lambda>e V. if e \<notin> set ?ms then upd_remove e V else V"
  let ?V1 = "\<lambda>x. if x \<in> set ?ms then view ob x else None"
  have run: "observer_refresh G (ob, w) =
      jseq (jforeach (\<lambda>e. jwhen (e \<notin> set ?ms) (removeElement G e)) (eo_elements ob)) (jforeach (addElement G) ?ms) (ob, w)"
    using on by (simp add: observer_refresh_def jbind_run)
  have "yields (jforeach (\<lambda>e. jwhen (e \<notin> set ?ms) (removeElement G e)) (eo_elements ob)) ob w (fold ?F (eo_elements ob) (view ob))"
  proof (rule yields_foreach [OF c])
    fix e ob' w' assume c': "consistent ob' w'"
    show "yields (jwhen (e \<notin> set ?ms) (removeElement G e)) ob' w' (?F e (view ob'))"
      using remove_yields_upd [OF c'] yields_skip [OF c'] by (simp add: jwhen_def)
  qed
  moreover have "fold ?F es V x = (if x \<in> set es \<and> x \<notin> set ?ms then None else V x)" for es V x
    by (induction es arbitrary: V) (auto simp: upd_remove_def)
  then have "fold ?F (eo_elements ob) (view ob) = ?V1" by (auto simp: fun_eq_iff view_def)
  ultimately have "yields (jforeach (\<lambda>e. jwhen (e \<notin> set ?ms) (removeElement G e)) (eo_elements ob)) ob w ?V1" by simp
  then have "yields (jseq (jforeach (\<lambda>e. jwhen (e \<notin> set ?ms) (removeElement G e)) (eo_elements ob)) (jforeach (addElement G) ?ms)) ob w
      (fold (upd_add (doc_of w) (eo_element ob) (ao_attributeName ob)) ?ms ?V1)"
    by (rule yields_seq) (metis add_all_yields)
  moreover have "fold (upd_add (doc_of w) (eo_element ob) (ao_attributeName ob)) ?ms ?V1 = (\<lambda>x.
    if x \<in> set (matchElementsInTree (doc_of w) (ao_attributeName ob) (eo_element ob))
    then (if view ob x = None \<and> elementIsActive (doc_of w) (eo_element ob) x
          then Some (token_contents (attr_string (doc_of w) (ao_attributeName ob) x)) else view ob x)
    else None)" by (auto simp: fun_eq_iff fold_upd_add)
  ultimately show ?thesis unfolding yields_def run by simp
qed

lemma consistent_started: "consistent (ob\<lparr>eo_started := b\<rparr>) w = consistent ob w"
proof -
  have "token_values (ob\<lparr>eo_started := b\<rparr>) = token_values ob" by (simp add: token_values_def value_of_token_def fun_eq_iff)
  then show ?thesis by (simp add: consistent_def good_def tables_ok_def elements_ok_def)
qed

lemma start_settles:
  assumes "consistent ob w"
  shows "\<exists>ob' w'. observer_start G (ob, w) = (Inr (), ob', w') \<and> consistent ob' w' \<and> doc_of w' = doc_of w \<and>
    eo_element ob' = eo_element ob \<and> ao_attributeName ob' = ao_attributeName ob \<and> (all_spec (doc_of w) ob \<longrightarrow> all_spec (doc_of w) ob')"
proof (cases "eo_started ob")
  case True
  then show ?thesis using assms by (simp add: observer_start_def jbind_run)
next
  case False
  then have "observer_start G (ob, w) = observer_refresh G (ob\<lparr>eo_started := True\<rparr>, w)"
    by (simp add: observer_start_def jbind_run jseq_run on_vlo_def)
  moreover have "all_spec d (ob\<lparr>eo_started := True\<rparr>) = all_spec d ob" for d by (simp add: all_spec_def value_of_token_def)
  ultimately show ?thesis using refresh_yields [of "ob\<lparr>eo_started := True\<rparr>" w] assms by (auto simp: consistent_started yields_def)
qed

text \<open>An observer that is started for the first time knows what it should.\<close>

lemma start_tracks:
  assumes c: "consistent ob w" and new: "\<not> eo_started ob" "eo_elements ob = []"
    and wf: "dom_wf (doc_of w)" "eo_element ob \<in> set (concat (map dt_elems (dom_trees (doc_of w))))"
  shows "\<exists>ob' w'. observer_start G (ob, w) = (Inr (), ob', w') \<and> consistent ob' w' \<and> doc_of w' = doc_of w \<and> eo_started ob' \<and>
    eo_element ob' = eo_element ob \<and> ao_attributeName ob' = ao_attributeName ob \<and>
    view ob' = wanted (doc_of w) (eo_element ob) (ao_attributeName ob) \<and>
    (all_spec (doc_of w) ob \<longrightarrow> all_spec (doc_of w) ob')"
proof -
  let ?o1 = "ob\<lparr>eo_started := True\<rparr>"
  have c1: "consistent ?o1 w" using c by (simp add: consistent_started)
  have run: "observer_start G (ob, w) = observer_refresh G (?o1, w)"
    using new by (simp add: observer_start_def jbind_run jseq_run on_vlo_def)
  have none: "view ?o1 x = None" for x using new by (simp add: view_def)
  have "wanted (doc_of w) (eo_element ob) (ao_attributeName ob) = (\<lambda>x.
    if x \<in> set (matchElementsInTree (doc_of w) (ao_attributeName ob) (eo_element ob))
    then (if view ?o1 x = None \<and> elementIsActive (doc_of w) (eo_element ob) x
          then Some (token_contents (attr_string (doc_of w) (ao_attributeName ob) x)) else view ?o1 x)
    else None)"
    by (auto simp: fun_eq_iff none set_matchElementsInTree active_iff [OF wf] wanted_def)
  then have "yields (observer_refresh G) ?o1 w (wanted (doc_of w) (eo_element ob) (ao_attributeName ob))"
    using refresh_yields [OF c1] by (simp cong: if_cong)
  moreover have "all_spec d ?o1 = all_spec d ob" for d by (simp add: all_spec_def value_of_token_def)
  ultimately show ?thesis unfolding run yields_def by auto
qed

lemma attribute_yields:
  assumes c: "consistent ob w"
  shows "yields (processAttributeChange G e n) ob w (upd_attribute (doc_of w) (eo_element ob) (ao_attributeName ob) e n (view ob))"
proof (cases "e \<in> set (eo_elements ob)")
  case True
  then have k: "view ob e \<noteq> None" by (simp add: view_def)
  show ?thesis
  proof (cases "hasAttribute (doc_of w) e (ao_attributeName ob)")
    case has: True
    have run: "processAttributeChange G e n (ob, w) = (if n = ao_attributeName ob then elementAttributeValueChanged G e (ob, w) else (Inr (), ob, w))"
      using True has by (simp add: processAttributeChange_def matchElement_def jbind_run elementAttributeChanged_def)
    show ?thesis
      using changed_yields [OF c True] yields_skip [OF c] k has run by (cases "n = ao_attributeName ob") (simp_all add: yields_def upd_attribute_def)
  next
    case False
    have "processAttributeChange G e n (ob, w) = removeElement G e (ob, w)"
      using True False by (simp add: processAttributeChange_def matchElement_def jbind_run)
    then show ?thesis using remove_yields [OF c, of e] k False by (simp add: yields_def upd_attribute_def)
  qed
next
  case False
  have run: "processAttributeChange G e n (ob, w) =
      (if hasAttribute (doc_of w) e (ao_attributeName ob) then addElement G e (ob, w) else (Inr (), ob, w))"
    using False by (simp add: processAttributeChange_def matchElement_def jbind_run)
  have "view ob e = None" using False by (simp add: view_def)
  then show ?thesis using add_yields_upd [OF c, of e] yields_skip [OF c] run by (auto simp: yields_def upd_attribute_def)
qed

text \<open>After the record of a change of an attribute, an observer that was up to date is so again.\<close>

lemma attribute_tracks:
  assumes c: "consistent ob w"
    and others: "\<And>x. x \<noteq> e \<Longrightarrow> view ob x = wanted (doc_of w) (eo_element ob) (ao_attributeName ob) x"
    and placed: "view ob e \<noteq> None \<Longrightarrow> elementIsActive (doc_of w) (eo_element ob) e"
    and same: "n \<noteq> ao_attributeName ob \<Longrightarrow> view ob e = wanted (doc_of w) (eo_element ob) (ao_attributeName ob) e"
  shows "yields (processMutation G (MAttributes e n)) ob w (wanted (doc_of w) (eo_element ob) (ao_attributeName ob))"
proof -
  let ?W = "wanted (doc_of w) (eo_element ob) (ao_attributeName ob)"
  have "?W = upd_attribute (doc_of w) (eo_element ob) (ao_attributeName ob) e n (view ob)" (is "_ = ?V")
  proof
    fix x
    show "?W x = ?V x"
    proof (cases "x = e")
      case False
      then have "?V x = view ob x" by (simp add: upd_add_def upd_attribute_def)
      then show ?thesis using others [OF False] by simp
    next
      case True
      show ?thesis
      proof (cases "view ob e")
        case None
        then show ?thesis using True by (simp add: wanted_def upd_add_def upd_attribute_def)
      next
        case (Some cs)
        then have "elementIsActive (doc_of w) (eo_element ob) e" using placed by simp
        then show ?thesis using same True Some by (cases "n = ao_attributeName ob") (simp_all add: wanted_def upd_attribute_def)
      qed
    qed
  qed
  then show ?thesis using attribute_yields [OF c, of e n] by (simp add: processMutation_def)
qed

lemma tree_yields:
  assumes c: "consistent ob w"
  shows "yields (processTree (removeElement G) q) ob w (fold upd_remove (matchElementsInTree (doc_of w) (ao_attributeName ob) q) (view ob))"
    and "yields (processTree (addElement G) q) ob w
      (fold (upd_add (doc_of w) (eo_element ob) (ao_attributeName ob)) (matchElementsInTree (doc_of w) (ao_attributeName ob) q) (view ob))"
  using remove_all_yields [OF c] add_all_yields [OF c] by (simp_all add: yields_def processTree_def jbind_run)

text \<open>The effect of any batch of records, whatever changed since the last one.\<close>

lemma mutation_yields:
  assumes c: "consistent ob w"
  shows "yields (processMutation G m) ob w (upd_mutation (doc_of w) (eo_element ob) (ao_attributeName ob) m (view ob))"
proof (cases m)
  case (MAttributes e n)
  then show ?thesis using attribute_yields [OF c] by (simp add: processMutation_def)
next
  case (MChildList rs as)
  have rem: "yields (processRemovedNodes G rs) ob w (fold (upd_removed (doc_of w) (ao_attributeName ob)) rs (view ob))"
    unfolding processRemovedNodes_def
  proof (rule yields_foreach [OF c])
    fix node ob' w'
    assume "consistent ob' w'" "doc_of w' = doc_of w" "ao_attributeName ob' = ao_attributeName ob"
    then show "yields (case node of None \<Rightarrow> jret () | Some e \<Rightarrow> processTree (removeElement G) e) ob' w'
        (upd_removed (doc_of w) (ao_attributeName ob) node (view ob'))"
      using yields_skip [of ob' w'] tree_yields(1) [of ob' w'] by (auto simp: upd_removed_def split: option.split)
  qed
  have add: "yields (processAddedNodes G as) ob' w' (fold (upd_added (doc_of w) (eo_element ob) (ao_attributeName ob)) as (view ob'))"
    if c': "consistent ob' w'" "doc_of w' = doc_of w" "eo_element ob' = eo_element ob" "ao_attributeName ob' = ao_attributeName ob" for ob' w'
    unfolding processAddedNodes_def
  proof (rule yields_foreach [OF c'(1)])
    fix node ob2 w2
    assume a: "consistent ob2 w2" "doc_of w2 = doc_of w'" "eo_element ob2 = eo_element ob'" "ao_attributeName ob2 = ao_attributeName ob'"
    show "yields (case node of None \<Rightarrow> jret () | Some e \<Rightarrow> jbind (jget (\<lambda>(ob, w). elementIsActive (doc_of w) (eo_element ob) e))
          (\<lambda>active. jwhen active (processTree (addElement G) e))) ob2 w2
        (upd_added (doc_of w) (eo_element ob) (ao_attributeName ob) node (view ob2))"
      using yields_skip [OF a(1)] tree_yields(2) [OF a(1)] a(2-4) c'(2-4)
      by (cases node) (auto simp: upd_added_def yields_def jbind_run)
  qed
  show ?thesis
    unfolding MChildList processMutation_def mutation.case upd_mutation.simps
    by (rule yields_seq [OF rem]) (metis add)
qed

lemma mutations_yields:
  assumes c: "consistent ob w" and on: "eo_started ob"
  shows "yields (processMutations G ms) ob w (fold (upd_mutation (doc_of w) (eo_element ob) (ao_attributeName ob)) ms (view ob))"
proof -
  have "yields (jforeach (processMutation G) ms) ob w (fold (upd_mutation (doc_of w) (eo_element ob) (ao_attributeName ob)) ms (view ob))"
    by (rule yields_foreach [OF c]) (metis mutation_yields)
  then show ?thesis using on by (simp add: yields_def processMutations_def jbind_run)
qed

text \<open>In particular when a tree is removed from the document, and when one is added.\<close>

lemma removal_tracks:
  assumes c: "consistent ob w"
    and others: "\<And>x. x \<notin> set (dom_below (doc_of w) q) \<Longrightarrow> view ob x = wanted (doc_of w) (eo_element ob) (ao_attributeName ob) x"
    and gone: "\<And>x. x \<in> set (dom_below (doc_of w) q) \<Longrightarrow> \<not> elementIsActive (doc_of w) (eo_element ob) x \<and>
      (view ob x \<noteq> None \<longrightarrow> hasAttribute (doc_of w) x (ao_attributeName ob))"
  shows "yields (processMutation G (MChildList [Some q] [])) ob w (wanted (doc_of w) (eo_element ob) (ao_attributeName ob))"
proof -
  have "fold upd_remove (matchElementsInTree (doc_of w) (ao_attributeName ob) q) (view ob) =
      wanted (doc_of w) (eo_element ob) (ao_attributeName ob)"
  proof
    fix x
    show "fold upd_remove (matchElementsInTree (doc_of w) (ao_attributeName ob) q) (view ob) x =
        wanted (doc_of w) (eo_element ob) (ao_attributeName ob) x"
      using others [of x] gone [of x]
      by (cases "x \<in> set (dom_below (doc_of w) q)") (auto simp: fold_upd_remove set_matchElementsInTree wanted_def)
  qed
  moreover have "processMutation G (MChildList [Some q] []) (ob, w) = processTree (removeElement G) q (ob, w)"
    by (simp add: processMutation_def processRemovedNodes_def processAddedNodes_def jseq_run split: prod.split sum.split)
  ultimately show ?thesis using tree_yields(1) [OF c, of q] by (simp add: yields_def)
qed

lemma addition_tracks:
  assumes c: "consistent ob w" and active: "elementIsActive (doc_of w) (eo_element ob) q"
    and others: "\<And>x. x \<notin> set (dom_below (doc_of w) q) \<Longrightarrow> view ob x = wanted (doc_of w) (eo_element ob) (ao_attributeName ob) x"
    and new: "\<And>x. x \<in> set (dom_below (doc_of w) q) \<Longrightarrow> view ob x = None"
  shows "yields (processMutation G (MChildList [] [Some q])) ob w (wanted (doc_of w) (eo_element ob) (ao_attributeName ob))"
proof -
  have "fold (upd_add (doc_of w) (eo_element ob) (ao_attributeName ob)) (matchElementsInTree (doc_of w) (ao_attributeName ob) q) (view ob) =
      wanted (doc_of w) (eo_element ob) (ao_attributeName ob)" (is "?V = ?W")
  proof
    fix x
    show "?V x = ?W x"
      using others [of x] new [of x]
      by (cases "x \<in> set (dom_below (doc_of w) q)") (auto simp: fold_upd_add set_matchElementsInTree wanted_def)
  qed
  moreover have "processMutation G (MChildList [] [Some q]) (ob, w) = processTree (addElement G) q (ob, w)"
    using active by (simp add: processMutation_def processRemovedNodes_def processAddedNodes_def jseq_run jbind_run
        split: prod.split sum.split)
  ultimately show ?thesis using tree_yields(2) [OF c, of q] by (simp add: yields_def)
qed

end

end
