(* ===== verification/StValues.thy ===== *)
theory StValues
  imports StScope Browser
begin

section \<open>Properties of controllers\<close>

text \<open>
  The properties \<open>stimulus.js\<close> gives to controllers: values with their types, readers and
  writers, targets and classes, and how they are added to a controller's class
  (\<open>bless\<close>, \<open>shadow\<close>). The lemmas show that a value that is set is read back and that what a
  class defines itself comes before what the library adds.
\<close>

subsection \<open>Types of values\<close>

datatype type_constant = CArray | CBoolean | CNumber | CObject | CString | COther string
  \<comment> \<open>the constructors named as types; the last is any other value, by its text\<close>

datatype value_type = VArray | VBoolean | VNumber | VObject | VString

fun parseValueTypeConstant :: "type_constant \<Rightarrow> value_type outcome" where
  "parseValueTypeConstant CArray = Inr VArray"
| "parseValueTypeConstant CBoolean = Inr VBoolean"
| "parseValueTypeConstant CNumber = Inr VNumber"
| "parseValueTypeConstant CObject = Inr VObject"
| "parseValueTypeConstant CString = Inr VString"
| "parseValueTypeConstant (COther s) = Inl (Error (''Unknown value type constant \"'' @ s @ ''\"''))"

record value_descriptor =
  vd_type :: value_type
  vd_key :: string
  vd_name :: string

fun defaultValuesByType :: "value_type \<Rightarrow> jsval" where
  "defaultValuesByType VArray = JArr []"
| "defaultValuesByType VBoolean = JBool False"
| "defaultValuesByType VNumber = JInt 0"
| "defaultValuesByType VObject = JObj []"
| "defaultValuesByType VString = JStr []"

definition valueDescriptorForTokenAndType :: "string \<Rightarrow> value_type \<Rightarrow> value_descriptor" where
  "valueDescriptorForTokenAndType token ty =
     (let key = dasherize token @ ''-value'' in \<lparr>vd_type = ty, vd_key = key, vd_name = camelize key\<rparr>)"

definition parseValueDefinitionPair :: "string \<times> type_constant \<Rightarrow> value_descriptor outcome" where
  "parseValueDefinitionPair p =
     (case parseValueTypeConstant (snd p) of Inl e \<Rightarrow> Inl e | Inr ty \<Rightarrow> Inr (valueDescriptorForTokenAndType (fst p) ty))"

text \<open>\<open>parseFloat\<close>: the number the longest prefix of the text stands for.\<close>

definition parseFloat :: "string \<Rightarrow> jsnum" where
  "parseFloat str =
     (case take_sign (dropWhile is_space str) of (neg, s) \<Rightarrow>
       if prefix ''Infinity'' s then Inf neg
       else (let ds = takeWhile is_digit s; r = dropWhile is_digit s;
                 fracs = (if take 1 r = ''.'' then takeWhile is_digit (drop 1 r) else []);
                 r' = (if take 1 r = ''.'' then dropWhile is_digit (drop 1 r) else r)
             in if ds = [] \<and> fracs = [] then NaN
                else dec_value neg ds fracs (case take_exponent r' of Some (x, _) \<Rightarrow> x | None \<Rightarrow> 0)))"

fun readers :: "env \<Rightarrow> value_type \<Rightarrow> string \<Rightarrow> jsval outcome" where
  "readers E VArray v =
     (case parse_or_throw E v of
        Inl e \<Rightarrow> Inl e
      | Inr x \<Rightarrow> if \<not> isArray x then Inl (TypeError ''Expected array'') else Inr x)"
| "readers E VBoolean v = Inr (JBool (\<not> (v = ''0'' \<or> v = ''false'')))"
| "readers E VNumber v = Inr (JNum (parseFloat v))"
| "readers E VObject v =
     (case parse_or_throw E v of
        Inl e \<Rightarrow> Inl e
      | Inr x \<Rightarrow> if x = JNull \<or> typeof x \<noteq> ''object'' \<or> isArray x then Inl (TypeError ''Expected object'') else Inr x)"
| "readers E VString v = Inr (JStr v)"

text \<open>\<open>writeJSON\<close>; \<open>undefined\<close>, which has no JSON text, is stored as the word.\<close>

definition writeJSON :: "jsval \<Rightarrow> string" where
  "writeJSON v = (case JSON_stringify v of Some s \<Rightarrow> s | None \<Rightarrow> ''undefined'')"

definition writeString :: "jsval \<Rightarrow> string" where
  "writeString v = to_str v"

fun writers :: "value_type \<Rightarrow> jsval \<Rightarrow> string" where
  "writers VArray v = writeJSON v"
| "writers VObject v = writeJSON v"
| "writers VBoolean v = writeString v"
| "writers VNumber v = writeString v"
| "writers VString v = writeString v"

subsection \<open>Getters and setters\<close>

definition value_get :: "env \<Rightarrow> scope \<Rightarrow> value_descriptor \<Rightarrow> dom \<Rightarrow> jsval outcome" where
  "value_get E sc vd d =
     (case data_get sc (vd_key vd) d of
        Some v \<Rightarrow> readers E (vd_type vd) v
      | None \<Rightarrow> Inr (defaultValuesByType (vd_type vd)))"

definition value_set :: "scope \<Rightarrow> value_descriptor \<Rightarrow> jsval \<Rightarrow> dom \<Rightarrow> dom" where
  "value_set sc vd v d =
     (if v = JUndef then snd (data_delete sc (vd_key vd) d)
      else snd (data_set sc (vd_key vd) (writers (vd_type vd) v) d))"

definition value_has :: "scope \<Rightarrow> value_descriptor \<Rightarrow> dom \<Rightarrow> bool" where
  "value_has sc vd d = data_has sc (vd_key vd) d"

definition class_get :: "scope \<Rightarrow> string \<Rightarrow> dom \<Rightarrow> string outcome" where
  "class_get sc key d =
     (if classes_has sc key d then Inr (case classes_get sc key d of Some v \<Rightarrow> v | None \<Rightarrow> [])
      else Inl (Error (''Missing attribute \"'' @ classes_getAttributeName sc key @ ''\"'')))"

definition target_get :: "schema \<Rightarrow> scope \<Rightarrow> string \<Rightarrow> dom \<Rightarrow> guide \<Rightarrow> elt outcome \<times> guide" where
  "target_get S sc name d g =
     (case targets_find S d sc [name] g of
        (Some e, g') \<Rightarrow> (Inr e, g')
      | (None, g') \<Rightarrow> (Inl (Error (''Missing target element \"'' @ sc_identifier sc @ ''.'' @ name @ ''\"'')), g'))"

subsection \<open>Blessings\<close>

text \<open>The accessors the library adds, by what they compute; \<open>GOwn\<close> is one of \<open>Controller\<close> itself, which
  reads a part of its context, and \<open>UserGet\<close> and \<open>UserSet\<close> are ones a class has itself.\<close>

datatype getter =
    GClass string | GHasClass string
  | GTarget string | GTargets string | GHasTarget string
  | GValue value_descriptor | GHasValue value_descriptor | GValueMap "(string \<times> type_constant) list"
  | GOwn string | UserGet nat

datatype setter = SValue value_descriptor | UserSet nat

record accessor =
  acc_get :: "getter option"
  acc_set :: "setter option"

definition getter_only :: "getter \<Rightarrow> accessor" where
  "getter_only g = \<lparr>acc_get = Some g, acc_set = None\<rparr>"

type_synonym properties = "(string \<times> accessor) list"

definition assign_all :: "properties \<Rightarrow> properties \<Rightarrow> properties" where
  "assign_all ps qs = foldl (\<lambda>m (k, v). map_set k v m) ps qs"

text \<open>A class: what it defines itself (its static lists, if it has them, and the members of its
  prototype) and the class it extends.\<close>

datatype member = MValue nat | MAccess "getter option" "setter option"

datatype ctor = Ctor
  (own_classes: "string list option") (own_targets: "string list option")
  (own_values: "(string \<times> type_constant) list option")
  (own_members: "(string \<times> member) list") (parent: "ctor option")

text \<open>\<open>Controller\<close>\<close>

definition Controller :: ctor where
  "Controller = Ctor None (Some []) (Some [])
     (map (\<lambda>n. (n, MAccess (Some (GOwn n)) None))
        [''application'', ''scope'', ''element'', ''identifier'', ''targets'', ''classes'', ''data''] @
      [(''initialize'', MValue 0), (''connect'', MValue 1), (''disconnect'', MValue 2)]) None"

fun ctor_chain :: "ctor \<Rightarrow> ctor list" where
  "ctor_chain (Ctor cs ts vs ms p) = Ctor cs ts vs ms p # (case p of None \<Rightarrow> [] | Some q \<Rightarrow> ctor_chain q)"

definition getAncestorsForConstructor :: "ctor \<Rightarrow> ctor list" where
  "getAncestorsForConstructor c = rev (ctor_chain c)"

text \<open>\<open>constructor[propertyName]\<close>: its own or the inherited one.\<close>

definition static_of :: "(ctor \<Rightarrow> 'a option) \<Rightarrow> ctor \<Rightarrow> 'a option" where
  "static_of own c = first_some own (ctor_chain c)"

definition getOwnStaticArrayValues :: "(ctor \<Rightarrow> 'a list option) \<Rightarrow> ctor \<Rightarrow> 'a list" where
  "getOwnStaticArrayValues own c = (case static_of own c of Some xs \<Rightarrow> xs | None \<Rightarrow> [])"

definition readInheritableStaticArrayValues :: "(ctor \<Rightarrow> 'a list option) \<Rightarrow> ctor \<Rightarrow> 'a list" where
  "readInheritableStaticArrayValues own c =
     foldl (\<lambda>values k. fold set_add (getOwnStaticArrayValues own k) values) [] (getAncestorsForConstructor c)"

definition readInheritableStaticObjectPairs :: "(ctor \<Rightarrow> 'a list option) \<Rightarrow> ctor \<Rightarrow> 'a list" where
  "readInheritableStaticObjectPairs own c =
     foldl (\<lambda>pairs k. pairs @ getOwnStaticArrayValues own k) [] (getAncestorsForConstructor c)"

definition propertiesForClassDefinition :: "string \<Rightarrow> properties" where
  "propertiesForClassDefinition key =
     (let name = key @ ''Class''
      in [(name, getter_only (GClass key)), (''has'' @ capitalize name, getter_only (GHasClass key))])"

definition ClassPropertiesBlessing :: "ctor \<Rightarrow> properties" where
  "ClassPropertiesBlessing c =
     foldl (\<lambda>ps k. assign_all ps (propertiesForClassDefinition k)) [] (readInheritableStaticArrayValues own_classes c)"

definition propertiesForTargetDefinition :: "string \<Rightarrow> properties" where
  "propertiesForTargetDefinition name =
     [(name @ ''Target'', getter_only (GTarget name)), (name @ ''Targets'', getter_only (GTargets name)),
      (''has'' @ capitalize name @ ''Target'', getter_only (GHasTarget name))]"

definition TargetPropertiesBlessing :: "ctor \<Rightarrow> properties" where
  "TargetPropertiesBlessing c =
     foldl (\<lambda>ps n. assign_all ps (propertiesForTargetDefinition n)) [] (readInheritableStaticArrayValues own_targets c)"

definition propertiesForValueDefinitionPair :: "string \<times> type_constant \<Rightarrow> properties outcome" where
  "propertiesForValueDefinitionPair p =
     (case parseValueDefinitionPair p of
        Inl e \<Rightarrow> Inl e
      | Inr vd \<Rightarrow> Inr [(vd_name vd, \<lparr>acc_get = Some (GValue vd), acc_set = Some (SValue vd)\<rparr>),
                     (''has'' @ capitalize (vd_name vd), getter_only (GHasValue vd))])"

fun values_blessing :: "(string \<times> type_constant) list \<Rightarrow> properties \<Rightarrow> properties outcome" where
  "values_blessing [] ps = Inr ps"
| "values_blessing (p # rest) ps =
     (case propertiesForValueDefinitionPair p of Inl e \<Rightarrow> Inl e | Inr qs \<Rightarrow> values_blessing rest (assign_all ps qs))"

definition ValuePropertiesBlessing :: "ctor \<Rightarrow> properties outcome" where
  "ValuePropertiesBlessing c =
     (let pairs = readInheritableStaticObjectPairs own_values c
      in values_blessing pairs [(''valueDescriptorMap'', getter_only (GValueMap pairs))])"

text \<open>Adding a blessing's properties to the ones there are; an accessor of the same name is
  overwritten part by part.\<close>

definition merge_accessor :: "accessor \<Rightarrow> accessor \<Rightarrow> accessor" where
  "merge_accessor a b =
     \<lparr>acc_get = (if acc_get b = None then acc_get a else acc_get b),
      acc_set = (if acc_set b = None then acc_set a else acc_set b)\<rparr>"

definition bless_into :: "properties \<Rightarrow> properties \<Rightarrow> properties" where
  "bless_into blessed ps =
     foldl (\<lambda>m (k, a). map_set k (merge_accessor (case map_get m k of Some b \<Rightarrow> b | None \<Rightarrow> \<lparr>acc_get = None, acc_set = None\<rparr>) a) m)
       blessed ps"

definition getBlessedProperties :: "ctor \<Rightarrow> properties outcome" where
  "getBlessedProperties c =
     (let b1 = bless_into [] (ClassPropertiesBlessing c);
          b2 = bless_into b1 (TargetPropertiesBlessing c)
      in case ValuePropertiesBlessing c of Inl e \<Rightarrow> Inl e | Inr ps \<Rightarrow> Inr (bless_into b2 ps))"

definition or_else :: "'a option \<Rightarrow> 'a option \<Rightarrow> 'a option" where
  "or_else a b = (if a = None then b else a)"

definition getShadowedDescriptor :: "(string \<times> member) list \<Rightarrow> string \<Rightarrow> accessor \<Rightarrow> accessor option" where
  "getShadowedDescriptor prototype key a =
     (case map_get prototype key of
        Some (MValue _) \<Rightarrow> None
      | Some (MAccess g s) \<Rightarrow> Some \<lparr>acc_get = or_else g (acc_get a), acc_set = or_else s (acc_set a)\<rparr>
      | None \<Rightarrow> Some a)"

definition getShadowProperties :: "(string \<times> member) list \<Rightarrow> properties \<Rightarrow> properties" where
  "getShadowProperties prototype ps =
     foldl (\<lambda>m (k, a). case getShadowedDescriptor prototype k a of None \<Rightarrow> m | Some b \<Rightarrow> map_set k b m) [] ps"

text \<open>\<open>shadow\<close>: a class that extends the given one and has the shadow properties in its prototype.\<close>

definition shadow :: "ctor \<Rightarrow> properties \<Rightarrow> ctor" where
  "shadow c ps = Ctor None None None
     (map (\<lambda>(k, a). (k, MAccess (acc_get a) (acc_set a))) (getShadowProperties (own_members c) ps)) (Some c)"

definition bless :: "ctor \<Rightarrow> ctor outcome" where
  "bless c = (case getBlessedProperties c of Inl e \<Rightarrow> Inl e | Inr ps \<Rightarrow> Inr (shadow c ps))"

text \<open>The member an instance of a class sees under a name.\<close>

definition member_of :: "ctor \<Rightarrow> string \<Rightarrow> member option" where
  "member_of c k = first_some (\<lambda>p. map_get (own_members p) k) (ctor_chain c)"

text \<open>\<open>valueDescriptorMap\<close>: the descriptors by the names of their attributes.\<close>

fun value_map :: "scope \<Rightarrow> (string \<times> type_constant) list \<Rightarrow> (string \<times> value_descriptor) list \<Rightarrow>
    (string \<times> value_descriptor) list outcome" where
  "value_map sc [] m = Inr m"
| "value_map sc (p # ps) m =
     (case parseValueDefinitionPair p of
        Inl e \<Rightarrow> Inl e
      | Inr vd \<Rightarrow> value_map sc ps (map_set (getAttributeNameForKey sc (vd_key vd)) vd m))"

subsection \<open>A value that is set is read back\<close>

fun value_ok :: "value_type \<Rightarrow> jsval \<Rightarrow> bool" where
  "value_ok VArray v = (isArray v \<and> json_ok v)"
| "value_ok VBoolean v = (case v of JBool _ \<Rightarrow> True | _ \<Rightarrow> False)"
| "value_ok VNumber v = (case v of JNum (Dec m e) \<Rightarrow> num_plain (Dec m e) | JNum _ \<Rightarrow> True | _ \<Rightarrow> False)"
| "value_ok VObject v = (case v of JObj _ \<Rightarrow> json_ok v | _ \<Rightarrow> False)"
| "value_ok VString v = (case v of JStr _ \<Rightarrow> True | _ \<Rightarrow> False)"

lemma takeWhile_all_digits: "list_all is_digit ds \<Longrightarrow> takeWhile is_digit ds = ds \<and> dropWhile is_digit ds = []"
  by (simp add: list_all_iff takeWhile_eq_all_conv)

lemma digits_dot:
  assumes "list_all is_digit ints"
  shows "takeWhile is_digit (ints @ CHR ''.'' # r) = ints" "dropWhile is_digit (ints @ CHR ''.'' # r) = CHR ''.'' # r"
  using assms by (auto simp: list_all_iff is_digit_def char_between_def)

lemma parseFloat_parts:
  assumes "list_all is_digit ints" "list_all is_digit fracs" "ints \<noteq> []"
  shows "parseFloat ((if neg then ''-'' else []) @ ints @ (if fracs = [] then [] else CHR ''.'' # fracs)) =
    dec_value neg ints fracs 0"
proof -
  let ?t = "ints @ (if fracs = [] then [] else CHR ''.'' # fracs)"
  obtain c r where ints: "ints = c # r" and c: "is_digit c" using assms by (cases ints) auto
  have nc: "\<not> is_space c" "c \<noteq> CHR ''-''" "c \<noteq> CHR ''+''" "c \<noteq> CHR ''I''"
    using c by (auto simp: is_digit_def char_between_def is_space_def)
  have dash: "\<not> is_space (CHR ''-'')" by (simp add: is_space_def char_between_def)
  have "take_sign (dropWhile is_space ((if neg then ''-'' else []) @ ?t)) = (neg, ?t)"
    using nc dash by (cases neg) (simp_all add: ints take_sign_def)
  moreover have "\<not> prefix ''Infinity'' ?t" using nc by (simp add: ints)
  moreover have "takeWhile is_digit ?t = ints" "dropWhile is_digit ?t = (if fracs = [] then [] else CHR ''.'' # fracs)"
    using assms(1) by (auto simp: takeWhile_all_digits digits_dot)
  ultimately show ?thesis
    using assms by (simp add: parseFloat_def Let_def takeWhile_all_digits take_exponent_def)
qed

lemma parseFloat_text:
  assumes "num_plain (Dec m e)" shows "parseFloat (num_to_string (Dec m e)) = Dec m e"
proof (cases "m = 0")
  case True
  then have "e = 0" using assms by simp
  moreover have "parseFloat ''0'' = Dec 0 0" by code_simp
  ultimately show ?thesis using True by simp
next
  case False
  obtain ints fracs where parts: "num_text (Dec m e) =
       (if m < 0 then ''-'' else []) @ ints @ (if fracs = [] then [] else CHR ''.'' # fracs)"
    "list_all is_digit ints" "ints = ''0'' \<or> (ints \<noteq> [] \<and> hd ints \<noteq> CHR ''0'')"
    "list_all is_digit fracs" "length fracs = e" "radix_value 10 (ints @ fracs) = nat \<bar>m\<bar>"
    using num_text_parts [OF assms False] by metis
  then have "parseFloat (num_text (Dec m e)) = dec_value (m < 0) ints fracs 0"
    using parseFloat_parts [of ints fracs "m < 0"] by auto
  moreover have "dec_value (m < 0) ints fracs 0 = norm_dec m e"
    using parts(5,6) False by (cases "e = 0") (auto simp: dec_value_def Let_def)
  moreover have "norm_dec m e = Dec m e" using assms by (intro num_wf_norm_dec_id) simp
  ultimately show ?thesis by simp
qed

lemma parseFloat_words: "parseFloat ''NaN'' = NaN" "parseFloat ''Infinity'' = Inf False" "parseFloat ''-Infinity'' = Inf True"
  by code_simp+

lemma read_write: "value_ok ty v \<Longrightarrow> readers E ty (writers ty v) = Inr v"
proof (cases ty)
  case VNumber
  assume ok: "value_ok ty v"
  then obtain x where v: "v = JNum x" using VNumber by (auto split: jsval.split_asm)
  then show ?thesis
  proof (cases x)
    case (Dec m e)
    then show ?thesis using ok VNumber v by (simp add: writeString_def parseFloat_text del: num_to_string.simps)
  next
    case (Inf b)
    then show ?thesis using VNumber v by (cases b) (simp_all add: writeString_def parseFloat_words)
  qed (use VNumber v in \<open>simp add: writeString_def parseFloat_words\<close>)
next
  case VArray
  assume "value_ok ty v"
  then have "isArray v" "json_ok v" using VArray by simp_all
  then show ?thesis using VArray json.dec_the_enc [of v]
    by (simp add: writeJSON_def JSON_stringify_ok parse_or_throw_def)
next
  case VObject
  assume "value_ok ty v"
  then obtain fs where "v = JObj fs" "json_ok v" using VObject by (cases v) auto
  then show ?thesis using VObject json.dec_the_enc [of v]
    by (simp add: writeJSON_def JSON_stringify_ok parse_or_throw_def del: json_ok.simps json_text.simps)
qed (auto simp: writeString_def split: jsval.split_asm)

lemma value_set_get:
  "value_ok (vd_type vd) v \<Longrightarrow> value_get E sc vd (value_set sc vd v d) = Inr v"
proof -
  assume ok: "value_ok (vd_type vd) v"
  then have "v \<noteq> JUndef" by (cases "vd_type vd") auto
  then show ?thesis using ok by (simp add: value_get_def value_set_def data_get_set read_write)
qed

lemma value_unset:
  "value_get E sc vd (value_set sc vd JUndef d) = Inr (defaultValuesByType (vd_type vd))"
  "\<not> value_has sc vd (value_set sc vd JUndef d)"
  by (simp_all add: value_get_def value_set_def value_has_def data_has_get data_get_delete)

subsection \<open>What a blessed class has\<close>

lemma map_get_foldl:
  "distinct (map fst qs) \<Longrightarrow>
   map_get (foldl (\<lambda>m (k, a). map_set k (f (map_get m k) a) m) m qs) k =
     (case map_get qs k of None \<Rightarrow> map_get m k | Some a \<Rightarrow> Some (f (map_get m k) a))"
proof (induction qs arbitrary: m)
  case (Cons q qs)
  obtain j a where q: "q = (j, a)" by (cases q)
  have "map_get qs j = None" using Cons.prems q by (simp add: map_of_eq_None_iff)
  then show ?case using Cons q by (auto split: option.split)
qed simp

lemma bless_into_get:
  "distinct (map_keys ps) \<Longrightarrow> map_get (bless_into b ps) k =
     (case map_get ps k of None \<Rightarrow> map_get b k
      | Some a \<Rightarrow> Some (merge_accessor (case map_get b k of Some x \<Rightarrow> x | None \<Rightarrow> \<lparr>acc_get = None, acc_set = None\<rparr>) a))"
  unfolding bless_into_def by (rule map_get_foldl)

lemma distinct_bless_into: "distinct (map_keys b) \<Longrightarrow> distinct (map_keys (bless_into b ps))"
  unfolding bless_into_def by (induction ps arbitrary: b) auto

lemma getShadowProperties_get:
  "distinct (map_keys ps) \<Longrightarrow>
    map_get (getShadowProperties ms ps) k = Option.bind (map_get ps k) (getShadowedDescriptor ms k)"
proof -
  have "distinct (map_keys ps) \<Longrightarrow>
      map_get (foldl (\<lambda>m (k, a). case getShadowedDescriptor ms k a of None \<Rightarrow> m | Some b \<Rightarrow> map_set k b m) m ps) k =
      (case Option.bind (map_get ps k) (getShadowedDescriptor ms k) of None \<Rightarrow> map_get m k | Some b \<Rightarrow> Some b)" for m
  proof (induction ps arbitrary: m)
    case (Cons q qs)
    obtain j a where q: "q = (j, a)" by (cases q)
    have "map_get qs j = None" using Cons.prems q by (simp add: map_of_eq_None_iff)
    then show ?case using Cons q by (auto split: option.split)
  qed simp
  from this [of "[]"] show "distinct (map_keys ps) \<Longrightarrow>
    map_get (getShadowProperties ms ps) k = Option.bind (map_get ps k) (getShadowedDescriptor ms k)"
    by (simp add: getShadowProperties_def split: option.split)
qed

lemma distinct_blessed: "getBlessedProperties c = Inr ps \<Longrightarrow> distinct (map_keys ps)"
  by (auto simp: getBlessedProperties_def Let_def split: sum.split_asm intro!: distinct_bless_into)

lemma shadow_member:
  assumes "distinct (map_keys ps)"
  shows "member_of (shadow c ps) k =
    (case Option.bind (map_get ps k) (getShadowedDescriptor (own_members c) k) of
       None \<Rightarrow> member_of c k | Some a \<Rightarrow> Some (MAccess (acc_get a) (acc_set a)))"
proof -
  have q: "map_get (map (\<lambda>(k, a). (k, MAccess (acc_get a) (acc_set a))) qs) k =
      map_option (\<lambda>a. MAccess (acc_get a) (acc_set a)) (map_get qs k)" for qs
    by (induction qs) auto
  show ?thesis
    by (simp add: member_of_def shadow_def q getShadowProperties_get [OF assms] split: option.split)
qed

text \<open>What a class defines in its own prototype comes first; an accessor it defines in part is
  completed; otherwise the library's property is seen, also in place of an inherited one.\<close>

lemma bless_member:
  assumes "getBlessedProperties c = Inr ps"
  shows "\<exists>c'. bless c = Inr c' \<and> member_of c' k =
    (case map_get ps k of
       None \<Rightarrow> member_of c k
     | Some a \<Rightarrow> (case map_get (own_members c) k of
         Some (MValue x) \<Rightarrow> Some (MValue x)
       | Some (MAccess g s) \<Rightarrow> Some (MAccess (or_else g (acc_get a)) (or_else s (acc_set a)))
       | None \<Rightarrow> Some (MAccess (acc_get a) (acc_set a))))"
proof -
  have own: "member_of c k = Some m" if "map_get (own_members c) k = Some m" for m
    using that by (cases c) (simp add: member_of_def)
  then show ?thesis
    using shadow_member [OF distinct_blessed [OF assms], of c k]
    by (auto simp: bless_def assms getShadowedDescriptor_def split: option.split member.split)
qed

text \<open>A declared target has its accessor in the blessed class. (A target whose name is \<open>has\<close> and the
  capitalised name of another one takes that one's test as its own accessor.)\<close>

lemma assign_all_get:
  "map_get (assign_all ps qs) k = (case map_get (rev qs) k of Some v \<Rightarrow> Some v | None \<Rightarrow> map_get ps k)"
  unfolding assign_all_def
  by (induction qs arbitrary: ps) (auto simp: map_add_def split: option.split)

lemma distinct_assign_all: "distinct (map_keys ps) \<Longrightarrow> distinct (map_keys (assign_all ps qs))"
  unfolding assign_all_def by (induction qs arbitrary: ps) auto

lemma distinct_foldl_assign: "distinct (map_keys ps) \<Longrightarrow> distinct (map_keys (foldl (\<lambda>ps n. assign_all ps (f n)) ps ns))"
  by (induction ns arbitrary: ps) (auto intro: distinct_assign_all)

lemma keys_foldl_assign:
  "(\<And>n. k \<notin> set (map_keys (f n))) \<Longrightarrow> map_get ps k = None \<Longrightarrow> map_get (foldl (\<lambda>ps n. assign_all ps (f n)) ps ns) k = None"
proof (induction ns arbitrary: ps)
  case (Cons n ns)
  have "map_get (rev (f n)) k = None" using Cons.prems(1) [of n] by (simp add: map_of_eq_None_iff)
  then show ?case using Cons by (simp add: assign_all_get)
qed simp

lemma last_neq: "last a \<noteq> last b \<Longrightarrow> a \<noteq> b"
  by auto

lemma class_keys: "n @ ''Target'' \<notin> set (map_keys (propertiesForClassDefinition k))"
proof -
  have "last (''has'' @ capitalize (k @ ''Class'')) = CHR ''s''"
    by (cases k) (simp_all add: capitalize_def upper_char_def char_between_def)
  then have "n @ ''Target'' \<noteq> ''has'' @ capitalize (k @ ''Class'')" by (intro last_neq) simp
  moreover have "n @ ''Target'' \<noteq> k @ ''Class''" by (rule last_neq) simp
  ultimately show ?thesis by (simp add: propertiesForClassDefinition_def Let_def)
qed

lemma targets_blessing_get:
  assumes "n \<in> set ns" "\<forall>m\<in>set ns. n \<noteq> ''has'' @ capitalize m"
  shows "map_get (foldl (\<lambda>ps n. assign_all ps (propertiesForTargetDefinition n)) ps ns) (n @ ''Target'') =
    Some (getter_only (GTarget n))"
  using assms
proof (induction ns arbitrary: ps rule: rev_induct)
  case (snoc m ns)
  have neq: "n @ ''Target'' \<noteq> m @ ''Targets''" by (rule last_neq) simp
  have has: "n @ ''Target'' \<noteq> ''has'' @ capitalize m @ ''Target''" using snoc.prems(2) by (auto simp flip: append_assoc)
  have "map_get (rev (propertiesForTargetDefinition m)) (n @ ''Target'') = (if n = m then Some (getter_only (GTarget n)) else None)"
    using neq has by (auto simp: propertiesForTargetDefinition_def)
  then show ?case using snoc by (auto simp: assign_all_get)
qed simp

lemma camelize_value: "\<exists>p. camelize (s @ ''lue'') = p @ ''ue''"
proof (induction s rule: camelize.induct)
  case (1 c x s)
  show ?case
  proof (cases "(c = CHR ''_'' \<or> c = CHR ''-'') \<and> (char_between 97 122 x \<or> is_digit x)")
    case True
    with 1(1) obtain p where "camelize (s @ ''lue'') = p @ ''ue''" by blast
    then show ?thesis using True by (intro exI [of _ "upper_char x @ p"]) simp
  next
    case False
    with 1(2) obtain p where "camelize ((x # s) @ ''lue'') = p @ ''ue''" by blast
    then show ?thesis using False by (intro exI [of _ "c # p"]) auto
  qed
next
  show "\<exists>p. camelize ([] @ ''lue'') = p @ ''ue''" by (intro exI [of _ "''l''"]) (simp add: upper_char_def)
next
  fix c
  have "upper_char (CHR ''l'') = ''L''" by code_simp
  then have "camelize ([c] @ ''lue'') \<in> {c # ''lue'', ''Lue''}" by simp
  then show "\<exists>p. camelize ([c] @ ''lue'') = p @ ''ue''" by (metis append_Cons append_Nil insertE singletonD)
qed

lemma value_keys:
  assumes "propertiesForValueDefinitionPair p = Inr qs" shows "n @ ''Target'' \<notin> set (map_keys qs)"
proof -
  obtain vd where vd: "parseValueDefinitionPair p = Inr vd"
    "qs = [(vd_name vd, \<lparr>acc_get = Some (GValue vd), acc_set = Some (SValue vd)\<rparr>), (''has'' @ capitalize (vd_name vd), getter_only (GHasValue vd))]"
    using assms by (auto simp: propertiesForValueDefinitionPair_def split: sum.split_asm)
  obtain q where q: "vd_name vd = q @ ''ue''"
    using vd(1) camelize_value [of "dasherize (fst p) @ ''-va''"]
    by (auto simp: parseValueDefinitionPair_def valueDescriptorForTokenAndType_def Let_def split: sum.split_asm)
  have "last (''has'' @ capitalize (vd_name vd)) = CHR ''e''"
    unfolding q by (cases q) (simp_all add: capitalize_def upper_char_def char_between_def)
  then have "n @ ''Target'' \<noteq> ''has'' @ capitalize (vd_name vd)" by (intro last_neq) simp
  moreover have "n @ ''Target'' \<noteq> vd_name vd" unfolding q by (rule last_neq) simp
  ultimately show ?thesis by (simp add: vd(2))
qed

lemma values_blessing_get:
  "values_blessing pairs ps = Inr qs \<Longrightarrow> distinct (map_keys ps) \<Longrightarrow> map_get ps (n @ ''Target'') = None \<Longrightarrow>
    distinct (map_keys qs) \<and> map_get qs (n @ ''Target'') = None"
proof (induction pairs ps rule: values_blessing.induct)
  case (2 p rest ps)
  then obtain rs where rs: "propertiesForValueDefinitionPair p = Inr rs" "values_blessing rest (assign_all ps rs) = Inr qs"
    by (auto split: sum.split_asm)
  have "map_get (rev rs) (n @ ''Target'') = None" using value_keys [OF rs(1)] by (simp add: map_of_eq_None_iff)
  then have "map_get (assign_all ps rs) (n @ ''Target'') = None" using 2(4) by (simp add: assign_all_get)
  then show ?case using 2(1) [OF rs] distinct_assign_all [OF 2(3)] by blast
qed simp

lemma target_property:
  assumes n: "n \<in> set (readInheritableStaticArrayValues own_targets c)"
    and alone: "\<forall>m\<in>set (readInheritableStaticArrayValues own_targets c). n \<noteq> ''has'' @ capitalize m"
    and free: "map_get (own_members c) (n @ ''Target'') = None"
    and ps: "getBlessedProperties c = Inr ps"
  shows "\<exists>c'. bless c = Inr c' \<and> member_of c' (n @ ''Target'') = Some (MAccess (Some (GTarget n)) None)"
proof -
  let ?k = "n @ ''Target''"
  let ?cs = "ClassPropertiesBlessing c" and ?ts = "TargetPropertiesBlessing c"
  obtain vs where vs: "ValuePropertiesBlessing c = Inr vs" "ps = bless_into (bless_into (bless_into [] ?cs) ?ts) vs"
    using ps by (auto simp: getBlessedProperties_def Let_def split: sum.split_asm)
  have v: "distinct (map_keys vs)" "map_get vs ?k = None"
  proof -
    have "?k \<noteq> ''valueDescriptorMap''" by (rule last_neq) simp
    then show "distinct (map_keys vs)" "map_get vs ?k = None"
      using values_blessing_get [OF vs(1) [unfolded ValuePropertiesBlessing_def Let_def], of n] by auto
  qed
  have t: "distinct (map_keys ?ts)" "map_get ?ts ?k = Some (getter_only (GTarget n))"
    unfolding TargetPropertiesBlessing_def by (simp_all add: distinct_foldl_assign targets_blessing_get [OF n alone])
  have cl: "distinct (map_keys ?cs)" "map_get ?cs ?k = None"
    unfolding ClassPropertiesBlessing_def using class_keys by (simp_all add: distinct_foldl_assign keys_foldl_assign)
  have "map_get ps ?k = Some (getter_only (GTarget n))"
    unfolding vs(2) by (simp add: bless_into_get v t cl merge_accessor_def getter_only_def)
  then show ?thesis using bless_member [OF ps, of ?k] free by (simp add: getter_only_def)
qed

end
