(* ===== verification/StContext.thy ===== *)
theory StContext
  imports StObserve StValues
begin

section \<open>Contexts\<close>

text \<open>
  The classes of \<open>stimulus.js\<close> that run one controller on one element: \<open>StringMapObserver\<close> and
  \<open>ValueObserver\<close>, \<open>BindingObserver\<close>, \<open>Context\<close> and \<open>Module\<close>. The controller's own code is a
  parameter. The binding observer is a client of the value list observer: the bindings it
  has connected to the dispatcher are the actions its tokens stand for, and those of other
  contexts are left alone.
\<close>

subsection \<open>Controllers\<close>

text \<open>The code of a class of controllers: the class itself, what its constructor and its life-cycle
  methods do, the methods called when a value changes, and the methods actions name.\<close>

record 'u code =
  cd_class :: ctor
  cd_construct :: "scope \<Rightarrow> ('u, unit) js"
  cd_initialize :: "scope \<Rightarrow> ('u, unit) js"
  cd_connect :: "scope \<Rightarrow> ('u, unit) js"
  cd_disconnect :: "scope \<Rightarrow> ('u, unit) js"
  cd_changed :: "string \<Rightarrow> (scope \<Rightarrow> jsval \<Rightarrow> ('u, unit) js) option"
  cd_method :: "scope \<Rightarrow> string \<Rightarrow> (event_target \<Rightarrow> ('u \<times> bool, unit) js) option"

subsection \<open>\<open>StringMapObserver\<close>\<close>

record smo =
  sm_element :: elt
  sm_started :: bool
  sm_stringMap :: "(string \<times> string) list"

text \<open>The delegate: the key of an attribute, and the call for a changed value.\<close>

definition refreshAttribute :: "(string \<Rightarrow> string option) \<Rightarrow> (string \<Rightarrow> ('z page_scheme lworld, unit) js) \<Rightarrow> string \<Rightarrow>
    (smo \<times> 'z page_scheme lworld, unit) js" where
  "refreshAttribute keyFor changed attributeName = (\<lambda>(o1, w).
     case keyFor attributeName of
       None \<Rightarrow> (Inr (), o1, w)
     | Some key \<Rightarrow>
        (let value = getAttribute (doc_of w) (sm_element o1) attributeName;
             stored = (case value of
                None \<Rightarrow> o1\<lparr>sm_stringMap := map_delete attributeName (sm_stringMap o1)\<rparr>
              | Some v \<Rightarrow> o1\<lparr>sm_stringMap := map_set attributeName v (sm_stringMap o1)\<rparr>)
         in if map_get (sm_stringMap o1) attributeName \<noteq> value
            then (case changed key w of (Inl e, w') \<Rightarrow> (Inl e, o1, w') | (Inr _, w') \<Rightarrow> (Inr (), stored, w'))
            else (Inr (), stored, w)))"

definition knownAttributeNames :: "dom \<Rightarrow> smo \<Rightarrow> string list" where
  "knownAttributeNames d o1 = set_of (map_keys (dom_attrs d (sm_element o1)) @ map_keys (sm_stringMap o1))"

definition smo_refresh :: "(string \<Rightarrow> string option) \<Rightarrow> (string \<Rightarrow> ('z page_scheme lworld, unit) js) \<Rightarrow> (smo \<times> 'z page_scheme lworld, unit) js" where
  "smo_refresh keyFor changed =
     jbind (jget (\<lambda>(o1, w). (sm_started o1, knownAttributeNames (doc_of w) o1))) (\<lambda>(started, names).
       jwhen started (jforeach (refreshAttribute keyFor changed) names))"

definition smo_start :: "(string \<Rightarrow> string option) \<Rightarrow> (string \<Rightarrow> ('z page_scheme lworld, unit) js) \<Rightarrow> (smo \<times> 'z page_scheme lworld, unit) js" where
  "smo_start keyFor changed =
     jbind (jget (\<lambda>(o1, w). sm_started o1)) (\<lambda>started.
       jwhen (\<not> started) (jseq (jmodify (\<lambda>(o1, w). (o1\<lparr>sm_started := True\<rparr>, w))) (smo_refresh keyFor changed)))"

definition smo_stop :: "smo \<Rightarrow> smo" where
  "smo_stop o1 = (if sm_started o1 then o1\<lparr>sm_started := False\<rparr> else o1)"

definition smo_processMutations :: "(string \<Rightarrow> string option) \<Rightarrow> (string \<Rightarrow> ('z page_scheme lworld, unit) js) \<Rightarrow> string option list \<Rightarrow>
    (smo \<times> 'z page_scheme lworld, unit) js" where
  "smo_processMutations keyFor changed ns =
     jbind (jget (\<lambda>(o1, w). sm_started o1)) (\<lambda>started.
       jwhen started (jforeach (\<lambda>n. case n of
           Some a \<Rightarrow> if a = [] then jret () else refreshAttribute keyFor changed a
         | None \<Rightarrow> jret ()) ns))"

subsection \<open>\<open>ValueObserver\<close>\<close>

text \<open>\<open>attributeName in valueDescriptorMap\<close>. Of the names every object has, only \<open>constructor\<close> can be an
  attribute's; its \<open>name\<close> is \<open>Object\<close>.\<close>

definition getStringMapKeyForAttribute :: "(string \<times> value_descriptor) list \<Rightarrow> string \<Rightarrow> string option" where
  "getStringMapKeyForAttribute descriptors attributeName =
     (case map_get descriptors attributeName of
        Some vd \<Rightarrow> Some (vd_name vd)
      | None \<Rightarrow> if attributeName = ''constructor'' then Some ''Object'' else None)"

text \<open>The value the receiver has under a name: that of the descriptor with that name.\<close>

definition receiver_value :: "env \<Rightarrow> scope \<Rightarrow> (string \<times> value_descriptor) list \<Rightarrow> string \<Rightarrow> dom \<Rightarrow> jsval outcome" where
  "receiver_value E sc descriptors name d =
     (case List.find (\<lambda>vd. vd_name vd = name) (map snd descriptors) of
        Some vd \<Rightarrow> value_get E sc vd d | None \<Rightarrow> Inr JUndef)"

definition invokeChangedCallbackForValue :: "env \<Rightarrow> 'z page_scheme code \<Rightarrow> scope \<Rightarrow> (string \<times> value_descriptor) list \<Rightarrow> string \<Rightarrow>
    ('z page_scheme lworld, unit) js" where
  "invokeChangedCallbackForValue E cd sc descriptors name =
     (case cd_changed cd (name @ ''Changed'') of
        None \<Rightarrow> jret ()
      | Some m \<Rightarrow> jbind (jget doc_of) (\<lambda>d. jbind (jlift (receiver_value E sc descriptors name d)) (\<lambda>v. on_page (m sc v))))"

definition invokeChangedCallbacksForDefaultValues :: "env \<Rightarrow> 'z page_scheme code \<Rightarrow> scope \<Rightarrow> (string \<times> value_descriptor) list \<Rightarrow>
    ('z page_scheme lworld, unit) js" where
  "invokeChangedCallbacksForDefaultValues E cd sc descriptors =
     jforeach (\<lambda>vd. jbind (jget (\<lambda>w. data_has sc (vd_key vd) (doc_of w))) (\<lambda>has.
       jwhen (\<not> nullish (defaultValuesByType (vd_type vd)) \<and> \<not> has)
         (invokeChangedCallbackForValue E cd sc descriptors (vd_name vd)))) (map snd descriptors)"

definition descriptors_of :: "'u code \<Rightarrow> scope \<Rightarrow> (string \<times> value_descriptor) list outcome" where
  "descriptors_of cd sc = value_map sc (readInheritableStaticObjectPairs own_values (cd_class cd)) []"

subsection \<open>\<open>BindingObserver\<close>\<close>

text \<open>An action is an object of its own: it carries the number of its token.\<close>

type_synonym action_obj = "nat \<times> action"

record bo =
  bo_bindingsByAction :: "(action_obj \<times> binding) list"

definition new_binding :: "scope \<Rightarrow> action_obj \<Rightarrow> binding" where
  "new_binding sc a = \<lparr>b_uid = fst a, b_scope = sc, b_action = snd a\<rparr>"

definition connectAction :: "scope \<Rightarrow> action_obj \<Rightarrow> (bo \<times> 'u lworld, unit) js" where
  "connectAction sc a = jmodify (\<lambda>(b, w).
     (b\<lparr>bo_bindingsByAction := map_set a (new_binding sc a) (bo_bindingsByAction b)\<rparr>,
      w\<lparr>lw_dispatcher := dispatcher_bindingConnected (new_binding sc a) (lw_dispatcher w)\<rparr>))"

definition disconnectAction :: "action_obj \<Rightarrow> (bo \<times> 'u lworld, unit) js" where
  "disconnectAction a = jmodify (\<lambda>(b, w).
     case map_get (bo_bindingsByAction b) a of
       None \<Rightarrow> (b, w)
     | Some binding \<Rightarrow>
         (b\<lparr>bo_bindingsByAction := map_delete a (bo_bindingsByAction b)\<rparr>,
          w\<lparr>lw_dispatcher := dispatcher_bindingDisconnected binding (lw_dispatcher w)\<rparr>))"

definition disconnectAllActions :: "(bo \<times> 'u lworld, unit) js" where
  "disconnectAllActions = jmodify (\<lambda>(b, w).
     (b\<lparr>bo_bindingsByAction := []\<rparr>,
      w\<lparr>lw_dispatcher := fold dispatcher_bindingDisconnected (map snd (bo_bindingsByAction b)) (lw_dispatcher w)\<rparr>))"

definition binding_parse :: "string \<Rightarrow> token \<Rightarrow> bo \<times> 'z page_scheme lworld \<Rightarrow> action_obj option outcome \<times> bo" where
  "binding_parse identifier t = (\<lambda>(b, w).
     (case Action_forToken (doc_of w) (tk_element t) (tk_index t) (tk_content t) of
        Inl e \<Rightarrow> Inl e
      | Inr a \<Rightarrow> Inr (if act_identifier a = identifier then Some (tk_id t, a) else None), b))"

definition binding_ops :: "string \<Rightarrow> scope \<Rightarrow> (action_obj, bo, 'z page_scheme lworld) vl_delegate_ops" where
  "binding_ops identifier sc =
     \<lparr>dg_parse = binding_parse identifier,
      dg_matched = (\<lambda>e a. connectAction sc a),
      dg_unmatched = (\<lambda>e a. disconnectAction a)\<rparr>"

subsection \<open>\<open>Context\<close>\<close>

text \<open>\<open>cx_observer\<close> is the binding observer's value list observer, while it has one; it then holds the
  binding observer's table.\<close>

record cxt =
  cx_scope :: scope
  cx_bindings :: bo
  cx_observer :: "(action_obj, bo) vlo option"
  cx_values :: smo
  cx_descriptors :: "(string \<times> value_descriptor) list"

definition guarded :: "string \<Rightarrow> scope \<Rightarrow> ('u, unit) js \<Rightarrow> ('u lworld, unit) js" where
  "guarded what sc m = try_catch (on_page m) (\<lambda>e. handleError (what @ '' controller'') e sc None)"

definition newContext :: "env \<Rightarrow> 'z page_scheme code \<Rightarrow> scope \<Rightarrow> ('z page_scheme lworld, cxt) js" where
  "newContext E cd sc =
     jseq (on_page (cd_construct cd sc))
     (jbind (jlift (descriptors_of cd sc)) (\<lambda>descriptors.
      jseq (invokeChangedCallbacksForDefaultValues E cd sc descriptors)
     (jseq (guarded ''initializing'' sc (cd_initialize cd sc))
        (jret \<lparr>cx_scope = sc, cx_bindings = \<lparr>bo_bindingsByAction = []\<rparr>, cx_observer = None,
               cx_values = \<lparr>sm_element = sc_element sc, sm_started = False, sm_stringMap = []\<rparr>,
               cx_descriptors = descriptors\<rparr>))))"

definition bindings_start :: "schema \<Rightarrow> string \<Rightarrow> (cxt \<times> 'z page_scheme lworld, unit) js" where
  "bindings_start S identifier = (\<lambda>(c, w).
     case cx_observer c of
       Some _ \<Rightarrow> (Inr (), c, w)
     | None \<Rightarrow>
        (case observer_start (binding_ops identifier (cx_scope c))
                (newValueListObserver (sc_element (cx_scope c)) (actionAttribute S) (cx_bindings c), w) of
           (r, ob, w') \<Rightarrow> (r, c\<lparr>cx_observer := Some ob\<rparr>, w')))"

definition bindings_stop :: "(cxt \<times> 'z page_scheme lworld, unit) js" where
  "bindings_stop = (\<lambda>(c, w).
     case cx_observer c of
       None \<Rightarrow> (Inr (), c, w)
     | Some ob \<Rightarrow>
        (case disconnectAllActions (vl_delegate ob, w) of
           (r, b, w') \<Rightarrow> (r, c\<lparr>cx_bindings := b, cx_observer := None\<rparr>, w')))"

definition values_start :: "env \<Rightarrow> 'z page_scheme code \<Rightarrow> (cxt \<times> 'z page_scheme lworld, unit) js" where
  "values_start E cd = (\<lambda>(c, w).
     case smo_start (getStringMapKeyForAttribute (cx_descriptors c))
            (invokeChangedCallbackForValue E cd (cx_scope c) (cx_descriptors c)) (cx_values c, w) of
       (r, o1, w') \<Rightarrow> (r, c\<lparr>cx_values := o1\<rparr>, w'))"

definition on_world :: "('w, 'a) js \<Rightarrow> ('x \<times> 'w, 'a) js" where
  "on_world m = (\<lambda>(x, w). case m w of (r, w') \<Rightarrow> (r, x, w'))"

definition context_connect :: "env \<Rightarrow> schema \<Rightarrow> string \<Rightarrow> 'z page_scheme code \<Rightarrow> (cxt \<times> 'z page_scheme lworld, unit) js" where
  "context_connect E S identifier cd =
     jseq (bindings_start S identifier)
     (jseq (values_start E cd)
       (jbind (jget (\<lambda>(c, w). cx_scope c)) (\<lambda>sc. on_world (guarded ''connecting'' sc (cd_connect cd sc)))))"

definition context_disconnect :: "'z page_scheme code \<Rightarrow> (cxt \<times> 'z page_scheme lworld, unit) js" where
  "context_disconnect cd =
     jseq (jbind (jget (\<lambda>(c, w). cx_scope c)) (\<lambda>sc. on_world (guarded ''disconnecting'' sc (cd_disconnect cd sc))))
     (jseq (jmodify (\<lambda>(c, w). (c\<lparr>cx_values := smo_stop (cx_values c)\<rparr>, w)))
       bindings_stop)"

text \<open>What the two observers of a context do when the browser hands them their records.\<close>

definition bindings_processMutations :: "string \<Rightarrow> mutation list \<Rightarrow> (cxt \<times> 'z page_scheme lworld, unit) js" where
  "bindings_processMutations identifier ms = (\<lambda>(c, w).
     case cx_observer c of
       None \<Rightarrow> (Inr (), c, w)
     | Some ob \<Rightarrow>
        (case processMutations (binding_ops identifier (cx_scope c)) ms (ob, w) of
           (r, ob', w') \<Rightarrow> (r, c\<lparr>cx_observer := Some ob'\<rparr>, w')))"

definition values_processMutations :: "env \<Rightarrow> 'z page_scheme code \<Rightarrow> string option list \<Rightarrow> (cxt \<times> 'z page_scheme lworld, unit) js" where
  "values_processMutations E cd ns = (\<lambda>(c, w).
     case smo_processMutations (getStringMapKeyForAttribute (cx_descriptors c))
            (invokeChangedCallbackForValue E cd (cx_scope c) (cx_descriptors c)) ns (cx_values c, w) of
       (r, o1, w') \<Rightarrow> (r, c\<lparr>cx_values := o1\<rparr>, w'))"

subsection \<open>\<open>Module\<close>\<close>

text \<open>A context is found by its scope; the set of connected contexts is the list of their scopes.\<close>

record 'u modul =
  m_identifier :: string
  m_code :: "'u code"
  m_contextsByScope :: "(scope \<times> cxt) list"
  m_connectedContexts :: "scope list"

text \<open>\<open>new Module\<close>: blessing the class may throw.\<close>

definition newModule :: "string \<Rightarrow> 'u code \<Rightarrow> 'u modul outcome" where
  "newModule identifier cd =
     (case bless (cd_class cd) of
        Inl e \<Rightarrow> Inl e
      | Inr c \<Rightarrow> Inr \<lparr>m_identifier = identifier, m_code = cd, m_contextsByScope = [], m_connectedContexts = []\<rparr>)"

definition fetchContextForScope :: "env \<Rightarrow> scope \<Rightarrow> ('z page_scheme modul \<times> 'z page_scheme lworld, cxt) js" where
  "fetchContextForScope E sc = (\<lambda>(md, w).
     case map_get (m_contextsByScope md) sc of
       Some c \<Rightarrow> (Inr c, md, w)
     | None \<Rightarrow>
        (case newContext E (m_code md) sc w of
           (Inl e, w') \<Rightarrow> (Inl e, md, w')
         | (Inr c, w') \<Rightarrow> (Inr c, md\<lparr>m_contextsByScope := map_set sc c (m_contextsByScope md)\<rparr>, w')))"

definition on_context :: "scope \<Rightarrow> (cxt \<times> 'z page_scheme lworld, unit) js \<Rightarrow> ('z page_scheme modul \<times> 'z page_scheme lworld, unit) js" where
  "on_context sc m = (\<lambda>(md, w).
     case map_get (m_contextsByScope md) sc of
       None \<Rightarrow> (Inr (), md, w)
     | Some c \<Rightarrow> (case m (c, w) of (r, c', w') \<Rightarrow> (r, md\<lparr>m_contextsByScope := map_set sc c' (m_contextsByScope md)\<rparr>, w')))"

definition connectContextForScope :: "env \<Rightarrow> schema \<Rightarrow> scope \<Rightarrow> ('z page_scheme modul \<times> 'z page_scheme lworld, unit) js" where
  "connectContextForScope E S sc =
     jbind (fetchContextForScope E sc) (\<lambda>_.
     jseq (jmodify (\<lambda>(md, w). (md\<lparr>m_connectedContexts := set_add sc (m_connectedContexts md)\<rparr>, w)))
       (jbind (jget (\<lambda>(md, w). (m_identifier md, m_code md))) (\<lambda>(identifier, cd).
          on_context sc (context_connect E S identifier cd))))"

definition disconnectContextForScope :: "scope \<Rightarrow> ('z page_scheme modul \<times> 'z page_scheme lworld, unit) js" where
  "disconnectContextForScope sc =
     jbind (jget (\<lambda>(md, w). (map_get (m_contextsByScope md) sc \<noteq> None, m_code md))) (\<lambda>(there, cd).
       jwhen there
         (jseq (jmodify (\<lambda>(md, w). (md\<lparr>m_connectedContexts := set_delete sc (m_connectedContexts md)\<rparr>, w)))
           (on_context sc (context_disconnect cd))))"

section \<open>What contexts keep\<close>

subsection \<open>The binding observer is a client of the value list observer\<close>

definition bspec :: "string \<Rightarrow> dom \<Rightarrow> token \<Rightarrow> action_obj option" where
  "bspec identifier d t =
     (case Action_forToken d (tk_element t) (tk_index t) (tk_content t) of
        Inl e \<Rightarrow> None
      | Inr a \<Rightarrow> if act_identifier a = identifier then Some (tk_id t, a) else None)"

text \<open>The bindings for the values that stand; \<open>others\<close> are the ones of other contexts.\<close>

definition bindings_of :: "scope \<Rightarrow> (token \<Rightarrow> action_obj option) \<Rightarrow> binding set" where
  "bindings_of sc M = {new_binding sc a | a. \<exists>t. M t = Some a}"

definition binv :: "scope \<Rightarrow> binding set \<Rightarrow> (token \<Rightarrow> action_obj option) \<Rightarrow> bo \<Rightarrow> 'z page_scheme lworld \<Rightarrow> bool" where
  "binv sc others M b w \<longleftrightarrow>
     disp_ok (lw_dispatcher w) \<and> (\<forall>c\<in>others. b_scope c \<noteq> sc) \<and>
     bound (lw_dispatcher w) = others \<union> bindings_of sc M \<and>
     (\<forall>a c. map_get (bo_bindingsByAction b) a = Some c \<longleftrightarrow> (\<exists>t. M t = Some a) \<and> c = new_binding sc a) \<and>
     distinct (map_keys (bo_bindingsByAction b)) \<and>
     (\<forall>t a. M t = Some a \<longrightarrow> fst a = tk_id t) \<and>
     (\<forall>t t'. M t \<noteq> None \<longrightarrow> M t' \<noteq> None \<longrightarrow> tk_id t = tk_id t' \<longrightarrow> t = t')"

lemma new_binding_inj: "new_binding sc x = new_binding sc y \<longleftrightarrow> x = y"
  by (auto simp: new_binding_def prod_eq_iff)

lemma binv_matched:
  assumes "binv sc others M b w" "\<And>t'. M t' \<noteq> None \<Longrightarrow> tk_id t' \<noteq> tk_id t" "fst a = tk_id t"
  shows "\<exists>b' w'. connectAction sc a (b, w) = (Inr (), b', w') \<and> binv sc others (M(t \<mapsto> a)) b' w' \<and> doc_of w' = doc_of w"
proof -
  let ?b = "b\<lparr>bo_bindingsByAction := map_set a (new_binding sc a) (bo_bindingsByAction b)\<rparr>"
  let ?w = "w\<lparr>lw_dispatcher := dispatcher_bindingConnected (new_binding sc a) (lw_dispatcher w)\<rparr>"
  have none: "M t = None" using assms(2) by blast
  have ex: "(\<exists>t'. (M(t \<mapsto> a)) t' = Some x) \<longleftrightarrow> (\<exists>t'. M t' = Some x) \<or> x = a" for x
    using none by (metis fun_upd_apply option.distinct(1) option.inject)
  have set: "bindings_of sc (M(t \<mapsto> a)) = insert (new_binding sc a) (bindings_of sc M)"
    unfolding bindings_of_def ex by blast
  have uniq: "t1 = t2" if "(M(t \<mapsto> a)) t1 \<noteq> None" "(M(t \<mapsto> a)) t2 \<noteq> None" "tk_id t1 = tk_id t2" for t1 t2
  proof (cases "t1 = t \<or> t2 = t")
    case True
    then show ?thesis using that assms(2) [of t1] assms(2) [of t2] by (auto split: if_split_asm)
  next
    case False
    then have "M t1 \<noteq> None" "M t2 \<noteq> None" using that by auto
    then show ?thesis using assms(1) that(3) unfolding binv_def by blast
  qed
  have "disp_ok (lw_dispatcher ?w) \<and> bound (lw_dispatcher ?w) = others \<union> bindings_of sc (M(t \<mapsto> a)) \<and>
      (\<forall>x c. map_get (bo_bindingsByAction ?b) x = Some c \<longleftrightarrow> (\<exists>t'. (M(t \<mapsto> a)) t' = Some x) \<and> c = new_binding sc x) \<and>
      distinct (map_keys (bo_bindingsByAction ?b)) \<and> (\<forall>t' x. (M(t \<mapsto> a)) t' = Some x \<longrightarrow> fst x = tk_id t')"
    using assms(1,3) unfolding binv_def set ex by (auto simp: connected_ok bound_connected split: if_split_asm)
  then have "binv sc others (M(t \<mapsto> a)) ?b ?w"
    using uniq assms(1) unfolding binv_def by blast
  then show ?thesis by (intro exI [of _ ?b] exI [of _ ?w]) (simp add: connectAction_def doc_of_def)
qed

lemma binv_unmatched:
  assumes inv: "binv sc others M b w" and t: "M t = Some a"
  shows "\<exists>b' w'. disconnectAction a (b, w) = (Inr (), b', w') \<and> binv sc others (M(t := None)) b' w' \<and> doc_of w' = doc_of w"
proof -
  let ?b = "b\<lparr>bo_bindingsByAction := map_delete a (bo_bindingsByAction b)\<rparr>"
  let ?w = "w\<lparr>lw_dispatcher := dispatcher_bindingDisconnected (new_binding sc a) (lw_dispatcher w)\<rparr>"
  have get: "map_get (bo_bindingsByAction b) a = Some (new_binding sc a)" using inv t unfolding binv_def by blast
  have only: "t' = t" if "M t' = Some a" for t'
  proof -
    have "fst a = tk_id t'" "fst a = tk_id t" using inv t that unfolding binv_def by blast+
    then show ?thesis using inv t that unfolding binv_def by (metis option.distinct(1))
  qed
  have ex: "(\<exists>t'. (M(t := None)) t' = Some x) \<longleftrightarrow> (\<exists>t'. M t' = Some x) \<and> x \<noteq> a" for x
  proof
    assume "\<exists>t'. (M(t := None)) t' = Some x"
    then obtain t' where "t' \<noteq> t" "M t' = Some x" by (auto split: if_split_asm)
    then show "(\<exists>t'. M t' = Some x) \<and> x \<noteq> a" using only by blast
  next
    assume "(\<exists>t'. M t' = Some x) \<and> x \<noteq> a"
    then obtain t' where "M t' = Some x" "x \<noteq> a" by blast
    then show "\<exists>t'. (M(t := None)) t' = Some x" using t by (intro exI [of _ t']) auto
  qed
  have set: "bindings_of sc (M(t := None)) = bindings_of sc M - {new_binding sc a}"
    unfolding bindings_of_def ex by (auto simp: new_binding_inj)
  have own: "new_binding sc a \<notin> others" using inv by (auto simp: binv_def new_binding_def)
  have "binv sc others (M(t := None)) ?b ?w"
    using inv own unfolding binv_def set ex
    by (auto simp: disconnected_ok bound_disconnected split: if_split_asm)
  then show ?thesis using get
    by (intro exI [of _ ?b] exI [of _ ?w]) (simp add: disconnectAction_def doc_of_def)
qed

text \<open>All actions of a document are plain; then so are the listeners of the dispatcher, if they were.\<close>

definition plain_doc :: "string \<Rightarrow> dom \<Rightarrow> bool" where
  "plain_doc an d \<longleftrightarrow> (\<forall>e. \<forall>c\<in>set (token_contents (attr_string d an e)). \<forall>k a. Action_forToken d e k c = Inr a \<longrightarrow> plain_act a)"

definition binvp :: "bool \<Rightarrow> string \<Rightarrow> scope \<Rightarrow> binding set \<Rightarrow> (token \<Rightarrow> action_obj option) \<Rightarrow> bo \<Rightarrow> 'z page_scheme lworld \<Rightarrow> bool" where
  "binvp N an sc others M b w \<longleftrightarrow> binv sc others M b w \<and> (N \<and> plain_doc an (doc_of w) \<longrightarrow> plain_names (lw_dispatcher w))"

lemma binvp_matched:
  assumes inv: "binvp N an sc others M b w" and new: "\<And>t'. M t' \<noteq> None \<Longrightarrow> tk_id t' \<noteq> tk_id t"
    and real: "in_attr (doc_of w) an t" and a: "bspec ident (doc_of w) t = Some a"
  shows "\<exists>b' w'. connectAction sc a (b, w) = (Inr (), b', w') \<and> binvp N an sc others (M(t \<mapsto> a)) b' w' \<and> doc_of w' = doc_of w"
proof -
  obtain act where act: "Action_forToken (doc_of w) (tk_element t) (tk_index t) (tk_content t) = Inr act" "a = (tk_id t, act)"
    using a by (auto simp: bspec_def split: sum.split_asm if_split_asm)
  have i: "binv sc others M b w" using inv by (simp add: binvp_def)
  obtain b' w' where r: "connectAction sc a (b, w) = (Inr (), b', w')" "binv sc others (M(t \<mapsto> a)) b' w'" "doc_of w' = doc_of w"
    using binv_matched [OF i new, of a] act(2) by auto
  have "lw_dispatcher w' = dispatcher_bindingConnected (new_binding sc a) (lw_dispatcher w)"
    using r(1) by (auto simp: connectAction_def)
  moreover have "plain_binding (new_binding sc a)" if "plain_doc an (doc_of w)"
    using that real act unfolding plain_doc_def in_attr_def plain_binding_def by (simp add: new_binding_def)
  ultimately have "binvp N an sc others (M(t \<mapsto> a)) b' w'"
    using inv r(2,3) plain_connected by (auto simp: binvp_def)
  then show ?thesis using r by blast
qed

lemma binvp_unmatched:
  assumes inv: "binvp N an sc others M b w" and t: "M t = Some a"
  shows "\<exists>b' w'. disconnectAction a (b, w) = (Inr (), b', w') \<and> binvp N an sc others (M(t := None)) b' w' \<and> doc_of w' = doc_of w"
proof -
  have i: "binv sc others M b w" using inv by (simp add: binvp_def)
  obtain b' w' where r: "disconnectAction a (b, w) = (Inr (), b', w')" "binv sc others (M(t := None)) b' w'" "doc_of w' = doc_of w"
    using binv_unmatched [OF i t] by blast
  have "map_get (bo_bindingsByAction b) a = Some (new_binding sc a)" using i t unfolding binv_def by blast
  then have "lw_dispatcher w' = dispatcher_bindingDisconnected (new_binding sc a) (lw_dispatcher w)"
    using r(1) by (auto simp: disconnectAction_def)
  moreover have "new_binding sc a \<in> bound (lw_dispatcher w)" "disp_ok (lw_dispatcher w)"
    using i t unfolding binv_def bindings_of_def by blast+
  ultimately have "binvp N an sc others (M(t := None)) b' w'"
    using inv r(2,3) plain_disconnected by (auto simp: binvp_def)
  then show ?thesis using r by blast
qed

interpretation bclient: vl_client "binding_ops ident sc" "binvp N an sc others" "bspec ident" an for ident N an sc others
proof
  fix M b w t r d'
  assume inv: "binvp N an sc others M b w" and r: "dg_parse (binding_ops ident sc) t (b, w) = (r, d')"
  show "binvp N an sc others M d' w \<and> (case r of Inl x \<Rightarrow> None | Inr v \<Rightarrow> v) = bspec ident (doc_of w) t"
    using inv r by (auto simp: binding_ops_def binding_parse_def bspec_def split: sum.split)
next
  fix M b w t a
  assume "binvp N an sc others M b w" "\<And>t'. M t' \<noteq> None \<Longrightarrow> tk_id t' \<noteq> tk_id t" "in_attr (doc_of w) an t"
    "bspec ident (doc_of w) t = Some a"
  then show "\<exists>d' w'. dg_matched (binding_ops ident sc) (tk_element t) a (b, w) = (Inr (), d', w') \<and>
      binvp N an sc others (M(t \<mapsto> a)) d' w' \<and> doc_of w' = doc_of w"
    using binvp_matched [of N an sc others M b w t ident a] by (simp add: binding_ops_def)
next
  fix M b w t a
  assume "binvp N an sc others M b w" "M t = Some a"
  then show "\<exists>d' w'. dg_unmatched (binding_ops ident sc) (tk_element t) a (b, w) = (Inr (), d', w') \<and>
      binvp N an sc others (M(t := None)) d' w' \<and> doc_of w' = doc_of w"
    using binvp_unmatched by (simp add: binding_ops_def)
qed

subsection \<open>The string map follows the attributes\<close>

text \<open>With a delegate that does not throw, refreshing an attribute that has a key records its value.\<close>

lemma refreshAttribute_run:
  assumes "\<And>k w. \<exists>w'. changed k w = (Inr (), w') \<and> doc_of w' = doc_of w"
  shows "\<exists>o2 w2. refreshAttribute keyFor changed n (o1, w) = (Inr (), o2, w2) \<and> doc_of w2 = doc_of w \<and>
    sm_element o2 = sm_element o1 \<and> sm_started o2 = sm_started o1 \<and>
    (\<forall>m. map_get (sm_stringMap o2) m =
       (if m = n \<and> keyFor n \<noteq> None then getAttribute (doc_of w) (sm_element o1) n else map_get (sm_stringMap o1) m))"
proof (cases "keyFor n")
  case None
  then show ?thesis by (simp add: refreshAttribute_def)
next
  case (Some k)
  let ?v = "getAttribute (doc_of w) (sm_element o1) n"
  obtain w' where w': "changed k w = (Inr (), w')" "doc_of w' = doc_of w" using assms by blast
  let ?o = "case ?v of None \<Rightarrow> o1\<lparr>sm_stringMap := map_delete n (sm_stringMap o1)\<rparr>
      | Some v \<Rightarrow> o1\<lparr>sm_stringMap := map_set n v (sm_stringMap o1)\<rparr>"
  have "refreshAttribute keyFor changed n (o1, w) = (Inr (), ?o, if map_get (sm_stringMap o1) n \<noteq> ?v then w' else w)"
    using Some w'(1) by (simp add: refreshAttribute_def Let_def)
  then show ?thesis using Some w'(2) by (auto split: option.split)
qed

lemma refresh_all_run:
  assumes "\<And>k w. \<exists>w'. changed k w = (Inr (), w') \<and> doc_of w' = doc_of w"
  shows "\<exists>o2 w2. jforeach (refreshAttribute keyFor changed) ns (o1, w) = (Inr (), o2, w2) \<and> doc_of w2 = doc_of w \<and>
    sm_element o2 = sm_element o1 \<and> sm_started o2 = sm_started o1 \<and>
    (\<forall>m. map_get (sm_stringMap o2) m =
       (if m \<in> set ns \<and> keyFor m \<noteq> None then getAttribute (doc_of w) (sm_element o1) m else map_get (sm_stringMap o1) m))"
proof (induction ns arbitrary: o1 w)
  case Nil
  then show ?case by (intro exI [of _ o1] exI [of _ w]) simp
next
  case (Cons n ns)
  obtain o2 w2 where one: "refreshAttribute keyFor changed n (o1, w) = (Inr (), o2, w2)" "doc_of w2 = doc_of w"
    "sm_element o2 = sm_element o1" "sm_started o2 = sm_started o1"
    "\<forall>m. map_get (sm_stringMap o2) m =
       (if m = n \<and> keyFor n \<noteq> None then getAttribute (doc_of w) (sm_element o1) n else map_get (sm_stringMap o1) m)"
    using refreshAttribute_run [of changed keyFor n o1 w] assms by blast
  obtain o3 w3 where two: "jforeach (refreshAttribute keyFor changed) ns (o2, w2) = (Inr (), o3, w3)" "doc_of w3 = doc_of w2"
    "sm_element o3 = sm_element o2" "sm_started o3 = sm_started o2"
    "\<forall>m. map_get (sm_stringMap o3) m =
       (if m \<in> set ns \<and> keyFor m \<noteq> None then getAttribute (doc_of w2) (sm_element o2) m else map_get (sm_stringMap o2) m)"
    using Cons.IH [of o2 w2] by blast
  have "map_get (sm_stringMap o3) m =
      (if m \<in> set (n # ns) \<and> keyFor m \<noteq> None then getAttribute (doc_of w) (sm_element o1) m else map_get (sm_stringMap o1) m)" for m
    using one(2,3,5) two(5) by (cases "m = n"; cases "keyFor m") simp_all
  then show ?case using one two by (intro exI [of _ o3] exI [of _ w3]) (simp add: jseq_run)
qed

text \<open>A started observer has exactly the attributes that have a key, with their values.\<close>

lemma smo_start_tracks:
  assumes "\<And>k w. \<exists>w'. changed k w = (Inr (), w') \<and> doc_of w' = doc_of w" and "\<not> sm_started o1"
    and lower: "\<And>m. keyFor m \<noteq> None \<Longrightarrow> ascii_lower m = m"
  shows "\<exists>o2 w2. smo_start keyFor changed (o1, w) = (Inr (), o2, w2) \<and> doc_of w2 = doc_of w \<and> sm_started o2 \<and>
    sm_element o2 = sm_element o1 \<and>
    (\<forall>m. keyFor m \<noteq> None \<longrightarrow> map_get (sm_stringMap o2) m = getAttribute (doc_of w) (sm_element o1) m)"
proof -
  let ?o = "o1\<lparr>sm_started := True\<rparr>"
  let ?ns = "knownAttributeNames (doc_of w) ?o"
  obtain o2 w2 where r: "jforeach (refreshAttribute keyFor changed) ?ns (?o, w) = (Inr (), o2, w2)" "doc_of w2 = doc_of w"
    "sm_element o2 = sm_element ?o" "sm_started o2 = sm_started ?o"
    "\<forall>m. map_get (sm_stringMap o2) m =
       (if m \<in> set ?ns \<and> keyFor m \<noteq> None then getAttribute (doc_of w) (sm_element ?o) m else map_get (sm_stringMap ?o) m)"
    using refresh_all_run [of changed keyFor ?ns ?o w] assms(1) by blast
  have "map_get (sm_stringMap o2) m = getAttribute (doc_of w) (sm_element o1) m" if "keyFor m \<noteq> None" for m
  proof (cases "m \<in> set ?ns")
    case False
    then have "map_get (sm_stringMap o1) m = None" "map_get (dom_attrs (doc_of w) (sm_element o1)) m = None"
      by (auto simp: knownAttributeNames_def map_of_eq_None_iff)
    then show ?thesis using r(5) False lower [OF that] by (simp add: getAttribute_def)
  qed (use r(5) that in simp)
  then show ?thesis using r assms(2)
    by (intro exI [of _ o2] exI [of _ w2]) (simp add: smo_start_def smo_refresh_def jbind_run jseq_run)
qed

subsection \<open>Connecting and disconnecting a context\<close>

text \<open>Code that can be relied on: its class can be blessed, its constructor returns, its life-cycle
  methods leave the document as it is (they may throw), and it has no methods for changed values.\<close>

definition calm :: "'z page_scheme code \<Rightarrow> bool" where
  "calm cd \<longleftrightarrow>
     (\<exists>c. bless (cd_class cd) = Inr c) \<and>
     (\<forall>sc p. fst (cd_construct cd sc p) = Inr () \<and> pg_dom (snd (cd_construct cd sc p)) = pg_dom p) \<and>
     (\<forall>sc p. pg_dom (snd (cd_initialize cd sc p)) = pg_dom p) \<and>
     (\<forall>sc p. pg_dom (snd (cd_connect cd sc p)) = pg_dom p) \<and>
     (\<forall>sc p. pg_dom (snd (cd_disconnect cd sc p)) = pg_dom p) \<and>
     (\<forall>n. cd_changed cd n = None)"

lemma calm_dom:
  assumes "calm cd"
  shows "pg_dom (snd (cd_initialize cd sc p)) = pg_dom p" "pg_dom (snd (cd_connect cd sc p)) = pg_dom p"
    "pg_dom (snd (cd_disconnect cd sc p)) = pg_dom p"
  using assms by (simp_all add: calm_def)

lemma guarded_run:
  fixes w :: "'z page_scheme lworld"
  assumes "\<And>p. pg_dom (snd (m p)) = pg_dom p"
  shows "\<exists>w'. guarded what sc m w = (Inr (), w') \<and> doc_of w' = doc_of w \<and> lw_dispatcher w' = lw_dispatcher w"
proof -
  obtain r p where m: "m (lw_page w) = (r, p)" by (cases "m (lw_page w)")
  then have "pg_dom p = doc_of w" using assms [of "lw_page w"] by (simp add: doc_of_def)
  then show ?thesis using m
    by (cases r) (auto simp: guarded_def try_catch_def on_page_def handleError_def doc_of_def)
qed

lemma value_map_total:
  "values_blessing pairs ps = Inr qs \<Longrightarrow> \<exists>m'. value_map sc pairs m = Inr m'"
  by (induction pairs ps arbitrary: m rule: values_blessing.induct)
    (auto simp: propertiesForValueDefinitionPair_def split: sum.split_asm)

lemma newContext_run:
  fixes w :: "'z page_scheme lworld"
  assumes "calm cd"
  shows "\<exists>c w'. newContext E cd sc w = (Inr c, w') \<and> cx_scope c = sc \<and> cx_observer c = None \<and>
    bo_bindingsByAction (cx_bindings c) = [] \<and> doc_of w' = doc_of w \<and> lw_dispatcher w' = lw_dispatcher w"
proof -
  let ?p = "snd (cd_construct cd sc (lw_page w))"
  let ?w1 = "w\<lparr>lw_page := ?p\<rparr>"
  have c1: "on_page (cd_construct cd sc) w = (Inr (), ?w1)" "doc_of ?w1 = doc_of w"
    using assms by (auto simp: calm_def on_page_def doc_of_def case_prod_beta)
  obtain qs where "values_blessing (readInheritableStaticObjectPairs own_values (cd_class cd))
      [(''valueDescriptorMap'', getter_only (GValueMap (readInheritableStaticObjectPairs own_values (cd_class cd))))] = Inr qs"
    using assms by (auto simp: calm_def bless_def getBlessedProperties_def ValuePropertiesBlessing_def Let_def split: sum.split_asm)
  from value_map_total [OF this] obtain ds where ds: "descriptors_of cd sc = Inr ds" by (auto simp: descriptors_of_def)
  have quiet: "invokeChangedCallbackForValue E cd sc ds n = jret ()" for n
    using assms by (simp add: calm_def invokeChangedCallbackForValue_def)
  have changed: "invokeChangedCallbacksForDefaultValues E cd sc ds v = (Inr (), v)" for v :: "'z page_scheme lworld"
  proof -
    have "jforeach (\<lambda>vd. jbind (jget (\<lambda>w. data_has sc (vd_key vd) (doc_of w))) (\<lambda>has.
        jwhen (\<not> nullish (defaultValuesByType (vd_type vd)) \<and> \<not> has) (jret ()))) vs v = (Inr (), v)"
      for vs and v :: "'z page_scheme lworld"
      by (induction vs) (simp_all add: jseq_run jbind_run)
    then show ?thesis by (simp add: invokeChangedCallbacksForDefaultValues_def quiet)
  qed
  obtain w2 where w2: "guarded ''initializing'' sc (cd_initialize cd sc) ?w1 = (Inr (), w2)" "doc_of w2 = doc_of ?w1"
    "lw_dispatcher w2 = lw_dispatcher ?w1" using guarded_run [OF calm_dom(1) [OF assms, of sc]] by blast
  show ?thesis using c1 ds changed w2
    by (auto simp: newContext_def jseq_run jbind_run)
qed

text \<open>A context that observes its element, and one that does not.\<close>

definition own_bound :: "scope \<Rightarrow> 'u lworld \<Rightarrow> binding set" where
  "own_bound sc w = {b \<in> bound (lw_dispatcher w). b_scope b = sc}"

definition other_bound :: "scope \<Rightarrow> 'u lworld \<Rightarrow> binding set" where
  "other_bound sc w = {b \<in> bound (lw_dispatcher w). b_scope b \<noteq> sc}"

definition observing :: "schema \<Rightarrow> scope \<Rightarrow> cxt \<Rightarrow> 'z page_scheme lworld \<Rightarrow> bool" where
  "observing S sc c w \<longleftrightarrow> cx_scope c = sc \<and> (\<exists>ob. cx_observer c = Some ob \<and> tables_ok ob \<and> elements_ok ob \<and>
     binv sc (other_bound sc w) (token_values ob) (vl_delegate ob) w \<and>
     eo_element ob = sc_element sc \<and> ao_attributeName ob = actionAttribute S)"

definition idle :: "scope \<Rightarrow> cxt \<Rightarrow> bool" where
  "idle sc c \<longleftrightarrow> cx_scope c = sc \<and> cx_observer c = None \<and> bo_bindingsByAction (cx_bindings c) = []"

text \<open>The observer of a context knows the actions the document has below its element.\<close>

definition dom_elems :: "dom \<Rightarrow> elt set" where
  "dom_elems d = set (concat (map dt_elems (dom_trees d)))"

definition tracking :: "schema \<Rightarrow> string \<Rightarrow> dom \<Rightarrow> scope \<Rightarrow> cxt \<Rightarrow> bool" where
  "tracking S identifier d sc c \<longleftrightarrow> (\<exists>ob. cx_observer c = Some ob \<and> view ob = wanted d (sc_element sc) (actionAttribute S) \<and>
     (\<forall>e. \<forall>t\<in>set (tokens_of ob e). value_of_token ob t = bspec identifier d t))"

lemma binv_others: "binv sc others M b w \<Longrightarrow> others = other_bound sc w \<and> own_bound sc w = bindings_of sc M"
  by (auto simp: binv_def other_bound_def own_bound_def bindings_of_def new_binding_def)

lemma consistent_unfold: "bclient.consistent N an sc others ob w \<longleftrightarrow> tables_ok ob \<and> elements_ok ob \<and> ao_attributeName ob = an \<and>
    binv sc others (token_values ob) (vl_delegate ob) w \<and> (N \<and> plain_doc an (doc_of w) \<longrightarrow> plain_names (lw_dispatcher w))"
  by (auto simp: bclient.consistent_def bclient.good_def binvp_def)

text \<open>What happens to other contexts does not concern it.\<close>

lemma observing_frame:
  assumes "observing S sc c w" "disp_ok (lw_dispatcher w')" "own_bound sc w' = own_bound sc w"
  shows "observing S sc c w'"
proof -
  have "binv sc (other_bound sc w') M b w'" if i: "binv sc (other_bound sc w) M b w" for M b
  proof -
    have "bound (lw_dispatcher w') = other_bound sc w' \<union> bindings_of sc M"
      using binv_others [OF i] assms(3) by (auto simp: other_bound_def own_bound_def)
    moreover have "\<forall>c\<in>other_bound sc w'. b_scope c \<noteq> sc" by (simp add: other_bound_def)
    ultimately show ?thesis using i assms(2) unfolding binv_def by blast
  qed
  then show ?thesis using assms(1) unfolding observing_def by blast
qed

lemma newVlo_consistent:
  assumes "disp_ok (lw_dispatcher w)" "own_bound sc w = {}" "bo_bindingsByAction b = []"
    and "N \<and> plain_doc an (doc_of w) \<longrightarrow> plain_names (lw_dispatcher w)"
  shows "bclient.consistent N an sc (other_bound sc w) (newValueListObserver e an b) w"
proof -
  let ?ob = "newValueListObserver e an b :: (action_obj, bo) vlo"
  have "bound (lw_dispatcher w) = other_bound sc w" using assms(2) by (auto simp: own_bound_def other_bound_def)
  then have "binv sc (other_bound sc w) (\<lambda>_. None) b w"
    using assms by (auto simp: binv_def bindings_of_def other_bound_def)
  moreover have "token_values ?ob = (\<lambda>_. None)" by (simp add: token_values_def newValueListObserver_def getValuesForKey_def fun_eq_iff)
  moreover have "tables_ok ?ob" "elements_ok ?ob"
    by (simp_all add: tables_ok_def elements_ok_def newValueListObserver_def mm_ok_def getValuesForKey_def numbered_def)
  ultimately show ?thesis using assms(4) by (simp add: consistent_unfold newValueListObserver_def)
qed

lemma quiet_refresh: "\<exists>o2. refreshAttribute k (\<lambda>n. jret ()) n (o1, w) = (Inr (), o2, w)"
  by (auto simp: refreshAttribute_def Let_def split: option.split)

lemma quiet_foreach:
  assumes "\<And>n o1. \<exists>o2. f n (o1, w) = (Inr (), o2, w)"
  shows "\<exists>o2. jforeach f ns (o1, w) = (Inr (), o2, w)"
proof (induction ns arbitrary: o1)
  case (Cons n ns)
  obtain o2 where "f n (o1, w) = (Inr (), o2, w)" using assms by blast
  then show ?case using Cons [of o2] by (simp only: jforeach.simps jseq_Inr)
qed simp

lemma calm_quiet: "calm cd \<Longrightarrow> invokeChangedCallbackForValue E cd sc ds = (\<lambda>n. jret ())"
  by (simp add: calm_def invokeChangedCallbackForValue_def fun_eq_iff)

lemma values_start_run:
  assumes "calm cd" shows "\<exists>o1. values_start E cd (c, w) = (Inr (), c\<lparr>cx_values := o1\<rparr>, w)"
proof -
  have "\<exists>o2. smo_start k (\<lambda>n. jret ()) (o1, w) = (Inr (), o2, w)" for k o1
    using quiet_foreach [of "refreshAttribute k (\<lambda>n. jret ())" w, OF quiet_refresh]
    by (cases "sm_started o1") (auto simp: smo_start_def smo_refresh_def jbind_run jseq_run)
  then obtain o2 where "smo_start (getStringMapKeyForAttribute (cx_descriptors c)) (\<lambda>n. jret ()) (cx_values c, w) = (Inr (), o2, w)"
    by blast
  then show ?thesis by (intro exI [of _ o2]) (simp add: values_start_def calm_quiet [OF assms])
qed

lemma values_mutations_run:
  assumes "calm cd" shows "\<exists>o1. values_processMutations E cd ns (c, w) = (Inr (), c\<lparr>cx_values := o1\<rparr>, w)"
proof -
  let ?f = "\<lambda>k n. case n of Some a \<Rightarrow> if a = [] then jret () else refreshAttribute k (\<lambda>n. jret ()) a | None \<Rightarrow> jret ()"
  have "\<exists>o2. ?f k n (o1, w) = (Inr (), o2, w)" for k n o1 using quiet_refresh [of k _ o1 w] by (auto split: option.split)
  then have "\<exists>o2. jforeach (?f k) ns (o1, w) = (Inr (), o2, w)" for k o1 by (intro quiet_foreach)
  then have "\<exists>o2. smo_processMutations k (\<lambda>n. jret ()) ns (o1, w) = (Inr (), o2, w)" for k o1
    by (cases "sm_started o1") (auto simp: smo_processMutations_def jbind_run)
  then obtain o2 where "smo_processMutations (getStringMapKeyForAttribute (cx_descriptors c)) (\<lambda>n. jret ()) ns (cx_values c, w) = (Inr (), o2, w)"
    by blast
  then show ?thesis by (intro exI [of _ o2]) (simp add: values_processMutations_def calm_quiet [OF assms])
qed

text \<open>Records of changes: the context goes on observing, and the bindings of others are as they were.\<close>

lemma bindings_mutations_run:
  assumes c: "observing S sc c w"
  shows "\<exists>c' w'. bindings_processMutations ident ms (c, w) = (Inr (), c', w') \<and> observing S sc c' w' \<and>
    disp_ok (lw_dispatcher w') \<and> other_bound sc w' = other_bound sc w \<and> doc_of w' = doc_of w"
proof -
  let ?an = "actionAttribute S"
  obtain ob where ob: "cx_scope c = sc" "cx_observer c = Some ob" "bclient.consistent False ?an sc (other_bound sc w) ob w"
    "eo_element ob = sc_element sc" "ao_attributeName ob = ?an"
    using c unfolding observing_def consistent_unfold by blast
  obtain ob' w' where r: "processMutations (binding_ops ident sc) ms (ob, w) = (Inr (), ob', w')"
    "bclient.consistent False ?an sc (other_bound sc w) ob' w'" "doc_of w' = doc_of w"
    "eo_element ob' = eo_element ob" "ao_attributeName ob' = ao_attributeName ob"
  proof (cases "eo_started ob")
    case True
    from bclient.mutations_yields [OF ob(3) True, of ident ms] show ?thesis unfolding bclient.yields_def by (elim exE conjE) (rule that)
  next
    case False
    then have "processMutations (binding_ops ident sc) ms (ob, w) = (Inr (), ob, w)" by (simp add: processMutations_def jbind_run)
    then show ?thesis using that ob(3) by blast
  qed
  have inv: "tables_ok ob'" "elements_ok ob'" "binv sc (other_bound sc w) (token_values ob') (vl_delegate ob') w'"
    using r(2) by (simp_all add: consistent_unfold)
  have same: "other_bound sc w = other_bound sc w'" using binv_others [OF inv(3)] by simp
  have d: "disp_ok (lw_dispatcher w')" using inv(3) by (simp add: binv_def)
  let ?c = "c\<lparr>cx_observer := Some ob'\<rparr>"
  have "observing S sc ?c w'" unfolding observing_def using ob(1,4,5) r(4,5) inv same by simp
  moreover have "bindings_processMutations ident ms (c, w) = (Inr (), ?c, w')"
    using ob(1,2) r(1) by (simp add: bindings_processMutations_def)
  ultimately show ?thesis using same d r(3) by metis
qed

text \<open>Connecting: the context observes, and the bindings of others are as they were.\<close>

lemma context_connect_run:
  assumes cd: "calm cd" and c: "idle sc c" and d: "disp_ok (lw_dispatcher w)" and none: "own_bound sc w = {}"
  shows "\<exists>c' w'. context_connect E S ident cd (c, w) = (Inr (), c', w') \<and> observing S sc c' w' \<and>
    disp_ok (lw_dispatcher w') \<and> other_bound sc w' = other_bound sc w \<and> doc_of w' = doc_of w \<and>
    (dom_wf (doc_of w) \<and> sc_element sc \<in> dom_elems (doc_of w) \<longrightarrow> tracking S ident (doc_of w) sc c') \<and>
    (plain_doc (actionAttribute S) (doc_of w) \<and> plain_names (lw_dispatcher w) \<longrightarrow> plain_names (lw_dispatcher w'))"
proof -
  let ?an = "actionAttribute S" and ?N = "plain_names (lw_dispatcher w)"
  let ?ob = "newValueListObserver (sc_element sc) (actionAttribute S) (cx_bindings c) :: (action_obj, bo) vlo"
  have c0: "cx_scope c = sc" "cx_observer c = None" "bo_bindingsByAction (cx_bindings c) = []" using c by (simp_all add: idle_def)
  have con: "bclient.consistent ?N ?an sc (other_bound sc w) ?ob w" by (rule newVlo_consistent [OF d none c0(3)]) simp
  obtain ob w1 where ob: "observer_start (binding_ops ident sc) (?ob, w) = (Inr (), ob, w1)"
    "bclient.consistent ?N ?an sc (other_bound sc w) ob w1" "doc_of w1 = doc_of w" "eo_element ob = sc_element sc"
    "ao_attributeName ob = actionAttribute S"
    using bclient.start_settles [OF con, of ident] by (auto simp: newValueListObserver_def)
  have track: "view ob = wanted (doc_of w) (sc_element sc) (actionAttribute S) \<and>
      (\<forall>e. \<forall>t\<in>set (tokens_of ob e). value_of_token ob t = bspec ident (doc_of w) t)"
    if "dom_wf (doc_of w)" "sc_element sc \<in> dom_elems (doc_of w)"
  proof -
    have "bclient.all_spec ident (doc_of w) ?ob" by (simp add: bclient.all_spec_def newValueListObserver_def getValuesForKey_def)
    then show ?thesis
      using bclient.start_tracks [OF con, of ident] that ob(1) unfolding bclient.all_spec_def
      by (auto simp: newValueListObserver_def dom_elems_def)
  qed
  have inv: "binv sc (other_bound sc w) (token_values ob) (vl_delegate ob) w1" "tables_ok ob" "elements_ok ob"
    and plain: "plain_doc ?an (doc_of w) \<and> ?N \<longrightarrow> plain_names (lw_dispatcher w1)"
    using ob(2,3) by (simp_all add: consistent_unfold)
  have same: "other_bound sc w = other_bound sc w1" "disp_ok (lw_dispatcher w1)"
    using binv_others [OF inv(1)] inv(1) by (simp_all add: binv_def)
  let ?c1 = "c\<lparr>cx_observer := Some ob\<rparr>"
  obtain o1 where v: "values_start E cd (?c1, w1) = (Inr (), ?c1\<lparr>cx_values := o1\<rparr>, w1)" using values_start_run [OF cd] by blast
  let ?c2 = "?c1\<lparr>cx_values := o1\<rparr>"
  obtain w2 where w2: "guarded ''connecting'' sc (cd_connect cd sc) w1 = (Inr (), w2)" "doc_of w2 = doc_of w1"
    "lw_dispatcher w2 = lw_dispatcher w1" using guarded_run [OF calm_dom(2) [OF cd, of sc]] by blast
  have "context_connect E S ident cd (c, w) = (Inr (), ?c2, w2)"
    using ob(1) v w2(1) c0 by (simp add: context_connect_def bindings_start_def on_world_def jseq_run jbind_run)
  moreover have "observing S sc ?c2 w1" using inv ob(4,5) c0 same(1) by (simp add: observing_def)
  then have "observing S sc ?c2 w2" by (rule observing_frame) (use same(2) w2(3) in \<open>simp_all add: own_bound_def\<close>)
  moreover have "tracking S ident (doc_of w) sc ?c2" if "dom_wf (doc_of w)" "sc_element sc \<in> dom_elems (doc_of w)"
    using track [OF that] by (simp add: tracking_def)
  ultimately show ?thesis using same w2(2,3) ob(3) plain by (auto simp: other_bound_def)
qed

lemma bound_disconnect_all:
  "disp_ok D \<Longrightarrow> disp_ok (fold dispatcher_bindingDisconnected bs D) \<and> bound (fold dispatcher_bindingDisconnected bs D) = bound D - set bs"
  by (induction bs arbitrary: D) (auto simp: disconnected_ok bound_disconnected)

lemma plain_disconnect_all:
  "disp_ok D \<Longrightarrow> plain_names D \<Longrightarrow> set bs \<subseteq> bound D \<Longrightarrow> distinct bs \<Longrightarrow> plain_names (fold dispatcher_bindingDisconnected bs D)"
proof (induction bs arbitrary: D)
  case (Cons b bs)
  then have "plain_names (dispatcher_bindingDisconnected b D)" by (intro plain_disconnected) simp_all
  moreover have "set bs \<subseteq> bound (dispatcher_bindingDisconnected b D)" using Cons.prems by (auto simp: bound_disconnected)
  ultimately show ?case using Cons by (simp add: disconnected_ok)
qed simp

text \<open>Disconnecting: its bindings are gone, those of others are as they were.\<close>

lemma context_disconnect_run:
  assumes cd: "calm cd" and c: "observing S sc c w"
  shows "\<exists>c' w'. context_disconnect cd (c, w) = (Inr (), c', w') \<and> idle sc c' \<and>
    disp_ok (lw_dispatcher w') \<and> bound (lw_dispatcher w') = other_bound sc w \<and> doc_of w' = doc_of w \<and>
    (plain_names (lw_dispatcher w) \<longrightarrow> plain_names (lw_dispatcher w'))"
proof -
  obtain ob where ob: "cx_scope c = sc" "cx_observer c = Some ob" "binv sc (other_bound sc w) (token_values ob) (vl_delegate ob) w"
    using c unfolding observing_def by blast
  obtain w1 where w1: "guarded ''disconnecting'' sc (cd_disconnect cd sc) w = (Inr (), w1)" "doc_of w1 = doc_of w"
    "lw_dispatcher w1 = lw_dispatcher w" using guarded_run [OF calm_dom(3) [OF cd, of sc]] by blast
  let ?bs = "map snd (bo_bindingsByAction (vl_delegate ob))"
  let ?w2 = "w1\<lparr>lw_dispatcher := fold dispatcher_bindingDisconnected ?bs (lw_dispatcher w)\<rparr>"
  let ?c2 = "c\<lparr>cx_values := smo_stop (cx_values c), cx_bindings := (vl_delegate ob)\<lparr>bo_bindingsByAction := []\<rparr>, cx_observer := None\<rparr>"
  have run: "context_disconnect cd (c, w) = (Inr (), ?c2, ?w2)"
    using w1 ob by (simp add: context_disconnect_def on_world_def bindings_stop_def disconnectAllActions_def jseq_run jbind_run)
  have own: "set ?bs = bindings_of sc (token_values ob)" and once: "distinct ?bs"
  proof -
    let ?m = "bo_bindingsByAction (vl_delegate ob)"
    have keys: "distinct (map_keys ?m)"
      and law: "map_get ?m a = Some c \<longleftrightarrow> (\<exists>t. token_values ob t = Some a) \<and> c = new_binding sc a" for a c
      using ob(3) unfolding binv_def by blast+
    have "b \<in> set ?bs \<longleftrightarrow> (\<exists>a. map_get ?m a = Some b)" for b
      unfolding in_map_iff [OF keys, symmetric] by force
    then show "set ?bs = bindings_of sc (token_values ob)" unfolding law bindings_of_def by blast
    have "p = (a, new_binding sc a)" if "p \<in> set ?m" "fst p = a" for p a
      using that law in_map_iff [OF keys] by (metis prod.collapse)
    then have "p = q" if "p \<in> set ?m" "q \<in> set ?m" "snd p = snd q" for p q
      using that by (metis new_binding_inj snd_conv)
    then show "distinct ?bs" using keys by (simp add: distinct_map inj_on_def)
  qed
  have plain: "plain_names (lw_dispatcher ?w2)" if "plain_names (lw_dispatcher w)"
    using plain_disconnect_all [of "lw_dispatcher w" ?bs] that own once ob(3) binv_others [OF ob(3)]
    by (auto simp: binv_def own_bound_def)
  have "disp_ok (lw_dispatcher w)" using ob(3) by (simp add: binv_def)
  then have "disp_ok (lw_dispatcher ?w2)" "bound (lw_dispatcher ?w2) = bound (lw_dispatcher w) - own_bound sc w"
    using bound_disconnect_all [of "lw_dispatcher w" ?bs] binv_others [OF ob(3)] own by simp_all
  moreover have "bound (lw_dispatcher w) - own_bound sc w = other_bound sc w" by (auto simp: own_bound_def other_bound_def)
  moreover have "idle sc ?c2" using ob(1) by (simp add: idle_def)
  ultimately show ?thesis using run w1(2) plain by (auto simp: doc_of_def)
qed

subsection \<open>Modules\<close>

text \<open>A module whose connected contexts are those of the scopes \<open>R\<close>.\<close>

definition mod_ok :: "schema \<Rightarrow> scope set \<Rightarrow> 'z page_scheme modul \<Rightarrow> 'z page_scheme lworld \<Rightarrow> bool" where
  "mod_ok S R md w \<longleftrightarrow> calm (m_code md) \<and> distinct (m_connectedContexts md) \<and> set (m_connectedContexts md) = R \<and>
     (\<forall>sc\<in>R. \<exists>c. map_get (m_contextsByScope md) sc = Some c \<and> observing S sc c w) \<and>
     (\<forall>sc c. map_get (m_contextsByScope md) sc = Some c \<longrightarrow> sc \<notin> R \<longrightarrow> idle sc c)"

lemma mod_ok_frame:
  assumes "mod_ok S R md w" "disp_ok (lw_dispatcher w')" "\<And>sc. sc \<in> R \<Longrightarrow> own_bound sc w' = own_bound sc w"
  shows "mod_ok S R md w'"
  using assms(1) observing_frame [OF _ assms(2,3)] unfolding mod_ok_def by metis

lemma own_bound_other: "other_bound sc w' = other_bound sc w \<Longrightarrow> sc' \<noteq> sc \<Longrightarrow> own_bound sc' w' = own_bound sc' w"
  by (auto simp: own_bound_def other_bound_def set_eq_iff)

lemma fetchContext_run:
  assumes md: "mod_ok S R md w" and sc: "sc \<notin> R"
  shows "\<exists>c md1 w1. fetchContextForScope E sc (md, w) = (Inr c, md1, w1) \<and> idle sc c \<and>
    map_get (m_contextsByScope md1) sc = Some c \<and> (\<forall>x. x \<noteq> sc \<longrightarrow> map_get (m_contextsByScope md1) x = map_get (m_contextsByScope md) x) \<and>
    m_identifier md1 = m_identifier md \<and> m_code md1 = m_code md \<and> m_connectedContexts md1 = m_connectedContexts md \<and>
    doc_of w1 = doc_of w \<and> lw_dispatcher w1 = lw_dispatcher w"
proof (cases "map_get (m_contextsByScope md) sc")
  case (Some c)
  then show ?thesis using md sc by (auto simp: fetchContextForScope_def mod_ok_def)
next
  case None
  obtain c w1 where "newContext E (m_code md) sc w = (Inr c, w1)" "cx_scope c = sc" "cx_observer c = None"
    "bo_bindingsByAction (cx_bindings c) = []" "doc_of w1 = doc_of w" "lw_dispatcher w1 = lw_dispatcher w"
    using newContext_run [of "m_code md" E sc w] md by (auto simp: mod_ok_def)
  then show ?thesis using None by (simp add: fetchContextForScope_def idle_def)
qed

lemma connectContext_run:
  assumes md: "mod_ok S R md w" and sc: "sc \<notin> R" and d: "disp_ok (lw_dispatcher w)" and none: "own_bound sc w = {}"
  shows "\<exists>md' w'. connectContextForScope E S sc (md, w) = (Inr (), md', w') \<and> mod_ok S (insert sc R) md' w' \<and>
    m_identifier md' = m_identifier md \<and> disp_ok (lw_dispatcher w') \<and> other_bound sc w' = other_bound sc w \<and> doc_of w' = doc_of w \<and>
    (\<forall>x. x \<noteq> sc \<longrightarrow> map_get (m_contextsByScope md') x = map_get (m_contextsByScope md) x) \<and>
    (dom_wf (doc_of w) \<and> sc_element sc \<in> dom_elems (doc_of w) \<longrightarrow>
       (\<exists>c. map_get (m_contextsByScope md') sc = Some c \<and> tracking S (m_identifier md) (doc_of w) sc c)) \<and>
    (plain_doc (actionAttribute S) (doc_of w) \<and> plain_names (lw_dispatcher w) \<longrightarrow> plain_names (lw_dispatcher w')) \<and>
    m_code md' = m_code md"
proof -
  obtain c md1 w1 where f: "fetchContextForScope E sc (md, w) = (Inr c, md1, w1)" "idle sc c"
    "map_get (m_contextsByScope md1) sc = Some c" "\<forall>x. x \<noteq> sc \<longrightarrow> map_get (m_contextsByScope md1) x = map_get (m_contextsByScope md) x"
    "m_identifier md1 = m_identifier md" "m_code md1 = m_code md" "m_connectedContexts md1 = m_connectedContexts md"
    "doc_of w1 = doc_of w" "lw_dispatcher w1 = lw_dispatcher w"
    using fetchContext_run [OF md sc] by blast
  have cd: "calm (m_code md)" using md by (simp add: mod_ok_def)
  have d1: "disp_ok (lw_dispatcher w1)" "own_bound sc w1 = {}" using d none f(9) by (simp_all add: own_bound_def)
  obtain c' w' where c': "context_connect E S (m_identifier md) (m_code md) (c, w1) = (Inr (), c', w')" "observing S sc c' w'"
    "disp_ok (lw_dispatcher w')" "other_bound sc w' = other_bound sc w1" "doc_of w' = doc_of w1"
    "dom_wf (doc_of w1) \<and> sc_element sc \<in> dom_elems (doc_of w1) \<longrightarrow> tracking S (m_identifier md) (doc_of w1) sc c'"
    "plain_doc (actionAttribute S) (doc_of w1) \<and> plain_names (lw_dispatcher w1) \<longrightarrow> plain_names (lw_dispatcher w')"
    using context_connect_run [OF cd f(2) d1] by blast
  let ?md = "md1\<lparr>m_connectedContexts := set_add sc (m_connectedContexts md1), m_contextsByScope := map_set sc c' (m_contextsByScope md1)\<rparr>"
  have run: "connectContextForScope E S sc (md, w) = (Inr (), ?md, w')"
    using f(1,3,5,6) c'(1) by (simp add: connectContextForScope_def on_context_def jbind_run jseq_run)
  have other: "other_bound sc w' = other_bound sc w" using c'(4) f(9) by (simp add: other_bound_def)
  have "mod_ok S R md w'"
    by (rule mod_ok_frame [OF md c'(3)], rule own_bound_other [OF other]) (use sc in auto)
  then have "mod_ok S (insert sc R) ?md w'"
    using c'(2) f(4,6,7) by (auto simp: mod_ok_def)
  then show ?thesis using run other c' f by (intro exI [of _ ?md] exI [of _ w']) simp
qed

lemma disconnectContext_run:
  assumes md: "mod_ok S R md w" and sc: "sc \<in> R"
  shows "\<exists>md' w'. disconnectContextForScope sc (md, w) = (Inr (), md', w') \<and> mod_ok S (R - {sc}) md' w' \<and>
    m_identifier md' = m_identifier md \<and> disp_ok (lw_dispatcher w') \<and> bound (lw_dispatcher w') = other_bound sc w \<and> doc_of w' = doc_of w \<and>
    (\<forall>x. x \<noteq> sc \<longrightarrow> map_get (m_contextsByScope md') x = map_get (m_contextsByScope md) x) \<and>
    (plain_names (lw_dispatcher w) \<longrightarrow> plain_names (lw_dispatcher w')) \<and> m_code md' = m_code md"
proof -
  obtain c where c: "map_get (m_contextsByScope md) sc = Some c" "observing S sc c w" "calm (m_code md)"
    using md sc by (auto simp: mod_ok_def)
  obtain c' w' where c': "context_disconnect (m_code md) (c, w) = (Inr (), c', w')" "idle sc c'" "disp_ok (lw_dispatcher w')"
    "bound (lw_dispatcher w') = other_bound sc w" "doc_of w' = doc_of w" "plain_names (lw_dispatcher w) \<longrightarrow> plain_names (lw_dispatcher w')"
    using context_disconnect_run [OF c(3,2)] by blast
  let ?md = "md\<lparr>m_connectedContexts := set_delete sc (m_connectedContexts md), m_contextsByScope := map_set sc c' (m_contextsByScope md)\<rparr>"
  have run: "disconnectContextForScope sc (md, w) = (Inr (), ?md, w')"
    using c(1) c'(1) by (simp add: disconnectContextForScope_def on_context_def jbind_run jseq_run)
  have same: "own_bound x w' = own_bound x w" if "x \<noteq> sc" for x
    using that c'(4) by (auto simp: own_bound_def other_bound_def)
  have rest: "observing S x y w'" if "x \<in> R" "x \<noteq> sc" "map_get (m_contextsByScope md) x = Some y" for x y
  proof -
    have "observing S x y w" using md that unfolding mod_ok_def by fastforce
    then show ?thesis using c'(3) same [OF that(2)] by (rule observing_frame)
  qed
  have conn: "\<exists>y. map_get (m_contextsByScope ?md) x = Some y \<and> observing S x y w'" if x: "x \<in> R - {sc}" for x
  proof -
    obtain y where "map_get (m_contextsByScope md) x = Some y" using md x unfolding mod_ok_def by blast
    then show ?thesis using rest x by simp
  qed
  have disc: "idle x y" if "map_get (m_contextsByScope ?md) x = Some y" "x \<notin> R - {sc}" for x y
  proof (cases "x = sc")
    case False
    then have "map_get (m_contextsByScope md) x = Some y" "x \<notin> R" using that by simp_all
    then show ?thesis using md unfolding mod_ok_def by blast
  qed (use that(1) c'(2) in simp)
  have "mod_ok S (R - {sc}) ?md w'"
    unfolding mod_ok_def using md conn disc by (simp add: mod_ok_def)
  then show ?thesis using run c' by (intro exI [of _ ?md] exI [of _ w']) simp
qed

end
