(* ===== verification/StRouter.thy ===== *)
theory StRouter
  imports StContext
begin

section \<open>Scopes, modules and the application\<close>

text \<open>
  The classes \<open>ScopeObserver\<close>, \<open>Router\<close> and \<open>Application\<close> of \<open>stimulus.js\<close>, and with them the whole
  library: the application's state is the value list observer of the scope observer, which
  holds the tables of scopes and modules, beside the world with the dispatcher and the
  page. The main result is an invariant of the router that every change of the document
  and every loading or unloading of a controller keeps, in any order: the contexts that
  run are those of the scopes that stand in the document and whose controller is loaded.
\<close>

record 'u rt =
  so_scopesByIdentifierByElement :: "(elt \<times> (string \<times> scope) list) list"
  so_scopeReferenceCounts :: "(scope \<times> nat) list"
  r_scopesByIdentifier :: "(string, scope) mm"
  r_modulesByIdentifier :: "(string \<times> 'u modul) list"

subsection \<open>\<open>Router\<close>\<close>

definition createScopeForElementAndIdentifier :: "elt \<Rightarrow> string \<Rightarrow> scope" where
  "createScopeForElementAndIdentifier e i = \<lparr>sc_element = e, sc_identifier = i\<rparr>"

definition on_module :: "string \<Rightarrow> ('z page_scheme modul \<times> 'z page_scheme lworld, unit) js \<Rightarrow>
    ('z page_scheme rt \<times> 'z page_scheme lworld, unit) js" where
  "on_module i m = (\<lambda>(r, w).
     case map_get (r_modulesByIdentifier r) i of
       None \<Rightarrow> (Inr (), r, w)
     | Some md \<Rightarrow> (case m (md, w) of
         (x, md', w') \<Rightarrow> (x, r\<lparr>r_modulesByIdentifier := map_set i md' (r_modulesByIdentifier r)\<rparr>, w')))"

definition scopeConnected :: "env \<Rightarrow> schema \<Rightarrow> scope \<Rightarrow> ('z page_scheme rt \<times> 'z page_scheme lworld, unit) js" where
  "scopeConnected E S sc =
     jseq (jmodify (\<lambda>(r, w). (r\<lparr>r_scopesByIdentifier := mm_add (sc_identifier sc) sc (r_scopesByIdentifier r)\<rparr>, w)))
       (on_module (sc_identifier sc) (connectContextForScope E S sc))"

definition scopeDisconnected :: "scope \<Rightarrow> ('z page_scheme rt \<times> 'z page_scheme lworld, unit) js" where
  "scopeDisconnected sc =
     jseq (jmodify (\<lambda>(r, w). (r\<lparr>r_scopesByIdentifier := mm_del (sc_identifier sc) sc (r_scopesByIdentifier r)\<rparr>, w)))
       (on_module (sc_identifier sc) (disconnectContextForScope sc))"

definition connectModule :: "env \<Rightarrow> schema \<Rightarrow> 'z page_scheme modul \<Rightarrow> ('z page_scheme rt \<times> 'z page_scheme lworld, unit) js" where
  "connectModule E S md =
     jseq (jmodify (\<lambda>(r, w). (r\<lparr>r_modulesByIdentifier := map_set (m_identifier md) md (r_modulesByIdentifier r)\<rparr>, w)))
       (jbind (jget (\<lambda>(r, w). getValuesForKey (r_scopesByIdentifier r) (m_identifier md)))
         (jforeach (\<lambda>sc. on_module (m_identifier md) (connectContextForScope E S sc))))"

text \<open>The module that is taken out of the table is disconnected outside of it.\<close>

fun disconnect_scopes :: "scope list \<Rightarrow> ('z page_scheme modul \<times> 'z page_scheme lworld, unit) js" where
  "disconnect_scopes [] = jret ()"
| "disconnect_scopes (sc # scs) = jseq (disconnectContextForScope sc) (disconnect_scopes scs)"

definition disconnectModule :: "'z page_scheme modul \<Rightarrow> ('z page_scheme rt \<times> 'z page_scheme lworld, unit) js" where
  "disconnectModule md = (\<lambda>(r, w).
     let r' = r\<lparr>r_modulesByIdentifier := map_delete (m_identifier md) (r_modulesByIdentifier r)\<rparr>
     in case disconnect_scopes (getValuesForKey (r_scopesByIdentifier r') (m_identifier md)) (md, w) of
          (x, md', w') \<Rightarrow> (x, r', w'))"

definition unloadIdentifier :: "string \<Rightarrow> ('z page_scheme rt \<times> 'z page_scheme lworld, unit) js" where
  "unloadIdentifier i =
     jbind (jget (\<lambda>(r, w). map_get (r_modulesByIdentifier r) i)) (\<lambda>m.
       case m of None \<Rightarrow> jret () | Some md \<Rightarrow> disconnectModule md)"

definition loadDefinition :: "env \<Rightarrow> schema \<Rightarrow> string \<times> 'z page_scheme code \<Rightarrow> ('z page_scheme rt \<times> 'z page_scheme lworld, unit) js" where
  "loadDefinition E S def =
     jseq (unloadIdentifier (fst def))
       (jbind (jlift (newModule (fst def) (snd def))) (connectModule E S))"

definition router_contexts :: "'u rt \<Rightarrow> scope list" where
  "router_contexts r = foldl (\<lambda>cs (i, md). cs @ m_connectedContexts md) [] (r_modulesByIdentifier r)"

definition getContextForElementAndIdentifier :: "elt \<Rightarrow> string \<Rightarrow> 'u rt \<Rightarrow> scope option" where
  "getContextForElementAndIdentifier e i r =
     (case map_get (r_modulesByIdentifier r) i of
        None \<Rightarrow> None | Some md \<Rightarrow> List.find (\<lambda>sc. sc_element sc = e) (m_connectedContexts md))"

subsection \<open>\<open>ScopeObserver\<close>\<close>

definition scope_count :: "'u rt \<Rightarrow> scope \<Rightarrow> nat" where
  "scope_count r sc = (case map_get (so_scopeReferenceCounts r) sc of Some n \<Rightarrow> n | None \<Rightarrow> 0)"

definition scope_parse :: "token \<Rightarrow> 'u rt \<times> 'w \<Rightarrow> scope option outcome \<times> 'u rt" where
  "scope_parse t = (\<lambda>(r, w).
     let e = tk_element t; i = tk_content t;
         byId = (case map_get (so_scopesByIdentifierByElement r) e of Some m \<Rightarrow> m | None \<Rightarrow> [])
     in case map_get byId i of
          Some sc \<Rightarrow> (Inr (Some sc), r\<lparr>so_scopesByIdentifierByElement := map_set e byId (so_scopesByIdentifierByElement r)\<rparr>)
        | None \<Rightarrow>
           (let sc = createScopeForElementAndIdentifier e i
            in (Inr (Some sc), r\<lparr>so_scopesByIdentifierByElement := map_set e (map_set i sc byId) (so_scopesByIdentifierByElement r)\<rparr>)))"

definition scope_matched :: "env \<Rightarrow> schema \<Rightarrow> scope \<Rightarrow> ('z page_scheme rt \<times> 'z page_scheme lworld, unit) js" where
  "scope_matched E S sc =
     jbind (jget (\<lambda>(r, w). scope_count r sc + 1)) (\<lambda>referenceCount.
     jseq (jmodify (\<lambda>(r, w). (r\<lparr>so_scopeReferenceCounts := map_set sc referenceCount (so_scopeReferenceCounts r)\<rparr>, w)))
       (jwhen (referenceCount = 1) (scopeConnected E S sc)))"

definition scope_unmatched :: "scope \<Rightarrow> ('z page_scheme rt \<times> 'z page_scheme lworld, unit) js" where
  "scope_unmatched sc =
     jbind (jget (\<lambda>(r, w). scope_count r sc)) (\<lambda>referenceCount.
       jwhen (referenceCount \<noteq> 0)
         (jseq (jmodify (\<lambda>(r, w). (r\<lparr>so_scopeReferenceCounts := map_set sc (referenceCount - 1) (so_scopeReferenceCounts r)\<rparr>, w)))
           (jwhen (referenceCount = 1) (scopeDisconnected sc))))"

definition scope_ops :: "env \<Rightarrow> schema \<Rightarrow> (scope, 'z page_scheme rt, 'z page_scheme lworld) vl_delegate_ops" where
  "scope_ops E S =
     \<lparr>dg_parse = scope_parse, dg_matched = (\<lambda>e sc. scope_matched E S sc), dg_unmatched = (\<lambda>e sc. scope_unmatched sc)\<rparr>"

subsection \<open>\<open>Application\<close>\<close>

type_synonym 'u app = "(scope, 'u rt) vlo \<times> 'u lworld"

definition newApplication :: "elt \<Rightarrow> schema \<Rightarrow> 'u \<Rightarrow> 'u app" where
  "newApplication e S p =
     (newValueListObserver e (controllerAttribute S)
        \<lparr>so_scopesByIdentifierByElement = [], so_scopeReferenceCounts = [], r_scopesByIdentifier = [], r_modulesByIdentifier = []\<rparr>,
      \<lparr>lw_dispatcher = newDispatcher, lw_errors = [], lw_stopped = None, lw_page = p\<rparr>)"

text \<open>\<open>Application.start\<close> once the document is ready.\<close>

definition application_start :: "env \<Rightarrow> schema \<Rightarrow> ('z page_scheme app, unit) js" where
  "application_start E S =
     jseq (jmodify (\<lambda>(ob, w). (ob, w\<lparr>lw_dispatcher := dispatcher_start (lw_dispatcher w)\<rparr>)))
       (observer_start (scope_ops E S))"

definition application_stop :: "('z page_scheme app, unit) js" where
  "application_stop =
     jseq (jmodify (\<lambda>(ob, w). (ob, w\<lparr>lw_dispatcher := dispatcher_stop (lw_dispatcher w)\<rparr>))) observer_stop"

definition application_load :: "env \<Rightarrow> schema \<Rightarrow> (string \<times> 'z page_scheme code) list \<Rightarrow> ('z page_scheme app, unit) js" where
  "application_load E S defs = jforeach (\<lambda>def. on_delegate (loadDefinition E S def)) defs"

definition application_register :: "env \<Rightarrow> schema \<Rightarrow> string \<Rightarrow> 'z page_scheme code \<Rightarrow> ('z page_scheme app, unit) js" where
  "application_register E S i cd = application_load E S [(i, cd)]"

definition application_unload :: "string list \<Rightarrow> ('z page_scheme app, unit) js" where
  "application_unload ids = jforeach (\<lambda>i. on_delegate (unloadIdentifier i)) ids"

definition getControllerForElementAndIdentifier :: "elt \<Rightarrow> string \<Rightarrow> 'z page_scheme app \<Rightarrow> scope option" where
  "getControllerForElementAndIdentifier e i a = getContextForElementAndIdentifier e i (vl_delegate (fst a))"

text \<open>The methods the bindings of the application run: those of the module of their scope.\<close>

definition app_methods :: "'u rt \<Rightarrow> 'u methods" where
  "app_methods r sc name =
     (case map_get (r_modulesByIdentifier r) (sc_identifier sc) of None \<Rightarrow> None | Some md \<Rightarrow> cd_method (m_code md) sc name)"

section \<open>The router's invariant\<close>

subsection \<open>Modules and bindings\<close>

text \<open>Every module is loaded under its identifier and runs the contexts of the scopes \<open>Rf\<close> gives for
  it; a binding that is connected belongs to such a context. With \<open>T\<close>, moreover, the running
  contexts know the actions of the document.\<close>

definition modules_ok :: "bool \<Rightarrow> schema \<Rightarrow> (string \<Rightarrow> scope set) \<Rightarrow> 'z page_scheme rt \<Rightarrow> 'z page_scheme lworld \<Rightarrow> bool" where
  "modules_ok T S Rf r w \<longleftrightarrow>
     disp_ok (lw_dispatcher w) \<and> (\<forall>i. \<forall>sc\<in>Rf i. sc_identifier sc = i) \<and>
     (\<forall>i md. map_get (r_modulesByIdentifier r) i = Some md \<longrightarrow> m_identifier md = i \<and> mod_ok S (Rf i) md w \<and>
        (T \<and> dom_wf (doc_of w) \<longrightarrow> (\<forall>sc\<in>Rf i. sc_element sc \<in> dom_elems (doc_of w) \<longrightarrow>
           (\<exists>c. map_get (m_contextsByScope md) sc = Some c \<and> tracking S i (doc_of w) sc c)))) \<and>
     (\<forall>b\<in>bound (lw_dispatcher w). map_get (r_modulesByIdentifier r) (sc_identifier (b_scope b)) \<noteq> None \<and>
        b_scope b \<in> Rf (sc_identifier (b_scope b))) \<and>
     (T \<and> plain_doc (actionAttribute S) (doc_of w) \<longrightarrow> plain_names (lw_dispatcher w))"

text \<open>The parts of a router its modules do not touch.\<close>

definition tables_of :: "'u rt \<Rightarrow> (elt \<times> (string \<times> scope) list) list \<times> (scope \<times> nat) list \<times> (string, scope) mm" where
  "tables_of r = (so_scopesByIdentifierByElement r, so_scopeReferenceCounts r, r_scopesByIdentifier r)"

text \<open>The code that is loaded, by identifier.\<close>

definition codes :: "'u rt \<Rightarrow> string \<Rightarrow> 'u code option" where
  "codes r i = map_option m_code (map_get (r_modulesByIdentifier r) i)"

definition loaded :: "'u rt \<Rightarrow> string set" where
  "loaded r = dom (codes r)"

lemma loaded_alt: "loaded r = {i. map_get (r_modulesByIdentifier r) i \<noteq> None}"
  by (auto simp: loaded_def codes_def)

lemma codes_tables [simp]:
  "codes (r\<lparr>so_scopeReferenceCounts := x\<rparr>) = codes r" "codes (r\<lparr>so_scopesByIdentifierByElement := y\<rparr>) = codes r"
  "codes (r\<lparr>r_scopesByIdentifier := z\<rparr>) = codes r"
  by (simp_all add: codes_def fun_eq_iff)

lemma codes_modules [simp]:
  "codes (r\<lparr>r_modulesByIdentifier := map_set i md (r_modulesByIdentifier r)\<rparr>) = (codes r)(i \<mapsto> m_code md)"
  "codes (r\<lparr>r_modulesByIdentifier := map_delete i (r_modulesByIdentifier r)\<rparr>) = (codes r)(i := None)"
  by (simp_all add: codes_def fun_eq_iff)

lemma modules_okD:
  assumes "modules_ok T S Rf r w"
  shows "disp_ok (lw_dispatcher w)" "sc \<in> Rf i \<Longrightarrow> sc_identifier sc = i"
    "map_get (r_modulesByIdentifier r) i = Some md \<Longrightarrow> m_identifier md = i"
    "map_get (r_modulesByIdentifier r) i = Some md \<Longrightarrow> mod_ok S (Rf i) md w"
    "map_get (r_modulesByIdentifier r) i = Some md \<Longrightarrow> T \<Longrightarrow> dom_wf (doc_of w) \<Longrightarrow> sc \<in> Rf i \<Longrightarrow>
      sc_element sc \<in> dom_elems (doc_of w) \<Longrightarrow> \<exists>c. map_get (m_contextsByScope md) sc = Some c \<and> tracking S i (doc_of w) sc c"
    "b \<in> bound (lw_dispatcher w) \<Longrightarrow> sc_identifier (b_scope b) \<in> loaded r \<and> b_scope b \<in> Rf (sc_identifier (b_scope b))"
    "T \<Longrightarrow> plain_doc (actionAttribute S) (doc_of w) \<Longrightarrow> plain_names (lw_dispatcher w)"
  using assms unfolding modules_ok_def loaded_alt mem_Collect_eq by blast+

lemma modules_ok_own:
  assumes "modules_ok T S Rf r w" "sc \<notin> Rf (sc_identifier sc) \<or> sc_identifier sc \<notin> loaded r"
  shows "own_bound sc w = {}"
proof -
  have False if "b \<in> bound (lw_dispatcher w)" "b_scope b = sc" for b
    using modules_okD(6) [OF assms(1) that(1)] that(2) assms(2) by blast
  then show ?thesis unfolding own_bound_def by blast
qed

text \<open>Replacing one module, while the bindings of the others stay.\<close>

lemma modules_ok_put:
  assumes ok: "modules_ok T S Rf r w" and d: "disp_ok (lw_dispatcher w')" and doc: "doc_of w' = doc_of w"
    and md: "mod_ok S R md w'" "m_identifier md = i" "\<And>sc. sc \<in> R \<Longrightarrow> sc_identifier sc = i"
    and track: "\<And>sc. T \<Longrightarrow> dom_wf (doc_of w) \<Longrightarrow> sc \<in> R \<Longrightarrow> sc_element sc \<in> dom_elems (doc_of w) \<Longrightarrow>
      \<exists>c. map_get (m_contextsByScope md) sc = Some c \<and> tracking S i (doc_of w) sc c"
    and others: "\<And>b. sc_identifier (b_scope b) \<noteq> i \<Longrightarrow> b \<in> bound (lw_dispatcher w') \<longleftrightarrow> b \<in> bound (lw_dispatcher w)"
    and own: "\<And>b. sc_identifier (b_scope b) = i \<Longrightarrow> b \<in> bound (lw_dispatcher w') \<Longrightarrow> b_scope b \<in> R"
    and plain: "T \<Longrightarrow> plain_doc (actionAttribute S) (doc_of w) \<and> plain_names (lw_dispatcher w) \<longrightarrow> plain_names (lw_dispatcher w')"
  shows "modules_ok T S (Rf(i := R)) (r\<lparr>r_modulesByIdentifier := map_set i md (r_modulesByIdentifier r)\<rparr>) w'"
proof -
  let ?ms = "map_set i md (r_modulesByIdentifier r)"
  have same: "own_bound sc w' = own_bound sc w" if "sc_identifier sc \<noteq> i" for sc
    unfolding own_bound_def using others that by blast
  have mods: "m_identifier m = j \<and> mod_ok S ((Rf(i := R)) j) m w' \<and>
      (T \<and> dom_wf (doc_of w') \<longrightarrow> (\<forall>sc\<in>(Rf(i := R)) j. sc_element sc \<in> dom_elems (doc_of w') \<longrightarrow>
         (\<exists>c. map_get (m_contextsByScope m) sc = Some c \<and> tracking S j (doc_of w') sc c)))"
    if j: "map_get ?ms j = Some m" for j m
  proof (cases "j = i")
    case True
    then show ?thesis using j md(1,2) track doc by simp
  next
    case False
    then have m: "map_get (r_modulesByIdentifier r) j = Some m" using j by simp
    have "mod_ok S (Rf j) m w'"
      by (rule mod_ok_frame [OF modules_okD(4) [OF ok m] d], rule same) (use False modules_okD(2) [OF ok] in blast)
    then show ?thesis using modules_okD(3,5) [OF ok m] False doc by simp
  qed
  have bs: "map_get ?ms (sc_identifier (b_scope b)) \<noteq> None \<and> b_scope b \<in> (Rf(i := R)) (sc_identifier (b_scope b))"
    if b: "b \<in> bound (lw_dispatcher w')" for b
  proof (cases "sc_identifier (b_scope b) = i")
    case True
    then show ?thesis using own b by simp
  next
    case False
    then have "b \<in> bound (lw_dispatcher w)" using others b by blast
    from modules_okD(6) [OF ok this] show ?thesis using False by (simp add: loaded_alt codes_def)
  qed
  have "sc_identifier sc = j" if "sc \<in> (Rf(i := R)) j" for j sc
    using that md(3) modules_okD(2) [OF ok] by (cases "j = i") auto
  moreover have "T \<and> plain_doc (actionAttribute S) (doc_of w') \<longrightarrow> plain_names (lw_dispatcher w')"
    using plain modules_okD(7) [OF ok] doc by simp
  ultimately show ?thesis using d mods bs unfolding modules_ok_def by simp
qed

lemma on_module_connect:
  assumes ok: "modules_ok T S Rf r w" and md: "sc_identifier sc \<in> loaded r" and sc: "sc \<notin> Rf (sc_identifier sc)"
  shows "\<exists>r' w'. on_module (sc_identifier sc) (connectContextForScope E S sc) (r, w) = (Inr (), r', w') \<and>
    modules_ok T S (Rf(sc_identifier sc := insert sc (Rf (sc_identifier sc)))) r' w' \<and>
    tables_of r' = tables_of r \<and> codes r' = codes r \<and> doc_of w' = doc_of w"
proof -
  let ?i = "sc_identifier sc"
  obtain md where m: "map_get (r_modulesByIdentifier r) ?i = Some md" using md by (auto simp: loaded_alt codes_def)
  have mi: "m_identifier md = ?i" by (rule modules_okD(3) [OF ok m])
  obtain md' w' where c: "connectContextForScope E S sc (md, w) = (Inr (), md', w')" "mod_ok S (insert sc (Rf ?i)) md' w'"
    "m_identifier md' = m_identifier md" "disp_ok (lw_dispatcher w')" "other_bound sc w' = other_bound sc w" "doc_of w' = doc_of w"
    "\<forall>x. x \<noteq> sc \<longrightarrow> map_get (m_contextsByScope md') x = map_get (m_contextsByScope md) x"
    "dom_wf (doc_of w) \<and> sc_element sc \<in> dom_elems (doc_of w) \<longrightarrow>
       (\<exists>c. map_get (m_contextsByScope md') sc = Some c \<and> tracking S (m_identifier md) (doc_of w) sc c)"
    "plain_doc (actionAttribute S) (doc_of w) \<and> plain_names (lw_dispatcher w) \<longrightarrow> plain_names (lw_dispatcher w')" "m_code md' = m_code md"
    using connectContext_run [OF modules_okD(4) [OF ok m] sc modules_okD(1) [OF ok] modules_ok_own [OF ok disjI1 [OF sc]], of E]
    by blast
  have b: "b \<in> bound (lw_dispatcher w') \<longleftrightarrow> b \<in> bound (lw_dispatcher w)" if "b_scope b \<noteq> sc" for b
    using c(5) that by (auto simp: other_bound_def set_eq_iff)
  have "modules_ok T S (Rf(?i := insert sc (Rf ?i))) (r\<lparr>r_modulesByIdentifier := map_set ?i md' (r_modulesByIdentifier r)\<rparr>) w'"
  proof (rule modules_ok_put [OF ok c(4,6,2)])
    show "m_identifier md' = ?i" using c(3) mi by simp
    show "sc_identifier x = ?i" if "x \<in> insert sc (Rf ?i)" for x using that modules_okD(2) [OF ok] by auto
    show "\<exists>c. map_get (m_contextsByScope md') x = Some c \<and> tracking S ?i (doc_of w) x c"
      if "T" "dom_wf (doc_of w)" "x \<in> insert sc (Rf ?i)" "sc_element x \<in> dom_elems (doc_of w)" for x
      using that c(7,8) mi modules_okD(5) [OF ok m that(1,2)] by (cases "x = sc") auto
    show "b_scope b \<in> insert sc (Rf ?i)" if "sc_identifier (b_scope b) = ?i" "b \<in> bound (lw_dispatcher w')" for b
    proof (cases "b_scope b = sc")
      case False
      then have "b \<in> bound (lw_dispatcher w)" using b that(2) by blast
      then show ?thesis using modules_okD(6) [OF ok] that(1) by fastforce
    qed simp
    show "b' \<in> bound (lw_dispatcher w') \<longleftrightarrow> b' \<in> bound (lw_dispatcher w)" if "sc_identifier (b_scope b') \<noteq> ?i" for b'
      using b [of b'] that by auto
  qed (use c(9) in blast)
  then show ?thesis using m c(1,6,10)
    by (intro exI [of _ "r\<lparr>r_modulesByIdentifier := map_set ?i md' (r_modulesByIdentifier r)\<rparr>"] exI [of _ w'])
      (auto simp: on_module_def tables_of_def codes_def fun_eq_iff)
qed

lemma on_module_disconnect:
  assumes ok: "modules_ok T S Rf r w" and md: "sc_identifier sc \<in> loaded r" and sc: "sc \<in> Rf (sc_identifier sc)"
  shows "\<exists>r' w'. on_module (sc_identifier sc) (disconnectContextForScope sc) (r, w) = (Inr (), r', w') \<and>
    modules_ok T S (Rf(sc_identifier sc := Rf (sc_identifier sc) - {sc})) r' w' \<and>
    tables_of r' = tables_of r \<and> codes r' = codes r \<and> doc_of w' = doc_of w"
proof -
  let ?i = "sc_identifier sc"
  obtain md where m: "map_get (r_modulesByIdentifier r) ?i = Some md" using md by (auto simp: loaded_alt codes_def)
  have mi: "m_identifier md = ?i" by (rule modules_okD(3) [OF ok m])
  obtain md' w' where c: "disconnectContextForScope sc (md, w) = (Inr (), md', w')" "mod_ok S (Rf ?i - {sc}) md' w'"
    "m_identifier md' = m_identifier md" "disp_ok (lw_dispatcher w')" "bound (lw_dispatcher w') = other_bound sc w" "doc_of w' = doc_of w"
    "\<forall>x. x \<noteq> sc \<longrightarrow> map_get (m_contextsByScope md') x = map_get (m_contextsByScope md) x"
    "plain_names (lw_dispatcher w) \<longrightarrow> plain_names (lw_dispatcher w')" "m_code md' = m_code md"
    using disconnectContext_run [OF modules_okD(4) [OF ok m] sc] by blast
  have b: "b \<in> bound (lw_dispatcher w') \<longleftrightarrow> b \<in> bound (lw_dispatcher w) \<and> b_scope b \<noteq> sc" for b
    using c(5) by (auto simp: other_bound_def)
  have "modules_ok T S (Rf(?i := Rf ?i - {sc})) (r\<lparr>r_modulesByIdentifier := map_set ?i md' (r_modulesByIdentifier r)\<rparr>) w'"
  proof (rule modules_ok_put [OF ok c(4,6,2)])
    show "m_identifier md' = ?i" using c(3) mi by simp
    show "sc_identifier x = ?i" if "x \<in> Rf ?i - {sc}" for x using that modules_okD(2) [OF ok] by auto
    show "\<exists>c. map_get (m_contextsByScope md') x = Some c \<and> tracking S ?i (doc_of w) x c"
      if "T" "dom_wf (doc_of w)" "x \<in> Rf ?i - {sc}" "sc_element x \<in> dom_elems (doc_of w)" for x
      using that c(7) modules_okD(5) [OF ok m that(1,2)] by auto
    show "b_scope b' \<in> Rf ?i - {sc}" if "sc_identifier (b_scope b') = ?i" "b' \<in> bound (lw_dispatcher w')" for b'
      using that b [of b'] modules_okD(6) [OF ok, of b'] by simp
    show "b' \<in> bound (lw_dispatcher w') \<longleftrightarrow> b' \<in> bound (lw_dispatcher w)" if "sc_identifier (b_scope b') \<noteq> ?i" for b'
      using b [of b'] that by auto
  qed (use c(8) in blast)
  then show ?thesis using m c(1,6,9)
    by (intro exI [of _ "r\<lparr>r_modulesByIdentifier := map_set ?i md' (r_modulesByIdentifier r)\<rparr>"] exI [of _ w'])
      (auto simp: on_module_def tables_of_def codes_def fun_eq_iff)
qed

lemma connect_list:
  assumes "modules_ok T S Rf r w" "i \<in> loaded r" "distinct scs" "\<forall>sc\<in>set scs. sc_identifier sc = i \<and> sc \<notin> Rf i"
  shows "\<exists>r' w'. jforeach (\<lambda>sc. on_module i (connectContextForScope E S sc)) scs (r, w) = (Inr (), r', w') \<and>
    modules_ok T S (Rf(i := Rf i \<union> set scs)) r' w' \<and> tables_of r' = tables_of r \<and> codes r' = codes r \<and> doc_of w' = doc_of w"
  using assms
proof (induction scs arbitrary: Rf r w)
  case Nil
  then show ?case by (intro exI [of _ r] exI [of _ w]) (simp add: fun_upd_idem)
next
  case (Cons sc scs)
  have sc: "sc_identifier sc = i" "sc \<notin> Rf i" using Cons.prems(4) by simp_all
  obtain r1 w1 where one: "on_module i (connectContextForScope E S sc) (r, w) = (Inr (), r1, w1)"
    "modules_ok T S (Rf(i := insert sc (Rf i))) r1 w1" "tables_of r1 = tables_of r" "codes r1 = codes r" "doc_of w1 = doc_of w"
    using on_module_connect [OF Cons.prems(1), of sc E] Cons.prems(2) sc by auto
  have "\<forall>x\<in>set scs. sc_identifier x = i \<and> x \<notin> (Rf(i := insert sc (Rf i))) i" using Cons.prems(3,4) by auto
  moreover have "i \<in> loaded r1" using Cons.prems(2) one(4) by (simp add: loaded_def)
  ultimately obtain r2 w2 where two:
    "jforeach (\<lambda>sc. on_module i (connectContextForScope E S sc)) scs (r1, w1) = (Inr (), r2, w2)"
    "modules_ok T S ((Rf(i := insert sc (Rf i)))(i := (Rf(i := insert sc (Rf i))) i \<union> set scs)) r2 w2"
    "tables_of r2 = tables_of r1" "codes r2 = codes r1" "doc_of w2 = doc_of w1"
    using Cons.IH [OF one(2)] Cons.prems(3) by (meson distinct.simps(2))
  have "(Rf(i := insert sc (Rf i)))(i := (Rf(i := insert sc (Rf i))) i \<union> set scs) = Rf(i := Rf i \<union> set (sc # scs))"
    by (simp add: insert_commute)
  then have "modules_ok T S (Rf(i := Rf i \<union> set (sc # scs))) r2 w2" using two(2) by (simp only:)
  moreover have "jforeach (\<lambda>sc. on_module i (connectContextForScope E S sc)) (sc # scs) (r, w) = (Inr (), r2, w2)"
    using one(1) two(1) by simp
  ultimately show ?case using one(3-5) two(3-5) by metis
qed

lemma disconnect_list:
  assumes "mod_ok S R md w" "disp_ok (lw_dispatcher w)" "distinct scs" "set scs \<subseteq> R"
  shows "\<exists>md' w'. disconnect_scopes scs (md, w) = (Inr (), md', w') \<and> disp_ok (lw_dispatcher w') \<and>
    bound (lw_dispatcher w') = {b \<in> bound (lw_dispatcher w). b_scope b \<notin> set scs} \<and> doc_of w' = doc_of w \<and>
    (plain_names (lw_dispatcher w) \<longrightarrow> plain_names (lw_dispatcher w'))"
  using assms
proof (induction scs arbitrary: R md w)
  case Nil
  then show ?case by (intro exI [of _ md] exI [of _ w]) simp
next
  case (Cons sc scs)
  obtain md1 w1 where one: "disconnectContextForScope sc (md, w) = (Inr (), md1, w1)" "mod_ok S (R - {sc}) md1 w1"
    "disp_ok (lw_dispatcher w1)" "bound (lw_dispatcher w1) = other_bound sc w" "doc_of w1 = doc_of w"
    "plain_names (lw_dispatcher w) \<longrightarrow> plain_names (lw_dispatcher w1)"
    using disconnectContext_run [OF Cons.prems(1), of sc] Cons.prems(4) by auto
  have "set scs \<subseteq> R - {sc}" using Cons.prems(3,4) by auto
  from Cons.IH [OF one(2,3) _ this] Cons.prems(3) obtain md2 w2 where
    "disconnect_scopes scs (md1, w1) = (Inr (), md2, w2)" "disp_ok (lw_dispatcher w2)"
    "bound (lw_dispatcher w2) = {b \<in> bound (lw_dispatcher w1). b_scope b \<notin> set scs}" "doc_of w2 = doc_of w1"
    "plain_names (lw_dispatcher w1) \<longrightarrow> plain_names (lw_dispatcher w2)" by auto
  then show ?case using one by (intro exI [of _ md2] exI [of _ w2]) (auto simp: other_bound_def)
qed

lemma modules_ok_remove:
  assumes ok: "modules_ok T S Rf r w" and d: "disp_ok (lw_dispatcher w')" and doc: "doc_of w' = doc_of w"
    and b: "bound (lw_dispatcher w') = {b \<in> bound (lw_dispatcher w). sc_identifier (b_scope b) \<noteq> i}"
    and plain: "plain_names (lw_dispatcher w) \<longrightarrow> plain_names (lw_dispatcher w')"
  shows "modules_ok T S Rf (r\<lparr>r_modulesByIdentifier := map_delete i (r_modulesByIdentifier r)\<rparr>) w'"
proof -
  have same: "own_bound sc w' = own_bound sc w" if "sc_identifier sc \<noteq> i" for sc
    unfolding own_bound_def b using that by auto
  have mods: "m_identifier m = j \<and> mod_ok S (Rf j) m w' \<and>
      (T \<and> dom_wf (doc_of w') \<longrightarrow> (\<forall>sc\<in>Rf j. sc_element sc \<in> dom_elems (doc_of w') \<longrightarrow>
         (\<exists>c. map_get (m_contextsByScope m) sc = Some c \<and> tracking S j (doc_of w') sc c)))"
    if j: "map_get (map_delete i (r_modulesByIdentifier r)) j = Some m" for j m
  proof -
    have m: "map_get (r_modulesByIdentifier r) j = Some m" "j \<noteq> i" using j by (auto split: if_split_asm)
    have "mod_ok S (Rf j) m w'"
      by (rule mod_ok_frame [OF modules_okD(4) [OF ok m(1)] d], rule same) (use m(2) modules_okD(2) [OF ok] in blast)
    then show ?thesis using modules_okD(3,5) [OF ok m(1)] doc by simp
  qed
  have "map_get (map_delete i (r_modulesByIdentifier r)) (sc_identifier (b_scope b')) \<noteq> None \<and> b_scope b' \<in> Rf (sc_identifier (b_scope b'))"
    if "b' \<in> bound (lw_dispatcher w')" for b'
    using that modules_okD(6) [OF ok, of b'] unfolding b by (simp add: loaded_alt codes_def)
  moreover have "T \<and> plain_doc (actionAttribute S) (doc_of w') \<longrightarrow> plain_names (lw_dispatcher w')"
    using plain modules_okD(7) [OF ok] doc by simp
  ultimately show ?thesis using d mods modules_okD(2) [OF ok] unfolding modules_ok_def by simp
qed

lemma modules_ok_unloaded:
  assumes ok: "modules_ok T S Rf r w" and i: "i \<notin> loaded r" and R: "\<And>sc. sc \<in> R \<Longrightarrow> sc_identifier sc = i"
  shows "modules_ok T S (Rf(i := R)) r w"
proof -
  have "j \<noteq> i" if "map_get (r_modulesByIdentifier r) j = Some m" for j m using that i by (auto simp: loaded_alt codes_def)
  then have mods: "m_identifier m = j \<and> mod_ok S ((Rf(i := R)) j) m w \<and>
      (T \<and> dom_wf (doc_of w) \<longrightarrow> (\<forall>sc\<in>(Rf(i := R)) j. sc_element sc \<in> dom_elems (doc_of w) \<longrightarrow>
         (\<exists>c. map_get (m_contextsByScope m) sc = Some c \<and> tracking S j (doc_of w) sc c)))"
    if "map_get (r_modulesByIdentifier r) j = Some m" for j m
    using that modules_okD(3-5) [OF ok that] by simp
  have "map_get (r_modulesByIdentifier r) (sc_identifier (b_scope b)) \<noteq> None \<and> b_scope b \<in> (Rf(i := R)) (sc_identifier (b_scope b))"
    if "b \<in> bound (lw_dispatcher w)" for b
    using modules_okD(6) [OF ok that] i by (auto simp: loaded_alt codes_def)
  moreover have "sc_identifier sc = j" if "sc \<in> (Rf(i := R)) j" for j sc
    using that R modules_okD(2) [OF ok] by (cases "j = i") auto
  ultimately show ?thesis using mods modules_okD(1,7) [OF ok] unfolding modules_ok_def by simp
qed

lemma modules_ok_tables:
  "r_modulesByIdentifier r' = r_modulesByIdentifier r \<Longrightarrow> modules_ok T S Rf r' w = modules_ok T S Rf r w"
  by (simp add: modules_ok_def)

subsection \<open>Scopes\<close>

text \<open>The scopes of the table are those of \<open>P\<close>, and the modules run the contexts of those of their
  identifier.\<close>

definition of_id :: "scope set \<Rightarrow> string \<Rightarrow> scope set" where
  "of_id P i = {sc \<in> P. sc_identifier sc = i}"

definition router_ok :: "bool \<Rightarrow> schema \<Rightarrow> scope set \<Rightarrow> 'z page_scheme rt \<Rightarrow> 'z page_scheme lworld \<Rightarrow> bool" where
  "router_ok T S P r w \<longleftrightarrow> mm_ok (r_scopesByIdentifier r) \<and>
     (\<forall>i sc. (i, sc) \<in> mm_rel (r_scopesByIdentifier r) \<longleftrightarrow> sc \<in> of_id P i) \<and> modules_ok T S (of_id P) r w"

lemma of_id_insert: "of_id (insert sc P) = (of_id P)(sc_identifier sc := insert sc (of_id P (sc_identifier sc)))"
  by (auto simp: of_id_def fun_eq_iff)

lemma of_id_remove: "of_id (P - {sc}) = (of_id P)(sc_identifier sc := of_id P (sc_identifier sc) - {sc})"
  by (auto simp: of_id_def fun_eq_iff)

lemma scopeConnected_run:
  assumes ok: "router_ok T S P r w" and sc: "sc \<notin> P"
  shows "\<exists>r' w'. scopeConnected E S sc (r, w) = (Inr (), r', w') \<and> router_ok T S (insert sc P) r' w' \<and>
    so_scopesByIdentifierByElement r' = so_scopesByIdentifierByElement r \<and> so_scopeReferenceCounts r' = so_scopeReferenceCounts r \<and>
    codes r' = codes r \<and> doc_of w' = doc_of w"
proof -
  let ?i = "sc_identifier sc"
  let ?r = "r\<lparr>r_scopesByIdentifier := mm_add ?i sc (r_scopesByIdentifier r)\<rparr>"
  have m: "modules_ok T S (of_id P) ?r w" using ok by (simp add: router_ok_def modules_ok_tables [of ?r r])
  have tab: "mm_ok (r_scopesByIdentifier ?r)" "(i, x) \<in> mm_rel (r_scopesByIdentifier ?r) \<longleftrightarrow> x \<in> of_id (insert sc P) i" for i x
    using ok by (auto simp: router_ok_def mm_ok_add mmap.rel_add of_id_def)
  have run: "scopeConnected E S sc (r, w) = on_module ?i (connectContextForScope E S sc) (?r, w)" by (simp add: scopeConnected_def)
  show ?thesis
  proof (cases "?i \<in> loaded r")
    case True
    then have l: "?i \<in> loaded ?r" by (simp add: loaded_alt codes_def)
    have new: "sc \<notin> of_id P ?i" using sc by (simp add: of_id_def)
    obtain r' w' where "on_module ?i (connectContextForScope E S sc) (?r, w) = (Inr (), r', w')"
      "modules_ok T S (of_id (insert sc P)) r' w'" "tables_of r' = tables_of ?r" "codes r' = codes ?r" "doc_of w' = doc_of w"
      using on_module_connect [OF m l new, of E] unfolding of_id_insert by blast
    then show ?thesis using run tab by (auto simp: router_ok_def tables_of_def loaded_alt codes_def)
  next
    case False
    then have "on_module ?i (connectContextForScope E S sc) (?r, w) = (Inr (), ?r, w)" by (simp add: on_module_def loaded_alt codes_def)
    moreover have "modules_ok T S (of_id (insert sc P)) ?r w"
      unfolding of_id_insert using False by (intro modules_ok_unloaded [OF m]) (auto simp: loaded_alt codes_def of_id_def)
    ultimately show ?thesis using run tab by (auto simp: router_ok_def loaded_alt codes_def)
  qed
qed

lemma scopeDisconnected_run:
  assumes ok: "router_ok T S P r w" and sc: "sc \<in> P"
  shows "\<exists>r' w'. scopeDisconnected sc (r, w) = (Inr (), r', w') \<and> router_ok T S (P - {sc}) r' w' \<and>
    so_scopesByIdentifierByElement r' = so_scopesByIdentifierByElement r \<and> so_scopeReferenceCounts r' = so_scopeReferenceCounts r \<and>
    codes r' = codes r \<and> doc_of w' = doc_of w"
proof -
  let ?i = "sc_identifier sc"
  let ?r = "r\<lparr>r_scopesByIdentifier := mm_del ?i sc (r_scopesByIdentifier r)\<rparr>"
  have m: "modules_ok T S (of_id P) ?r w" using ok by (simp add: router_ok_def modules_ok_tables [of ?r r])
  have tab: "mm_ok (r_scopesByIdentifier ?r)" "(i, x) \<in> mm_rel (r_scopesByIdentifier ?r) \<longleftrightarrow> x \<in> of_id (P - {sc}) i" for i x
    using ok by (auto simp: router_ok_def mm_ok_del mmap.rel_del of_id_def)
  have run: "scopeDisconnected sc (r, w) = on_module ?i (disconnectContextForScope sc) (?r, w)" by (simp add: scopeDisconnected_def)
  show ?thesis
  proof (cases "?i \<in> loaded r")
    case True
    then have l: "?i \<in> loaded ?r" by (simp add: loaded_alt codes_def)
    have there: "sc \<in> of_id P ?i" using sc by (simp add: of_id_def)
    obtain r' w' where "on_module ?i (disconnectContextForScope sc) (?r, w) = (Inr (), r', w')"
      "modules_ok T S (of_id (P - {sc})) r' w'" "tables_of r' = tables_of ?r" "codes r' = codes ?r" "doc_of w' = doc_of w"
      using on_module_disconnect [OF m l there] unfolding of_id_remove by blast
    then show ?thesis using run tab by (auto simp: router_ok_def tables_of_def loaded_alt codes_def)
  next
    case False
    then have "on_module ?i (disconnectContextForScope sc) (?r, w) = (Inr (), ?r, w)" by (simp add: on_module_def loaded_alt codes_def)
    moreover have "modules_ok T S (of_id (P - {sc})) ?r w"
      unfolding of_id_remove using False by (intro modules_ok_unloaded [OF m]) (auto simp: loaded_alt codes_def of_id_def)
    ultimately show ?thesis using run tab by (auto simp: router_ok_def loaded_alt codes_def)
  qed
qed

subsection \<open>Loading and unloading\<close>

lemma unload_run:
  assumes ok: "router_ok T S P r w"
  shows "\<exists>r' w'. unloadIdentifier i (r, w) = (Inr (), r', w') \<and> router_ok T S P r' w' \<and> tables_of r' = tables_of r \<and>
    codes r' = (codes r)(i := None) \<and> doc_of w' = doc_of w"
proof (cases "map_get (r_modulesByIdentifier r) i")
  case None
  then have "unloadIdentifier i (r, w) = (Inr (), r, w)" by (simp add: unloadIdentifier_def jbind_run)
  then show ?thesis using ok None by (auto simp: loaded_alt codes_def)
next
  case (Some md)
  have m: "modules_ok T S (of_id P) r w" using ok by (simp add: router_ok_def)
  have mi: "m_identifier md = i" by (rule modules_okD(3) [OF m Some])
  let ?r = "r\<lparr>r_modulesByIdentifier := map_delete i (r_modulesByIdentifier r)\<rparr>"
  let ?scs = "getValuesForKey (r_scopesByIdentifier r) i"
  have scs: "set ?scs = of_id P i" "distinct ?scs"
    using ok mm_ok_values [of "r_scopesByIdentifier r"] by (auto simp: router_ok_def mm_rel_get)
  obtain md' w' where c: "disconnect_scopes ?scs (md, w) = (Inr (), md', w')" "disp_ok (lw_dispatcher w')"
    "bound (lw_dispatcher w') = {b \<in> bound (lw_dispatcher w). b_scope b \<notin> set ?scs}" "doc_of w' = doc_of w"
    "plain_names (lw_dispatcher w) \<longrightarrow> plain_names (lw_dispatcher w')"
    using disconnect_list [OF modules_okD(4) [OF m Some] modules_okD(1) [OF m] scs(2)] scs(1) by blast
  have "b_scope b \<notin> of_id P i \<longleftrightarrow> sc_identifier (b_scope b) \<noteq> i" if "b \<in> bound (lw_dispatcher w)" for b
    using modules_okD(6) [OF m that] by (auto simp: of_id_def)
  then have "bound (lw_dispatcher w') = {b \<in> bound (lw_dispatcher w). sc_identifier (b_scope b) \<noteq> i}"
    using c(3) scs(1) by auto
  from modules_ok_remove [OF m c(2,4) this c(5)] have "router_ok T S P ?r w'" using ok by (simp add: router_ok_def)
  moreover have "unloadIdentifier i (r, w) = (Inr (), ?r, w')"
    using Some c(1) mi by (simp add: unloadIdentifier_def disconnectModule_def jbind_run Let_def)
  ultimately show ?thesis using c(4) by (auto simp: tables_of_def loaded_alt codes_def)
qed

lemma load_run:
  assumes ok: "router_ok T S P r w" and cd: "calm cd"
  shows "\<exists>r' w'. loadDefinition E S (i, cd) (r, w) = (Inr (), r', w') \<and> router_ok T S P r' w' \<and> tables_of r' = tables_of r \<and>
    codes r' = (codes r)(i \<mapsto> cd) \<and> doc_of w' = doc_of w"
proof -
  obtain r1 w1 where u: "unloadIdentifier i (r, w) = (Inr (), r1, w1)" "router_ok T S P r1 w1" "tables_of r1 = tables_of r"
    "codes r1 = (codes r)(i := None)" "doc_of w1 = doc_of w" using unload_run [OF ok] by blast
  let ?md = "\<lparr>m_identifier = i, m_code = cd, m_contextsByScope = [], m_connectedContexts = []\<rparr>"
  let ?r = "r1\<lparr>r_modulesByIdentifier := map_set i ?md (r_modulesByIdentifier r1)\<rparr>"
  let ?scs = "getValuesForKey (r_scopesByIdentifier r1) i"
  have new: "newModule i cd = Inr ?md" using cd by (auto simp: newModule_def calm_def)
  have m: "modules_ok T S (of_id P) r1 w1" using u(2) by (simp add: router_ok_def)
  have scs: "set ?scs = of_id P i" "distinct ?scs"
    using u(2) mm_ok_values [of "r_scopesByIdentifier r1"] by (auto simp: router_ok_def mm_rel_get)
  have noown: "sc_identifier (b_scope b) \<noteq> i" if "b \<in> bound (lw_dispatcher w1)" for b
    using modules_okD(6) [OF m that] u(4) by (auto simp: loaded_def)
  have "mod_ok S {} ?md w1" using cd by (simp add: mod_ok_def)
  then have "modules_ok T S ((of_id P)(i := {})) ?r w1"
    by (rule modules_ok_put [OF m modules_okD(1) [OF m] refl]) (use noown in auto)
  moreover have "i \<in> loaded ?r" by (simp add: loaded_alt codes_def)
  moreover have "\<forall>sc\<in>set ?scs. sc_identifier sc = i \<and> sc \<notin> ((of_id P)(i := {})) i" using scs(1) by (auto simp: of_id_def)
  ultimately obtain r2 w2 where c: "jforeach (\<lambda>sc. on_module i (connectContextForScope E S sc)) ?scs (?r, w1) = (Inr (), r2, w2)"
    "modules_ok T S (((of_id P)(i := {}))(i := ((of_id P)(i := {})) i \<union> set ?scs)) r2 w2" "tables_of r2 = tables_of ?r"
    "codes r2 = codes ?r" "doc_of w2 = doc_of w1" using connect_list [of T S "(of_id P)(i := {})" ?r w1 i ?scs] scs(2) by blast
  have run: "loadDefinition E S (i, cd) (r, w) = (Inr (), r2, w2)"
    using u(1) new c(1) by (simp add: loadDefinition_def connectModule_def jbind_run jseq_run)
  have "modules_ok T S (of_id P) r2 w2" using c(2) scs(1) by simp
  then have "router_ok T S P r2 w2" using u(2) c(3) by (simp add: router_ok_def tables_of_def)
  moreover have "codes r2 = (codes r)(i \<mapsto> cd)" using c(4) u(4) by simp
  ultimately show ?thesis using run u(3,5) c(3,5) by (auto simp: tables_of_def)
qed

subsection \<open>The scope observer is a client of the value list observer\<close>

definition sspec :: "dom \<Rightarrow> token \<Rightarrow> scope option" where
  "sspec d t = Some \<lparr>sc_element = tk_element t, sc_identifier = tk_content t\<rparr>"

definition present :: "(token \<Rightarrow> scope option) \<Rightarrow> scope set" where
  "present M = {sc. \<exists>t. M t = Some sc}"

text \<open>The scopes are cached under their element and identifier, and counted by their tokens.\<close>

definition sinv :: "bool \<Rightarrow> schema \<Rightarrow> (string \<Rightarrow> 'z page_scheme code option) \<Rightarrow> (token \<Rightarrow> scope option) \<Rightarrow> 'z page_scheme rt \<Rightarrow> 'z page_scheme lworld \<Rightarrow> bool" where
  "sinv T S L M r w \<longleftrightarrow>
     (\<forall>e m i sc. map_get (so_scopesByIdentifierByElement r) e = Some m \<longrightarrow> map_get m i = Some sc \<longrightarrow>
        sc = \<lparr>sc_element = e, sc_identifier = i\<rparr>) \<and>
     finite {t. M t \<noteq> None} \<and> (\<forall>sc. scope_count r sc = card {t. M t = Some sc}) \<and>
     codes r = L \<and> router_ok T S (present M) r w"

lemma sinv_finite: "sinv T S L M r w \<Longrightarrow> finite {t. M t = Some sc}"
  by (rule finite_subset [of _ "{t. M t \<noteq> None}"]) (auto simp: sinv_def)

lemma sinv_count: "sinv T S L M r w \<Longrightarrow> sc \<in> present M \<longleftrightarrow> scope_count r sc \<noteq> 0"
  using sinv_finite [of T S L M r w sc] by (auto simp: sinv_def present_def)

lemma scope_count_set:
  "scope_count (r\<lparr>so_scopeReferenceCounts := map_set sc n (so_scopeReferenceCounts r)\<rparr>) x = (if x = sc then n else scope_count r x)"
  by (simp add: scope_count_def)

lemma sinv_card: "sinv T S L M r w \<Longrightarrow> scope_count r sc = card {t. M t = Some sc}"
  by (simp add: sinv_def)

lemma scope_matched_run:
  assumes inv: "sinv T S L M r w" and t: "M t = None"
  shows "\<exists>r' w'. scope_matched E S sc (r, w) = (Inr (), r', w') \<and> sinv T S L (M(t \<mapsto> sc)) r' w' \<and> doc_of w' = doc_of w"
proof -
  let ?n = "scope_count r sc + 1"
  let ?r = "r\<lparr>so_scopeReferenceCounts := map_set sc ?n (so_scopeReferenceCounts r)\<rparr>"
  have "router_ok T S (present M) r w" using inv by (simp add: sinv_def)
  then have rok: "router_ok T S (present M) ?r w" using modules_ok_tables [of ?r r] by (simp add: router_ok_def)
  have pres: "present (M(t \<mapsto> sc)) = insert sc (present M)"
  proof -
    have "(\<exists>s. (M(t \<mapsto> sc)) s = Some x) \<longleftrightarrow> x = sc \<or> (\<exists>s. M s = Some x)" for x
      using t by (metis fun_upd_apply option.distinct(1) option.inject)
    then show ?thesis by (auto simp: present_def)
  qed
  have fin: "finite {s. (M(t \<mapsto> sc)) s \<noteq> None}"
    by (rule finite_subset [of _ "insert t {s. M s \<noteq> None}"]) (use inv in \<open>auto simp: sinv_def\<close>)
  have cnt: "scope_count ?r x = card {s. (M(t \<mapsto> sc)) s = Some x}" for x
  proof (cases "x = sc")
    case True
    have "{s. (M(t \<mapsto> sc)) s = Some sc} = insert t {s. M s = Some sc}" by auto
    then show ?thesis using True t sinv_finite [OF inv, of sc] sinv_card [OF inv, of sc] by (simp add: scope_count_set)
  next
    case False
    then have "{s. (M(t \<mapsto> sc)) s = Some x} = {s. M s = Some x}" using t by auto
    then show ?thesis using False sinv_card [OF inv, of x] by (simp add: scope_count_set)
  qed
  show ?thesis
  proof (cases "scope_count r sc = 0")
    case True
    then have "sc \<notin> present M" using sinv_count [OF inv, of sc] by simp
    from scopeConnected_run [OF rok this, of E] obtain r' w' where c: "scopeConnected E S sc (?r, w) = (Inr (), r', w')"
      "router_ok T S (insert sc (present M)) r' w'" "so_scopesByIdentifierByElement r' = so_scopesByIdentifierByElement ?r"
      "so_scopeReferenceCounts r' = so_scopeReferenceCounts ?r" "codes r' = codes ?r" "doc_of w' = doc_of w" by blast
    have "scope_matched E S sc (r, w) = (Inr (), r', w')" using c(1) True by (simp add: scope_matched_def jbind_run jseq_run)
    moreover have "scope_count r' x = scope_count ?r x" for x using c(4) by (simp add: scope_count_def)
    then have "sinv T S L (M(t \<mapsto> sc)) r' w'"
      using inv c fin cnt unfolding sinv_def pres by (simp add: loaded_alt codes_def)
    ultimately show ?thesis using c(6) by blast
  next
    case False
    then have "sc \<in> present M" using sinv_count [OF inv, of sc] by simp
    then have "insert sc (present M) = present M" by (rule insert_absorb)
    moreover have "scope_matched E S sc (r, w) = (Inr (), ?r, w)" using False by (simp add: scope_matched_def jbind_run jseq_run)
    moreover have "codes ?r = codes r" by (simp add: loaded_alt codes_def)
    ultimately show ?thesis using inv rok fin cnt unfolding sinv_def pres by (intro exI [of _ ?r] exI [of _ w]) simp
  qed
qed

lemma scope_unmatched_run:
  assumes inv: "sinv T S L M r w" and t: "M t = Some sc"
  shows "\<exists>r' w'. scope_unmatched sc (r, w) = (Inr (), r', w') \<and> sinv T S L (M(t := None)) r' w' \<and> doc_of w' = doc_of w"
proof -
  let ?n = "scope_count r sc"
  let ?r = "r\<lparr>so_scopeReferenceCounts := map_set sc (?n - 1) (so_scopeReferenceCounts r)\<rparr>"
  have here: "sc \<in> present M" using t by (auto simp: present_def)
  then have pos: "?n \<noteq> 0" using sinv_count [OF inv, of sc] by simp
  have "router_ok T S (present M) r w" using inv by (simp add: sinv_def)
  then have rok: "router_ok T S (present M) ?r w" using modules_ok_tables [of ?r r] by (simp add: router_ok_def)
  have fin: "finite {s. (M(t := None)) s \<noteq> None}"
    by (rule finite_subset [of _ "{s. M s \<noteq> None}"]) (use inv in \<open>auto simp: sinv_def\<close>)
  have cnt: "scope_count ?r x = card {s. (M(t := None)) s = Some x}" for x
  proof (cases "x = sc")
    case True
    have "{s. (M(t := None)) s = Some sc} = {s. M s = Some sc} - {t}" by auto
    then show ?thesis using True t sinv_finite [OF inv, of sc] sinv_card [OF inv, of sc] by (simp add: scope_count_set)
  next
    case False
    then have "{s. (M(t := None)) s = Some x} = {s. M s = Some x}" using t by auto
    then show ?thesis using False sinv_card [OF inv, of x] by (simp add: scope_count_set)
  qed
  have other: "x \<in> present (M(t := None)) \<longleftrightarrow> scope_count ?r x \<noteq> 0" for x
  proof -
    have "finite {s. (M(t := None)) s = Some x}" by (rule finite_subset [OF _ fin]) auto
    then show ?thesis unfolding cnt by (auto simp: present_def split: if_split_asm)
  qed
  have get: "scope_count ?r x = (if x = sc then ?n - 1 else scope_count r x)" for x by (rule scope_count_set)
  show ?thesis
  proof (cases "?n = 1")
    case True
    then have pres: "present (M(t := None)) = present M - {sc}"
      unfolding set_eq_iff other get using sinv_count [OF inv] by auto
    from scopeDisconnected_run [OF rok here] obtain r' w' where c: "scopeDisconnected sc (?r, w) = (Inr (), r', w')"
      "router_ok T S (present M - {sc}) r' w'" "so_scopesByIdentifierByElement r' = so_scopesByIdentifierByElement ?r"
      "so_scopeReferenceCounts r' = so_scopeReferenceCounts ?r" "codes r' = codes ?r" "doc_of w' = doc_of w" by blast
    have "scope_unmatched sc (r, w) = (Inr (), r', w')" using c(1) True by (simp add: scope_unmatched_def jbind_run jseq_run)
    moreover have "scope_count r' x = scope_count ?r x" for x using c(4) by (simp add: scope_count_def)
    then have "sinv T S L (M(t := None)) r' w'"
      using inv c fin cnt unfolding sinv_def pres by (simp add: loaded_alt codes_def)
    ultimately show ?thesis using c(6) by blast
  next
    case False
    then have "present (M(t := None)) = present M"
      unfolding set_eq_iff other get using sinv_count [OF inv] pos by auto
    moreover have "scope_unmatched sc (r, w) = (Inr (), ?r, w)" using False pos by (simp add: scope_unmatched_def jbind_run jseq_run)
    moreover have "codes ?r = codes r" by (simp add: loaded_alt codes_def)
    ultimately show ?thesis using inv rok fin cnt unfolding sinv_def by (intro exI [of _ ?r] exI [of _ w]) simp
  qed
qed

lemma scope_parse_run:
  assumes inv: "sinv T S L M r w" and p: "scope_parse t (r, w) = (x, r')"
  shows "sinv T S L M r' w \<and> x = Inr (sspec (doc_of w) t)"
proof -
  let ?e = "tk_element t"
  let ?m = "case map_get (so_scopesByIdentifierByElement r) ?e of Some m \<Rightarrow> m | None \<Rightarrow> []"
  have cached: "map_get m i = Some sc \<Longrightarrow> sc = \<lparr>sc_element = e, sc_identifier = i\<rparr>"
    if "map_get (so_scopesByIdentifierByElement r) e = Some m" for e m i sc
    using inv that unfolding sinv_def by blast
  have here: "map_get ?m i = Some sc \<Longrightarrow> sc = \<lparr>sc_element = ?e, sc_identifier = i\<rparr>" for i sc
    using cached [of ?e] by (auto split: option.split_asm)
  obtain m' where m': "r' = r\<lparr>so_scopesByIdentifierByElement := map_set ?e m' (so_scopesByIdentifierByElement r)\<rparr>"
    "x = Inr (Some \<lparr>sc_element = ?e, sc_identifier = tk_content t\<rparr>)" "\<And>i sc. map_get m' i = Some sc \<Longrightarrow> sc = \<lparr>sc_element = ?e, sc_identifier = i\<rparr>"
  proof (cases "map_get ?m (tk_content t)")
    case None
    have "map_get (map_set (tk_content t) \<lparr>sc_element = ?e, sc_identifier = tk_content t\<rparr> ?m) i = Some sc \<Longrightarrow>
        sc = \<lparr>sc_element = ?e, sc_identifier = i\<rparr>" for i sc using here [of i sc] by (simp split: if_split_asm)
    moreover have "x = Inr (Some \<lparr>sc_element = ?e, sc_identifier = tk_content t\<rparr>)"
      "r' = r\<lparr>so_scopesByIdentifierByElement := map_set ?e (map_set (tk_content t) \<lparr>sc_element = ?e, sc_identifier = tk_content t\<rparr> ?m)
         (so_scopesByIdentifierByElement r)\<rparr>"
      using None p by (simp_all add: scope_parse_def Let_def createScopeForElementAndIdentifier_def)
    ultimately show ?thesis by (intro that)
  next
    case (Some sc)
    then have "x = Inr (Some sc)" "r' = r\<lparr>so_scopesByIdentifierByElement := map_set ?e ?m (so_scopesByIdentifierByElement r)\<rparr>"
      using p by (simp_all add: scope_parse_def Let_def)
    then show ?thesis using here [OF Some] by (intro that [of ?m]) (simp_all add: here)
  qed
  have "router_ok T S (present M) r' w" "codes r' = codes r" "scope_count r' = scope_count r"
    using inv m'(1) modules_ok_tables [of r' r T S] by (simp_all add: sinv_def router_ok_def loaded_alt codes_def scope_count_def fun_eq_iff)
  moreover have "sc = \<lparr>sc_element = e, sc_identifier = i\<rparr>"
    if "map_get (so_scopesByIdentifierByElement r') e = Some m" "map_get m i = Some sc" for e m i sc
    using that m'(1,3) cached by (simp split: if_split_asm)
  ultimately have "sinv T S L M r' w" using inv unfolding sinv_def by simp
  then show ?thesis using m'(2) by (simp add: sspec_def)
qed

interpretation sclient: vl_client "scope_ops E S" "sinv T S L" sspec an for E S T L an
proof
  fix M r w t x r'
  assume "sinv T S L M r w" "dg_parse (scope_ops E S) t (r, w) = (x, r')"
  then show "sinv T S L M r' w \<and> (case x of Inl x \<Rightarrow> None | Inr v \<Rightarrow> v) = sspec (doc_of w) t"
    using scope_parse_run [of T S L M r w t x r'] by (simp add: scope_ops_def)
next
  fix M r w v and t :: token
  assume i: "sinv T S L M r w" and t: "\<And>t'. M t' \<noteq> None \<Longrightarrow> tk_id t' \<noteq> tk_id t"
  have "M t = None" using t by blast
  from scope_matched_run [OF i this]
  show "\<exists>d' w'. dg_matched (scope_ops E S) (tk_element t) v (r, w) = (Inr (), d', w') \<and> sinv T S L (M(t \<mapsto> v)) d' w' \<and> doc_of w' = doc_of w"
    by (simp add: scope_ops_def)
next
  fix M r w v and t :: token
  assume "sinv T S L M r w" "M t = Some v"
  from scope_unmatched_run [OF this]
  show "\<exists>d' w'. dg_unmatched (scope_ops E S) (tk_element t) v (r, w) = (Inr (), d', w') \<and> sinv T S L (M(t := None)) d' w' \<and> doc_of w' = doc_of w"
    by (simp add: scope_ops_def)
qed

end
