(* ===== verification/StApp.thy ===== *)
theory StApp
  imports StRouter
begin

section \<open>The application as a whole\<close>

text \<open>
  What holds of an application of \<open>stimulus.js\<close> whatever happens and in whatever order: controllers are
  registered and unloaded, the application is started and stopped, the page changes, the
  observers get their records, events arrive. The step relation \<open>app_step\<close> has one rule for
  each; its invariant is that the contexts that run are those of the scopes the observer
  knows whose controller is loaded, and that every connected binding belongs to one of
  them. An application that has just started, moreover, has exactly the contexts and the
  bindings its document declares, and an event runs exactly those of its target and name.
\<close>

subsection \<open>Changes of the world under the router\<close>

lemma modules_ok_world:
  assumes ok: "modules_ok T' S Rf r w" and T: "T \<longrightarrow> T' \<and> doc_of w' = doc_of w \<and> (plain_names (lw_dispatcher w) \<longrightarrow> plain_names (lw_dispatcher w'))"
    and d: "disp_ok (lw_dispatcher w')" "bound (lw_dispatcher w') = bound (lw_dispatcher w)"
  shows "modules_ok T S Rf r w'"
proof -
  have own: "own_bound sc w' = own_bound sc w" for sc using d(2) by (simp add: own_bound_def)
  have "m_identifier md = i \<and> mod_ok S (Rf i) md w' \<and>
      (T \<and> dom_wf (doc_of w') \<longrightarrow> (\<forall>sc\<in>Rf i. sc_element sc \<in> dom_elems (doc_of w') \<longrightarrow>
         (\<exists>c. map_get (m_contextsByScope md) sc = Some c \<and> tracking S i (doc_of w') sc c)))"
    if m: "map_get (r_modulesByIdentifier r) i = Some md" for i md
    using modules_okD(3,5) [OF ok m] mod_ok_frame [OF modules_okD(4) [OF ok m] d(1) own] T by auto
  moreover have "T \<and> plain_doc (actionAttribute S) (doc_of w') \<longrightarrow> plain_names (lw_dispatcher w')"
    using T modules_okD(7) [OF ok] by auto
  ultimately show ?thesis using ok d unfolding modules_ok_def by simp
qed

lemma sinv_world:
  assumes "sinv T' S L M r w" "T \<longrightarrow> T' \<and> doc_of w' = doc_of w \<and> (plain_names (lw_dispatcher w) \<longrightarrow> plain_names (lw_dispatcher w'))"
    and "disp_ok (lw_dispatcher w')" "bound (lw_dispatcher w') = bound (lw_dispatcher w)"
  shows "sinv T S L M r w'"
  using assms modules_ok_world [of T' S "of_id (present M)" r w T w'] by (simp add: sinv_def router_ok_def)

lemma sinv_disp: "sinv T S L M r w \<Longrightarrow> disp_ok (lw_dispatcher w)"
  by (simp add: sinv_def router_ok_def modules_ok_def)

text \<open>The records of one context, wherever it is.\<close>

definition on_running :: "string \<Rightarrow> scope \<Rightarrow> (cxt \<times> 'z page_scheme lworld, unit) js \<Rightarrow> ('z page_scheme app, unit) js" where
  "on_running i sc m = on_delegate (on_module i (on_context sc m))"

lemma on_context_run:
  assumes md: "mod_ok S R md w" and d: "disp_ok (lw_dispatcher w)"
    and obs: "\<And>c. observing S sc c w \<Longrightarrow> \<exists>c' w'. m (c, w) = (Inr (), c', w') \<and> observing S sc c' w' \<and>
      disp_ok (lw_dispatcher w') \<and> other_bound sc w' = other_bound sc w \<and> doc_of w' = doc_of w"
    and idl: "\<And>c. idle sc c \<Longrightarrow> \<exists>c'. m (c, w) = (Inr (), c', w) \<and> idle sc c'"
  shows "\<exists>md' w'. on_context sc m (md, w) = (Inr (), md', w') \<and> mod_ok S R md' w' \<and> m_identifier md' = m_identifier md \<and>
    disp_ok (lw_dispatcher w') \<and> other_bound sc w' = other_bound sc w \<and> doc_of w' = doc_of w \<and> (sc \<notin> R \<longrightarrow> w' = w) \<and> m_code md' = m_code md"
proof (cases "map_get (m_contextsByScope md) sc")
  case None
  then show ?thesis using md d by (simp add: on_context_def)
next
  case (Some c)
  obtain c' w' where c': "m (c, w) = (Inr (), c', w')" "disp_ok (lw_dispatcher w')" "other_bound sc w' = other_bound sc w"
    "doc_of w' = doc_of w" "sc \<in> R \<longrightarrow> observing S sc c' w'" "sc \<notin> R \<longrightarrow> idle sc c' \<and> w' = w"
  proof (cases "sc \<in> R")
    case True
    then have "observing S sc c w" using md Some unfolding mod_ok_def by fastforce
    from obs [OF this] show ?thesis using that True by blast
  next
    case False
    then have "idle sc c" using md Some unfolding mod_ok_def by blast
    from idl [OF this] show ?thesis using that False d by blast
  qed
  let ?md = "md\<lparr>m_contextsByScope := map_set sc c' (m_contextsByScope md)\<rparr>"
  have rest: "observing S x y w'" if "observing S x y w" "x \<noteq> sc" for x y
    by (rule observing_frame [OF that(1) c'(2) own_bound_other [OF c'(3) that(2)]])
  have "mod_ok S R ?md w'" using md c'(5,6) rest unfolding mod_ok_def by simp (metis (no_types, lifting))
  moreover have "on_context sc m (md, w) = (Inr (), ?md, w')" using Some c'(1) by (simp add: on_context_def)
  ultimately show ?thesis using c' by (intro exI [of _ ?md] exI [of _ w']) simp
qed

lemma on_running_run:
  assumes ok: "modules_ok T S Rf r w"
    and obs: "\<And>c. observing S sc c w \<Longrightarrow> \<exists>c' w'. m (c, w) = (Inr (), c', w') \<and> observing S sc c' w' \<and>
      disp_ok (lw_dispatcher w') \<and> other_bound sc w' = other_bound sc w \<and> doc_of w' = doc_of w"
    and idl: "\<And>c. idle sc c \<Longrightarrow> \<exists>c'. m (c, w) = (Inr (), c', w) \<and> idle sc c'"
  shows "\<exists>r' w'. on_module i (on_context sc m) (r, w) = (Inr (), r', w') \<and> modules_ok False S Rf r' w' \<and>
    tables_of r' = tables_of r \<and> codes r' = codes r \<and> doc_of w' = doc_of w"
proof (cases "map_get (r_modulesByIdentifier r) i")
  case None
  then have "on_module i (on_context sc m) (r, w) = (Inr (), r, w)" by (simp add: on_module_def)
  then show ?thesis using modules_ok_world [OF ok, of False w] modules_okD(1) [OF ok] by simp
next
  case (Some md)
  have okF: "modules_ok False S Rf r w" using modules_ok_world [OF ok] modules_okD(1) [OF ok] by simp
  obtain md' w' where c: "on_context sc m (md, w) = (Inr (), md', w')" "mod_ok S (Rf i) md' w'" "m_identifier md' = m_identifier md"
    "disp_ok (lw_dispatcher w')" "other_bound sc w' = other_bound sc w" "doc_of w' = doc_of w" "sc \<notin> Rf i \<longrightarrow> w' = w" "m_code md' = m_code md"
    using on_context_run [where m = m, OF modules_okD(4) [OF ok Some] modules_okD(1) [OF ok] obs idl] by blast
  have b: "b \<in> bound (lw_dispatcher w') \<longleftrightarrow> b \<in> bound (lw_dispatcher w)" if "b_scope b \<noteq> sc \<or> sc \<notin> Rf i" for b
    using c(5,7) that by (auto simp: other_bound_def set_eq_iff)
  have own: "b_scope b \<in> Rf i" if "sc_identifier (b_scope b) = i" "b \<in> bound (lw_dispatcher w')" for b
    using that b [of b] modules_okD(6) [OF ok, of b] by (cases "b_scope b \<noteq> sc \<or> sc \<notin> Rf i") auto
  have other: "b \<in> bound (lw_dispatcher w') \<longleftrightarrow> b \<in> bound (lw_dispatcher w)" if "sc_identifier (b_scope b) \<noteq> i" for b
  proof (rule b)
    show "b_scope b \<noteq> sc \<or> sc \<notin> Rf i" using that modules_okD(2) [OF ok, of sc i] by auto
  qed
  have "modules_ok False S (Rf(i := Rf i)) (r\<lparr>r_modulesByIdentifier := map_set i md' (r_modulesByIdentifier r)\<rparr>) w'"
    using modules_okD(2,3) [OF ok] Some c(3) by (intro modules_ok_put [OF okF c(4,6,2)]) (simp_all add: own other)
  then show ?thesis using Some c(1,6,8) by (auto simp: on_module_def tables_of_def codes_def fun_eq_iff)
qed

subsection \<open>Operations and traces\<close>

text \<open>What can happen to an application: calls of its methods, records for one of its observers, a
  change of the page by something else, and an event, with a new event object.\<close>

datatype 'u app_op =
    Register string "'u code"
  | Unload string
  | Start
  | Stop
  | Records "mutation list"
  | ContextRecords string scope "mutation list"
  | ValueRecords string scope "string option list"
  | PageChange "'u \<Rightarrow> 'u"
  | Event event_target string event_target

definition context_records :: "string \<Rightarrow> scope \<Rightarrow> mutation list \<Rightarrow> ('z page_scheme app, unit) js" where
  "context_records i sc ms = on_running i sc (bindings_processMutations i ms)"

definition value_records :: "env \<Rightarrow> string \<Rightarrow> scope \<Rightarrow> string option list \<Rightarrow> ('z page_scheme app, unit) js" where
  "value_records E i sc ns =
     jbind (jget (\<lambda>(ob, w). map_get (r_modulesByIdentifier (vl_delegate ob)) i)) (\<lambda>m.
       case m of None \<Rightarrow> jret () | Some md \<Rightarrow> on_running i sc (values_processMutations E (m_code md) ns))"

definition app_event :: "schema \<Rightarrow> event_target \<Rightarrow> string \<Rightarrow> event_target \<Rightarrow> ('z page_scheme app, unit) js" where
  "app_event S at n t =
     jbind (jget (\<lambda>(ob, w). app_methods (vl_delegate ob))) (\<lambda>ms.
       on_world (jseq (jmodify (\<lambda>w. w\<lparr>lw_stopped := None\<rparr>)) (deliver S ms at n t)))"

fun app_do :: "env \<Rightarrow> schema \<Rightarrow> 'z page_scheme app_op \<Rightarrow> ('z page_scheme app, unit) js" where
  "app_do E S (Register i cd) = application_register E S i cd"
| "app_do E S (Unload i) = application_unload [i]"
| "app_do E S Start = application_start E S"
| "app_do E S Stop = application_stop"
| "app_do E S (Records ms) = processMutations (scope_ops E S) ms"
| "app_do E S (ContextRecords i sc ms) = context_records i sc ms"
| "app_do E S (ValueRecords i sc ns) = value_records E i sc ns"
| "app_do E S (PageChange f) = jmodify (\<lambda>(ob, w). (ob, w\<lparr>lw_page := f (lw_page w)\<rparr>))"
| "app_do E S (Event at n t) = app_event S at n t"

fun calm_op :: "'z page_scheme app_op \<Rightarrow> bool" where
  "calm_op (Register i cd) = calm cd"
| "calm_op _ = True"

text \<open>The code a trace leaves registered, by identifier.\<close>

fun registered :: "'u app_op \<Rightarrow> (string \<Rightarrow> 'u code option) \<Rightarrow> string \<Rightarrow> 'u code option" where
  "registered (Register i cd) L = L(i \<mapsto> cd)"
| "registered (Unload i) L = L(i := None)"
| "registered _ L = L"

inductive app_trace :: "env \<Rightarrow> schema \<Rightarrow> 'z page_scheme app \<Rightarrow> 'z page_scheme app_op list \<Rightarrow> 'z page_scheme app \<Rightarrow> bool"
  for E :: env and S :: schema and s0 :: "'z page_scheme app" where
  trace_init: "app_trace E S s0 [] s0"
| trace_step: "app_trace E S s0 ops s \<Longrightarrow> calm_op op \<Longrightarrow> app_do E S op s = (x, s') \<Longrightarrow> app_trace E S s0 (ops @ [op]) s'"

subsection \<open>The invariant\<close>

definition app_ok :: "bool \<Rightarrow> schema \<Rightarrow> (string \<Rightarrow> 'z page_scheme code option) \<Rightarrow> 'z page_scheme app \<Rightarrow> bool" where
  "app_ok T S L s \<longleftrightarrow> (case s of (ob, w) \<Rightarrow>
     tables_ok ob \<and> elements_ok ob \<and> ao_attributeName ob = controllerAttribute S \<and> sinv T S L (token_values ob) (vl_delegate ob) w \<and>
     (\<forall>e. \<forall>t\<in>set (tokens_of ob e). value_of_token ob t = Some \<lparr>sc_element = tk_element t, sc_identifier = tk_content t\<rparr>))"

lemma app_ok_iff:
  "app_ok T S L (ob, w) \<longleftrightarrow> sclient.consistent T S L (controllerAttribute S) ob w \<and> sclient.all_spec d ob"
  by (auto simp: app_ok_def sclient.consistent_def sclient.good_def sclient.all_spec_def sspec_def)

lemma app_ok_yields:
  assumes "app_ok T S L (ob, w)" "sclient.yields T S L (controllerAttribute S) m ob w V"
  shows "fst (m (ob, w)) = Inr () \<and> app_ok T S L (snd (m (ob, w))) \<and> view (fst (snd (m (ob, w)))) = V \<and>
    doc_of (snd (snd (m (ob, w)))) = doc_of w \<and> eo_started (fst (snd (m (ob, w)))) = eo_started ob \<and>
    eo_element (fst (snd (m (ob, w)))) = eo_element ob"
  using assms unfolding app_ok_iff [of T S L _ _ "doc_of w"] sclient.yields_def by (auto simp: app_ok_iff [of T S L _ _ "doc_of w"])

text \<open>A change of the router, with the scopes it knows as they were.\<close>

lemma app_ok_delegate:
  assumes ok: "app_ok T S L (ob, w)"
    and run: "m (vl_delegate ob, w) = (Inr (), r', w')" "tables_of r' = tables_of (vl_delegate ob)"
    and rok: "router_ok T' S (present (token_values ob)) r' w'" "codes r' = L'"
  shows "fst (on_delegate m (ob, w)) = Inr () \<and> app_ok T' S L' (snd (on_delegate m (ob, w)))"
proof -
  let ?ob = "ob\<lparr>vl_delegate := r'\<rparr>"
  have tv: "token_values ?ob = token_values ob" "value_of_token ?ob = value_of_token ob"
    by (simp_all add: token_values_def value_of_token_def fun_eq_iff)
  have "scope_count r' = scope_count (vl_delegate ob)" "so_scopesByIdentifierByElement r' = so_scopesByIdentifierByElement (vl_delegate ob)"
    using run(2) by (simp_all add: tables_of_def scope_count_def fun_eq_iff)
  then have "sinv T' S L' (token_values ob) r' w'" using ok rok unfolding app_ok_def sinv_def by simp
  then have "app_ok T' S L' (?ob, w')" using ok tv by (simp add: app_ok_def tables_ok_def elements_ok_def)
  then show ?thesis using run(1) by (simp add: on_delegate_def)
qed

lemma app_ok_router: "app_ok T S L (ob, w) \<Longrightarrow> router_ok T S (present (token_values ob)) (vl_delegate ob) w \<and> codes (vl_delegate ob) = L"
  by (simp add: app_ok_def sinv_def)

lemma register_ok:
  assumes "app_ok T S L (ob, w)" "calm cd"
  shows "fst (application_register E S i cd (ob, w)) = Inr () \<and> app_ok T S (L(i \<mapsto> cd)) (snd (application_register E S i cd (ob, w)))"
proof -
  obtain r' w' where "loadDefinition E S (i, cd) (vl_delegate ob, w) = (Inr (), r', w')"
    "router_ok T S (present (token_values ob)) r' w'" "tables_of r' = tables_of (vl_delegate ob)" "codes r' = L(i \<mapsto> cd)"
    using load_run [of T S "present (token_values ob)" "vl_delegate ob" w cd E i] app_ok_router [OF assms(1)] assms(2) by auto
  from app_ok_delegate [where m = "loadDefinition E S (i, cd)", OF assms(1) this(1,3,2,4)]
  show ?thesis by (cases "on_delegate (loadDefinition E S (i, cd)) (ob, w)") (simp add: application_register_def application_load_def jseq_run)
qed

lemma unload_ok:
  assumes "app_ok T S L (ob, w)"
  shows "fst (application_unload [i] (ob, w)) = Inr () \<and> app_ok T S (L(i := None)) (snd (application_unload [i] (ob, w)))"
proof -
  obtain r' w' where "unloadIdentifier i (vl_delegate ob, w) = (Inr (), r', w')"
    "router_ok T S (present (token_values ob)) r' w'" "tables_of r' = tables_of (vl_delegate ob)" "codes r' = L(i := None)"
    using unload_run [of T S "present (token_values ob)" "vl_delegate ob" w i] app_ok_router [OF assms(1)] by auto
  from app_ok_delegate [where m = "unloadIdentifier i", OF assms(1) this(1,3,2,4)]
  show ?thesis by (cases "on_delegate (unloadIdentifier i) (ob, w)") (simp add: application_unload_def jseq_run)
qed

lemma app_ok_world:
  assumes "app_ok T' S L (ob, w)" "T \<longrightarrow> T' \<and> doc_of w' = doc_of w \<and> (plain_names (lw_dispatcher w) \<longrightarrow> plain_names (lw_dispatcher w'))"
    and "disp_ok (lw_dispatcher w')" "bound (lw_dispatcher w') = bound (lw_dispatcher w)"
  shows "app_ok T S L (ob, w')"
  using assms sinv_world [of T' S L "token_values ob" "vl_delegate ob" w T w'] by (simp add: app_ok_def)

lemma app_ok_disp: "app_ok T S L (ob, w) \<Longrightarrow> disp_ok (lw_dispatcher w)"
  by (auto simp: app_ok_def sinv_disp)

lemma start_app_ok:
  assumes ok: "app_ok T S L (ob, w)"
  shows "fst (application_start E S (ob, w)) = Inr () \<and> app_ok T S L (snd (application_start E S (ob, w)))"
proof -
  let ?w = "w\<lparr>lw_dispatcher := dispatcher_start (lw_dispatcher w)\<rparr>"
  have "app_ok T S L (ob, ?w)" using app_ok_disp [OF ok] by (intro app_ok_world [OF ok]) (simp_all add: doc_of_def start_ok plain_start)
  then obtain ob' w' where "observer_start (scope_ops E S) (ob, ?w) = (Inr (), ob', w')" "app_ok T S L (ob', w')"
    using sclient.start_settles [of T S L "controllerAttribute S" ob ?w E] unfolding app_ok_iff [of T S L _ _ "doc_of ?w"] by blast
  then show ?thesis by (simp add: application_start_def jseq_run)
qed

lemma stop_app_ok:
  assumes ok: "app_ok T S L (ob, w)"
  shows "fst (application_stop (ob, w)) = Inr () \<and> app_ok T S L (snd (application_stop (ob, w)))"
proof -
  let ?w = "w\<lparr>lw_dispatcher := dispatcher_stop (lw_dispatcher w)\<rparr>"
  have "app_ok T S L (ob, ?w)" using app_ok_disp [OF ok] by (intro app_ok_world [OF ok]) (simp_all add: doc_of_def stop_ok plain_stop)
  moreover have "token_values (ob\<lparr>eo_started := x\<rparr>) = token_values ob" "value_of_token (ob\<lparr>eo_started := x\<rparr>) = value_of_token ob" for x
    by (simp_all add: token_values_def value_of_token_def fun_eq_iff)
  ultimately show ?thesis
    by (auto simp: application_stop_def observer_stop_def on_vlo_def jseq_run app_ok_def tables_ok_def elements_ok_def)
qed

lemma records_ok:
  assumes "app_ok T S L (ob, w)"
  shows "fst (processMutations (scope_ops E S) ms (ob, w)) = Inr () \<and> app_ok T S L (snd (processMutations (scope_ops E S) ms (ob, w)))"
proof (cases "eo_started ob")
  case True
  have "sclient.consistent T S L (controllerAttribute S) ob w" using assms by (simp add: app_ok_iff [of T S L _ _ "doc_of w"])
  from app_ok_yields [OF assms sclient.mutations_yields [OF this True]] show ?thesis by blast
next
  case False
  then show ?thesis using assms by (simp add: processMutations_def jbind_run)
qed

lemma running_ok:
  assumes ok: "app_ok T S L (ob, w)"
    and obs: "\<And>c. observing S sc c w \<Longrightarrow> \<exists>c' w'. m (c, w) = (Inr (), c', w') \<and> observing S sc c' w' \<and>
      disp_ok (lw_dispatcher w') \<and> other_bound sc w' = other_bound sc w \<and> doc_of w' = doc_of w"
    and idl: "\<And>c. idle sc c \<Longrightarrow> \<exists>c'. m (c, w) = (Inr (), c', w) \<and> idle sc c'"
  shows "fst (on_running i sc m (ob, w)) = Inr () \<and> app_ok False S L (snd (on_running i sc m (ob, w)))"
proof -
  have "modules_ok T S (of_id (present (token_values ob))) (vl_delegate ob) w" using app_ok_router [OF ok] by (simp add: router_ok_def)
  from on_running_run [where m = m and i = i, OF this obs idl] obtain r' w' where
    r: "on_module i (on_context sc m) (vl_delegate ob, w) = (Inr (), r', w')"
    "modules_ok False S (of_id (present (token_values ob))) r' w'" "tables_of r' = tables_of (vl_delegate ob)" "codes r' = codes (vl_delegate ob)"
    by blast
  have "router_ok False S (present (token_values ob)) r' w'" using r(2,3) app_ok_router [OF ok] by (simp add: router_ok_def tables_of_def)
  moreover have "codes r' = L" using r(4) app_ok_router [OF ok] by simp
  ultimately show ?thesis unfolding on_running_def by (rule app_ok_delegate [where m = "on_module i (on_context sc m)", OF ok r(1,3)])
qed

lemma context_records_ok:
  assumes "app_ok T S L (ob, w)"
  shows "fst (context_records i sc ms (ob, w)) = Inr () \<and> app_ok False S L (snd (context_records i sc ms (ob, w)))"
  unfolding context_records_def
  by (rule running_ok [OF assms], rule bindings_mutations_run) (auto simp: idle_def bindings_processMutations_def)

lemma value_records_ok:
  assumes ok: "app_ok T S L (ob, w)"
  shows "fst (value_records E i sc ns (ob, w)) = Inr () \<and> app_ok False S L (snd (value_records E i sc ns (ob, w)))"
proof (cases "map_get (r_modulesByIdentifier (vl_delegate ob)) i")
  case None
  have "app_ok False S L (ob, w)" using app_ok_disp [OF ok] by (intro app_ok_world [OF ok]) simp_all
  then show ?thesis using None by (simp add: value_records_def jbind_run)
next
  case (Some md)
  have "modules_ok T S (of_id (present (token_values ob))) (vl_delegate ob) w" using app_ok_router [OF ok] by (simp add: router_ok_def)
  from modules_okD(4) [OF this Some] have cd: "calm (m_code md)" by (simp add: mod_ok_def)
  have "fst (on_running i sc (values_processMutations E (m_code md) ns) (ob, w)) = Inr () \<and>
      app_ok False S L (snd (on_running i sc (values_processMutations E (m_code md) ns) (ob, w)))"
  proof (rule running_ok [OF ok])
    fix c
    obtain o1 where run: "values_processMutations E (m_code md) ns (c, w) = (Inr (), c\<lparr>cx_values := o1\<rparr>, w)"
      using values_mutations_run [OF cd] by blast
    show "\<exists>c' w'. values_processMutations E (m_code md) ns (c, w) = (Inr (), c', w') \<and> observing S sc c' w' \<and>
      disp_ok (lw_dispatcher w') \<and> other_bound sc w' = other_bound sc w \<and> doc_of w' = doc_of w" if "observing S sc c w"
      using run that app_ok_disp [OF ok] by (auto simp: observing_def)
    show "\<exists>c'. values_processMutations E (m_code md) ns (c, w) = (Inr (), c', w) \<and> idle sc c'" if "idle sc c"
      using run that by (auto simp: idle_def)
  qed
  then show ?thesis using Some by (simp add: value_records_def jbind_run)
qed

lemma app_methods_codes:
  "app_methods r sc n = (case codes r (sc_identifier sc) of None \<Rightarrow> None | Some cd \<Rightarrow> cd_method cd sc n)"
  by (simp add: app_methods_def codes_def split: option.split)

text \<open>Methods that leave the document as it is.\<close>

definition calm_methods :: "'z page_scheme code \<Rightarrow> bool" where
  "calm_methods cd \<longleftrightarrow> (\<forall>sc n m t p b. cd_method cd sc n = Some m \<longrightarrow> pg_dom (fst (snd (m t (p, b)))) = pg_dom p)"

lemma event_app_ok:
  assumes ok: "app_ok T' S L (ob, w)" and T: "T \<longrightarrow> T' \<and> (\<forall>i cd. L i = Some cd \<longrightarrow> calm_methods cd)"
  shows "fst (app_event S at n t (ob, w)) = Inr () \<and> app_ok T S L (snd (app_event S at n t (ob, w))) \<and>
    (T \<longrightarrow> doc_of (snd (snd (app_event S at n t (ob, w)))) = doc_of w) \<and> fst (snd (app_event S at n t (ob, w))) = ob"
proof -
  let ?w = "w\<lparr>lw_stopped := None\<rparr>" let ?ms = "app_methods (vl_delegate ob)"
  have d: "disp_ok (lw_dispatcher ?w)" using app_ok_disp [OF ok] by simp
  have run: "app_event S at n t (ob, w) = (Inr (), ob, snd (deliver S ?ms at n t ?w))"
    using deliver_keeps(1) [OF d, of S ?ms at n t]
    by (cases "deliver S ?ms at n t ?w") (simp add: app_event_def on_world_def jbind_run jseq_run)
  have "doc_of (snd (deliver S ?ms at n t ?w)) = doc_of w" if "T"
  proof -
    have "doc_kept ?ms"
      using that T app_ok_router [OF ok] unfolding doc_kept_def calm_methods_def
      by (auto simp: app_methods_codes split: option.split_asm)
    from deliver_doc [OF this, of S at n t ?w] show ?thesis by (simp add: doc_of_def)
  qed
  moreover from this have "app_ok T S L (ob, snd (deliver S ?ms at n t ?w))"
    using T deliver_keeps [OF d] by (intro app_ok_world [OF ok]) simp_all
  ultimately show ?thesis using run by simp
qed

lemma app_do_ok:
  assumes "app_ok T S L (ob, w)" "calm_op op"
  shows "fst (app_do E S op (ob, w)) = Inr () \<and> app_ok False S (registered op L) (snd (app_do E S op (ob, w)))"
proof -
  have F: "app_ok False S L (ob, w)" using app_ok_disp [OF assms(1)] by (intro app_ok_world [OF assms(1)]) simp_all
  show ?thesis
  proof (cases op)
    case (PageChange f)
    then show ?thesis using app_ok_world [OF F, of False "w\<lparr>lw_page := f (lw_page w)\<rparr>"] app_ok_disp [OF F] by simp
  qed (use F assms(2) in \<open>simp_all add: register_ok unload_ok start_app_ok stop_app_ok records_ok context_records_ok value_records_ok event_app_ok [where T = False]\<close>)
qed

lemma new_app_ok:
  fixes p :: "'z page_scheme"
  shows "app_ok T S Map.empty (newApplication e S p)"
proof -
  let ?r = "\<lparr>so_scopesByIdentifierByElement = [], so_scopeReferenceCounts = [], r_scopesByIdentifier = [], r_modulesByIdentifier = []\<rparr> :: 'z page_scheme rt"
  let ?ob = "newValueListObserver e (controllerAttribute S) ?r :: (scope, 'z page_scheme rt) vlo"
  have tok: "tokens_of ?ob x = []" for x by (simp add: newValueListObserver_def getValuesForKey_def)
  have tv: "token_values ?ob = (\<lambda>_. None)" by (simp add: token_values_def tok fun_eq_iff)
  have "disp_ok newDispatcher" "bound newDispatcher = {}" by (simp_all add: disp_ok_def newDispatcher_def bound_def listener_at_def)
  moreover have "of_id {} = (\<lambda>_. {})" by (simp add: of_id_def fun_eq_iff)
  ultimately have "sinv T S Map.empty (\<lambda>_. None) ?r \<lparr>lw_dispatcher = newDispatcher, lw_errors = [], lw_stopped = None, lw_page = p\<rparr>"
    by (simp add: sinv_def present_def scope_count_def loaded_alt codes_def router_ok_def modules_ok_def mm_ok_def mm_rel_def mm_has_def plain_new fun_eq_iff)
  moreover have "tables_ok ?ob" "elements_ok ?ob"
    by (simp_all add: tables_ok_def elements_ok_def newValueListObserver_def mm_ok_def getValuesForKey_def numbered_def)
  ultimately show ?thesis using tok tv by (simp add: app_ok_def newApplication_def newValueListObserver_def)
qed

lemma trace_ok:
  assumes "app_trace E S (newApplication e S p) ops s"
  shows "app_ok False S (fold registered ops Map.empty) s"
  using assms
proof (induction rule: app_trace.induct)
  case trace_init
  show ?case by (simp add: new_app_ok)
next
  case (trace_step ops s op x s')
  then show ?case using app_do_ok [of False S "fold registered ops Map.empty" "fst s" "snd s" op E] by simp
qed

subsection \<open>What the invariant says of controllers and bindings\<close>

lemma present_view:
  assumes ok: "app_ok T S L (ob, w)"
  shows "sc \<in> present (token_values ob) \<longleftrightarrow> (\<exists>cs. view ob (sc_element sc) = Some cs \<and> sc_identifier sc \<in> set cs)"
proof
  assume "sc \<in> present (token_values ob)"
  then obtain t where t: "t \<in> set (tokens_of ob (tk_element t))" "value_of_token ob t = Some sc"
    by (auto simp: present_def token_values_def split: if_split_asm)
  then have sc: "sc = \<lparr>sc_element = tk_element t, sc_identifier = tk_content t\<rparr>" using ok by (fastforce simp: app_ok_def)
  moreover have "tk_element t \<in> set (eo_elements ob)" using t(1) ok by (fastforce simp: app_ok_def elements_ok_def)
  ultimately show "\<exists>cs. view ob (sc_element sc) = Some cs \<and> sc_identifier sc \<in> set cs" using t(1) by (simp add: view_def)
next
  assume "\<exists>cs. view ob (sc_element sc) = Some cs \<and> sc_identifier sc \<in> set cs"
  then obtain t where t: "t \<in> set (tokens_of ob (sc_element sc))" "sc_identifier sc = tk_content t"
    by (auto simp: view_def split: if_split_asm)
  then have e: "tk_element t = sc_element sc" using ok by (auto simp: app_ok_def tables_ok_def)
  then have "value_of_token ob t = Some sc" using t ok by (auto simp: app_ok_def)
  then have "token_values ob t = Some sc" using t(1) e by (simp add: token_values_def)
  then show "sc \<in> present (token_values ob)" by (auto simp: present_def)
qed

lemma find_element:
  assumes "\<And>x. x \<in> set scs \<Longrightarrow> sc_identifier x = i"
  shows "List.find (\<lambda>x. sc_element x = e) scs = Some sc \<longleftrightarrow> sc = \<lparr>sc_element = e, sc_identifier = i\<rparr> \<and> sc \<in> set scs"
  using assms
proof (induction scs)
  case (Cons x scs)
  have x: "x = \<lparr>sc_element = e, sc_identifier = i\<rparr> \<longleftrightarrow> sc_element x = e" using Cons.prems [of x] by (cases x) auto
  have ih: "List.find (\<lambda>x. sc_element x = e) scs = Some sc \<longleftrightarrow> sc = \<lparr>sc_element = e, sc_identifier = i\<rparr> \<and> sc \<in> set scs"
    using Cons by simp
  show ?case
  proof (cases "sc_element x = e")
    case True
    then have "x = \<lparr>sc_element = e, sc_identifier = i\<rparr>" using x by blast
    then show ?thesis by auto
  next
    case False
    then have "\<lparr>sc_element = e, sc_identifier = i\<rparr> \<noteq> x" using x by blast
    then show ?thesis using ih False by (simp only: List.find.simps if_False list.set) blast
  qed
qed simp

lemma controller_iff:
  assumes ok: "app_ok T S L (ob, w)"
  shows "getControllerForElementAndIdentifier e i (ob, w) = Some sc \<longleftrightarrow>
    sc = \<lparr>sc_element = e, sc_identifier = i\<rparr> \<and> L i \<noteq> None \<and> (\<exists>cs. view ob e = Some cs \<and> i \<in> set cs)"
proof (cases "map_get (r_modulesByIdentifier (vl_delegate ob)) i")
  case None
  then have "L i = None" using app_ok_router [OF ok] by (auto simp: loaded_alt codes_def)
  then show ?thesis using None by (simp add: getControllerForElementAndIdentifier_def getContextForElementAndIdentifier_def)
next
  case (Some md)
  then have L: "L i \<noteq> None" using app_ok_router [OF ok] by (auto simp: loaded_alt codes_def)
  have "modules_ok T S (of_id (present (token_values ob))) (vl_delegate ob) w" using app_ok_router [OF ok] by (simp add: router_ok_def)
  from modules_okD(4) [OF this Some] have "set (m_connectedContexts md) = of_id (present (token_values ob)) i" by (simp add: mod_ok_def)
  then have mem: "x \<in> set (m_connectedContexts md) \<longleftrightarrow> sc_identifier x = i \<and> (\<exists>cs. view ob (sc_element x) = Some cs \<and> sc_identifier x \<in> set cs)" for x
    by (auto simp: of_id_def present_view [OF ok])
  have "List.find (\<lambda>x. sc_element x = e) (m_connectedContexts md) = Some sc \<longleftrightarrow>
      sc = \<lparr>sc_element = e, sc_identifier = i\<rparr> \<and> sc \<in> set (m_connectedContexts md)"
    by (rule find_element) (simp add: mem)
  moreover have "\<lparr>sc_element = e, sc_identifier = i\<rparr> \<in> set (m_connectedContexts md) \<longleftrightarrow> (\<exists>cs. view ob e = Some cs \<and> i \<in> set cs)"
    unfolding mem by simp
  ultimately show ?thesis using Some L unfolding getControllerForElementAndIdentifier_def getContextForElementAndIdentifier_def
    by (auto simp del: find_Some_iff)
qed

lemma bound_controller:
  assumes ok: "app_ok T S L (ob, w)" and b: "b \<in> bound (lw_dispatcher w)"
  shows "getControllerForElementAndIdentifier (sc_element (b_scope b)) (sc_identifier (b_scope b)) (ob, w) = Some (b_scope b)"
proof -
  have "modules_ok T S (of_id (present (token_values ob))) (vl_delegate ob) w" "codes (vl_delegate ob) = L"
    using app_ok_router [OF ok] by (simp_all add: router_ok_def)
  from modules_okD(6) [OF this(1) b] this(2) show ?thesis
    using present_view [OF ok, of "b_scope b"] by (auto simp: controller_iff [OF ok] of_id_def loaded_def)
qed

subsection \<open>What a document declares\<close>

definition declares_controller :: "schema \<Rightarrow> dom \<Rightarrow> elt \<Rightarrow> elt \<Rightarrow> string \<Rightarrow> bool" where
  "declares_controller S d root e i \<longleftrightarrow> e \<in> set (dom_below d root) \<and> hasAttribute d e (controllerAttribute S) \<and>
     i \<in> set (token_contents (attr_string d (controllerAttribute S) e))"

definition declares_action :: "schema \<Rightarrow> dom \<Rightarrow> scope \<Rightarrow> action \<Rightarrow> bool" where
  "declares_action S d sc a \<longleftrightarrow>
     (let e = act_element a; k = act_index a; cs = token_contents (attr_string d (actionAttribute S) e)
      in e \<in> set (dom_below d (sc_element sc)) \<and> hasAttribute d e (actionAttribute S) \<and> k < length cs \<and>
         Action_forToken d e k (cs ! k) = Inr a \<and> act_identifier a = sc_identifier sc)"

lemma token_at:
  assumes el: "elements_ok ob" and v: "view ob = wanted d root an"
  shows "t \<in> set (tokens_of ob e) \<longleftrightarrow> elementIsActive d root e \<and> hasAttribute d e an \<and>
    tk_index t < length (token_contents (attr_string d an e)) \<and> t = tokens_of ob e ! tk_index t"
    and "elementIsActive d root e \<Longrightarrow> hasAttribute d e an \<Longrightarrow> k < length (token_contents (attr_string d an e)) \<Longrightarrow>
    tk_index (tokens_of ob e ! k) = k \<and> tk_content (tokens_of ob e ! k) = token_contents (attr_string d an e) ! k"
proof -
  let ?ts = "tokens_of ob e" let ?cs = "token_contents (attr_string d an e)"
  have num: "tk_index (?ts ! k) = k" if "k < length ?ts" for k
    using el that unfolding elements_ok_def numbered_def by (metis add_0 nth_map nth_upt)
  have ve: "view ob e = wanted d root an e" using v by simp
  have there: "map tk_content ?ts = ?cs" if "elementIsActive d root e" "hasAttribute d e an"
    using ve that by (simp add: view_def wanted_def split: if_split_asm)
  have here: "elementIsActive d root e \<and> hasAttribute d e an" if "t \<in> set ?ts"
    using ve that el by (fastforce simp: view_def wanted_def elements_ok_def split: if_split_asm)
  show "t \<in> set ?ts \<longleftrightarrow> elementIsActive d root e \<and> hasAttribute d e an \<and> tk_index t < length ?cs \<and> t = ?ts ! tk_index t"
  proof (cases "elementIsActive d root e \<and> hasAttribute d e an")
    case True
    then have len: "length ?cs = length ?ts" using there by (metis length_map)
    show ?thesis using True num unfolding len in_set_conv_nth by metis
  qed (use here in blast)
  show "tk_index (?ts ! k) = k \<and> tk_content (?ts ! k) = ?cs ! k"
    if "elementIsActive d root e" "hasAttribute d e an" "k < length ?cs"
    using there [OF that(1,2)] num that(3) by (metis length_map nth_map)
qed

lemma tracked_bindings:
  assumes c: "observing S sc c w" and tr: "tracking S (sc_identifier sc) (doc_of w) sc c"
    and wf: "dom_wf (doc_of w)" "sc_element sc \<in> dom_elems (doc_of w)"
  shows "(\<exists>u. \<lparr>b_uid = u, b_scope = sc, b_action = a\<rparr> \<in> bound (lw_dispatcher w)) \<longleftrightarrow> declares_action S (doc_of w) sc a"
    and "\<lparr>b_uid = u, b_scope = sc, b_action = a\<rparr> \<in> bound (lw_dispatcher w) \<Longrightarrow>
      \<lparr>b_uid = u', b_scope = sc, b_action = a\<rparr> \<in> bound (lw_dispatcher w) \<Longrightarrow> u = u'"
proof -
  let ?d = "doc_of w" let ?an = "actionAttribute S"
  obtain ob where ob: "cx_observer c = Some ob" "tables_ok ob" "elements_ok ob"
    "binv sc (other_bound sc w) (token_values ob) (vl_delegate ob) w" using c unfolding observing_def by blast
  have v: "view ob = wanted ?d (sc_element sc) ?an" "\<And>e t. t \<in> set (tokens_of ob e) \<Longrightarrow> value_of_token ob t = bspec (sc_identifier sc) ?d t"
    using tr ob(1) by (auto simp: tracking_def)
  have own: "\<lparr>b_uid = u, b_scope = sc, b_action = a\<rparr> \<in> bound (lw_dispatcher w) \<longleftrightarrow> (\<exists>t. token_values ob t = Some (u, a))" for u
  proof -
    let ?b = "\<lparr>b_uid = u, b_scope = sc, b_action = a\<rparr>"
    have "?b \<in> bound (lw_dispatcher w) \<longleftrightarrow> ?b \<in> own_bound sc w" by (simp add: own_bound_def)
    also have "\<dots> \<longleftrightarrow> ?b \<in> bindings_of sc (token_values ob)" using binv_others [OF ob(4)] by simp
    also have "\<dots> \<longleftrightarrow> (\<exists>t. token_values ob t = Some (u, a))" by (simp add: bindings_of_def new_binding_def)
    finally show ?thesis .
  qed
  have tv: "token_values ob t = Some (u, a) \<longleftrightarrow> t \<in> set (tokens_of ob (tk_element t)) \<and> tk_id t = u \<and>
      Action_forToken ?d (tk_element t) (tk_index t) (tk_content t) = Inr a \<and> act_identifier a = sc_identifier sc" for t u
    using v(2) by (auto simp: token_values_def bspec_def split: sum.split)
  have el: "tk_element t = e" if "t \<in> set (tokens_of ob e)" for t e using ob(2) that by (auto simp: tables_ok_def)
  have act: "elementIsActive ?d (sc_element sc) e \<longleftrightarrow> e \<in> set (dom_below ?d (sc_element sc))" for e
    using active_iff [OF wf(1)] wf(2) by (simp add: dom_elems_def)
  note at = token_at [OF ob(3) v(1), unfolded act]
  have tok: "t = tokens_of ob (act_element a) ! act_index a \<and> declares_action S ?d sc a" if "token_values ob t = Some (u, a)" for t u
  proof -
    have t: "t \<in> set (tokens_of ob (tk_element t))" "Action_forToken ?d (tk_element t) (tk_index t) (tk_content t) = Inr a"
      "act_identifier a = sc_identifier sc" using that unfolding tv by auto
    have "act_element a = tk_element t" "act_index a = tk_index t" using Action_forToken_ok [OF t(2)] by simp_all
    then show ?thesis using t(2,3) at(1) [of t] t(1) at(2) [of "tk_element t" "tk_index t"] by (auto simp: declares_action_def Let_def)
  qed
  show "u = u'" if "\<lparr>b_uid = u, b_scope = sc, b_action = a\<rparr> \<in> bound (lw_dispatcher w)"
      "\<lparr>b_uid = u', b_scope = sc, b_action = a\<rparr> \<in> bound (lw_dispatcher w)"
    using that unfolding own using tok tv by metis
  show "(\<exists>u. \<lparr>b_uid = u, b_scope = sc, b_action = a\<rparr> \<in> bound (lw_dispatcher w)) \<longleftrightarrow> declares_action S ?d sc a"
  proof
    assume "declares_action S ?d sc a"
    let ?t = "tokens_of ob (act_element a) ! act_index a"
    have d: "act_element a \<in> set (dom_below ?d (sc_element sc))" "hasAttribute ?d (act_element a) ?an"
      "act_index a < length (token_contents (attr_string ?d ?an (act_element a)))"
      "Action_forToken ?d (act_element a) (act_index a) (token_contents (attr_string ?d ?an (act_element a)) ! act_index a) = Inr a"
      "act_identifier a = sc_identifier sc"
      using \<open>declares_action S ?d sc a\<close> by (simp_all add: declares_action_def Let_def)
    have i: "tk_index ?t = act_index a" "tk_content ?t = token_contents (attr_string ?d ?an (act_element a)) ! act_index a"
      using at(2) [OF d(1-3)] by simp_all
    then have "?t \<in> set (tokens_of ob (act_element a))" using d(1-3) at(1) [of ?t] by simp
    moreover from this have "tk_element ?t = act_element a" by (rule el)
    ultimately have "token_values ob ?t = Some (tk_id ?t, a)" using d(4,5) i by (simp add: tv)
    then show "\<exists>u. \<lparr>b_uid = u, b_scope = sc, b_action = a\<rparr> \<in> bound (lw_dispatcher w)" unfolding own by blast
  qed (use own tok in blast)
qed

subsection \<open>Starting\<close>

lemma load_ok:
  assumes "app_ok T S L (ob, w)" "list_all (\<lambda>x. calm (snd x)) defs"
  shows "\<exists>r' w'. application_load E S defs (ob, w) = (Inr (), ob\<lparr>vl_delegate := r'\<rparr>, w') \<and>
    app_ok T S (L ++ map_of (rev defs)) (ob\<lparr>vl_delegate := r'\<rparr>, w') \<and> doc_of w' = doc_of w"
  using assms
proof (induction defs arbitrary: L ob w)
  case Nil
  then show ?case by (intro exI [of _ "vl_delegate ob"] exI [of _ w]) (simp add: application_load_def)
next
  case (Cons x defs)
  obtain i cd where x: "x = (i, cd)" by (cases x)
  then have cd: "calm cd" using Cons.prems(2) by simp
  obtain r1 w1 where one: "loadDefinition E S (i, cd) (vl_delegate ob, w) = (Inr (), r1, w1)"
    "router_ok T S (present (token_values ob)) r1 w1" "tables_of r1 = tables_of (vl_delegate ob)" "codes r1 = L(i \<mapsto> cd)" "doc_of w1 = doc_of w"
    using load_run [of T S "present (token_values ob)" "vl_delegate ob" w cd E i] app_ok_router [OF Cons.prems(1)] cd by auto
  have step: "on_delegate (loadDefinition E S (i, cd)) (ob, w) = (Inr (), ob\<lparr>vl_delegate := r1\<rparr>, w1)"
    using one(1) by (simp add: on_delegate_def)
  then have ok1: "app_ok T S (L(i \<mapsto> cd)) (ob\<lparr>vl_delegate := r1\<rparr>, w1)"
    using app_ok_delegate [where m = "loadDefinition E S (i, cd)", OF Cons.prems(1) one(1,3,2,4)] by simp
  have "list_all (\<lambda>x. calm (snd x)) defs" using Cons.prems(2) by simp
  from Cons.IH [OF ok1 this] show ?case
    using one(5) step by (simp add: x application_load_def jseq_run map_add_assoc [symmetric] del: fun_upd_apply)
qed

lemma below_elems:
  assumes "e \<in> set (dom_below d root)" "root \<in> dom_elems d" shows "e \<in> dom_elems d"
proof (cases "first_some (dt_find root) (dom_trees d)")
  case None
  then show ?thesis using assms by (simp add: dom_below_def)
next
  case (Some u)
  then obtain t where "t \<in> set (dom_trees d)" "dt_find root t = Some u" using first_some_Some by fastforce
  then show ?thesis using dt_find_elt [of root t u] assms(1) Some by (auto simp: dom_below_def dom_elems_def)
qed

text \<open>Registering controllers and then starting, as a page does.\<close>

definition start_page :: "env \<Rightarrow> schema \<Rightarrow> (string \<times> 'z page_scheme code) list \<Rightarrow> elt \<Rightarrow> 'z page_scheme \<Rightarrow> unit outcome \<times> 'z page_scheme app" where
  "start_page E S defs root p = jseq (application_load E S defs) (application_start E S) (newApplication root S p)"

lemma start_first:
  assumes ok: "app_ok True S L (ob, w)" and new: "\<not> eo_started ob" "eo_elements ob = []"
    and wf: "dom_wf (doc_of w)" "eo_element ob \<in> dom_elems (doc_of w)"
  shows "\<exists>ob' w'. application_start E S (ob, w) = (Inr (), ob', w') \<and> app_ok True S L (ob', w') \<and> doc_of w' = doc_of w \<and>
    view ob' = wanted (doc_of w) (eo_element ob) (controllerAttribute S) \<and> eo_started ob' \<and> eo_element ob' = eo_element ob"
proof -
  let ?w = "w\<lparr>lw_dispatcher := dispatcher_start (lw_dispatcher w)\<rparr>"
  have d: "doc_of ?w = doc_of w" by (simp add: doc_of_def)
  have ok': "app_ok True S L (ob, ?w)"
    using app_ok_disp [OF ok] by (intro app_ok_world [OF ok]) (simp_all add: doc_of_def start_ok plain_start)
  then have c: "sclient.consistent True S L (controllerAttribute S) ob ?w" "sclient.all_spec (doc_of ?w) ob"
    unfolding app_ok_iff [of True S _ _ _ "doc_of ?w"] by blast+
  have root: "dom_wf (doc_of ?w)" "eo_element ob \<in> set (concat (map dt_elems (dom_trees (doc_of ?w))))"
    using wf d by (simp_all add: dom_elems_def)
  obtain ob2 w2 where s: "observer_start (scope_ops E S) (ob, ?w) = (Inr (), ob2, w2)"
    "sclient.consistent True S L (controllerAttribute S) ob2 w2" "doc_of w2 = doc_of ?w"
    "view ob2 = wanted (doc_of ?w) (eo_element ob) (ao_attributeName ob)" "sclient.all_spec (doc_of ?w) ob2"
    "eo_started ob2" "eo_element ob2 = eo_element ob"
    using sclient.start_tracks [OF c(1) new root, of E] c(2) by blast
  have "app_ok True S L (ob2, w2)" using s(2,5) app_ok_iff by blast
  moreover have "application_start E S (ob, w) = (Inr (), ob2, w2)"
    using s(1) by (simp add: application_start_def jseq_run)
  moreover have "ao_attributeName ob = controllerAttribute S" using ok by (simp add: app_ok_def)
  ultimately show ?thesis using s(3,4,6,7) d by auto
qed

lemma new_app_fields:
  assumes "newApplication root S p = (ob, w)"
  shows "eo_element ob = root" "\<not> eo_started ob" "eo_elements ob = []" "doc_of w = pg_dom p" "lw_page w = p"
  using assms by (auto simp: newApplication_def newValueListObserver_def doc_of_def)

lemma start_page_run:
  fixes p :: "'z page_scheme"
  assumes calm: "list_all (\<lambda>x. calm (snd x)) defs" and wf: "dom_wf (pg_dom p)" "root \<in> dom_elems (pg_dom p)"
  shows "\<exists>ob w. start_page E S defs root p = (Inr (), ob, w) \<and> app_ok True S (map_of (rev defs)) (ob, w) \<and> doc_of w = pg_dom p \<and>
    view ob = wanted (pg_dom p) root (controllerAttribute S) \<and> eo_started ob \<and> eo_element ob = root"
proof -
  obtain ob w where new: "newApplication root S p = (ob, w)" by (cases "newApplication root S p")
  note nf = new_app_fields [OF new]
  have "app_ok True S Map.empty (ob, w)" using new_app_ok [of True S root p] new by simp
  from load_ok [where E = E, OF this calm] obtain r1 w1 where
    l: "application_load E S defs (ob, w) = (Inr (), ob\<lparr>vl_delegate := r1\<rparr>, w1)"
    "app_ok True S (map_of (rev defs)) (ob\<lparr>vl_delegate := r1\<rparr>, w1)" "doc_of w1 = doc_of w" by (auto simp only: empty_map_add)
  have "\<not> eo_started (ob\<lparr>vl_delegate := r1\<rparr>)" "eo_elements (ob\<lparr>vl_delegate := r1\<rparr>) = []" "dom_wf (doc_of w1)"
    "eo_element (ob\<lparr>vl_delegate := r1\<rparr>) \<in> dom_elems (doc_of w1)" using nf wf l(3) by simp_all
  from start_first [OF l(2) this, of E] obtain ob2 w2 where "application_start E S (ob\<lparr>vl_delegate := r1\<rparr>, w1) = (Inr (), ob2, w2)"
    "app_ok True S (map_of (rev defs)) (ob2, w2)" "doc_of w2 = pg_dom p" "view ob2 = wanted (pg_dom p) root (controllerAttribute S)"
    "eo_started ob2" "eo_element ob2 = root" using nf l(3) by auto
  then show ?thesis using l(1) new by (simp add: start_page_def jseq_run)
qed

lemma started_bindings:
  assumes ok: "app_ok True S L (ob, w)" and wf: "dom_wf (doc_of w)" "root \<in> dom_elems (doc_of w)"
    and v: "view ob = wanted (doc_of w) root (controllerAttribute S)"
  shows "getControllerForElementAndIdentifier e i (ob, w) = Some sc \<longleftrightarrow>
      sc = \<lparr>sc_element = e, sc_identifier = i\<rparr> \<and> L i \<noteq> None \<and> declares_controller S (doc_of w) root e i"
    and "(\<exists>u. \<lparr>b_uid = u, b_scope = sc, b_action = a\<rparr> \<in> bound (lw_dispatcher w)) \<longleftrightarrow>
      L (sc_identifier sc) \<noteq> None \<and> declares_controller S (doc_of w) root (sc_element sc) (sc_identifier sc) \<and> declares_action S (doc_of w) sc a"
    and "\<lparr>b_uid = u, b_scope = sc, b_action = a\<rparr> \<in> bound (lw_dispatcher w) \<Longrightarrow>
      \<lparr>b_uid = u', b_scope = sc, b_action = a\<rparr> \<in> bound (lw_dispatcher w) \<Longrightarrow> u = u'"
proof -
  have act: "elementIsActive (doc_of w) root x \<longleftrightarrow> x \<in> set (dom_below (doc_of w) root)" for x
    using active_iff [OF wf(1)] wf(2) by (simp add: dom_elems_def)
  have known: "(\<exists>cs. view ob e = Some cs \<and> i \<in> set cs) \<longleftrightarrow> declares_controller S (doc_of w) root e i" for e i
    unfolding v by (auto simp: wanted_def act declares_controller_def)
  show ctl: "getControllerForElementAndIdentifier e i (ob, w) = Some sc \<longleftrightarrow>
      sc = \<lparr>sc_element = e, sc_identifier = i\<rparr> \<and> L i \<noteq> None \<and> declares_controller S (doc_of w) root e i" for e i sc
    unfolding controller_iff [OF ok] known ..
  have run: "\<exists>c. observing S sc c w \<and> tracking S (sc_identifier sc) (doc_of w) sc c \<and> sc_element sc \<in> dom_elems (doc_of w)"
    if "L (sc_identifier sc) \<noteq> None" "declares_controller S (doc_of w) root (sc_element sc) (sc_identifier sc)"
  proof -
    let ?P = "of_id (present (token_values ob))"
    have m: "modules_ok True S ?P (vl_delegate ob) w" "codes (vl_delegate ob) = L"
      using app_ok_router [OF ok] by (simp_all add: router_ok_def)
    have P: "sc \<in> ?P (sc_identifier sc)" using present_view [OF ok, of sc] known that(2) by (simp add: of_id_def)
    have e: "sc_element sc \<in> dom_elems (doc_of w)" using that(2) below_elems wf(2) by (auto simp: declares_controller_def)
    have "map_get (r_modulesByIdentifier (vl_delegate ob)) (sc_identifier sc) \<noteq> None" using that(1) m(2) by (auto simp: loaded_alt codes_def)
    then obtain md where md: "map_get (r_modulesByIdentifier (vl_delegate ob)) (sc_identifier sc) = Some md" by blast
    obtain c where "map_get (m_contextsByScope md) sc = Some c" "tracking S (sc_identifier sc) (doc_of w) sc c"
      using modules_okD(5) [OF m(1) md] wf(1) P e by blast
    moreover from this have "observing S sc c w" using modules_okD(4) [OF m(1) md] P unfolding mod_ok_def by fastforce
    ultimately show ?thesis using e by blast
  qed
  have there: "L (sc_identifier sc) \<noteq> None \<and> declares_controller S (doc_of w) root (sc_element sc) (sc_identifier sc)"
    if "\<lparr>b_uid = u, b_scope = sc, b_action = a\<rparr> \<in> bound (lw_dispatcher w)" for u
    using bound_controller [OF ok that] ctl by simp
  show "(\<exists>u. \<lparr>b_uid = u, b_scope = sc, b_action = a\<rparr> \<in> bound (lw_dispatcher w)) \<longleftrightarrow>
      L (sc_identifier sc) \<noteq> None \<and> declares_controller S (doc_of w) root (sc_element sc) (sc_identifier sc) \<and> declares_action S (doc_of w) sc a"
    using there run tracked_bindings(1) [OF _ _ wf(1)] by metis
  show "u = u'" if "\<lparr>b_uid = u, b_scope = sc, b_action = a\<rparr> \<in> bound (lw_dispatcher w)"
      "\<lparr>b_uid = u', b_scope = sc, b_action = a\<rparr> \<in> bound (lw_dispatcher w)"
    using there [OF that(1)] run tracked_bindings(2) [OF _ _ wf(1) _ that] by blast
qed

text \<open>An application that is up to date is so again after the record of a change of a controller attribute.\<close>

lemma view_known:
  assumes "dom_wf d" "root \<in> dom_elems d" "view ob = wanted d root (controllerAttribute S)"
  shows "(\<exists>cs. view ob e = Some cs \<and> i \<in> set cs) \<longleftrightarrow> declares_controller S d root e i"
  using active_iff [OF assms(1)] assms(2) unfolding assms(3) by (auto simp: wanted_def dom_elems_def declares_controller_def)

text \<open>A change of a controller attribute: a new value, or none.\<close>

definition edit_attribute :: "string \<Rightarrow> elt \<times> string option \<Rightarrow> dom \<Rightarrow> dom" where
  "edit_attribute an x d = (case x of (e, Some v) \<Rightarrow> setAttribute e an v d | (e, None) \<Rightarrow> removeAttribute e an d)"

definition edit_ops :: "string \<Rightarrow> elt \<times> string option \<Rightarrow> 'z page_scheme app_op list" where
  "edit_ops an x = [PageChange (\<lambda>p. p\<lparr>pg_dom := edit_attribute an x (pg_dom p)\<rparr>), Records [MAttributes (fst x) an]]"

definition up_to_date :: "schema \<Rightarrow> (string \<Rightarrow> 'z page_scheme code option) \<Rightarrow> elt \<Rightarrow> dom \<Rightarrow> 'z page_scheme app \<Rightarrow> bool" where
  "up_to_date S L root d s \<longleftrightarrow> (case s of (ob, w) \<Rightarrow> app_ok False S L (ob, w) \<and> eo_started ob \<and> eo_element ob = root \<and>
     doc_of w = d \<and> dom_wf d \<and> root \<in> dom_elems d \<and> view ob = wanted d root (controllerAttribute S))"

lemma edit_frame:
  "dom_trees (edit_attribute an x d) = dom_trees d" "dom_root (edit_attribute an x d) = dom_root d"
  "y \<noteq> fst x \<Longrightarrow> dom_attrs (edit_attribute an x d) y = dom_attrs d y"
  by (auto simp: edit_attribute_def setAttribute_def removeAttribute_def dom_trees_def split: prod.split option.split)

lemma edit_followed:
  fixes s :: "'z page_scheme app"
  assumes up: "up_to_date S L root d s"
  shows "\<exists>s'. jforeach (app_do E S) (edit_ops (controllerAttribute S) x) s = (Inr (), s') \<and>
    up_to_date S L root (edit_attribute (controllerAttribute S) x d) s'"
proof -
  obtain ob w where s: "s = (ob, w)" by (cases s)
  let ?an = "controllerAttribute S" define d' where "d' = edit_attribute ?an x d"
  let ?w = "w\<lparr>lw_page := (lw_page w)\<lparr>pg_dom := d'\<rparr>\<rparr>" and ?m = "MAttributes (fst x) ?an"
  have ok: "app_ok False S L (ob, w)" and on: "eo_started ob" "eo_element ob = root" and wf: "dom_wf d" "root \<in> dom_elems d"
    and v: "view ob = wanted d root ?an" and d: "doc_of w = d" using up s by (simp_all add: up_to_date_def)
  have dw: "doc_of ?w = d'" by (simp add: doc_of_def)
  note fr = edit_frame [where an = ?an and x = x and d = d, folded d'_def]
  have wf': "dom_wf d'" "root \<in> dom_elems d'" using wf fr by (simp_all add: dom_wf_def dom_elems_def)
  have act: "elementIsActive d' root y \<longleftrightarrow> elementIsActive d root y" for y
    using fr by (simp add: elementIsActive_def dom_isConnected_def dom_contains_def dom_path_def)
  have ok': "app_ok False S L (ob, ?w)" using app_ok_disp [OF ok] by (intro app_ok_world [OF ok]) simp_all
  have an: "ao_attributeName ob = ?an" using ok by (simp add: app_ok_def)
  have c: "sclient.consistent False S L ?an ob ?w" using ok' by (simp add: app_ok_iff [of False S L _ _ d'])
  have others: "view ob y = wanted (doc_of ?w) (eo_element ob) (ao_attributeName ob) y" if "y \<noteq> fst x" for y
    using act fr(3) [OF that] unfolding v an dw on(2) by (simp add: wanted_def hasAttribute_def attr_string_def getAttribute_def)
  have placed: "elementIsActive (doc_of ?w) (eo_element ob) (fst x)" if "view ob (fst x) \<noteq> None"
    using that act unfolding v dw on(2) by (simp add: wanted_def split: if_split_asm)
  have "sclient.yields False S L ?an (processMutation (scope_ops E S) ?m) ob ?w (wanted (doc_of ?w) (eo_element ob) (ao_attributeName ob))"
    using placed others an by (intro sclient.attribute_tracks [OF c]) simp_all
  note y = app_ok_yields [OF ok' this, unfolded an dw]
  obtain o2 ob2 w2 where p: "processMutation (scope_ops E S) ?m (ob, ?w) = (o2, ob2, w2)" by (cases "processMutation (scope_ops E S) ?m (ob, ?w)") simp
  have "up_to_date S L root d' (ob2, w2)" and r: "o2 = Inr ()" using y on wf' unfolding p by (simp_all add: up_to_date_def)
  moreover have "jforeach (app_do E S) (edit_ops ?an x) (ob, w) = (Inr (), ob2, w2)"
    using p r on d by (simp add: edit_ops_def jseq_run jbind_run processMutations_def d'_def doc_of_def)
  ultimately show ?thesis unfolding s d'_def by blast
qed

lemma edits_followed:
  assumes "up_to_date S L root d s"
  shows "\<exists>s'. jforeach (app_do E S) (concat (map (edit_ops (controllerAttribute S)) xs)) s = (Inr (), s') \<and>
    up_to_date S L root (fold (edit_attribute (controllerAttribute S)) xs d) s'"
  using assms
proof (induction xs arbitrary: d s)
  case (Cons x xs)
  have app: "jforeach f (as @ bs) t = jseq (jforeach f as) (jforeach f bs) t" for f as bs and t :: "'a page_scheme app"
    by (induction as arbitrary: t) (simp_all add: jseq_run split: prod.split sum.split)
  from edit_followed [OF Cons.prems, of E x] obtain s1 where "jforeach (app_do E S) (edit_ops (controllerAttribute S) x) s = (Inr (), s1)"
    "up_to_date S L root (edit_attribute (controllerAttribute S) x d) s1" by blast
  then show ?case using Cons.IH by (simp add: app jseq_run)
qed simp

lemma up_to_date_controllers:
  assumes "up_to_date S L root d s"
  shows "getControllerForElementAndIdentifier x i s = Some sc \<longleftrightarrow>
    sc = \<lparr>sc_element = x, sc_identifier = i\<rparr> \<and> L i \<noteq> None \<and> declares_controller S d root x i"
proof -
  obtain ob w where s: "s = (ob, w)" by (cases s)
  have u: "app_ok False S L (ob, w)" "dom_wf d" "root \<in> dom_elems d" "view ob = wanted d root (controllerAttribute S)"
    using assms s by (simp_all add: up_to_date_def)
  show ?thesis unfolding s controller_iff [OF u(1)] view_known [OF u(2-4)] ..
qed

lemma start_up_to_date:
  assumes "list_all (\<lambda>x. calm (snd x)) defs" "dom_wf (pg_dom p)" "root \<in> dom_elems (pg_dom p)"
  shows "\<exists>s. start_page E S defs root p = (Inr (), s) \<and> up_to_date S (map_of (rev defs)) root (pg_dom p) s"
proof -
  obtain ob w where s: "start_page E S defs root p = (Inr (), ob, w)" "app_ok True S (map_of (rev defs)) (ob, w)" "doc_of w = pg_dom p"
    "view ob = wanted (pg_dom p) root (controllerAttribute S)" "eo_started ob" "eo_element ob = root" using start_page_run [OF assms] by blast
  have "app_ok False S (map_of (rev defs)) (ob, w)" using app_ok_disp [OF s(2)] by (intro app_ok_world [OF s(2)]) simp_all
  then show ?thesis using s assms by (simp add: up_to_date_def)
qed

text \<open>Registering and starting is a trace.\<close>

lemma register_trace:
  assumes "app_trace E S s0 ops s" "list_all (\<lambda>x. calm (snd x)) defs" "application_load E S defs s = (Inr (), s')"
  shows "app_trace E S s0 (ops @ map (\<lambda>(i, cd). Register i cd) defs) s'"
  using assms
proof (induction defs arbitrary: ops s)
  case (Cons x defs)
  obtain i cd where x: "x = (i, cd)" by (cases x)
  obtain s1 where s1: "application_load E S [x] s = (Inr (), s1)" "application_load E S defs s1 = (Inr (), s')"
    using Cons.prems(3) by (auto simp: application_load_def jseq_run split: prod.split_asm sum.split_asm)
  have "app_trace E S s0 (ops @ [Register i cd]) s1"
    using Cons.prems(1,2) s1(1) x by (intro trace_step [where x = "Inr ()"]) (simp_all add: application_register_def)
  from Cons.IH [OF this _ s1(2)] Cons.prems(2) show ?case by (simp add: x)
qed (simp add: application_load_def)

lemma start_page_trace:
  assumes "list_all (\<lambda>x. calm (snd x)) defs" "start_page E S defs root p = (Inr (), s)"
  shows "app_trace E S (newApplication root S p) (map (\<lambda>(i, cd). Register i cd) defs @ [Start]) s"
proof -
  obtain s1 where s1: "application_load E S defs (newApplication root S p) = (Inr (), s1)" "application_start E S s1 = (Inr (), s)"
    using assms(2) by (auto simp: start_page_def jseq_run split: prod.split_asm sum.split_asm)
  show ?thesis using register_trace [OF trace_init assms(1) s1(1)] s1(2) by (intro trace_step [where x = "Inr ()"]) simp_all
qed

lemma app_ok_plain:
  "app_ok True S L (ob, w) \<Longrightarrow> plain_doc (actionAttribute S) (doc_of w) \<Longrightarrow> plain_names (lw_dispatcher w)"
  using app_ok_router [of True S L ob w] modules_okD(7) by (auto simp: router_ok_def)

subsection \<open>Lists of what a document declares\<close>

definition declared_scopes :: "schema \<Rightarrow> dom \<Rightarrow> elt \<Rightarrow> scope list" where
  "declared_scopes S d root = concat (map (\<lambda>e.
     if hasAttribute d e (controllerAttribute S)
     then map (\<lambda>i. \<lparr>sc_element = e, sc_identifier = i\<rparr>) (token_contents (attr_string d (controllerAttribute S) e))
     else []) (dom_below d root))"

definition actions_of :: "schema \<Rightarrow> dom \<Rightarrow> string \<Rightarrow> elt \<Rightarrow> action list" where
  "actions_of S d i e =
     (if hasAttribute d e (actionAttribute S)
      then concat (map (\<lambda>(k, c). case Action_forToken d e k c of Inl _ \<Rightarrow> [] | Inr a \<Rightarrow> if act_identifier a = i then [a] else [])
             (enumerate 0 (token_contents (attr_string d (actionAttribute S) e))))
      else [])"

definition declared_actions :: "schema \<Rightarrow> dom \<Rightarrow> scope \<Rightarrow> action list" where
  "declared_actions S d sc = concat (map (actions_of S d (sc_identifier sc)) (dom_below d (sc_element sc)))"

lemma declared_scopes_iff: "sc \<in> set (declared_scopes S d root) \<longleftrightarrow> declares_controller S d root (sc_element sc) (sc_identifier sc)"
proof -
  have "(\<exists>i\<in>I. sc = \<lparr>sc_element = e, sc_identifier = i\<rparr>) \<longleftrightarrow> sc_element sc = e \<and> sc_identifier sc \<in> I" for e I by (cases sc) auto
  then show ?thesis unfolding declares_controller_def declared_scopes_def by (auto simp: image_iff split: if_split_asm)
qed

lemma actions_of_iff:
  "a \<in> set (actions_of S d i e) \<longleftrightarrow> act_element a = e \<and> act_identifier a = i \<and> hasAttribute d e (actionAttribute S) \<and>
     act_index a < length (token_contents (attr_string d (actionAttribute S) e)) \<and>
     Action_forToken d e (act_index a) (token_contents (attr_string d (actionAttribute S) e) ! act_index a) = Inr a"
proof (cases "hasAttribute d e (actionAttribute S)")
  case True
  let ?cs = "token_contents (attr_string d (actionAttribute S) e)"
  have "a \<in> set (actions_of S d i e) \<longleftrightarrow> (\<exists>k < length ?cs. Action_forToken d e k (?cs ! k) = Inr a \<and> act_identifier a = i)"
    using True by (auto simp: actions_of_def in_set_enumerate_eq Bex_def split: sum.split_asm if_split_asm)
  then show ?thesis using True Action_forToken_ok by metis
qed (simp add: actions_of_def)

lemma declared_actions_iff: "a \<in> set (declared_actions S d sc) \<longleftrightarrow> declares_action S d sc a"
  by (auto simp: declared_actions_def declares_action_def actions_of_iff Let_def)

text \<open>Delivering an event, on a dispatcher whose listeners have plain names.\<close>

lemma app_event_run:
  assumes d: "disp_ok (lw_dispatcher w)" and on: "d_started (lw_dispatcher w)" "plain_names (lw_dispatcher w)"
  shows "\<exists>bs D st. distinct bs \<and> set bs = {b \<in> bound (lw_dispatcher w). b_target b = at \<and> act_eventName (b_action b) = n} \<and>
    app_event S at n t (ob, w) = (Inr (), ob,
      (snd (handle_bindings S (app_methods (vl_delegate ob)) t bs (w\<lparr>lw_stopped := Some False\<rparr>)))\<lparr>lw_dispatcher := D, lw_stopped := st\<rparr>)"
proof -
  let ?D = "lw_dispatcher w" and ?ms = "app_methods (vl_delegate ob)"
  obtain D st where "deliver S ?ms at n t (w\<lparr>lw_stopped := None\<rparr>) =
      (Inr (), (snd (handle_bindings S ?ms t (bindings_for ?D at n) (w\<lparr>lw_stopped := Some False\<rparr>)))\<lparr>lw_dispatcher := D, lw_stopped := st\<rparr>)"
    using deliver_handles [of "w\<lparr>lw_stopped := None\<rparr>" S ?ms at n t] by auto
  then have "app_event S at n t (ob, w) = (Inr (), ob,
      (snd (handle_bindings S ?ms t (bindings_for ?D at n) (w\<lparr>lw_stopped := Some False\<rparr>)))\<lparr>lw_dispatcher := D, lw_stopped := st\<rparr>)"
    by (simp add: app_event_def on_world_def jbind_run jseq_run)
  then show ?thesis using bindings_for_set [OF d on] distinct_bindings_for [OF d] by blast
qed

end
