(* ===== verification/StLifecycle.thy ===== *)
theory StLifecycle
  imports StApp
begin

section \<open>The order of the controllers' life cycles\<close>

text \<open>
  Starting an application creates the controllers the document declares in document order,
  each one once: constructed, initialised and connected before the next one is created.
  \<open>run_controllers\<close> is that run on the page; \<open>start_order\<close> shows that starting does it.
\<close>

definition connect_page :: "'u code \<Rightarrow> scope \<Rightarrow> 'u \<Rightarrow> 'u" where
  "connect_page cd sc p = snd (cd_connect cd sc (snd (cd_initialize cd sc (snd (cd_construct cd sc p)))))"

definition run_controller :: "(string \<Rightarrow> 'u code option) \<Rightarrow> scope \<Rightarrow> 'u \<Rightarrow> 'u" where
  "run_controller L sc p = (case L (sc_identifier sc) of None \<Rightarrow> p | Some cd \<Rightarrow> connect_page cd sc p)"

definition run_controllers :: "(string \<Rightarrow> 'u code option) \<Rightarrow> scope list \<Rightarrow> 'u \<Rightarrow> 'u" where
  "run_controllers L scs p = fold (run_controller L) (set_of scs) p"

subsection \<open>One context\<close>

lemma guarded_page: "lw_page (snd (guarded what sc m w)) = snd (m (lw_page w))"
  by (simp add: guarded_def try_catch_def on_page_def handleError_def split: prod.split sum.split)

lemma newContext_page:
  assumes "calm cd"
  shows "lw_page (snd (newContext E cd sc w)) = snd (cd_initialize cd sc (snd (cd_construct cd sc (lw_page w))))"
proof -
  let ?w1 = "w\<lparr>lw_page := snd (cd_construct cd sc (lw_page w))\<rparr>"
  have c1: "on_page (cd_construct cd sc) w = (Inr (), ?w1)"
    using assms by (auto simp: calm_def on_page_def case_prod_beta)
  obtain c w' where run: "newContext E cd sc w = (Inr c, w')" using newContext_run [OF assms] by blast
  then obtain ds where ds: "descriptors_of cd sc = Inr ds"
    using c1 by (cases "descriptors_of cd sc") (simp_all add: newContext_def jseq_run jbind_run)
  have "jforeach (\<lambda>vd. jbind (jget (\<lambda>w. data_has sc (vd_key vd) (doc_of w))) (\<lambda>has.
      jwhen (\<not> nullish (defaultValuesByType (vd_type vd)) \<and> \<not> has) (jret ()))) vs v = (Inr (), v)"
    for vs and v :: "'a page_scheme lworld"
    by (induction vs) (simp_all add: jseq_run jbind_run)
  then have "invokeChangedCallbacksForDefaultValues E cd sc ds ?w1 = (Inr (), ?w1)"
    by (simp add: invokeChangedCallbacksForDefaultValues_def calm_quiet [OF assms])
  then have "w' = snd (guarded ''initializing'' sc (cd_initialize cd sc) ?w1)"
    using run c1 ds by (auto simp: newContext_def jseq_run jbind_run split: prod.split_asm sum.split_asm)
  then show ?thesis using run by (simp add: guarded_page)
qed

abbreviation page_of :: "'x \<times> 'u lworld \<Rightarrow> 'u" where
  "page_of s \<equiv> lw_page (snd s)"

text \<open>A part of the world an observer's delegate leaves alone, the observer leaves alone.\<close>

lemma observer_start_keeps:
  assumes matched: "\<And>e v. keeps (\<lambda>s. f (snd s)) (dg_matched G e v)" and unmatched: "\<And>e v. keeps (\<lambda>s. f (snd s)) (dg_unmatched G e v)"
  shows "keeps (\<lambda>s. f (snd s)) (observer_start G)"
proof -
  have on: "keeps (\<lambda>s. f (snd s)) m \<Longrightarrow> keeps (\<lambda>s. f (snd s)) (on_delegate m)" for m
    by (rule keepsI) (auto simp: on_delegate_def split: prod.split dest!: keeps_result)
  have m: "keeps (\<lambda>s. f (snd s)) (on_delegate (dg_matched G e v))" and u: "keeps (\<lambda>s. f (snd s)) (on_delegate (dg_unmatched G e v))" for e v
    by (intro on matched unmatched)+
  have v: "keeps (\<lambda>s. f (snd s)) (on_vlo g)" for g by (simp add: keeps_def on_vlo_def split: prod.split)
  have p: "keeps (\<lambda>s. f (snd s)) (fetchParseResultForToken G t)" for t
    unfolding fetchParseResultForToken_def
    by (intro keeps_rules v) (simp add: keeps_def parseToken_def split: prod.split sum.split)
  have tm: "keeps (\<lambda>s. f (snd s)) (tokenMatched G t)" for t
    unfolding tokenMatched_def vl_tokenMatched_def by (intro keeps_rules v p m)
  have tu: "keeps (\<lambda>s. f (snd s)) (tokenUnmatched G t)" for t
    unfolding tokenUnmatched_def vl_tokenUnmatched_def by (intro keeps_rules v p u)
  have r: "keeps (\<lambda>s. f (snd s)) (readTokensForElement e)" for e
    by (simp add: keeps_def readTokensForElement_def Let_def split: prod.split)
  have a: "keeps (\<lambda>s. f (snd s)) (addElement G e)" for e
    unfolding addElement_def elementMatchedAttribute_def tokensMatched_def by (intro keeps_rules v r tm)
  have d: "keeps (\<lambda>s. f (snd s)) (removeElement G e)" for e
    unfolding removeElement_def elementUnmatchedAttribute_def tokensUnmatched_def by (intro keeps_rules v tu)
  show ?thesis unfolding observer_start_def observer_refresh_def by (intro keeps_rules v a d)
qed

lemma bindings_keep_page: "keeps page_of (observer_start (binding_ops ident sc))"
  by (rule observer_start_keeps)
    (simp_all add: keeps_def binding_ops_def connectAction_def disconnectAction_def split: prod.split option.split)

lemma context_connect_page:
  assumes "calm cd" "context_connect E S ident cd (c, w) = (Inr (), c', w')"
  shows "lw_page w' = snd (cd_connect cd (cx_scope c) (lw_page w))"
proof -
  obtain r c1 w1 where b: "bindings_start S ident (c, w) = (r, c1, w1)" by (metis surj_pair)
  have w1: "lw_page w1 = lw_page w \<and> cx_scope c1 = cx_scope c"
    using b keepsD [OF bindings_keep_page, of ident "cx_scope c"
        "(newValueListObserver (sc_element (cx_scope c)) (actionAttribute S) (cx_bindings c), w)"]
    by (auto simp: bindings_start_def split: option.split_asm prod.split_asm)
  obtain o1 where v: "values_start E cd (c1, w1) = (Inr (), c1\<lparr>cx_values := o1\<rparr>, w1)" using values_start_run [OF assms(1)] by blast
  have "r = Inr ()" using assms(2) b by (cases r) (simp_all add: context_connect_def jseq_run)
  then have "w' = snd (guarded ''connecting'' (cx_scope c) (cd_connect cd (cx_scope c)) w1)"
    using assms(2) b v w1 by (auto simp: context_connect_def jseq_run jbind_run on_world_def split: prod.split_asm)
  then show ?thesis using w1 by (simp add: guarded_page)
qed

lemma connectContext_page:
  assumes md: "mod_ok S R md w" "sc \<notin> R" and new: "map_get (m_contextsByScope md) sc = None"
    and run: "connectContextForScope E S sc (md, w) = (Inr (), md', w')"
  shows "lw_page w' = connect_page (m_code md) sc (lw_page w)"
proof -
  have cd: "calm (m_code md)" using md(1) by (simp add: mod_ok_def)
  obtain c w1 where c: "newContext E (m_code md) sc w = (Inr c, w1)" "cx_scope c = sc" using newContext_run [OF cd] by blast
  have p: "lw_page w1 = snd (cd_initialize (m_code md) sc (snd (cd_construct (m_code md) sc (lw_page w))))"
    using newContext_page [OF cd, of E sc w] c(1) by simp
  obtain r c2 w2 where k: "context_connect E S (m_identifier md) (m_code md) (c, w1) = (r, c2, w2)" by (metis surj_pair)
  have "r = Inr () \<and> w' = w2"
    using run c(1) k new by (auto simp: connectContextForScope_def fetchContextForScope_def on_context_def jbind_run jseq_run)
  then show ?thesis using context_connect_page [OF cd, of E S "m_identifier md" c w1 c2 w2] k c(2) p by (simp add: connect_page_def)
qed

subsection \<open>A dispatcher that is started stays started\<close>

abbreviation on_of :: "'x \<times> 'u lworld \<Rightarrow> bool" where
  "on_of s \<equiv> d_started (lw_dispatcher (snd s))"

lemma with_listener_started: "d_started (with_listener f b D) = d_started D"
  by (auto simp: with_listener_def fetchEventListener_def fetchEventListenerMapForEventTarget_def Let_def split: option.split prod.split)

lemma binding_started: "d_started (dispatcher_bindingConnected b D) = d_started D" "d_started (dispatcher_bindingDisconnected b D) = d_started D"
  by (simp_all add: dispatcher_bindingConnected_def dispatcher_bindingDisconnected_def with_listener_started)

lemma bindings_keep_on: "keeps on_of (observer_start (binding_ops ident sc))"
  by (rule observer_start_keeps [where f = "\<lambda>w. d_started (lw_dispatcher w)"])
    (simp_all add: keeps_def binding_ops_def connectAction_def disconnectAction_def binding_started split: prod.split option.split)

lemma guarded_on: "d_started (lw_dispatcher (snd (guarded what sc m w))) = d_started (lw_dispatcher w)"
  by (simp add: guarded_def try_catch_def on_page_def handleError_def split: prod.split sum.split)

lemma guarded_on': "keeps (\<lambda>w. d_started (lw_dispatcher w)) (guarded what sc m)"
  by (simp add: keeps_def guarded_on)

lemma changed_on: "keeps (\<lambda>w. d_started (lw_dispatcher w)) (invokeChangedCallbackForValue E cd sc ds n)"
  unfolding invokeChangedCallbackForValue_def
  by (intro keeps_rules) (simp_all add: keeps_def on_page_def split: prod.split)

lemma newContext_on: "keeps (\<lambda>w. d_started (lw_dispatcher w)) (newContext E cd sc)"
  unfolding newContext_def invokeChangedCallbacksForDefaultValues_def
  by (intro keeps_rules changed_on) (simp_all add: keeps_def on_page_def guarded_on split: prod.split)

lemma values_on: "keeps on_of (values_start E cd)"
proof -
  have "keeps on_of (refreshAttribute k (invokeChangedCallbackForValue E cd sc ds) n)" for k sc ds n
    by (rule keepsI) (auto simp: refreshAttribute_def Let_def split: option.split prod.split sum.split dest!: keeps_result [OF changed_on])
  then have st: "keeps on_of (smo_start k (invokeChangedCallbackForValue E cd sc ds))" for k sc ds
    unfolding smo_start_def smo_refresh_def by (intro keeps_rules) (simp_all split: prod.split)
  show ?thesis by (rule keepsI) (auto simp: values_start_def split: prod.split dest!: keeps_result [OF st])
qed

lemma context_on:
  "keeps on_of (context_connect E S ident cd)" "keeps on_of (context_disconnect cd)"
proof -
  have g: "keeps on_of (on_world (guarded what sc m))" for what sc and m :: "('u, unit) js"
    by (rule keepsI) (auto simp: on_world_def split: prod.split dest!: keeps_result [OF guarded_on'])
  have b: "keeps on_of (bindings_start S ident)"
    by (rule keepsI) (auto simp: bindings_start_def split: option.split prod.split dest!: keeps_result [OF bindings_keep_on])
  show "keeps on_of (context_connect E S ident cd)"
    unfolding context_connect_def by (intro keeps_rules b values_on g)
  have "d_started (fold dispatcher_bindingDisconnected bs D) = d_started D" for bs D
    by (induction bs arbitrary: D) (simp_all add: binding_started)
  then show "keeps on_of (context_disconnect cd)"
    unfolding context_disconnect_def
    by (intro keeps_rules g) (auto simp: keeps_def bindings_stop_def disconnectAllActions_def split: option.split prod.split)
qed

lemma module_on:
  "keeps on_of (connectContextForScope E S sc)" "keeps on_of (disconnectContextForScope sc)"
proof -
  have c: "keeps on_of (on_context sc m)" if "keeps on_of m" for sc and m :: "(cxt \<times> 'z page_scheme lworld, unit) js"
    by (rule keepsI) (auto simp: on_context_def split: option.split prod.split dest!: keeps_result [OF that])
  have f: "keeps on_of (fetchContextForScope E sc)"
    by (rule keepsI) (auto simp: fetchContextForScope_def split: option.split prod.split sum.split dest!: keeps_result [OF newContext_on])
  show "keeps on_of (connectContextForScope E S sc)"
    unfolding connectContextForScope_def by (intro keeps_rules f c context_on) (simp split: prod.split)
  show "keeps on_of (disconnectContextForScope sc)"
    unfolding disconnectContextForScope_def by (intro keeps_rules c context_on) (simp split: prod.split)
qed

lemma start_on: "keeps on_of (observer_start (scope_ops E S))"
proof -
  have m: "keeps on_of (on_module i k)" if "keeps on_of k" for i and k :: "('z page_scheme modul \<times> 'z page_scheme lworld, unit) js"
    by (rule keepsI) (auto simp: on_module_def split: option.split prod.split dest!: keeps_result [OF that])
  have "keeps on_of (scope_matched E S sc)" for sc
    unfolding scope_matched_def scopeConnected_def by (intro keeps_rules m module_on) (simp_all split: prod.split)
  moreover have "keeps on_of (scope_unmatched sc)" for sc
    unfolding scope_unmatched_def scopeDisconnected_def by (intro keeps_rules m module_on) (simp_all split: prod.split)
  ultimately show ?thesis
    by (intro observer_start_keeps [where f = "\<lambda>w. d_started (lw_dispatcher w)"]) (simp_all add: scope_ops_def)
qed

subsection \<open>One scope\<close>

text \<open>A router that has contexts only for the scopes \<open>P\<close>.\<close>

definition pristine :: "scope set \<Rightarrow> 'u rt \<Rightarrow> bool" where
  "pristine P r \<longleftrightarrow> (\<forall>i md sc. map_get (r_modulesByIdentifier r) i = Some md \<longrightarrow> sc \<notin> P \<longrightarrow> map_get (m_contextsByScope md) sc = None)"

definition page_step :: "(string \<Rightarrow> 'u code option) \<Rightarrow> scope \<Rightarrow> scope set \<times> 'u \<Rightarrow> scope set \<times> 'u" where
  "page_step L sc = (\<lambda>(P, p). (insert sc P, if sc \<in> P then p else run_controller L sc p))"

lemma pristine_modules: "r_modulesByIdentifier r' = r_modulesByIdentifier r \<Longrightarrow> pristine P r' = pristine P r"
  by (simp add: pristine_def)

lemma pristine_mono: "pristine P r \<Longrightarrow> P \<subseteq> Q \<Longrightarrow> pristine Q r"
  unfolding pristine_def by blast

lemma connectModule_page:
  assumes ok: "router_ok T S P r w" and P: "sc \<notin> P" and new: "pristine P r"
    and run: "scopeConnected E S sc (r, w) = (Inr (), r', w')"
  shows "lw_page w' = run_controller (codes r) sc (lw_page w) \<and> pristine (insert sc P) r'"
proof -
  let ?i = "sc_identifier sc"
  let ?r = "r\<lparr>r_scopesByIdentifier := mm_add ?i sc (r_scopesByIdentifier r)\<rparr>"
  have on: "on_module ?i (connectContextForScope E S sc) (?r, w) = (Inr (), r', w')" using run by (simp add: scopeConnected_def)
  have ins: "pristine (insert sc P) r" by (rule pristine_mono [OF new]) blast
  show ?thesis
  proof (cases "map_get (r_modulesByIdentifier r) ?i")
    case None
    then show ?thesis using on ins pristine_modules [of ?r r] by (auto simp: on_module_def run_controller_def codes_def)
  next
    case (Some md)
    have m: "modules_ok T S (of_id P) r w" using ok by (simp add: router_ok_def)
    have Ri: "sc \<notin> of_id P ?i" using P by (simp add: of_id_def)
    note md = modules_okD(4) [OF m Some]
    obtain md' w2 where c: "connectContextForScope E S sc (md, w) = (Inr (), md', w2)"
      "\<forall>x. x \<noteq> sc \<longrightarrow> map_get (m_contextsByScope md') x = map_get (m_contextsByScope md) x"
      using connectContext_run [OF md Ri modules_okD(1) [OF m] modules_ok_own [OF m disjI1 [OF Ri]], of E] by blast
    have r': "r' = ?r\<lparr>r_modulesByIdentifier := map_set ?i md' (r_modulesByIdentifier r)\<rparr>" "w' = w2"
      using on c(1) Some by (auto simp: on_module_def)
    have none: "map_get (m_contextsByScope md) x = None" if "x \<notin> P" for x using new Some that by (simp add: pristine_def)
    have "lw_page w' = connect_page (m_code md) sc (lw_page w)"
      using connectContext_page [OF md Ri none [OF P] c(1)] r'(2) by simp
    moreover have "pristine (insert sc P) r'"
      using ins c(2) none unfolding pristine_def r'(1) by (simp split: if_split)
    ultimately show ?thesis using Some by (simp add: run_controller_def codes_def)
  qed
qed

lemma scope_matched_page:
  assumes inv: "sinv T S L M r w" and new: "pristine (present M) r"
    and run: "scope_matched E S sc (r, w) = (Inr (), r', w')"
  shows "page_step L sc (present M, lw_page w) = (insert sc (present M), lw_page w') \<and> pristine (insert sc (present M)) r'"
proof -
  let ?n = "scope_count r sc + 1"
  let ?r = "r\<lparr>so_scopeReferenceCounts := map_set sc ?n (so_scopeReferenceCounts r)\<rparr>"
  have "router_ok T S (present M) r w" "codes r = L" using inv by (simp_all add: sinv_def)
  then have rok: "router_ok T S (present M) ?r w" "codes ?r = L" using modules_ok_tables [of ?r r] by (simp_all add: router_ok_def)
  have pr: "pristine (present M) ?r" using new by (simp add: pristine_def)
  show ?thesis
  proof (cases "sc \<in> present M")
    case True
    then have "r' = ?r \<and> w' = w" using run sinv_count [OF inv, of sc] by (simp add: scope_matched_def jbind_run jseq_run)
    moreover have "insert sc (present M) = present M" using True by blast
    ultimately show ?thesis using True pr by (simp add: page_step_def)
  next
    case False
    then have "scopeConnected E S sc (?r, w) = (Inr (), r', w')"
      using run sinv_count [OF inv, of sc] by (simp add: scope_matched_def jbind_run jseq_run)
    from connectModule_page [OF rok(1) False pr this] show ?thesis using False rok(2) by (simp add: page_step_def)
  qed
qed

subsection \<open>The observer\<close>

definition stage :: "bool \<Rightarrow> schema \<Rightarrow> (string \<Rightarrow> 'z page_scheme code option) \<Rightarrow> 'z page_scheme app \<Rightarrow> scope set \<times> 'z page_scheme \<Rightarrow> bool" where
  "stage T S L s = (\<lambda>(P, p). case s of (ob, w) \<Rightarrow> sclient.good T S L (controllerAttribute S) ob w \<and>
     present (token_values ob) = P \<and> pristine P (vl_delegate ob) \<and> lw_page w = p)"

lemma scope_parse_modules:
  "r_modulesByIdentifier (snd (scope_parse t (r, w))) = r_modulesByIdentifier r"
  by (simp add: scope_parse_def Let_def split: option.split)

abbreviation token_scope :: "token \<Rightarrow> scope" where
  "token_scope t \<equiv> \<lparr>sc_element = tk_element t, sc_identifier = tk_content t\<rparr>"

lemma tokenMatched_stage:
  assumes st: "stage T S L (ob, w) Pp" and fresh: "fresh_token ob t" and real: "in_attr (doc_of w) (controllerAttribute S) t"
  shows "\<exists>ob' w'. tokenMatched (scope_ops E S) t (ob, w) = (Inr (), ob', w') \<and>
    stage T S L (ob', w') (page_step L (token_scope t) Pp) \<and> doc_of w' = doc_of w \<and>
    frame_of ob' = frame_of ob \<and> (\<forall>t'. t' \<noteq> t \<longrightarrow> map_get (vl_parseResultsByToken ob') t' = map_get (vl_parseResultsByToken ob) t')"
proof -
  let ?G = "scope_ops E S" and ?sc = "token_scope t" and ?M = "token_values ob"
  obtain P p where Pp: "Pp = (P, p)" by (cases Pp)
  have good: "sclient.good T S L (controllerAttribute S) ob w" and P: "present ?M = P" "pristine P (vl_delegate ob)" "lw_page w = p"
    using st by (simp_all add: stage_def Pp)
  obtain ob' w' q where r: "tokenMatched ?G t (ob, w) = (Inr (), ob', w')" "sclient.good T S L (controllerAttribute S) ob' w'"
    "doc_of w' = doc_of w" "frame_of ob' = frame_of ob" "tl_tokensByElement ob' = mm_add (tk_element t) t (tl_tokensByElement ob)"
    "result_value q = sspec (doc_of w) t" "vl_parseResultsByToken ob' = map_set t q (vl_parseResultsByToken ob)"
    using sclient.tokenMatched_run [OF good fresh real, of E] by blast
  have none: "map_get (vl_parseResultsByToken ob) t = None" using fresh unfolding fresh_token_def by blast
  obtain x d where d: "scope_parse t (vl_delegate ob, w) = (x, d)" by (metis surj_pair)
  have inv: "sinv T S L ?M (vl_delegate ob) w" using good by (simp add: sclient.good_def)
  note pd = scope_parse_run [OF inv d]
  have pr: "pristine P d" using P(2) scope_parse_modules [of t "vl_delegate ob" w] d by (simp add: pristine_modules [of d "vl_delegate ob"])
  obtain y d2 w2 where m: "scope_matched E S ?sc (d, w) = (y, d2, w2)" by (metis surj_pair)
  have "y = Inr () \<and> w' = w2 \<and> vl_delegate ob' = d2"
    using r(1) none d pd m
    by (auto simp: tokenMatched_def vl_tokenMatched_def fetchParseResultForToken_def parseToken_def scope_ops_def sspec_def
        jbind_run jseq_run on_vlo_def on_delegate_def with_values_def split: sum.split_asm)
  then have m: "scope_matched E S ?sc (d, w) = (Inr (), vl_delegate ob', w')" using m by simp
  have step: "page_step L ?sc (P, p) = (insert ?sc P, lw_page w')" "pristine (insert ?sc P) (vl_delegate ob')"
    using scope_matched_page [OF conjunct1 [OF pd] _ m] pr P by simp_all
  have tv: "token_values ob' = ?M(t \<mapsto> ?sc)"
    using r(5,6,7) by (auto simp: token_values_def value_of_token_def values_mm_add fun_eq_iff sspec_def)
  have "?M t = None" using none by (simp add: token_values_def value_of_token_def)
  then have "(\<exists>s. token_values ob' s = Some sc) \<longleftrightarrow> sc = ?sc \<or> (\<exists>s. ?M s = Some sc)" for sc
    unfolding tv by (metis fun_upd_apply option.distinct(1) option.inject)
  then have "present (token_values ob') = insert ?sc P" using P(1) by (auto simp: present_def)
  then have "stage T S L (ob', w') (page_step L ?sc Pp)" using r(2) step by (simp add: stage_def Pp)
  then show ?thesis using r(1,3,4,7) by auto
qed

lemma tokensMatched_stage:
  assumes "stage T S L (ob, w) Pp" "distinct (map tk_id ts)" "\<forall>t\<in>set ts. fresh_token ob t"
    "\<forall>t\<in>set ts. in_attr (doc_of w) (controllerAttribute S) t"
  shows "\<exists>s'. tokensMatched (scope_ops E S) ts (ob, w) = (Inr (), s') \<and> stage T S L s' (fold (page_step L) (map token_scope ts) Pp)"
  using assms
proof (induction ts arbitrary: ob w Pp)
  case Nil
  then show ?case by (simp add: tokensMatched_def)
next
  case (Cons t ts)
  obtain ob1 w1 where one: "tokenMatched (scope_ops E S) t (ob, w) = (Inr (), ob1, w1)"
    "stage T S L (ob1, w1) (page_step L (token_scope t) Pp)" "doc_of w1 = doc_of w" "frame_of ob1 = frame_of ob"
    "\<forall>t'. t' \<noteq> t \<longrightarrow> map_get (vl_parseResultsByToken ob1) t' = map_get (vl_parseResultsByToken ob) t'"
    using tokenMatched_stage [OF Cons.prems(1), of t E] Cons.prems(3,4) by auto
  have "fresh_token ob1 s" if s: "s \<in> set ts" for s
  proof -
    have f: "fresh_token ob s" "tk_id s \<noteq> tk_id t" using s Cons.prems(2,3) by (auto simp: image_iff)
    then have "tk_id t' \<noteq> tk_id s" if "map_get (vl_parseResultsByToken ob1) t' \<noteq> None" for t'
      using that one(5) unfolding fresh_token_def by (cases "t' = t") auto
    then show ?thesis using f(1) one(4) by (simp add: fresh_token_def frame_of_def)
  qed
  then obtain s' where "tokensMatched (scope_ops E S) ts (ob1, w1) = (Inr (), s')"
    "stage T S L s' (fold (page_step L) (map token_scope ts) (page_step L (token_scope t) Pp))"
    using Cons.IH [OF one(2)] Cons.prems(2,4) one(3) by auto
  then show ?case using one(1) by (simp add: tokensMatched_def jseq_run)
qed

lemma stage_vlo:
  assumes "stage T S L (ob, w) Pp" "sclient.good T S L (controllerAttribute S) ob' w"
    "token_values ob' = token_values ob" "vl_delegate ob' = vl_delegate ob"
  shows "stage T S L (ob', w) Pp"
  using assms by (simp add: stage_def split: prod.split)

definition scopes_at :: "schema \<Rightarrow> dom \<Rightarrow> elt \<Rightarrow> scope list" where
  "scopes_at S d e = map (\<lambda>i. \<lparr>sc_element = e, sc_identifier = i\<rparr>) (token_contents (attr_string d (controllerAttribute S) e))"

lemma addElement_stage:
  assumes st: "stage T S L (ob, w) Pp" and e: "e \<notin> set (eo_elements ob)" "elementIsActive (doc_of w) (eo_element ob) e"
  shows "stage T S L (snd (addElement (scope_ops E S) e (ob, w))) (fold (page_step L) (scopes_at S (doc_of w) e) Pp)"
proof -
  let ?o1 = "ob\<lparr>eo_elements := set_add e (eo_elements ob)\<rparr>"
  have good: "sclient.good T S L (controllerAttribute S) ob w" using st by (simp add: stage_def split: prod.split_asm)
  then have o1: "sclient.good T S L (controllerAttribute S) ?o1 w" by (simp add: sclient.good_elements)
  obtain ts where ts: "readTokensForElement e (?o1, w) = (Inr ts, ?o1\<lparr>vl_next := vl_next ?o1 + length ts\<rparr>, w)"
    "distinct (map tk_id ts)" "map tk_content ts = token_contents (attr_string (doc_of w) (ao_attributeName ?o1) e)"
    "\<forall>t\<in>set ts. tk_element t = e \<and> fresh_token (?o1\<lparr>vl_next := vl_next ?o1 + length ts\<rparr>) t"
    "sclient.good T S L (controllerAttribute S) (?o1\<lparr>vl_next := vl_next ?o1 + length ts\<rparr>) w"
    using sclient.read_run [OF o1, of e] by blast
  let ?o2 = "?o1\<lparr>vl_next := vl_next ?o1 + length ts\<rparr>"
  have st2: "stage T S L (?o2, w) Pp"
    by (rule stage_vlo [OF st ts(5)]) (simp_all add: token_values_def value_of_token_def fun_eq_iff)
  have an: "ao_attributeName ob = controllerAttribute S" using good by (simp add: sclient.good_def)
  have "map token_scope ts = map (\<lambda>i. \<lparr>sc_element = e, sc_identifier = i\<rparr>) (map tk_content ts)" using ts(4) by simp
  then have scs: "map token_scope ts = scopes_at S (doc_of w) e" using ts(3) an by (simp add: scopes_at_def)
  obtain s' where "tokensMatched (scope_ops E S) ts (?o2, w) = (Inr (), s')"
    "stage T S L s' (fold (page_step L) (map token_scope ts) Pp)"
    using tokensMatched_stage [OF st2 ts(2) _ sclient.read_real [OF o1 ts(1)], of E] ts(4) by blast
  then show ?thesis unfolding scs
    using e ts(1) by (simp add: addElement_def jbind_run jseq_run on_vlo_def elementMatchedAttribute_def)
qed

lemma addElements_stage:
  assumes "stage T S L (ob, w) Pp" "sclient.consistent T S L (controllerAttribute S) ob w"
    "distinct es" "\<forall>e\<in>set es. view ob e = None \<and> elementIsActive (doc_of w) (eo_element ob) e"
  shows "stage T S L (snd (jforeach (addElement (scope_ops E S)) es (ob, w)))
    (fold (page_step L) (concat (map (scopes_at S (doc_of w)) es)) Pp)"
  using assms
proof (induction es arbitrary: ob w Pp)
  case (Cons e es)
  have e: "e \<notin> set (eo_elements ob)" "elementIsActive (doc_of w) (eo_element ob) e"
    using Cons.prems(4) by (auto simp: view_def)
  obtain ob1 w1 where one: "addElement (scope_ops E S) e (ob, w) = (Inr (), ob1, w1)"
    "sclient.consistent T S L (controllerAttribute S) ob1 w1" "doc_of w1 = doc_of w" "eo_element ob1 = eo_element ob"
    "view ob1 = upd_add (doc_of w) (eo_element ob) (ao_attributeName ob) e (view ob)"
    using sclient.add_yields_upd [OF Cons.prems(2), of E e] unfolding sclient.yields_def by blast
  have "stage T S L (ob1, w1) (fold (page_step L) (scopes_at S (doc_of w) e) Pp)"
    using addElement_stage [OF Cons.prems(1) e, of E] one(1) by simp
  moreover have "\<forall>x\<in>set es. view ob1 x = None \<and> elementIsActive (doc_of w1) (eo_element ob1) x"
    using Cons.prems(3,4) one(3-5) by (auto simp: upd_add_def)
  ultimately have "stage T S L (snd (jforeach (addElement (scope_ops E S)) es (ob1, w1)))
      (fold (page_step L) (concat (map (scopes_at S (doc_of w1)) es)) (fold (page_step L) (scopes_at S (doc_of w) e) Pp))"
    using Cons.prems(3) by (intro Cons.IH one(2)) simp_all
  then show ?case using one(1,3) by (simp add: jseq_run)
qed (simp add: stage_def)

lemma start_stage:
  assumes st: "stage T S L (ob, w) Pp" and c: "sclient.consistent T S L (controllerAttribute S) ob w"
    and new: "\<not> eo_started ob" "eo_elements ob = []" and wf: "dom_wf (doc_of w)" "eo_element ob \<in> dom_elems (doc_of w)"
  shows "stage T S L (snd (observer_start (scope_ops E S) (ob, w)))
    (fold (page_step L) (declared_scopes S (doc_of w) (eo_element ob)) Pp)"
proof -
  let ?d = "doc_of w" and ?an = "controllerAttribute S" and ?root = "eo_element ob"
  let ?o1 = "ob\<lparr>eo_started := True\<rparr>"
  have good: "sclient.good T S L ?an ob w" using c by (simp add: sclient.consistent_def)
  have c1: "sclient.consistent T S L ?an ?o1 w" using c by (simp add: sclient.consistent_started)
  have st1: "stage T S L (?o1, w) Pp"
    using c1 by (intro stage_vlo [OF st]) (simp_all add: sclient.consistent_def token_values_def value_of_token_def fun_eq_iff)
  have an: "ao_attributeName ob = ?an" using good by (simp add: sclient.good_def)
  have wf': "?root \<in> set (concat (map dt_elems (dom_trees ?d)))" using wf(2) by (simp add: dom_elems_def)
  have m: "matchElementsInTree ?d ?an ?root = filter (\<lambda>e. hasAttribute ?d e ?an) (dom_below ?d ?root)"
  proof -
    have "sel_matches ?d (SelAttr ?an) = (\<lambda>e. hasAttribute ?d e ?an)" by (simp add: fun_eq_iff)
    then show ?thesis using hd_dom_below [of ?d ?root]
      by (cases "dom_below ?d ?root") (auto simp: matchElementsInTree_def matchElement_def querySelectorAll_def)
  qed
  have dis: "distinct (dom_below ?d ?root)" by (rule distinct_dom_below [OF wf(1)])
  let ?ms = "filter (\<lambda>e. hasAttribute ?d e ?an) (dom_below ?d ?root)"
  have ms: "distinct ?ms" "set_of ?ms = ?ms" using dis by (simp_all add: set_of_distinct)
  have "\<forall>e\<in>set ?ms. view ?o1 e = None \<and> elementIsActive ?d (eo_element ?o1) e"
    using new(2) by (simp add: view_def active_iff [OF wf(1) wf'])
  from addElements_stage [OF st1 c1 ms(1) this, of E]
  have "stage T S L (snd (jforeach (addElement (scope_ops E S)) ?ms (?o1, w))) (fold (page_step L) (concat (map (scopes_at S ?d) ?ms)) Pp)" .
  moreover have "observer_start (scope_ops E S) (ob, w) = jforeach (addElement (scope_ops E S)) ?ms (?o1, w)"
    using new an m ms(2) by (simp add: observer_start_def observer_refresh_def jbind_run jseq_run on_vlo_def)
  moreover have "concat (map (scopes_at S ?d) ?ms) = declared_scopes S ?d ?root"
  proof -
    have "concat (map f (filter P xs)) = concat (map (\<lambda>e. if P e then f e else []) xs)" for f :: "elt \<Rightarrow> scope list" and P xs
      by (induction xs) simp_all
    then show ?thesis unfolding declared_scopes_def scopes_at_def by this
  qed
  ultimately show ?thesis by simp
qed

subsection \<open>The whole start\<close>

lemma fold_page_step:
  "snd (fold (page_step L) scs ({}, p)) = run_controllers L scs p"
proof -
  have "fold (page_step L) scs (set acc, fold (run_controller L) acc p) =
      (set (fold set_add scs acc), fold (run_controller L) (fold set_add scs acc) p)" for acc
  proof (induction scs arbitrary: acc)
    case (Cons sc scs)
    have "page_step L sc (set acc, fold (run_controller L) acc p) = (set (set_add sc acc), fold (run_controller L) (set_add sc acc) p)"
      by (auto simp: page_step_def set_add_def)
    then show ?case using Cons [of "set_add sc acc"] by simp
  qed simp
  from this [of "[]"] show ?thesis by (simp add: run_controllers_def set_of_def)
qed

text \<open>Before the start there are no scopes: registering a controller runs nothing.\<close>

definition blank :: "'u rt \<Rightarrow> bool" where
  "blank r \<longleftrightarrow> r_scopesByIdentifier r = [] \<and> pristine {} r"

lemma load_blank:
  assumes r: "blank r" and cd: "calm cd"
  shows "\<exists>r'. (\<forall>w. loadDefinition E S (i, cd) (r, w) = (Inr (), r', w)) \<and> blank r'"
proof -
  have none: "getValuesForKey (r_scopesByIdentifier r) x = []" for x using r by (simp add: blank_def getValuesForKey_def)
  obtain r1 where u: "\<And>w :: 'a page_scheme lworld. unloadIdentifier i (r, w) = (Inr (), r1, w)" "blank r1"
  proof (cases "map_get (r_modulesByIdentifier r) i")
    case None
    then show ?thesis using r that [of r] by (simp add: unloadIdentifier_def jbind_run)
  next
    case (Some md)
    let ?r = "r\<lparr>r_modulesByIdentifier := map_delete (m_identifier md) (r_modulesByIdentifier r)\<rparr>"
    have "blank ?r" using r by (simp add: blank_def pristine_def split: if_split)
    moreover have "unloadIdentifier i (r, w) = (Inr (), ?r, w)" for w :: "'a page_scheme lworld"
      using Some none by (simp add: unloadIdentifier_def disconnectModule_def jbind_run)
    ultimately show ?thesis by (rule that [rotated])
  qed
  obtain md where md: "newModule i cd = Inr md" "m_contextsByScope md = []" "m_identifier md = i"
    using cd by (auto simp: newModule_def calm_def)
  let ?r = "r1\<lparr>r_modulesByIdentifier := map_set i md (r_modulesByIdentifier r1)\<rparr>"
  have "blank ?r" using u(2) md(2) by (simp add: blank_def pristine_def split: if_split)
  moreover have "getValuesForKey (r_scopesByIdentifier r1) i = []" using u(2) by (simp add: blank_def getValuesForKey_def)
  then have "loadDefinition E S (i, cd) (r, w) = (Inr (), ?r, w)" for w
    using u(1) md(1,3) by (simp add: loadDefinition_def connectModule_def jbind_run jseq_run)
  ultimately show ?thesis by blast
qed

lemma load_all_blank:
  assumes "blank (vl_delegate ob)" "list_all (\<lambda>x. calm (snd x)) defs"
  shows "\<exists>r'. (\<forall>w. application_load E S defs (ob, w) = (Inr (), ob\<lparr>vl_delegate := r'\<rparr>, w)) \<and> blank r'"
  using assms
proof (induction defs arbitrary: ob)
  case Nil
  then show ?case by (intro exI [of _ "vl_delegate ob"]) (simp add: application_load_def)
next
  case (Cons x defs)
  obtain r1 where "\<forall>w. loadDefinition E S x (vl_delegate ob, w) = (Inr (), r1, w)" "blank r1"
    using load_blank [OF Cons.prems(1), of "snd x" E S "fst x"] Cons.prems(2) by auto
  then show ?case using Cons.IH [of "ob\<lparr>vl_delegate := r1\<rparr>"] Cons.prems(2)
    by (auto simp: application_load_def on_delegate_def jseq_run)
qed

lemma start_page_order:
  fixes p :: "'z page_scheme"
  assumes calm: "list_all (\<lambda>x. calm (snd x)) defs" and wf: "dom_wf (pg_dom p)" "root \<in> dom_elems (pg_dom p)"
  shows "lw_page (snd (snd (start_page E S defs root p))) =
    run_controllers (map_of (rev defs)) (declared_scopes S (pg_dom p) root) p"
proof -
  let ?L = "map_of (rev defs)" and ?an = "controllerAttribute S"
  obtain ob w where new: "newApplication root S p = (ob, w)" by (cases "newApplication root S p")
  note nf = new_app_fields [OF new]
  have none: "token_values ob t = None" for t using new
    by (auto simp: newApplication_def newValueListObserver_def token_values_def getValuesForKey_def)
  have b: "blank (vl_delegate ob)" using new by (auto simp: newApplication_def newValueListObserver_def blank_def pristine_def)
  have ok0: "app_ok True S Map.empty (ob, w)" using new_app_ok [of True S root p] new by simp
  obtain r1 where l: "application_load E S defs (ob, w) = (Inr (), ob\<lparr>vl_delegate := r1\<rparr>, w)" "blank r1"
    using load_all_blank [OF b calm] by blast
  let ?ob = "ob\<lparr>vl_delegate := r1\<rparr>" and ?w = "w\<lparr>lw_dispatcher := dispatcher_start (lw_dispatcher w)\<rparr>"
  have ok1: "app_ok True S ?L (?ob, w)" using load_ok [where E = E, OF ok0 calm] l(1) by (auto simp only: empty_map_add)
  then have "app_ok True S ?L (?ob, ?w)"
    using app_ok_disp [OF ok1] by (intro app_ok_world [OF ok1]) (simp_all add: doc_of_def start_ok plain_start)
  then have c: "sclient.consistent True S ?L ?an ?ob ?w" unfolding app_ok_iff [of True S _ _ _ "doc_of ?w"] by blast
  have "token_values ?ob = token_values ob" by (simp add: token_values_def value_of_token_def fun_eq_iff)
  then have "token_values ?ob = (\<lambda>t. None)" using none by (simp add: fun_eq_iff)
  then have st: "stage True S ?L (?ob, ?w) ({}, p)"
    using c l(2) nf(5) by (simp add: stage_def sclient.consistent_def present_def blank_def)
  have "stage True S ?L (snd (observer_start (scope_ops E S) (?ob, ?w)))
      (fold (page_step ?L) (declared_scopes S (doc_of ?w) (eo_element ?ob)) ({}, p))"
    using nf wf by (intro start_stage [OF st c]) (simp_all add: doc_of_def)
  then have "lw_page (snd (snd (observer_start (scope_ops E S) (?ob, ?w)))) =
      snd (fold (page_step ?L) (declared_scopes S (pg_dom p) root) ({}, p))"
    using nf(1,4) by (auto simp: stage_def doc_of_def split: prod.split_asm)
  moreover have "start_page E S defs root p = observer_start (scope_ops E S) (?ob, ?w)"
    using l(1) new by (simp add: start_page_def application_start_def jseq_run)
  ultimately show ?thesis by (simp add: fold_page_step)
qed

lemma start_page_on:
  fixes p :: "'z page_scheme"
  assumes "list_all (\<lambda>x. calm (snd x)) defs"
  shows "d_started (lw_dispatcher (snd (snd (start_page E S defs root p))))"
proof -
  obtain ob w where new: "newApplication root S p = (ob, w)" by (cases "newApplication root S p")
  have "blank (vl_delegate ob)" using new by (auto simp: newApplication_def newValueListObserver_def blank_def pristine_def)
  then obtain r1 where l: "application_load E S defs (ob, w) = (Inr (), ob\<lparr>vl_delegate := r1\<rparr>, w)"
    using load_all_blank [OF _ assms] by blast
  let ?w = "w\<lparr>lw_dispatcher := dispatcher_start (lw_dispatcher w)\<rparr>"
  have "start_page E S defs root p = observer_start (scope_ops E S) (ob\<lparr>vl_delegate := r1\<rparr>, ?w)"
    using l new by (simp add: start_page_def application_start_def jseq_run)
  moreover have "d_started (lw_dispatcher ?w)" by (simp add: dispatcher_start_def map_listeners_def)
  ultimately show ?thesis using keepsD [OF start_on, of E S "(ob\<lparr>vl_delegate := r1\<rparr>, ?w)"] by simp
qed

lemma event_on:
  assumes "d_started (lw_dispatcher w)"
  shows "d_started (lw_dispatcher (snd (snd (app_event S at n t (ob, w)))))"
proof -
  have "d_started (lw_dispatcher (snd (deliver S (app_methods (vl_delegate ob)) at n t (w\<lparr>lw_stopped := None\<rparr>))))"
    by (rule deliver_inv [where P = d_started]) (simp_all add: assms expire_once_def)
  then show ?thesis by (auto simp: app_event_def on_world_def jbind_run jseq_run split: prod.split)
qed

end
