(* ===== verification/NodeHtml.thy ===== *)
theory NodeHtml
  imports StLifecycle
begin

section \<open>The page's document (\<open>gui/web/node.html\<close>)\<close>

text \<open>
  The document of \<open>gui/web/node.html\<close> as the browser builds it: the elements in document
  order (with the \<open>tbody\<close> and \<open>tr\<close> the parser adds to tables), and of their attributes the
  ones a script can tell elements by. Attribute names are in lower case, as the parser
  makes them. Elements are numbered in document order.
\<close>

datatype markup = El (mk_tag: string) (mk_attrs: "(string \<times> string) list") (mk_kids: "markup list")

fun mk_size :: "markup \<Rightarrow> nat" where
  "mk_size (El t a ks) = Suc (sum_list (map mk_size ks))"

fun mk_tree :: "nat \<Rightarrow> markup \<Rightarrow> dtree" and mk_trees :: "nat \<Rightarrow> markup list \<Rightarrow> dtree list" where
  "mk_tree n (El t a ks) = DNode n (mk_trees (Suc n) ks)"
| "mk_trees n [] = []"
| "mk_trees n (k # ks) = mk_tree n k # mk_trees (n + mk_size k) ks"

fun mk_flat :: "markup \<Rightarrow> (string \<times> (string \<times> string) list) list" where
  "mk_flat (El t a ks) = (t, a) # concat (map mk_flat ks)"

definition markup_dom :: "markup \<Rightarrow> dom" where
  "markup_dom m =
     (let table = enumerate 0 (mk_flat m)
      in \<lparr>dom_root = mk_tree 0 m, dom_detached = [],
          dom_tag = (\<lambda>e. case map_get table e of Some (t, a) \<Rightarrow> t | None \<Rightarrow> []),
          dom_attrs = (\<lambda>e. case map_get table e of Some (t, a) \<Rightarrow> a | None \<Rightarrow> [])\<rparr>)"

subsection \<open>Documents from markup\<close>

lemma mk_elems:
  "dt_elems (mk_tree n m) = [n ..< n + mk_size m]"
  "concat (map dt_elems (mk_trees n ks)) = [n ..< n + sum_list (map mk_size ks)]"
proof (induction n m and n ks rule: mk_tree_mk_trees.induct)
  case (1 n t a ks)
  have "[n ..< n + Suc z] = n # [Suc n ..< Suc n + z]" for z by (simp add: upt_conv_Cons del: upt_Suc)
  then show ?case using 1 by (simp del: upt_Suc)
next
  case (3 n k ks)
  then show ?case using upt_add_eq_append [of n "n + mk_size k" "sum_list (map mk_size ks)"] by (simp add: add.assoc)
qed simp

lemma length_flat: "length (mk_flat m) = mk_size m"
  by (induction m) (simp add: length_concat comp_def cong: map_cong)

lemma markup_trees: "dom_trees (markup_dom m) = [mk_tree 0 m]"
  by (simp add: dom_trees_def markup_dom_def Let_def)

lemma markup_wf: "dom_wf (markup_dom m)" "0 \<in> dom_elems (markup_dom m)"
proof -
  have "0 < mk_size m" by (cases m) simp
  then show "0 \<in> dom_elems (markup_dom m)" by (simp add: dom_elems_def markup_trees mk_elems(1))
qed (simp add: dom_wf_def markup_trees mk_elems(1))

lemma markup_below: "dom_below (markup_dom m) 0 = [0 ..< mk_size m]"
proof -
  have "dt_find 0 (mk_tree 0 m) = Some (mk_tree 0 m)" by (cases m) simp
  then show ?thesis by (simp add: dom_below_def markup_trees mk_elems)
qed

text \<open>The values of one attribute, by element; its name is in lower case.\<close>

definition attr_table :: "string \<Rightarrow> markup \<Rightarrow> (elt \<times> string) list" where
  "attr_table n m = concat (map (\<lambda>(e, t, a). case map_get a n of Some v \<Rightarrow> [(e, v)] | None \<Rightarrow> []) (enumerate 0 (mk_flat m)))"

lemma table_get:
  "distinct (map fst xs) \<Longrightarrow>
   map_of (concat (map (\<lambda>(e, t, a). case map_of a n of Some v \<Rightarrow> [(e, v)] | None \<Rightarrow> []) xs)) e =
     (case map_of xs e of Some (t, a) \<Rightarrow> map_of a n | None \<Rightarrow> None)"
proof (induction xs)
  case (Cons x xs)
  obtain e' t a where x: "x = (e', t, a)" by (cases x)
  have "map_of xs e' = None" using Cons.prems by (simp add: x map_of_eq_None_iff)
  then show ?case using Cons by (cases "map_of a n"; cases "e = e'") (simp_all add: x map_add_def)
qed simp

lemma getAttribute_table: "getAttribute (markup_dom m) e n = map_get (attr_table (ascii_lower n) m) e"
proof -
  have "distinct (map fst (enumerate 0 (mk_flat m)))" by simp
  from table_get [OF this, of "ascii_lower n" e] show ?thesis
    by (simp add: attr_table_def getAttribute_def markup_dom_def Let_def split: option.split prod.split)
qed

lemma table_keys:
  fixes xs :: "('e \<times> 't \<times> ('n \<times> 'v) list) list" and n :: 'n
  defines "T \<equiv> \<lambda>xs :: ('e \<times> 't \<times> ('n \<times> 'v) list) list. concat (map (\<lambda>(e, t, a). case map_of a n of Some v \<Rightarrow> [(e, v)] | None \<Rightarrow> []) xs)"
  shows "fst ` set (T xs) \<subseteq> fst ` set xs" "distinct (map fst xs) \<Longrightarrow> distinct (map fst (T xs))"
proof -
  show keys: "fst ` set (T xs) \<subseteq> fst ` set xs" for xs unfolding T_def by (force split: option.split_asm)
  show "distinct (map fst xs) \<Longrightarrow> distinct (map fst (T xs))"
  proof (induction xs)
    case (Cons x xs)
    obtain e t a where x: "x = (e, t, a)" by (cases x)
    have "T (x # xs) = (case map_of a n of Some v \<Rightarrow> [(e, v)] | None \<Rightarrow> []) @ T xs" by (simp add: T_def x)
    moreover have "e \<notin> fst ` set (T xs)" using keys [of xs] Cons.prems by (auto simp: x)
    ultimately show ?case using Cons by (auto split: option.split)
  qed (simp add: T_def)
qed

lemma table_distinct: "distinct (map_keys (attr_table n m))"
  using table_keys(2) [of "enumerate 0 (mk_flat m)" n] by (simp add: attr_table_def)

lemma table_below: "(e, v) \<in> set (attr_table n m) \<Longrightarrow> e < mk_size m"
  by (auto simp: attr_table_def in_set_enumerate_eq length_flat split: option.split_asm)

text \<open>The scopes and the actions of a document from markup.\<close>

definition scopes_table :: "schema \<Rightarrow> markup \<Rightarrow> scope list" where
  "scopes_table S m = concat (map (\<lambda>(e, v). map (\<lambda>i. \<lparr>sc_element = e, sc_identifier = i\<rparr>) (token_contents v))
     (attr_table (ascii_lower (controllerAttribute S)) m))"

definition actions_table :: "schema \<Rightarrow> markup \<Rightarrow> action list" where
  "actions_table S m = concat (map (\<lambda>(e, v). concat (map (\<lambda>(k, c).
       case Action_forToken (markup_dom m) e k c of Inl _ \<Rightarrow> [] | Inr a \<Rightarrow> [a]) (enumerate 0 (token_contents v))))
     (attr_table (ascii_lower (actionAttribute S)) m))"

lemma attr_string_table:
  "(e, v) \<in> set (attr_table (ascii_lower n) m) \<longleftrightarrow> hasAttribute (markup_dom m) e n \<and> attr_string (markup_dom m) n e = v"
  unfolding in_map_iff [OF table_distinct] hasAttribute_def attr_string_def getAttribute_table by (auto split: option.split)

lemma scopes_table_iff:
  "sc \<in> set (scopes_table S m) \<longleftrightarrow> declares_controller S (markup_dom m) 0 (sc_element sc) (sc_identifier sc)"
proof -
  let ?T = "attr_table (ascii_lower (controllerAttribute S)) m"
  have "sc \<in> set (scopes_table S m) \<longleftrightarrow> (\<exists>v. (sc_element sc, v) \<in> set ?T \<and> sc_identifier sc \<in> set (token_contents v))"
    by (cases sc) (force simp: scopes_table_def)
  then show ?thesis using table_below [of "sc_element sc" "attr_string (markup_dom m) (controllerAttribute S) (sc_element sc)"
      "ascii_lower (controllerAttribute S)" m]
    by (auto simp: declares_controller_def markup_below attr_string_table)
qed

lemma declared_scopes_table: "declared_scopes S (markup_dom m) 0 = scopes_table S m"
proof -
  let ?n = "ascii_lower (controllerAttribute S)"
  let ?at = "\<lambda>e v. map (\<lambda>i. \<lparr>sc_element = e, sc_identifier = i\<rparr>) (token_contents v)"
  let ?F = "\<lambda>e. case map_get (snd (mk_flat m ! e)) ?n of Some v \<Rightarrow> ?at e v | None \<Rightarrow> []"
  have "enumerate 0 (mk_flat m) = map (\<lambda>e. (e, mk_flat m ! e)) [0 ..< mk_size m]"
    by (rule nth_equalityI) (simp_all add: length_flat nth_enumerate_eq)
  then have "attr_table ?n m = concat (map (\<lambda>e. case map_get (snd (mk_flat m ! e)) ?n of Some v \<Rightarrow> [(e, v)] | None \<Rightarrow> []) [0 ..< mk_size m])"
    by (simp add: attr_table_def comp_def split_beta cong: option.case_cong)
  moreover have "concat (map (\<lambda>(e, v). ?at e v) (concat (map (\<lambda>e. case map_get (snd (mk_flat m ! e)) ?n of Some v \<Rightarrow> [(e, v)] | None \<Rightarrow> []) xs))) =
      concat (map ?F xs)" for xs :: "nat list" by (induction xs) (simp_all split: option.split)
  ultimately have "scopes_table S m = concat (map ?F [0 ..< mk_size m])" by (simp add: scopes_table_def)
  moreover have "getAttribute (markup_dom m) e (controllerAttribute S) = map_get (snd (mk_flat m ! e)) ?n" if "e < mk_size m" for e
  proof -
    have "map_of (enumerate 0 (mk_flat m)) e = Some (mk_flat m ! e)"
      using that by (intro map_of_is_SomeI) (simp_all add: in_set_enumerate_eq length_flat)
    then show ?thesis by (simp add: getAttribute_def markup_dom_def Let_def split_beta)
  qed
  ultimately show ?thesis unfolding declared_scopes_def markup_below
    by (auto simp: hasAttribute_def attr_string_def intro!: arg_cong [of _ _ concat] split: option.split)
qed

lemma if_inr: "a \<in> set (case x of Inl _ \<Rightarrow> [] | Inr b \<Rightarrow> [b]) \<longleftrightarrow> x = Inr a"
  by (cases x) auto

lemma actions_table_iff:
  "declares_action S (markup_dom m) sc a \<longleftrightarrow>
     a \<in> set (actions_table S m) \<and> act_identifier a = sc_identifier sc \<and> act_element a \<in> set (dom_below (markup_dom m) (sc_element sc))"
proof -
  let ?d = "markup_dom m" and ?n = "actionAttribute S"
  have "a \<in> set (actions_table S m) \<longleftrightarrow> (\<exists>e v k c. (e, v) \<in> set (attr_table (ascii_lower ?n) m) \<and>
      (k, c) \<in> set (enumerate 0 (token_contents v)) \<and> Action_forToken ?d e k c = Inr a)"
    unfolding actions_table_def by (simp add: if_inr split_beta Bex_def) (metis (no_types))
  also have "\<dots> \<longleftrightarrow> hasAttribute ?d (act_element a) ?n \<and> act_index a < length (token_contents (attr_string ?d ?n (act_element a))) \<and>
      Action_forToken ?d (act_element a) (act_index a) (token_contents (attr_string ?d ?n (act_element a)) ! act_index a) = Inr a"
    (is "?L \<longleftrightarrow> ?R")
  proof
    assume ?L
    then obtain e v k c where x: "hasAttribute ?d e ?n" "attr_string ?d ?n e = v" "k < length (token_contents v)"
      "token_contents v ! k = c" "Action_forToken ?d e k c = Inr a"
      by (auto simp: attr_string_table in_set_enumerate_eq)
    moreover have "act_element a = e" "act_index a = k" using Action_forToken_ok [OF x(5)] by simp_all
    ultimately show ?R by simp
  next
    assume ?R
    then show ?L unfolding attr_string_table in_set_enumerate_eq
      by (intro exI [of _ "act_element a"] exI [of _ "attr_string ?d ?n (act_element a)"] exI [of _ "act_index a"]
          exI [of _ "token_contents (attr_string ?d ?n (act_element a)) ! act_index a"]) simp
  qed
  finally show ?thesis by (auto simp: declares_action_def Let_def)
qed

text \<open>A descriptor that names its event, without a colon, and does not ask for a listener that expires.\<close>

definition plain_descriptor :: "string \<Rightarrow> bool" where
  "plain_descriptor c \<longleftrightarrow>
     (let desc = parseActionDescriptorString c
      in (case d_eventName desc of Some (x # s) \<Rightarrow> CHR '':'' \<notin> set (x # s) | _ \<Rightarrow> False) \<and> map_get (d_eventOptions desc) ''once'' \<noteq> Some True)"

lemma plain_table:
  assumes "list_all (\<lambda>(e, v). list_all plain_descriptor (token_contents v)) (attr_table (ascii_lower n) m)"
  shows "plain_doc n (markup_dom m)"
proof -
  have act: "plain_act a" if "plain_descriptor c" "Action_forToken d e k c = Inr a" for d e k c a
    using that unfolding plain_descriptor_def Action_forToken_def newAction_def Let_def
    by (auto simp: plain_act_def event_name_of_def split: option.split_asm list.split_asm sum.split_asm)
  have "plain_descriptor c" if c: "c \<in> set (token_contents (attr_string (markup_dom m) n e))" for e c
  proof (cases "hasAttribute (markup_dom m) e n")
    case True
    then have "(e, attr_string (markup_dom m) n e) \<in> set (attr_table (ascii_lower n) m)" by (simp add: attr_string_table)
    then show ?thesis using assms c by (auto simp: list_all_iff)
  next
    case False
    have "token_contents [] = []" by code_simp
    then show ?thesis using False c by (simp add: hasAttribute_def attr_string_def)
  qed
  then show ?thesis using act unfolding plain_doc_def by blast
qed

subsection \<open>The document\<close>

definition node_html :: markup where
  "node_html =
    El ''html'' [] [
     El ''head'' [] [
      El ''title'' [] [],
      El ''link'' [] [],
      El ''meta'' [] []],
     El ''body'' [] [
      El ''div'' [(''data-controller'', ''flash''), (''id'', ''flash''), (''class'', ''flash'')] [
       El ''div'' [(''data-flash-target'', ''wrapper''), (''id'', ''flash-wrapper'')] []],
      El ''h1'' [] [
       El ''sup'' [] []],
      El ''table'' [(''data-controller'', ''peerInfo''), (''id'', ''peerInfo''), (''class'', ''peer-info'')] [
       El ''tbody'' [] [
        El ''tr'' [] [
         El ''td'' [] [],
         El ''td'' [(''data-peerinfo-target'', ''peerAddr'')] []],
        El ''tr'' [] [
         El ''td'' [] [],
         El ''td'' [(''data-peerinfo-target'', ''socketAddr'')] []]]],
      El ''div'' [(''data-controller'', ''messaging''), (''id'', ''messaging''), (''class'', ''messaging'')] [
       El ''h2'' [(''class'', ''collapsible'')] [],
       El ''div'' [(''data-messaging-target'', ''holder''), (''class'', ''holder'')] [
        El ''div'' [(''data-messaging-target'', ''messages''), (''class'', ''chat-messages'')] []]],
      El ''div'' [(''class'', ''unicast''), (''data-controller'', ''unicast'')] [
       El ''h2'' [(''class'', ''collapsible'')] [],
       El ''div'' [] [
        El ''h3'' [] [],
        El ''div'' [(''class'', ''unicast-chat-form'')] [
         El ''textarea'' [(''data-unicast-target'', ''message''), (''name'', ''message'')] [],
         El ''div'' [(''class'', ''message'')] [
          El ''input'' [(''data-unicast-target'', ''destination''), (''name'', ''destination''), (''type'', ''text'')] [],
          El ''button'' [(''data-action'', ''click->unicast#send'')] [
           El ''svg'' [] [
            El ''path'' [] []]]]]]],
      El ''div'' [(''data-controller'', ''broadcast''), (''class'', ''broadcast'')] [
       El ''h2'' [(''class'', ''collapsible'')] [],
       El ''div'' [] [
        El ''div'' [] [
         El ''h3'' [] [],
         El ''div'' [(''class'', ''broadcast-chat-form'')] [
          El ''textarea'' [(''data-broadcast-target'', ''chatMessage''), (''name'', ''message'')] [],
          El ''button'' [(''data-action'', ''click->broadcast#sendChat'')] [
           El ''svg'' [] [
            El ''path'' [] []]]]],
        El ''div'' [] [
         El ''h3'' [] [],
         El ''div'' [(''class'', ''broadcast-chat-form'')] [
          El ''textarea'' [(''data-broadcast-target'', ''privateMessage''), (''name'', ''message'')] [],
          El ''div'' [(''class'', ''message'')] [
           El ''input'' [(''data-broadcast-target'', ''privateRecipients''), (''name'', ''recipients''), (''type'', ''text'')] [],
           El ''button'' [(''data-action'', ''click->broadcast#sendPrivate'')] [
            El ''svg'' [] [
             El ''path'' [] []]]]]]]],
      El ''div'' [(''data-controller'', ''routing''), (''class'', ''routing'')] [
       El ''h2'' [(''class'', ''collapsible'')] [],
       El ''div'' [] [
        El ''table'' [] [
         El ''thead'' [] [
          El ''tr'' [] [
           El ''th'' [] [],
           El ''th'' [] []]],
         El ''tbody'' [(''data-routing-target'', ''table'')] []],
        El ''p'' [(''class'', ''collapsible sub'')] [],
        El ''div'' [(''data-routing-target'', ''graphviz''), (''class'', ''graphviz'')] [],
        El ''button'' [(''data-action'', ''click->routing#update'')] [
         El ''svg'' [] [
          El ''path'' [] []]],
        El ''h3'' [] [],
        El ''div'' [(''class'', ''add-peer'')] [
         El ''input'' [(''data-routing-target'', ''peer''), (''name'', ''peer''), (''type'', ''text'')] [],
         El ''button'' [(''data-action'', ''click->routing#addPeer'')] [
          El ''svg'' [] [
           El ''path'' [] []]]],
        El ''h3'' [] [],
        El ''div'' [(''class'', ''set-entry'')] [
         El ''input'' [(''data-routing-target'', ''origin''), (''name'', ''origin''), (''type'', ''text'')] [],
         El ''input'' [(''data-routing-target'', ''relay''), (''name'', ''relay''), (''type'', ''text'')] [],
         El ''button'' [(''data-action'', ''click->routing#setEntry'')] [
          El ''svg'' [] [
           El ''path'' [] []]]]]],
      El ''div'' [(''data-controller'', ''catalog''), (''class'', ''catalog'')] [
       El ''h2'' [(''class'', ''collapsible'')] [],
       El ''div'' [] [
        El ''div'' [(''data-catalog-target'', ''content''), (''class'', ''content'')] [],
        El ''button'' [(''data-action'', ''click->catalog#update'')] [
         El ''svg'' [] [
          El ''path'' [] []]],
        El ''h3'' [] [],
        El ''div'' [(''class'', ''add-catalog-entry'')] [
         El ''input'' [(''data-catalog-target'', ''key''), (''name'', ''key''), (''type'', ''text'')] [],
         El ''input'' [(''data-catalog-target'', ''value''), (''name'', ''value''), (''type'', ''text'')] [],
         El ''button'' [(''data-action'', ''click->catalog#add'')] [
          El ''svg'' [] [
           El ''path'' [] []]]]]],
      El ''div'' [(''data-controller'', ''dataSharing''), (''class'', ''data'')] [
       El ''h2'' [(''class'', ''collapsible'')] [],
       El ''div'' [] [
        El ''h3'' [] [],
        El ''div'' [(''data-datasharing-target'', ''uploadResult''), (''class'', ''upload-result'')] [],
        El ''input'' [(''data-datasharing-target'', ''fileUpload''), (''type'', ''file'')] [],
        El ''button'' [(''data-action'', ''click->dataSharing#upload'')] [
         El ''svg'' [] [
          El ''path'' [] []]],
        El ''h3'' [] [],
        El ''input'' [(''data-datasharing-target'', ''downloadMetahash''), (''type'', ''text'')] [],
        El ''button'' [(''data-action'', ''click->dataSharing#download'')] [
         El ''svg'' [] [
          El ''path'' [] []]]]],
      El ''div'' [(''data-controller'', ''search''), (''class'', ''search'')] [
       El ''h2'' [(''class'', ''collapsible'')] [],
       El ''div'' [] [
        El ''h3'' [] [],
        El ''div'' [(''data-search-target'', ''searchAllResult''), (''class'', ''search-all-result'')] [],
        El ''input'' [(''data-search-target'', ''searchAllPattern''), (''name'', ''pattern''), (''type'', ''type'')] [],
        El ''input'' [(''data-search-target'', ''searchAllBudget''), (''name'', ''budget''), (''type'', ''number'')] [],
        El ''input'' [(''data-search-target'', ''searchAllTimeout''), (''name'', ''timeout''), (''type'', ''type'')] [],
        El ''button'' [(''data-action'', ''click->search#searchAll'')] [
         El ''svg'' [] [
          El ''path'' [] []]],
        El ''h3'' [] [],
        El ''div'' [(''data-search-target'', ''searchFirstResult''), (''class'', ''search-first-result'')] [],
        El ''input'' [(''data-search-target'', ''searchFirstPattern''), (''name'', ''pattern''), (''type'', ''type'')] [],
        El ''input'' [(''data-search-target'', ''searchFirstInitialBudget''), (''name'', ''budget''), (''type'', ''number'')] [],
        El ''input'' [(''data-search-target'', ''searchFirstFactor''), (''name'', ''factor''), (''type'', ''number'')] [],
        El ''input'' [(''data-search-target'', ''searchFirstRetry''), (''name'', ''retry''), (''type'', ''number'')] [],
        El ''input'' [(''data-search-target'', ''searchFirstTimeout''), (''name'', ''timeout''), (''type'', ''type'')] [],
        El ''button'' [(''data-action'', ''click->search#searchFirst'')] [
         El ''svg'' [] [
          El ''path'' [] []]]]],
      El ''div'' [(''data-controller'', ''naming''), (''class'', ''naming'')] [
       El ''h2'' [(''class'', ''collapsible'')] [],
       El ''div'' [] [
        El ''h3'' [] [],
        El ''div'' [(''data-naming-target'', ''resolveResult''), (''class'', ''result'')] [],
        El ''input'' [(''data-naming-target'', ''resolveFilename''), (''name'', ''filename''), (''type'', ''text'')] [],
        El ''button'' [(''data-action'', ''click->naming#resolve'')] [
         El ''svg'' [] [
          El ''path'' [] []]],
        El ''h3'' [] [],
        El ''input'' [(''data-naming-target'', ''tagFilename''), (''name'', ''filename''), (''type'', ''text'')] [],
        El ''input'' [(''data-naming-target'', ''tagMetahash''), (''name'', ''metahash''), (''type'', ''text'')] [],
        El ''button'' [(''data-action'', ''click->naming#tag'')] [
         El ''svg'' [] [
          El ''path'' [] []]]]],
      El ''div'' [(''data-controller'', ''packets''), (''class'', ''packets-holder'')] [
       El ''h2'' [(''class'', ''active collapsible'')] [],
       El ''div'' [(''class'', ''checkbox'')] [
        El ''input'' [(''data-packets-target'', ''follow''), (''type'', ''checkbox''), (''id'', ''follow-checkbox'')] [],
        El ''label'' [(''for'', ''follow-checkbox'')] []],
       El ''div'' [] [
        El ''div'' [(''data-packets-target'', ''holder''), (''class'', ''packets-top-scroll-holder'')] [
         El ''div'' [(''data-packets-target'', ''scroll'')] []],
        El ''div'' [(''data-packets-target'', ''packets''), (''class'', ''packets'')] []]],
      El ''script'' [] [],
      El ''script'' [] [],
      El ''script'' [] [],
      El ''script'' [] [],
      El ''script'' [(''type'', ''text/javascript'')] []]]"

definition node_dom :: dom where
  "node_dom = markup_dom node_html"


subsection \<open>What the document declares\<close>

lemma node_size: "mk_size node_html = 157"
  by code_simp

definition node_controllers :: "(elt \<times> string) list" where
  "node_controllers = [(6, ''flash''), (10, ''peerInfo''), (18, ''messaging''), (22, ''unicast''), (33, ''broadcast''), (52, ''routing''),
     (79, ''catalog''), (93, ''dataSharing''), (107, ''search''), (128, ''naming''), (143, ''packets'')]"

lemma node_controller_table: "attr_table ''data-controller'' node_html = node_controllers"
  by code_simp

lemma node_scopes: "scopes_table defaultSchema node_html = map (\<lambda>(e, i). \<lparr>sc_element = e, sc_identifier = i\<rparr>) node_controllers"
  by code_simp

text \<open>The buttons: the element, its controller, the controller's element and the method.\<close>

definition node_buttons :: "(elt \<times> string \<times> elt \<times> string) list" where
  "node_buttons =
     [(30, ''unicast'', 22, ''send''), (40, ''broadcast'', 33, ''sendChat''), (49, ''broadcast'', 33, ''sendPrivate''),
      (63, ''routing'', 52, ''update''), (69, ''routing'', 52, ''addPeer''), (76, ''routing'', 52, ''setEntry''),
      (83, ''catalog'', 79, ''update''), (90, ''catalog'', 79, ''add''), (99, ''dataSharing'', 93, ''upload''),
      (104, ''dataSharing'', 93, ''download''), (115, ''search'', 107, ''searchAll''), (125, ''search'', 107, ''searchFirst''),
      (134, ''naming'', 128, ''resolve''), (140, ''naming'', 128, ''tag'')]"

definition click_action :: "elt \<Rightarrow> string \<Rightarrow> string \<Rightarrow> action" where
  "click_action e i m = \<lparr>act_element = e, act_index = 0, act_eventTarget = TElem e, act_eventName = ''click'', act_eventOptions = [],
     act_identifier = i, act_methodName = m\<rparr>"

definition click_text :: "string \<Rightarrow> string \<Rightarrow> string" where
  "click_text i m = ''click->'' @ i @ ''#'' @ m"

lemma node_action_table: "attr_table ''data-action'' node_html = map (\<lambda>(e, i, c, m). (e, click_text i m)) node_buttons"
  by code_simp

lemma node_descriptors: "list_all (\<lambda>(e, i, c, m). token_contents (click_text i m) = [click_text i m] \<and>
    parseActionDescriptorString (click_text i m) = \<lparr>d_eventTarget = None, d_eventName = Some ''click'', d_eventOptions = [],
      d_identifier = Some i, d_methodName = Some m\<rparr> \<and> i \<noteq> [] \<and> m \<noteq> []) node_buttons"
  by code_simp

lemma node_actions: "actions_table defaultSchema node_html = map (\<lambda>(e, i, c, m). click_action e i m) node_buttons"
proof -
  have "ascii_lower (actionAttribute defaultSchema) = ''data-action''" by code_simp
  then have "actions_table defaultSchema node_html = concat (map (\<lambda>(e, i, c, m). concat (map (\<lambda>(k, x).
       case Action_forToken node_dom e k x of Inl _ \<Rightarrow> [] | Inr a \<Rightarrow> [a]) (enumerate 0 (token_contents (click_text i m))))) node_buttons)"
    by (simp add: actions_table_def node_action_table node_dom_def comp_def case_prod_unfold)
  also have "\<dots> = concat (map (\<lambda>(e, i, c, m). [click_action e i m]) node_buttons)"
  proof (intro arg_cong [of _ _ concat] map_cong refl)
    fix b assume "b \<in> set node_buttons"
    then show "(case b of (e, i, c, m) \<Rightarrow> concat (map (\<lambda>(k, x). case Action_forToken node_dom e k x of Inl _ \<Rightarrow> [] | Inr a \<Rightarrow> [a])
        (enumerate 0 (token_contents (click_text i m))))) = (case b of (e, i, c, m) \<Rightarrow> [click_action e i m])"
      using node_descriptors by (auto simp: list_all_iff Action_forToken_def newAction_def event_name_of_def or_error_def click_action_def)
  qed
  finally show ?thesis by (simp add: node_buttons_def)
qed

lemma node_regions: "map (dom_below node_dom) (map fst node_controllers) =
  [[6 ..< 8], [10 ..< 18], [18 ..< 22], [22 ..< 33], [33 ..< 52], [52 ..< 79], [79 ..< 93], [93 ..< 107], [107 ..< 128], [128 ..< 143], [143 ..< 152]]"
  by code_simp

lemma node_plain: "plain_doc (actionAttribute defaultSchema) node_dom"
proof -
  have "ascii_lower (actionAttribute defaultSchema) = ''data-action''" by code_simp
  moreover have "list_all (\<lambda>(e, v). list_all plain_descriptor (token_contents v))
      (map (\<lambda>(e, i, c, m). (e, click_text i m)) node_buttons)" by code_simp
  ultimately show ?thesis unfolding node_dom_def by (intro plain_table) (simp add: node_action_table)
qed

end
