(* ===== verification/Gui.thy ===== *)
theory Gui
  imports Browser JsRegex HashUtils
begin

section \<open>The node's page (\<open>gui/web/assets/scripts/main.js\<close>)\<close>

text \<open>
  The controllers of the page that drives a node. Their DOM targets are fields of the state
  \<open>gui\<close>: what the script writes into an element is kept as the text it writes. The form
  controls are a map from the target's name to the control. Layout (scroll offsets) is not
  modelled. Stimulus, Viz and the local time zone are outside: \<open>gui_platform\<close> holds what
  the script uses of them. The locale \<open>checked_form\<close> is the contract of a form handler
  that validates its inputs first.
\<close>

record gui_platform =
  location_search :: string
  hms :: "jsnum \<Rightarrow> string"                     \<comment> \<open>hours:minutes:seconds, local time, of a time value\<close>
  renderSVGElement :: "string \<Rightarrow> string outcome"

record control =
  ctl_name :: string
  ctl_value :: string

record gui = world +
  flashes :: "(string \<times> string) list"          \<comment> \<open>class, text\<close>
  controls :: "string \<Rightarrow> control"
  endpoint :: "string option"
  peerAddr_text :: string
  socketAddr_text :: string
  socketAddr :: "string option"
  messages :: "(string \<times> string) list"          \<comment> \<open>class, HTML\<close>
  table_rows :: "string list"
  graphviz :: string
  packets :: "string list"
  catalog_html :: string
  catalog_entries :: "(string \<times> string list) list"
  uploadResult :: string
  searchAllResult :: string
  searchFirstResult :: string
  resolveResult :: string

subsection \<open>Collapsible sections\<close>

text \<open>A header is active or not; its content is displayed or not.\<close>

record collapsible =
  coll_active :: bool
  coll_display :: string

definition initCollapsible :: "collapsible list \<Rightarrow> collapsible list" where
  "initCollapsible coll =
     map (\<lambda>c. c\<lparr>coll_display := (if coll_active c then ''block'' else ''none'')\<rparr>) coll"

definition clickCollapsible :: "collapsible \<Rightarrow> collapsible" where
  "clickCollapsible c =
     (if coll_active c then c\<lparr>coll_display := ''none'', coll_active := False\<rparr>
      else c\<lparr>coll_display := ''block'', coll_active := True\<rparr>)"

subsection \<open>Flash messages\<close>

definition flash_text :: "string \<Rightarrow> string" where
  "flash_text content = trim (collapse_spaces content)"

definition printError :: "string \<Rightarrow> ('z gui_scheme, unit) js" where
  "printError e = jmodify (\<lambda>s. s\<lparr>flashes := flashes s @ [(''error'', flash_text e)]\<rparr>)"

definition printSuccess :: "string \<Rightarrow> ('z gui_scheme, unit) js" where
  "printSuccess e = jmodify (\<lambda>s. s\<lparr>flashes := flashes s @ [(''success'', flash_text e)]\<rparr>)"

text \<open>The close button and the timer remove a message.\<close>

definition removeFlash :: "nat \<Rightarrow> ('z gui_scheme, unit) js" where
  "removeFlash i = jmodify (\<lambda>s. s\<lparr>flashes := take i (flashes s) @ drop (Suc i) (flashes s)\<rparr>)"

text \<open>\<open>"..." + e\<close> for a caught value.\<close>

fun err_string :: "jserr \<Rightarrow> string" where
  "err_string (JError n m) = (if m = [] then n else if n = [] then m else n @ '': '' @ m)"
| "err_string (JThrown t) = t"

subsection \<open>\<open>BaseElement\<close>\<close>

fun checkInputs :: "string list \<Rightarrow> ('z gui_scheme, bool) js" where
  "checkInputs [] = jret True"
| "checkInputs (el # els) =
     jbind (jget (\<lambda>s. controls s el)) (\<lambda>c.
       if ctl_value c = []
       then jseq (printError (''form validation failed: '' @ [CHR 0x22] @ ctl_name c @ [CHR 0x22] @ '' is empty or invalid''))
              (jret False)
       else checkInputs els)"

definition base_fetch :: "env \<Rightarrow> request \<Rightarrow> ('z gui_scheme, string) js" where
  "base_fetch E req =
     jbind (js_fetch E req) (\<lambda>(st, statusText, body).
       if st \<noteq> 200
       then jthrow (JThrown (''wrong status: '' @ num_to_string (Dec (int st) 0) @ '' '' @ statusText @ '' - '' @ body))
       else jret body)"

definition getAPIURL :: "string \<Rightarrow> ('z gui_scheme, string) js" where
  "getAPIURL path =
     jget (\<lambda>s. (case endpoint s of None \<Rightarrow> ''undefined'' | Some e \<Rightarrow> e) @ path)"

definition get_args :: "string \<Rightarrow> request" where
  "get_args addr = \<lparr>req_url = addr, req_method = ''GET'', req_headers = [], req_body = None\<rparr>"

definition post_args :: "string \<Rightarrow> string \<Rightarrow> string \<Rightarrow> request" where
  "post_args contentType addr body =
     \<lparr>req_url = addr, req_method = ''POST'', req_headers = [(''Content-Type'', contentType)], req_body = Some body\<rparr>"

abbreviation post_json :: "string \<Rightarrow> jsval \<Rightarrow> request" where
  "post_json addr v \<equiv> post_args ''application/json'' addr (json_text v)"

abbreviation value_of :: "string \<Rightarrow> ('z gui_scheme, string) js" where
  "value_of el \<equiv> jget (\<lambda>s. ctl_value (controls s el))"

subsection \<open>\<open>PeerInfo\<close>\<close>

text \<open>\<open>obj[k] = v\<close> on an object literal; the key \<open>__proto__\<close> makes no property of its own.\<close>

definition assign_own :: "string \<Rightarrow> jsval \<Rightarrow> (string \<times> jsval) list \<Rightarrow> (string \<times> jsval) list" where
  "assign_own k v fs = (if k = ''__proto__'' then fs else fields_put k v fs)"

definition getQueryArgs :: "string \<Rightarrow> (string \<times> jsval) list" where
  "getQueryArgs search =
     fold (\<lambda>item. let parts = split_on CHR ''='' item
                  in assign_own (hd parts) (case tl parts of [] \<Rightarrow> JUndef | v # _ \<Rightarrow> JStr v))
       (split_on CHR ''&'' (drop 1 search)) []"

text \<open>
  \<open>decodeURIComponent\<close> on the characters strings have here: one byte below 128, or the two
  bytes of a character from 128 to 255; any other escape is malformed or stands for a
  character outside that range.
\<close>

fun hex_byte :: "char \<Rightarrow> char \<Rightarrow> nat option" where
  "hex_byte a b = (if is_hex a \<and> is_hex b then Some (radix_value 16 [a, b]) else None)"

fun decodeURIComponent :: "string \<Rightarrow> string option" where
  "decodeURIComponent [] = Some []"
| "decodeURIComponent (c # s) =
     (if c \<noteq> CHR ''%'' then map_option ((#) c) (decodeURIComponent s)
      else (case s of
        a # b # s1 \<Rightarrow>
          (case hex_byte a b of
             None \<Rightarrow> None
           | Some n \<Rightarrow>
               if n < 128 then map_option ((#) (char_of n)) (decodeURIComponent s1)
               else if n = 194 \<or> n = 195
               then (case s1 of
                 p # x # y # s2 \<Rightarrow>
                   (case hex_byte x y of
                      Some m \<Rightarrow>
                        if p = CHR ''%'' \<and> 128 \<le> m \<and> m < 192
                        then map_option ((#) (char_of ((n - 192) * 64 + (m - 128)))) (decodeURIComponent s2)
                        else None
                    | None \<Rightarrow> None)
               | _ \<Rightarrow> None)
               else None)
      | _ \<Rightarrow> None))"

definition peerInfo_initialize :: "env \<Rightarrow> gui_platform \<Rightarrow> ('z gui_scheme, unit) js" where
  "peerInfo_initialize E G =
     (let queryDict = getQueryArgs (location_search G)
      in case decodeURIComponent (to_str (fields_get queryDict ''addr'')) of
           None \<Rightarrow> jthrow (JError ''URIError'' ''URI malformed'')
         | Some a \<Rightarrow>
             jseq (jmodify (\<lambda>s. s\<lparr>endpoint := Some (''http://'' @ a), peerAddr_text := ''http://'' @ a\<rparr>))
             (try_catch
               (jbind (js_fetch E (get_args (''http://'' @ a @ ''/socket/address''))) (\<lambda>(st, statusText, text).
                  jmodify (\<lambda>s. s\<lparr>socketAddr_text := ''tcp://'' @ text, socketAddr := Some text\<rparr>)))
               (\<lambda>e. printError (''failed to fetch socket address: '' @ err_string e))))"

subsection \<open>\<open>Messaging\<close> and \<open>Unicast\<close>\<close>

definition addMsg :: "string \<Rightarrow> string \<Rightarrow> ('z gui_scheme, unit) js" where
  "addMsg cls html = jmodify (\<lambda>s. s\<lparr>messages := messages s @ [(cls, html)]\<rparr>)"

definition chat_msg :: "string \<Rightarrow> jsval" where
  "chat_msg message = JObj [(''Type'', JStr ''chat''), (''payload'', JObj [(''Message'', JStr message)])]"

definition nl :: "nat \<Rightarrow> string" where
  "nl n = CHR 0x0A # replicate n CHR 0x20"

definition class_attr :: "string \<Rightarrow> string" where
  "class_attr c = ''class='' @ [CHR 0x22] @ c @ [CHR 0x22]"

definition sent_html :: "string \<Rightarrow> string \<Rightarrow> string \<Rightarrow> string" where
  "sent_html message destination time =
     nl 16 @ ''<div>'' @
     nl 20 @ ''<p '' @ class_attr ''msg'' @ ''>'' @ message @ ''</p>'' @
     nl 20 @ ''<p '' @ class_attr ''details'' @ ''>'' @
     nl 24 @ ''to '' @ destination @ '' '' @
     nl 24 @ ''at '' @ time @
     nl 20 @ ''</p>'' @
     nl 16 @ ''</div>''"

definition unicast_send :: "env \<Rightarrow> gui_platform \<Rightarrow> ('z gui_scheme, unit) js" where
  "unicast_send E G =
     jbind (getAPIURL ''/messaging/unicast'') (\<lambda>addr.
     jbind (checkInputs [''unicast.message'', ''unicast.destination'']) (\<lambda>ok.
       if \<not> ok then jret ()
       else
         jbind (value_of ''unicast.message'') (\<lambda>message.
         jbind (value_of ''unicast.destination'') (\<lambda>destination.
         try_catch
           (jbind (base_fetch E (post_json addr (JObj [(''Dest'', JStr destination), (''Msg'', chat_msg message)]))) (\<lambda>_.
            jbind (date_now E) (\<lambda>date.
              addMsg ''sent'' (sent_html message destination (hms G (Dec (uint date) 0))))))
           (\<lambda>e. printError (''failed to send message: '' @ err_string e))))))"

subsection \<open>\<open>Routing\<close>\<close>

text \<open>\<open>Object.entries(v)\<close>\<close>

definition object_entries :: "env \<Rightarrow> jsval \<Rightarrow> (string \<times> jsval) list outcome" where
  "object_entries E v = (if nullish v then Inl (TypeError (type_msg E)) else Inr (spread v))"

definition routing_update :: "env \<Rightarrow> gui_platform \<Rightarrow> ('z gui_scheme, unit) js" where
  "routing_update E G =
     jbind (getAPIURL ''/messaging/routing'') (\<lambda>addr.
     jseq
       (try_catch
         (jbind (base_fetch E (get_args addr)) (\<lambda>body.
          jbind (jlift (parse_or_throw E body)) (\<lambda>data.
          jseq (jmodify (\<lambda>s. s\<lparr>table_rows := []\<rparr>))
          (jbind (jlift (object_entries E data)) (\<lambda>entries.
          jseq (jforeach (\<lambda>(origin, relay). jmodify (\<lambda>s. s\<lparr>table_rows := table_rows s @
                   [''<td>'' @ origin @ ''</td><td>'' @ to_str relay @ ''</td>'']\<rparr>)) entries)
            (printSuccess ''Routing table updated''))))))
         (\<lambda>e. printError (''Failed to fetch routing: '' @ err_string e)))
       (try_catch
         (jbind (base_fetch E (get_args (addr @ ''?graphviz=on''))) (\<lambda>data.
          jbind (jlift (renderSVGElement G data)) (\<lambda>element.
            jmodify (\<lambda>s. s\<lparr>graphviz := element\<rparr>))))
         (\<lambda>e. printError (''Failed to display routing: '' @ err_string e))))"

definition routing_initialize :: "env \<Rightarrow> gui_platform \<Rightarrow> ('z gui_scheme, unit) js" where
  "routing_initialize E G = jdetach (routing_update E G)"

definition addPeer :: "env \<Rightarrow> gui_platform \<Rightarrow> ('z gui_scheme, unit) js" where
  "addPeer E G =
     jbind (checkInputs [''routing.peer'']) (\<lambda>ok.
       if \<not> ok then jret ()
       else
         jbind (getAPIURL ''/messaging/peers'') (\<lambda>addr.
         jbind (value_of ''routing.peer'') (\<lambda>peer.
         try_catch
           (jbind (base_fetch E (post_json addr (JArr [JStr peer]))) (\<lambda>_.
            jseq (printSuccess ''peer added'') (jdetach (routing_update E G))))
           (\<lambda>e. printError (''failed to add peer: '' @ err_string e)))))"

definition setEntry :: "env \<Rightarrow> gui_platform \<Rightarrow> ('z gui_scheme, unit) js" where
  "setEntry E G =
     jbind (getAPIURL ''/messaging/routing'') (\<lambda>addr.
     jbind (checkInputs [''routing.origin'']) (\<lambda>ok.
       if \<not> ok then jret ()
       else
         jbind (value_of ''routing.origin'') (\<lambda>origin.
         jbind (value_of ''routing.relay'') (\<lambda>relay.
         try_catch
           (jbind (base_fetch E (post_json addr (JObj [(''Origin'', JStr origin), (''RelayAddr'', JStr relay)]))) (\<lambda>_.
            jseq (printSuccess (if relay = [] then ''Entry deleted'' else ''Entry set''))
              (jdetach (routing_update E G))))
           (\<lambda>e. printError (''failed to set entry: '' @ err_string e))))))"

subsection \<open>\<open>Packets\<close>\<close>

text \<open>\<open>v == t\<close> for a string \<open>t\<close>, and for a value that may be \<open>undefined\<close>.\<close>

fun loose_eq_str :: "jsval \<Rightarrow> string \<Rightarrow> bool" where
  "loose_eq_str (JStr s) t = (s = t)"
| "loose_eq_str (JArr vs) t = (to_str (JArr vs) = t)"
| "loose_eq_str (JObj fs) t = (to_str (JObj fs) = t)"
| "loose_eq_str (JNum x) t = num_eq x (str_to_num t)"
| "loose_eq_str (JBool b) t = num_eq (Dec (if b then 1 else 0) 0) (str_to_num t)"
| "loose_eq_str _ t = False"

definition loose_eq_opt :: "jsval \<Rightarrow> string option \<Rightarrow> bool" where
  "loose_eq_opt v o_t = (case o_t of None \<Rightarrow> nullish v | Some t \<Rightarrow> loose_eq_str v t)"

fun div_million :: "jsnum \<Rightarrow> jsnum" where
  "div_million (Dec m e) = norm_dec m (e + 6)"
| "div_million x = x"

definition chat_html :: "jsval \<Rightarrow> jsval \<Rightarrow> string \<Rightarrow> string" where
  "chat_html message source time =
     ''<div><p '' @ class_attr ''msg'' @ ''>'' @ to_str message @ ''</p><p '' @ class_attr ''details'' @ ''>from '' @
     to_str source @ '' at '' @ time @ ''</p></div>''"

text \<open>The class and the HTML of the chat message in a packet, if it is one.\<close>

definition packet_chat :: "env \<Rightarrow> gui_platform \<Rightarrow> string option \<Rightarrow> jsval \<Rightarrow> (string \<times> string) option outcome" where
  "packet_chat E G mySocket pkt =
     (case js_prop (type_msg E) pkt ''Msg'' of
        Inl e \<Rightarrow> Inl e
      | Inr msg \<Rightarrow>
     (case js_prop (type_msg E) msg ''Type'' of
        Inl e \<Rightarrow> Inl e
      | Inr type \<Rightarrow>
          if \<not> loose_eq_str type ''chat'' then Inr None
          else
     (case js_prop (type_msg E) (opt_prop pkt ''Header'') ''Timestamp'' of
        Inl e \<Rightarrow> Inl e
      | Inr ts \<Rightarrow>
     (case js_prop (type_msg E) (opt_prop msg ''Payload'') ''Message'' of
        Inl e \<Rightarrow> Inl e
      | Inr message \<Rightarrow>
          (let source = opt_prop (opt_prop pkt ''Header'') ''Source''
           in Inr (Some (if loose_eq_opt source mySocket then ''sent'' else ''received'',
                         chat_html message source (hms G (div_million (to_num ts))))))))))"

definition packetMessage :: "env \<Rightarrow> gui_platform \<Rightarrow> string \<Rightarrow> ('z gui_scheme, unit) js" where
  "packetMessage E G event_data =
     jbind (jlift (parse_or_throw E event_data)) (\<lambda>pkt.
     jbind (jget socketAddr) (\<lambda>mySocket.
     jbind (jlift (packet_chat E G mySocket pkt)) (\<lambda>chat.
     jseq (case chat of None \<Rightarrow> jret () | Some (cls, html) \<Rightarrow> addMsg cls html)
       (jmodify (\<lambda>s. s\<lparr>packets := packets s @ [''<pre>'' @ json_pretty [] pkt @ ''</pre>'']\<rparr>)))))"

definition packetError :: "('z gui_scheme, unit) js" where
  "packetError = printError ''failed to listen pkt: stopped listening''"

subsection \<open>\<open>Broadcast\<close>\<close>

definition sendChat :: "env \<Rightarrow> ('z gui_scheme, unit) js" where
  "sendChat E =
     jbind (getAPIURL ''/messaging/broadcast'') (\<lambda>addr.
     jbind (checkInputs [''broadcast.chatMessage'']) (\<lambda>ok.
       if \<not> ok then jret ()
       else
         jbind (value_of ''broadcast.chatMessage'') (\<lambda>message.
         try_catch
           (jbind (base_fetch E (post_json addr (chat_msg message))) (\<lambda>_.
              printSuccess ''chat message broadcasted''))
           (\<lambda>e. printError (''failed to send message: '' @ err_string e)))))"

definition recipients_of :: "string \<Rightarrow> (string \<times> jsval) list" where
  "recipients_of destination =
     fold (\<lambda>e. assign_own (trim e) (JObj [])) (split_on CHR '','' destination) []"

definition sendPrivate :: "env \<Rightarrow> ('z gui_scheme, unit) js" where
  "sendPrivate E =
     jbind (getAPIURL ''/messaging/broadcast'') (\<lambda>addr.
     jbind (checkInputs [''broadcast.privateMessage'', ''broadcast.privateRecipients'']) (\<lambda>ok.
       if \<not> ok then jret ()
       else
         jbind (value_of ''broadcast.privateRecipients'') (\<lambda>destination.
         jbind (value_of ''broadcast.privateMessage'') (\<lambda>message.
         try_catch
           (jbind (base_fetch E (post_json addr (JObj
              [(''Type'', JStr ''private''),
               (''payload'', JObj [(''Recipients'', JObj (recipients_of destination)), (''Msg'', chat_msg message)])]))) (\<lambda>_.
              printSuccess ''private message sent''))
           (\<lambda>e. printError (''failed to send message: '' @ err_string e))))))"

subsection \<open>\<open>Catalog\<close>\<close>

definition catalog_update :: "env \<Rightarrow> ('z gui_scheme, unit) js" where
  "catalog_update E =
     jbind (getAPIURL ''/datasharing/catalog'') (\<lambda>addr.
     try_catch
       (jbind (base_fetch E (get_args addr)) (\<lambda>body.
        jbind (jlift (parse_or_throw E body)) (\<lambda>data.
        jseq (jmodify (\<lambda>s. s\<lparr>catalog_html := [], catalog_entries := []\<rparr>))
        (jbind (jlift (object_entries E data)) (\<lambda>entries.
           if entries = []
           then jseq (jmodify (\<lambda>s. s\<lparr>catalog_html := ''<i>no elements</i>''\<rparr>))
                  (printSuccess ''Catalog updated, nothing found'')
           else
             jseq (jforeach (\<lambda>(chunk, peersBag). jmodify (\<lambda>s. s\<lparr>catalog_entries := catalog_entries s @
                     [(chunk, map fst (spread peersBag))]\<rparr>)) entries)
               (printSuccess ''Catalog updated''))))))
       (\<lambda>e. printError (''Failed to fetch catalog: '' @ err_string e)))"

definition catalog_initialize :: "env \<Rightarrow> ('z gui_scheme, unit) js" where
  "catalog_initialize E = jdetach (catalog_update E)"

definition catalog_add :: "env \<Rightarrow> ('z gui_scheme, unit) js" where
  "catalog_add E =
     jbind (getAPIURL ''/datasharing/catalog'') (\<lambda>addr.
     jbind (checkInputs [''catalog.key'', ''catalog.value'']) (\<lambda>ok.
       if \<not> ok then jret ()
       else
         jbind (value_of ''catalog.key'') (\<lambda>key.
         jbind (value_of ''catalog.value'') (\<lambda>val.
         try_catch
           (jbind (base_fetch E (post_json addr (JArr [JStr key, JStr val]))) (\<lambda>_. jdetach (catalog_update E)))
           (\<lambda>e. printError (''failed to add catalog entry: '' @ err_string e))))))"

subsection \<open>\<open>DataSharing\<close>\<close>

text \<open>A file that cannot be read fires no \<open>load\<close> event: \<open>None\<close>.\<close>

definition upload :: "env \<Rightarrow> string option list \<Rightarrow> ('z gui_scheme, unit) js" where
  "upload E fileList =
     jbind (getAPIURL ''/datasharing/upload'') (\<lambda>addr.
       case fileList of
         [] \<Rightarrow> printError ''No file found''
       | None # _ \<Rightarrow> jret ()
       | Some result # _ \<Rightarrow>
           try_catch
             (jbind (base_fetch E (post_args ''multipart/form-data'' addr result)) (\<lambda>text.
              jseq (printSuccess (''data uploaded, metahash: '' @ text))
                (jmodify (\<lambda>s. s\<lparr>uploadResult := ''Metahash: '' @ text\<rparr>))))
             (\<lambda>e. printError (''failed to upload data: '' @ err_string e)))"

definition upload_progress :: "nat \<Rightarrow> nat \<Rightarrow> ('z gui_scheme, unit) js" where
  "upload_progress loaded tot =
     jwhen (loaded \<noteq> 0 \<and> tot \<noteq> 0)
       (printSuccess (''File upload progress: '' @
          radix_digits 10 ((loaded * 200 + tot) div (2 * tot))))"

definition triggerDownload :: "string \<Rightarrow> string \<Rightarrow> ('z gui_scheme, unit) js" where
  "triggerDownload metahash blob = download metahash blob"

definition data_download :: "env \<Rightarrow> ('z gui_scheme, unit) js" where
  "data_download E =
     jbind (checkInputs [''dataSharing.downloadMetahash'']) (\<lambda>ok.
       if \<not> ok then jret ()
       else
         jbind (value_of ''dataSharing.downloadMetahash'') (\<lambda>metahash.
         jbind (getAPIURL (''/datasharing/download?key='' @ metahash)) (\<lambda>addr.
         try_catch
           (jbind (base_fetch E (get_args addr)) (\<lambda>blob.
            jseq (triggerDownload metahash blob)
              (printSuccess ''Data downloaded!'')))
           (\<lambda>e. printError (''Failed to download data: '' @ err_string e)))))"

subsection \<open>\<open>Search\<close>\<close>

definition searchAll :: "env \<Rightarrow> ('z gui_scheme, unit) js" where
  "searchAll E =
     jbind (getAPIURL ''/datasharing/searchAll'') (\<lambda>addr.
     jbind (checkInputs [''search.searchAllPattern'', ''search.searchAllBudget'', ''search.searchAllTimeout'']) (\<lambda>ok.
       if \<not> ok then jret ()
       else
         jbind (value_of ''search.searchAllPattern'') (\<lambda>pattern.
         jbind (value_of ''search.searchAllBudget'') (\<lambda>budget.
         jbind (value_of ''search.searchAllTimeout'') (\<lambda>timeout.
         try_catch
           (jseq (jmodify (\<lambda>s. s\<lparr>searchAllResult := ''<i>searching all...</i>''\<rparr>))
           (jbind (base_fetch E (post_args ''multipart/form-data'' addr (json_text (JObj
              [(''Pattern'', JStr pattern), (''Budget'', JNum (parseInt 0 budget)), (''Timeout'', JStr timeout)])))) (\<lambda>text.
            jseq (printSuccess (''SearchAll done, result: '' @ text))
              (jmodify (\<lambda>s. s\<lparr>searchAllResult := ''Names: '' @ text\<rparr>)))))
           (\<lambda>e. printError (''failed to searchAll: '' @ err_string e)))))))"

definition searchFirst :: "env \<Rightarrow> ('z gui_scheme, unit) js" where
  "searchFirst E =
     jbind (getAPIURL ''/datasharing/searchFirst'') (\<lambda>addr.
     jbind (checkInputs [''search.searchFirstPattern'', ''search.searchFirstInitialBudget'',
         ''search.searchFirstFactor'', ''search.searchFirstRetry'', ''search.searchFirstTimeout'']) (\<lambda>ok.
       if \<not> ok then jret ()
       else
         jbind (value_of ''search.searchFirstPattern'') (\<lambda>pattern.
         jbind (value_of ''search.searchFirstInitialBudget'') (\<lambda>initial.
         jbind (value_of ''search.searchFirstFactor'') (\<lambda>factor.
         jbind (value_of ''search.searchFirstRetry'') (\<lambda>retry.
         jbind (value_of ''search.searchFirstTimeout'') (\<lambda>timeout.
         try_catch
           (jseq (jmodify (\<lambda>s. s\<lparr>searchFirstResult := ''<i>searching first...</i>''\<rparr>))
           (jbind (base_fetch E (post_args ''multipart/form-data'' addr (json_text (JObj
              [(''Pattern'', JStr pattern), (''Initial'', JNum (parseInt 0 initial)), (''Factor'', JNum (parseInt 0 factor)),
               (''Retry'', JNum (parseInt 0 retry)), (''Timeout'', JStr timeout)])))) (\<lambda>text.
            jseq (printSuccess (''Search done, result: '' @ text))
            (jseq (jmodify (\<lambda>s. s\<lparr>searchFirstResult :=
                     (if text = [] then ''<i>Nothing found</i>'' else ''Names: '' @ text)\<rparr>))
              (printSuccess (''search first done, result: '' @ text))))))
           (\<lambda>e. printError (''failed to Search first: '' @ err_string e)))))))))"

subsection \<open>\<open>Naming\<close>\<close>

definition naming_resolve :: "env \<Rightarrow> ('z gui_scheme, unit) js" where
  "naming_resolve E =
     jbind (checkInputs [''naming.resolveFilename'']) (\<lambda>_.
     jbind (value_of ''naming.resolveFilename'') (\<lambda>filename.
     jbind (getAPIURL (''/datasharing/naming?name='' @ filename)) (\<lambda>addr.
     try_catch
       (jbind (base_fetch E (get_args addr)) (\<lambda>text.
        jseq (jmodify (\<lambda>s. s\<lparr>resolveResult := (if text = [] then ''<i>nothing found</i>'' else text)\<rparr>))
          (printSuccess ''filename resolved'')))
       (\<lambda>e. printError (''Failed to resolve filename: '' @ err_string e)))))"

definition naming_tag :: "env \<Rightarrow> ('z gui_scheme, unit) js" where
  "naming_tag E =
     jbind (getAPIURL ''/datasharing/naming'') (\<lambda>addr.
     jbind (checkInputs [''naming.tagFilename'', ''naming.tagMetahash'']) (\<lambda>ok.
       if \<not> ok then jret ()
       else
         jbind (value_of ''naming.tagFilename'') (\<lambda>filename.
         jbind (value_of ''naming.tagMetahash'') (\<lambda>metahash.
         try_catch
           (jbind (base_fetch E (post_json addr (JArr [JStr filename, JStr metahash]))) (\<lambda>_.
              printSuccess ''tagging done''))
           (\<lambda>e. printError (''failed to tag filename: '' @ err_string e))))))"

subsection \<open>Runs of the shared parts\<close>

lemma print_run [js_run, simp]:
  "printError e s = (Inr (), s\<lparr>flashes := flashes s @ [(''error'', flash_text e)]\<rparr>)"
  "printSuccess e s = (Inr (), s\<lparr>flashes := flashes s @ [(''success'', flash_text e)]\<rparr>)"
  by (simp_all add: printError_def printSuccess_def)

lemma getAPIURL_run [js_run, simp]:
  "getAPIURL p s = (Inr ((case endpoint s of None \<Rightarrow> ''undefined'' | Some e \<Rightarrow> e) @ p), s)"
  by (simp add: getAPIURL_def)

definition empty_msg :: "control \<Rightarrow> string" where
  "empty_msg c = flash_text (''form validation failed: '' @ [CHR 0x22] @ ctl_name c @ [CHR 0x22] @ '' is empty or invalid'')"

definition first_empty :: "string list \<Rightarrow> 'z gui_scheme \<Rightarrow> control option" where
  "first_empty els s = find (\<lambda>c. ctl_value c = []) (map (controls s) els)"

lemma checkInputs_run [js_run]:
  "checkInputs els s =
     (case first_empty els s of
        None \<Rightarrow> (Inr True, s)
      | Some c \<Rightarrow> (Inr False, s\<lparr>flashes := flashes s @ [(''error'', empty_msg c)]\<rparr>))"
  by (induction els) (simp_all add: first_empty_def jbind_run jseq_run empty_msg_def)

declare checkInputs.simps [simp del]

lemma base_fetch_run [js_run]:
  "base_fetch E req s =
     (case respond E (sent s) req of
        NetFail e \<Rightarrow> Inl e
      | Resp st t body \<Rightarrow>
          if st \<noteq> 200 then Inl (JThrown (''wrong status: '' @ num_to_string (Dec (int st) 0) @ '' '' @ t @ '' - '' @ body))
          else Inr body,
      s\<lparr>sent := sent s @ [req]\<rparr>)"
  by (simp add: base_fetch_def jbind_run js_fetch_run split: fetch_result.split)

subsection \<open>Forms that check their inputs\<close>

text \<open>Refreshing the routing table makes two requests, refreshing the catalog one, whatever comes back.\<close>

definition api_url :: "'z gui_scheme \<Rightarrow> string \<Rightarrow> string" where
  "api_url s p = (case endpoint s of None \<Rightarrow> ''undefined'' | Some e \<Rightarrow> e) @ p"

lemma getAPIURL_api_url [simp]: "getAPIURL p s = (Inr (api_url s p), s)"
  by (simp add: getAPIURL_def api_url_def)

declare getAPIURL_run [simp del]

lemma print_keeps [keeps_rules]:
  "(\<And>s x. f (s\<lparr>flashes := x\<rparr>) = f s) \<Longrightarrow> keeps f (printError e)"
  "(\<And>s x. f (s\<lparr>flashes := x\<rparr>) = f s) \<Longrightarrow> keeps f (printSuccess e)"
  by (simp_all add: keeps_def)

lemma fetch_try_sent:
  assumes "\<And>b. keeps sent (n b)" "\<And>e. keeps sent (h e)"
  shows "sent (snd (try_catch (jbind (base_fetch E req) n) h s)) = sent s @ [req]"
proof -
  let ?t = "s\<lparr>sent := sent s @ [req]\<rparr>"
  obtain r where r: "base_fetch E req s = (r, ?t)" by (simp add: base_fetch_run)
  show ?thesis
  proof (cases r)
    case (Inl e)
    then show ?thesis using keepsD [OF assms(2) [of e], of ?t] r by (simp add: try_catch_def jbind_run)
  next
    case (Inr b)
    then have "try_catch (jbind (base_fetch E req) n) h s = try_catch (n b) h ?t"
      using r by (simp add: try_catch_def jbind_run)
    moreover have "keeps sent (try_catch (n b) h)" by (intro keeps_try_catch assms)
    ultimately show ?thesis using keepsD [of sent "try_catch (n b) h" ?t] by simp
  qed
qed

lemma try_catch_total: "(\<And>e s. fst (h e s) = Inr ()) \<Longrightarrow> fst (try_catch m h s) = Inr ()"
  by (auto simp: try_catch_def split: prod.split sum.split)

lemma jseq_total: "fst (m s) = Inr x \<Longrightarrow> jseq m n s = n (snd (m s))"
  by (cases "m s") (simp add: jseq_run)

lemma routing_update_sent:
  "sent (snd (routing_update E G s)) =
     sent s @ [get_args (api_url s ''/messaging/routing''), get_args (api_url s ''/messaging/routing'' @ ''?graphviz=on'')]"
proof -
  have table: "keeps sent (jbind (jlift (parse_or_throw E body)) (\<lambda>data.
      jseq (jmodify (\<lambda>s. s\<lparr>table_rows := []\<rparr>))
      (jbind (jlift (object_entries E data)) (\<lambda>entries.
      jseq (jforeach (\<lambda>(origin, relay). jmodify (\<lambda>s. s\<lparr>table_rows := table_rows s @
               [''<td>'' @ origin @ ''</td><td>'' @ to_str relay @ ''</td>'']\<rparr>)) entries)
        (printSuccess ''Routing table updated'')))))" for body
    by (intro keeps_rules) simp_all
  have graph: "keeps sent (jbind (jlift (renderSVGElement G data)) (\<lambda>element. jmodify (\<lambda>s. s\<lparr>graphviz := element\<rparr>)))" for data
    by (intro keeps_rules) simp_all
  have err: "keeps sent (printError m)" for m by (intro keeps_rules) simp
  show ?thesis
    unfolding routing_update_def jbind_run [of "getAPIURL _"] getAPIURL_api_url prod.case sum.case
    by (subst jseq_total, rule try_catch_total, simp, subst fetch_try_sent [OF graph err], subst fetch_try_sent [OF table err]) simp
qed

lemma catalog_update_sent:
  "sent (snd (catalog_update E s)) = sent s @ [get_args (api_url s ''/datasharing/catalog'')]"
proof -
  have body: "keeps sent (jbind (jlift (parse_or_throw E body)) (\<lambda>data.
        jseq (jmodify (\<lambda>s. s\<lparr>catalog_html := [], catalog_entries := []\<rparr>))
        (jbind (jlift (object_entries E data)) (\<lambda>entries.
           if entries = []
           then jseq (jmodify (\<lambda>s. s\<lparr>catalog_html := ''<i>no elements</i>''\<rparr>))
                  (printSuccess ''Catalog updated, nothing found'')
           else
             jseq (jforeach (\<lambda>(chunk, peersBag). jmodify (\<lambda>s. s\<lparr>catalog_entries := catalog_entries s @
                     [(chunk, map fst (spread peersBag))]\<rparr>)) entries)
               (printSuccess ''Catalog updated'')))))" for body
    by (intro keeps_rules) simp_all
  have err: "keeps sent (printError m)" for m by (intro keeps_rules) simp
  show ?thesis
    unfolding catalog_update_def jbind_run [of "getAPIURL _"] getAPIURL_api_url prod.case sum.case
    by (rule fetch_try_sent [OF body err])
qed

text \<open>
  The contract: with an empty field the handler only says so, naming the first one; with
  all fields filled the request it makes first is the one built from their values.
\<close>

locale checked_form =
  fixes handler :: "env \<Rightarrow> ('z gui_scheme, unit) js" and fields :: "string list"
    and req :: "'z gui_scheme \<Rightarrow> request"
  assumes incomplete: "first_empty fields s = Some c \<Longrightarrow>
      handler E s = (Inr (), s\<lparr>flashes := flashes s @ [(''error'', empty_msg c)]\<rparr>)"
    and complete: "first_empty fields s = None \<Longrightarrow>
      \<exists>more. sent (snd (handler E s)) = sent s @ [req s] @ more"
    and never_throws: "\<exists>t. handler E s = (Inr (), t)"
begin

text \<open>Something is sent exactly when no field is empty.\<close>

lemma sends_iff: "sent (snd (handler E s)) \<noteq> sent s \<longleftrightarrow> (\<forall>el\<in>set fields. ctl_value (controls s el) \<noteq> [])"
proof (cases "first_empty fields s")
  case None
  then have "\<forall>el\<in>set fields. ctl_value (controls s el) \<noteq> []"
    by (auto simp: first_empty_def find_None_iff)
  with complete [OF None, of E] show ?thesis by auto
next
  case (Some c)
  then have "\<exists>el\<in>set fields. ctl_value (controls s el) = []"
    by (auto simp: first_empty_def find_Some_iff)
  with incomplete [OF Some, of E] show ?thesis by auto
qed

end

lemma fetch_try_more:
  assumes "\<And>b t. \<exists>more. sent (snd (n b t)) = sent t @ more"
  shows "\<exists>more. sent (snd (try_catch (jbind (base_fetch E req) n) (\<lambda>e. printError (msg e)) s)) = sent s @ [req] @ more"
proof -
  let ?t = "s\<lparr>sent := sent s @ [req]\<rparr>"
  obtain r where r: "base_fetch E req s = (r, ?t)" by (simp add: base_fetch_run)
  show ?thesis
  proof (cases r)
    case (Inl e)
    then show ?thesis using r by (simp add: try_catch_def jbind_run)
  next
    case (Inr b)
    then show ?thesis using r assms [of b ?t]
      by (cases "n b ?t"; cases "fst (n b ?t)") (auto simp: try_catch_def jbind_run)
  qed
qed

lemma checked_formI:
  fixes fields :: "string list"
  assumes "\<And>E s c. first_empty fields s = Some c \<Longrightarrow>
      handler E s = (Inr (), s\<lparr>flashes := flashes s @ [(''error'', empty_msg c)]\<rparr>)"
    and "\<And>E s. first_empty fields s = None \<Longrightarrow>
      handler E s = try_catch (jbind (base_fetch E (req s)) (n E s)) (\<lambda>e. printError (msg e)) (g s)"
    and "\<And>s. sent (g s) = sent s"
    and "\<And>E s b t. \<exists>more. sent (snd (n E s b t)) = sent t @ more"
  shows "checked_form handler fields req"
proof
  show "\<exists>t. handler E s = (Inr (), t)" for E s
  proof (cases "first_empty fields s")
    case None
    have "fst (try_catch (jbind (base_fetch E (req s)) (n E s)) (\<lambda>e. printError (msg e)) (g s)) = Inr ()"
      by (rule try_catch_total) simp
    then show ?thesis using assms(2) [OF None] by (metis prod.collapse)
  qed (simp add: assms(1))
  show "\<exists>more. sent (snd (handler E s)) = sent s @ [req s] @ more" if "first_empty fields s = None" for E s
  proof -
    have "\<exists>more. sent (snd (try_catch (jbind (base_fetch E (req s)) (n E s)) (\<lambda>e. printError (msg e)) (g s))) =
        sent (g s) @ [req s] @ more"
      by (rule fetch_try_more) (rule assms(4))
    then show ?thesis by (simp add: assms(2) [OF that] assms(3))
  qed
qed (rule assms(1))

lemma try_catch_modify: "try_catch (jseq (jmodify f) m) h s = try_catch m h (f s)"
  by (simp add: try_catch_def jseq_run)

lemmas form_run = jbind_run jget_run jret_run checkInputs_run getAPIURL_api_url option.case prod.case sum.case
  if_False if_True not_False_eq_True not_True_eq_False

lemmas form_steps = jbind_run [of "getAPIURL _"] jbind_run [of "jget _"] jbind_run [of "checkInputs _"] jget_run
  checkInputs_run getAPIURL_api_url try_catch_modify option.case prod.case sum.case
  if_False if_True not_False_eq_True not_True_eq_False

interpretation unicast_form: checked_form "\<lambda>E. unicast_send E G" "[''unicast.message'', ''unicast.destination'']"
  "\<lambda>s. post_json (api_url s ''/messaging/unicast'')
     (JObj [(''Dest'', JStr (ctl_value (controls s ''unicast.destination''))), (''Msg'', chat_msg (ctl_value (controls s ''unicast.message'')))])" for G
  by (rule checked_formI, simp only: unicast_send_def form_run, simp only: unicast_send_def form_steps, rule refl)
     (simp_all add: jbind_run jseq_run addMsg_def triggerDownload_def)

interpretation peer_form: checked_form "\<lambda>E. addPeer E G" "[''routing.peer'']"
  "\<lambda>s. post_json (api_url s ''/messaging/peers'') (JArr [JStr (ctl_value (controls s ''routing.peer''))])" for G
  by (rule checked_formI, simp only: addPeer_def form_run, simp only: addPeer_def form_steps, rule refl)
     (simp_all add: jbind_run jseq_run addMsg_def triggerDownload_def routing_update_sent)

interpretation entry_form: checked_form "\<lambda>E. setEntry E G" "[''routing.origin'']"
  "\<lambda>s. post_json (api_url s ''/messaging/routing'')
     (JObj [(''Origin'', JStr (ctl_value (controls s ''routing.origin''))), (''RelayAddr'', JStr (ctl_value (controls s ''routing.relay'')))])" for G
  by (rule checked_formI, simp only: setEntry_def form_run, simp only: setEntry_def form_steps, rule refl)
     (simp_all add: jbind_run jseq_run addMsg_def triggerDownload_def routing_update_sent)

interpretation chat_form: checked_form sendChat "[''broadcast.chatMessage'']"
  "\<lambda>s. post_json (api_url s ''/messaging/broadcast'') (chat_msg (ctl_value (controls s ''broadcast.chatMessage'')))"
  by (rule checked_formI, simp only: sendChat_def form_run, simp only: sendChat_def form_steps, rule refl)
     (simp_all add: jbind_run jseq_run addMsg_def triggerDownload_def)

interpretation private_form: checked_form sendPrivate "[''broadcast.privateMessage'', ''broadcast.privateRecipients'']"
  "\<lambda>s. post_json (api_url s ''/messaging/broadcast'') (JObj
     [(''Type'', JStr ''private''),
      (''payload'', JObj [(''Recipients'', JObj (recipients_of (ctl_value (controls s ''broadcast.privateRecipients'')))),
                         (''Msg'', chat_msg (ctl_value (controls s ''broadcast.privateMessage'')))])])"
  by (rule checked_formI, simp only: sendPrivate_def form_run, simp only: sendPrivate_def form_steps, rule refl)
     (simp_all add: jbind_run jseq_run addMsg_def triggerDownload_def)

interpretation catalog_form: checked_form catalog_add "[''catalog.key'', ''catalog.value'']"
  "\<lambda>s. post_json (api_url s ''/datasharing/catalog'') (JArr [JStr (ctl_value (controls s ''catalog.key'')), JStr (ctl_value (controls s ''catalog.value''))])"
  by (rule checked_formI, simp only: catalog_add_def form_run, simp only: catalog_add_def form_steps, rule refl)
     (simp_all add: jbind_run jseq_run addMsg_def triggerDownload_def catalog_update_sent)

interpretation download_form: checked_form data_download "[''dataSharing.downloadMetahash'']"
  "\<lambda>s. get_args (api_url s (''/datasharing/download?key='' @ ctl_value (controls s ''dataSharing.downloadMetahash'')))"
  by (rule checked_formI, simp only: data_download_def form_run, simp only: data_download_def form_steps, rule refl)
     (simp_all add: jbind_run jseq_run addMsg_def triggerDownload_def)

interpretation tag_form: checked_form naming_tag "[''naming.tagFilename'', ''naming.tagMetahash'']"
  "\<lambda>s. post_json (api_url s ''/datasharing/naming'') (JArr [JStr (ctl_value (controls s ''naming.tagFilename'')), JStr (ctl_value (controls s ''naming.tagMetahash''))])"
  by (rule checked_formI, simp only: naming_tag_def form_run, simp only: naming_tag_def form_steps, rule refl)
     (simp_all add: jbind_run jseq_run addMsg_def triggerDownload_def)

interpretation search_all_form: checked_form searchAll "[''search.searchAllPattern'', ''search.searchAllBudget'', ''search.searchAllTimeout'']"
  "\<lambda>s. post_args ''multipart/form-data'' (api_url s ''/datasharing/searchAll'') (json_text (JObj
     [(''Pattern'', JStr (ctl_value (controls s ''search.searchAllPattern''))), (''Budget'', JNum (parseInt 0 (ctl_value (controls s ''search.searchAllBudget'')))),
      (''Timeout'', JStr (ctl_value (controls s ''search.searchAllTimeout'')))]))"
  by (rule checked_formI, simp only: searchAll_def form_run, simp only: searchAll_def form_steps)
     (simp_all add: jbind_run jseq_run addMsg_def triggerDownload_def)

interpretation search_first_form: checked_form searchFirst "[''search.searchFirstPattern'', ''search.searchFirstInitialBudget'', ''search.searchFirstFactor'', ''search.searchFirstRetry'', ''search.searchFirstTimeout'']"
  "\<lambda>s. post_args ''multipart/form-data'' (api_url s ''/datasharing/searchFirst'') (json_text (JObj
     [(''Pattern'', JStr (ctl_value (controls s ''search.searchFirstPattern''))), (''Initial'', JNum (parseInt 0 (ctl_value (controls s ''search.searchFirstInitialBudget'')))),
      (''Factor'', JNum (parseInt 0 (ctl_value (controls s ''search.searchFirstFactor'')))), (''Retry'', JNum (parseInt 0 (ctl_value (controls s ''search.searchFirstRetry'')))),
      (''Timeout'', JStr (ctl_value (controls s ''search.searchFirstTimeout'')))]))"
  by (rule checked_formI, simp only: searchFirst_def form_run, simp only: searchFirst_def form_steps)
     (simp_all add: jbind_run jseq_run addMsg_def triggerDownload_def)

subsection \<open>The other handlers\<close>

lemma naming_resolve_sent:
  "sent (snd (naming_resolve E s)) =
     sent s @ [get_args (api_url s (''/datasharing/naming?name='' @ ctl_value (controls s ''naming.resolveFilename'')))]"
proof -
  have tail: "keeps sent (jseq (jmodify (\<lambda>s. s\<lparr>resolveResult := x\<rparr>)) (printSuccess m))" for x m
    by (intro keeps_rules) simp_all
  have err: "keeps sent (printError m)" for m by (intro keeps_rules) simp
  obtain b t where b: "checkInputs [''naming.resolveFilename''] s = (Inr b, t)"
    and t: "sent t = sent s" "api_url t = api_url s" "controls t = controls s"
    by (cases "first_empty [''naming.resolveFilename''] s") (auto simp: checkInputs_run api_url_def fun_eq_iff)
  have "naming_resolve E s = try_catch
       (jbind (base_fetch E (get_args (api_url s (''/datasharing/naming?name='' @ ctl_value (controls s ''naming.resolveFilename''))))) (\<lambda>text.
        jseq (jmodify (\<lambda>s. s\<lparr>resolveResult := (if text = [] then ''<i>nothing found</i>'' else text)\<rparr>))
          (printSuccess ''filename resolved'')))
       (\<lambda>e. printError (''Failed to resolve filename: '' @ err_string e)) t"
    by (simp only: naming_resolve_def b jbind_run [of "checkInputs _"] jbind_run [of "jget _"] jbind_run [of "getAPIURL _"]
        jget_run getAPIURL_api_url prod.case sum.case t(2,3))
  then show ?thesis by (simp only: fetch_try_sent [OF tail err] t(1))
qed

text \<open>The recipients of a private message are the parts between the commas, trimmed.\<close>

lemma fields_put_key_set: "fst ` set (fields_put k v fs) = insert k (fst ` set fs)"
  by (induction k v fs rule: fields_put.induct) auto

lemma fold_assign_own_keys:
  "fst ` set (fold (\<lambda>e. assign_own (f e) v) es fs) = fst ` set fs \<union> (f ` set es - {''__proto__''})"
  by (induction es arbitrary: fs) (auto simp: assign_own_def fields_put_key_set)

lemma recipients_of_keys:
  "fst ` set (recipients_of d) = trim ` set (split_on CHR '','' d) - {''__proto__''}"
  using fold_assign_own_keys [where f = trim and fs = "[]"] by (simp add: recipients_of_def)

text \<open>A header that is active shows its content, one that is not hides it.\<close>

definition coll_ok :: "collapsible \<Rightarrow> bool" where
  "coll_ok c \<longleftrightarrow> coll_display c = (if coll_active c then ''block'' else ''none'')"

lemma coll_ok_init: "list_all coll_ok (initCollapsible cs)"
  by (simp add: initCollapsible_def list_all_iff coll_ok_def)

lemma coll_ok_click: "coll_ok (clickCollapsible c)"
  by (simp add: clickCollapsible_def coll_ok_def)

lemma click_twice: "coll_ok c \<Longrightarrow> clickCollapsible (clickCollapsible c) = c"
  by (auto simp: clickCollapsible_def coll_ok_def)

text \<open>A text without escapes decodes to itself.\<close>

lemma decode_plain: "CHR ''%'' \<notin> set t \<Longrightarrow> decodeURIComponent t = Some t"
  by (induction t) auto

end
