(* ===== verification/NodePage.thy ===== *)
theory NodePage
  imports NodeHtml Gui
begin

section \<open>The node's page at work\<close>

text \<open>
  The parts of the node's page put together: the document of \<open>gui/web/node.html\<close>, the
  application of \<open>stimulus.js\<close>, and the controllers of \<open>main.js\<close>, registered and started as
  \<open>main\<close> does it. The page's state is the document, the state \<open>gui\<close> of the controllers, the
  files chosen for an upload, the address the packets are listened to at, the collapsible
  headers, and the controllers that are connected. What the controllers write under their
  targets is kept in \<open>gui\<close>, and the document is the one that was loaded.
\<close>

record node_page = page +
  np_gui :: gui
  np_files :: "string option list"
  np_source :: "string option"
  np_coll :: "(elt \<times> collapsible) list"
  np_connected :: "scope list" \<comment> \<open>the application's connected contexts, in their order\<close>

definition on_gui :: "(gui, 'a) js \<Rightarrow> (node_page, 'a) js" where
  "on_gui m = (\<lambda>p. case m (np_gui p) of (r, g) \<Rightarrow> (r, p\<lparr>np_gui := g\<rparr>))"

text \<open>\<open>document.getElementById\<close> and \<open>nextElementSibling\<close>\<close>

definition getElementById :: "dom \<Rightarrow> string \<Rightarrow> elt option" where
  "getElementById d i = List.find (\<lambda>e. getAttribute d e ''id'' = Some i) (dt_elems (dom_root d))"

fun next_in :: "elt \<Rightarrow> dtree list \<Rightarrow> elt option" where
  "next_in e [] = None"
| "next_in e (DNode x ks # ts) =
     (if x = e then (case ts of [] \<Rightarrow> None | DNode y _ # _ \<Rightarrow> Some y)
      else (case next_in e ks of Some y \<Rightarrow> Some y | None \<Rightarrow> next_in e ts))"

definition nextElementSibling :: "dom \<Rightarrow> elt \<Rightarrow> elt option" where
  "nextElementSibling d e = next_in e [dom_root d]"

definition has_class :: "dom \<Rightarrow> string \<Rightarrow> elt \<Rightarrow> bool" where
  "has_class d c e \<longleftrightarrow> sel_matches d (SelToken ''class'' c) e"

definition getElementsByClassName :: "dom \<Rightarrow> string \<Rightarrow> elt list" where
  "getElementsByClassName d c = filter (has_class d c) (dt_elems (dom_root d))"

subsection \<open>The classes\<close>

definition methods_of :: "nat \<Rightarrow> string list \<Rightarrow> (string \<times> member) list" where
  "methods_of n names = map (\<lambda>(i, m). (m, MValue i)) (enumerate n names)"

definition BaseElement :: ctor where
  "BaseElement = Ctor None None None
     (methods_of 10 [''checkInputs'', ''fetch''] @
      [(''flash'', MAccess (Some (UserGet 0)) None), (''peerInfo'', MAccess (Some (UserGet 1)) None)]) (Some Controller)"

definition Flash :: ctor where
  "Flash = Ctor None (Some [''wrapper'']) None (methods_of 20 [''printError'', ''printSuccess'', ''createFlash'']) (Some Controller)"

definition PeerInfo :: ctor where
  "PeerInfo = Ctor None (Some [''peerAddr'', ''socketAddr'']) None
     (methods_of 30 [''initialize'', ''getAPIURL''] @ [(''flash'', MAccess (Some (UserGet 2)) None)] @ methods_of 32 [''getQueryArgs'']) (Some Controller)"

definition Messaging :: ctor where
  "Messaging = Ctor None (Some [''holder'', ''messages'']) None (methods_of 40 [''addMsg'']) (Some BaseElement)"

definition Unicast :: ctor where
  "Unicast = Ctor None (Some [''message'', ''destination'']) None
     (methods_of 50 [''send''] @ [(''messagingController'', MAccess (Some (UserGet 3)) None)]) (Some BaseElement)"

definition Routing :: ctor where
  "Routing = Ctor None (Some [''table'', ''graphviz'', ''peer'', ''origin'', ''relay'']) None
     (methods_of 60 [''initialize'', ''update'', ''addPeer'', ''setEntry'']) (Some BaseElement)"

definition Packets :: ctor where
  "Packets = Ctor None (Some [''follow'', ''holder'', ''scroll'', ''packets'']) None
     (methods_of 70 [''initialize'', ''packetMessage'', ''packetError'', ''packetsScroll''] @
      [(''messagingController'', MAccess (Some (UserGet 4)) None)]) (Some BaseElement)"

definition Broadcast :: ctor where
  "Broadcast = Ctor None (Some [''chatMessage'', ''privateMessage'', ''privateRecipients'']) None
     (methods_of 80 [''sendChat'', ''sendPrivate'']) (Some BaseElement)"

definition Catalog :: ctor where
  "Catalog = Ctor None (Some [''content'', ''key'', ''value'']) None (methods_of 90 [''initialize'', ''update'', ''add'']) (Some BaseElement)"

definition DataSharing :: ctor where
  "DataSharing = Ctor None (Some [''uploadResult'', ''fileUpload'', ''downloadMetahash'']) None
     (methods_of 100 [''upload'', ''download'', ''triggerDownload'']) (Some BaseElement)"

definition Search :: ctor where
  "Search = Ctor None (Some [''searchAllResult'', ''searchAllPattern'', ''searchAllBudget'', ''searchAllTimeout'', ''searchFirstResult'',
       ''searchFirstPattern'', ''searchFirstInitialBudget'', ''searchFirstFactor'', ''searchFirstRetry'', ''searchFirstTimeout'']) None
     (methods_of 110 [''searchAll'', ''searchFirst'']) (Some BaseElement)"

definition Naming :: ctor where
  "Naming = Ctor None (Some [''resolveResult'', ''resolveFilename'', ''tagFilename'', ''tagMetahash'']) None
     (methods_of 120 [''resolve'', ''tag'']) (Some BaseElement)"

subsection \<open>The controllers\<close>

text \<open>The getter \<open>peerInfo\<close>, as the controllers that are connected stand.\<close>

definition peerInfo_found :: "node_page \<Rightarrow> bool" where
  "peerInfo_found p \<longleftrightarrow>
     (case getElementById (pg_dom p) ''peerInfo'' of
        None \<Rightarrow> False | Some e \<Rightarrow> \<lparr>sc_element = e, sc_identifier = ''peerInfo''\<rparr> \<in> set (np_connected p))"

text \<open>A method that is \<open>async\<close>: what it throws rejects a promise nobody looks at.\<close>

definition async_method :: "(gui, unit) js \<Rightarrow> (node_page, unit) js" where
  "async_method m = jdetach (on_gui m)"

text \<open>\<open>initialize\<close> of \<open>Routing\<close> and \<open>Catalog\<close>: \<open>update\<close>, which begins by asking \<open>peerInfo\<close>.\<close>

definition update_initialize :: "(gui, unit) js \<Rightarrow> (node_page, unit) js" where
  "update_initialize update = (\<lambda>p. if peerInfo_found p then on_gui update p else (Inr (), p))"

text \<open>\<open>initialize\<close> of \<open>Packets\<close>; \<open>newEventSource\<close> is what the browser makes of an address.\<close>

definition packets_initialize :: "env \<Rightarrow> (string \<Rightarrow> unit outcome) \<Rightarrow> (node_page, unit) js" where
  "packets_initialize E newEventSource = (\<lambda>p.
     if \<not> peerInfo_found p then (Inl (TypeError (type_msg E)), p)
     else (case getAPIURL ''/registry/pktnotify'' (np_gui p) of
             (Inl e, g) \<Rightarrow> (Inl e, p)
           | (Inr addr, g) \<Rightarrow>
               (case newEventSource addr of
                  Inl e \<Rightarrow> (Inl e, p)
                | Inr _ \<Rightarrow> (Inr (), p\<lparr>np_source := Some addr\<rparr>))))"

text \<open>A controller's code: of its methods, the ones the document's actions name. The classes leave
  \<open>connect\<close> and \<open>disconnect\<close> as they are; here they keep \<open>np_connected\<close>.\<close>

definition controller_code :: "ctor \<Rightarrow> (node_page, unit) js \<Rightarrow> (string \<times> (node_page, unit) js) list \<Rightarrow> node_page code" where
  "controller_code cls init ms =
     \<lparr>cd_class = cls, cd_construct = (\<lambda>sc. jret ()), cd_initialize = (\<lambda>sc. init),
      cd_connect = (\<lambda>sc. jmodify (\<lambda>p. p\<lparr>np_connected := set_add sc (np_connected p)\<rparr>)),
      cd_disconnect = (\<lambda>sc. jmodify (\<lambda>p. p\<lparr>np_connected := set_delete sc (np_connected p)\<rparr>)),
      cd_changed = (\<lambda>n. None),
      cd_method = (\<lambda>sc n. map_option (\<lambda>m t (p, b). case m p of (r, p') \<Rightarrow> (r, p', b)) (map_of ms n))\<rparr>"

definition main_defs :: "env \<Rightarrow> gui_platform \<Rightarrow> (string \<Rightarrow> unit outcome) \<Rightarrow> (string \<times> node_page code) list" where
  "main_defs E G newEventSource =
     [(''flash'', controller_code Flash (jret ()) []),
      (''peerInfo'', controller_code PeerInfo (async_method (peerInfo_initialize E G)) []),
      (''messaging'', controller_code Messaging (jret ()) []),
      (''unicast'', controller_code Unicast (jret ()) [(''send'', async_method (unicast_send E G))]),
      (''routing'', controller_code Routing (update_initialize (routing_initialize E G))
         [(''update'', async_method (routing_update E G)), (''addPeer'', async_method (addPeer E G)),
          (''setEntry'', async_method (setEntry E G))]),
      (''packets'', controller_code Packets (packets_initialize E newEventSource) []),
      (''broadcast'', controller_code Broadcast (jret ())
         [(''sendChat'', async_method (sendChat E)), (''sendPrivate'', async_method (sendPrivate E))]),
      (''catalog'', controller_code Catalog (update_initialize (catalog_initialize E))
         [(''update'', async_method (catalog_update E)), (''add'', async_method (catalog_add E))]),
      (''dataSharing'', controller_code DataSharing (jret ())
         [(''upload'', \<lambda>p. async_method (upload E (np_files p)) p), (''download'', async_method (data_download E))]),
      (''search'', controller_code Search (jret ())
         [(''searchAll'', async_method (searchAll E)), (''searchFirst'', async_method (searchFirst E))]),
      (''naming'', controller_code Naming (jret ())
         [(''resolve'', async_method (naming_resolve E)), (''tag'', async_method (naming_tag E))])]"

subsection \<open>\<open>main\<close>\<close>

text \<open>\<open>initCollapsible\<close> on the document: a header without a next sibling makes it throw.\<close>

definition init_headers :: "env \<Rightarrow> (node_page, unit) js" where
  "init_headers E =
     jbind (jget (\<lambda>p. (pg_dom p, getElementsByClassName (pg_dom p) ''collapsible''))) (\<lambda>(d, coll).
       jforeach (\<lambda>e.
         case nextElementSibling d e of
           None \<Rightarrow> jthrow (TypeError (type_msg E))
         | Some content \<Rightarrow> jmodify (\<lambda>p. p\<lparr>np_coll := np_coll p @
             map (Pair e) (initCollapsible [\<lparr>coll_active = has_class d ''active'' e, coll_display = []\<rparr>])\<rparr>)) coll)"

definition header_click :: "elt \<Rightarrow> node_page \<Rightarrow> node_page" where
  "header_click e p = p\<lparr>np_coll := map (\<lambda>(x, c). (x, if x = e then clickCollapsible c else c)) (np_coll p)\<rparr>"

text \<open>\<open>Application.start\<close> waits for the document, so that the application starts after \<open>main\<close> has
  returned or thrown. The results are that of \<open>main\<close> and that of the start.\<close>

definition dom_rootElement :: "dom \<Rightarrow> elt" where
  "dom_rootElement d = (case dom_root d of DNode e _ \<Rightarrow> e)"

definition node_main :: "env \<Rightarrow> gui_platform \<Rightarrow> (string \<Rightarrow> unit outcome) \<Rightarrow> node_page \<Rightarrow> (unit outcome \<times> unit outcome) \<times> node_page app" where
  "node_main E G newEventSource p =
     (case jseq (application_load E defaultSchema (main_defs E G newEventSource)) (on_world (on_page (init_headers E)))
             (newApplication (dom_rootElement (pg_dom p)) defaultSchema p) of
        (r, s) \<Rightarrow> (case application_start E defaultSchema s of (r', s') \<Rightarrow> ((r, r'), s')))"

text \<open>The getters \<open>flash\<close>, \<open>peerInfo\<close> and \<open>messagingController\<close>.\<close>

definition controller_by_id :: "string \<Rightarrow> node_page app \<Rightarrow> scope option" where
  "controller_by_id i s =
     (case getElementById (doc_of (snd s)) i of None \<Rightarrow> None | Some e \<Rightarrow> getControllerForElementAndIdentifier e i s)"

section \<open>The document\<close>

lemma node_trees: "dom_trees node_dom = [dom_root node_dom]" "dom_root node_dom = mk_tree 0 node_html"
  by (simp_all add: node_dom_def dom_trees_def markup_dom_def Let_def)

lemma node_elems: "dt_elems (dom_root node_dom) = [0 ..< 157]"
  using mk_elems(1) [of 0 node_html] by (simp add: node_trees node_size)

lemma node_wf: "dom_wf node_dom" "dom_elems node_dom = {0 ..< 157}" "dom_rootElement node_dom = 0"
proof -
  show "dom_wf node_dom" by (simp add: node_dom_def markup_wf)
  show "dom_elems node_dom = {0 ..< 157}" by (simp add: dom_elems_def node_trees(1) node_elems)
  have "(case mk_tree n m of DNode e _ \<Rightarrow> e) = n" for n m by (cases m) simp
  then show "dom_rootElement node_dom = 0" by (simp add: dom_rootElement_def node_trees(2))
qed

lemma node_id_table: "attr_table ''id'' node_html =
  [(6, ''flash''), (7, ''flash-wrapper''), (10, ''peerInfo''), (18, ''messaging''), (146, ''follow-checkbox'')]"
  by code_simp

lemma node_class_table: "filter (\<lambda>(e, v). ''collapsible'' \<in> set (words_on html_space [] v)) (attr_table ''class'' node_html) =
  map (\<lambda>e. (e, ''collapsible'')) [19, 23, 34, 53] @ [(61, ''collapsible sub'')] @
  map (\<lambda>e. (e, ''collapsible'')) [80, 94, 108, 129] @ [(144, ''active collapsible'')]"
  by code_simp

lemma node_attribute: "getAttribute node_dom e n = map_get (attr_table (ascii_lower n) node_html) e"
  by (simp add: node_dom_def getAttribute_table)

lemma node_ids: "getElementById node_dom ''flash'' = Some 6" "getElementById node_dom ''peerInfo'' = Some 10"
  "getElementById node_dom ''messaging'' = Some 18"
proof -
  have "ascii_lower ''id'' = ''id''" by code_simp
  then have *: "getElementById node_dom i = List.find (\<lambda>e. map_get
      [(6, ''flash''), (7, ''flash-wrapper''), (10, ''peerInfo''), (18, ''messaging''), (146, ''follow-checkbox'')] e = Some i) [0 ..< 157]" for i
    by (simp add: getElementById_def node_elems node_attribute node_id_table)
  show "getElementById node_dom ''flash'' = Some 6" "getElementById node_dom ''peerInfo'' = Some 10"
    "getElementById node_dom ''messaging'' = Some 18" unfolding * by code_simp+
qed

definition node_headers :: "elt list" where
  "node_headers = [19, 23, 34, 53, 61, 80, 94, 108, 129, 144]"

lemma node_class: "has_class node_dom c e \<longleftrightarrow>
  e \<in> set (map fst (filter (\<lambda>(e, v). c \<in> set (words_on html_space [] v)) (attr_table ''class'' node_html)))"
proof -
  have "ascii_lower ''class'' = ''class''" by code_simp
  then have "has_class node_dom c e \<longleftrightarrow> (\<exists>v. (e, v) \<in> set (filter (\<lambda>(e, v). c \<in> set (words_on html_space [] v)) (attr_table ''class'' node_html)))"
    using in_map_iff [OF table_distinct, of e _ "''class''" node_html] by (auto simp: has_class_def node_attribute split: option.split)
  then show ?thesis by force
qed

lemma node_collapsible: "getElementsByClassName node_dom ''collapsible'' = node_headers"
proof -
  have h: "has_class node_dom ''collapsible'' e \<longleftrightarrow> e \<in> set node_headers" for e
    unfolding node_class node_class_table by (simp add: node_headers_def)
  have "filter (\<lambda>e. e \<in> set node_headers) [0 ..< 157] = node_headers" by code_simp
  then show ?thesis unfolding getElementsByClassName_def node_elems h .
qed

lemma node_active: "e \<in> set node_headers \<Longrightarrow> has_class node_dom ''active'' e \<longleftrightarrow> e = 144"
proof -
  have "filter (\<lambda>(e, v). ''active'' \<in> set (words_on html_space [] v)) (attr_table ''class'' node_html) = [(144, ''active collapsible'')]"
    by code_simp
  then show ?thesis unfolding node_class by simp
qed

lemma node_next: "map (nextElementSibling node_dom) node_headers = map Some [20, 24, 35, 54, 62, 81, 95, 109, 130, 145]"
  by code_simp

lemma node_controller_selector:
  assumes "(c, i) \<in> set node_controllers"
  shows "sel_matches node_dom (controllerSelector defaultSchema \<lparr>sc_element = c, sc_identifier = i\<rparr>) x \<longleftrightarrow> x = c"
proof -
  have low: "ascii_lower ''data-controller'' = ''data-controller''" by code_simp
  have w: "list_all (\<lambda>(e, v). words_on html_space [] v = [v]) node_controllers" by code_simp
  have one: "distinct (map snd node_controllers)" "distinct (map_keys node_controllers)" by code_simp+
  have "sel_matches node_dom (controllerSelector defaultSchema \<lparr>sc_element = c, sc_identifier = i\<rparr>) x \<longleftrightarrow> map_get node_controllers x = Some i"
  proof (cases "map_get node_controllers x")
    case (Some v)
    then have "(x, v) \<in> set node_controllers" using in_map_iff [OF one(2)] by blast
    then have "words_on html_space [] v = [v]" using w by (auto simp: list_all_iff)
    then show ?thesis using Some
      by (auto simp: controllerSelector_def attributeValueContainsToken_def defaultSchema_def node_attribute low node_controller_table)
  qed (simp add: controllerSelector_def attributeValueContainsToken_def defaultSchema_def node_attribute low node_controller_table)
  also have "\<dots> \<longleftrightarrow> (x, i) \<in> set node_controllers" using in_map_iff [OF one(2), of x i] by simp
  also have "\<dots> \<longleftrightarrow> x = c" using one(1) assms unfolding distinct_map inj_on_def by (metis prod.sel)
  finally show ?thesis .
qed

lemma node_contains:
  assumes "(c, i) \<in> set node_controllers" "x \<in> set (dom_below node_dom c)"
  shows "containsElement defaultSchema node_dom \<lparr>sc_element = c, sc_identifier = i\<rparr> x"
proof -
  have "c \<in> set (dom_path node_dom x)" using assms(2) dom_contains_below [OF node_wf(1), of c x] by (simp add: dom_contains_def)
  moreover have "List.find P xs = Some c" if "c \<in> set xs" "\<And>x. P x \<longleftrightarrow> x = c" for P xs using that by (induction xs) auto
  ultimately show ?thesis using node_controller_selector [OF assms(1)] by (simp add: containsElement_def closest_def)
qed

lemma node_button_in: "(e, i, c, m) \<in> set node_buttons \<Longrightarrow> (c, i) \<in> set node_controllers \<and> e \<in> set (dom_below node_dom c)"
proof -
  have b: "list_all (\<lambda>(e, i, c, m). (c, i) \<in> set node_controllers) node_buttons" by code_simp
  have r: "map (dom_below node_dom) [22, 33, 52, 79, 93, 107, 128] =
      [[22 ..< 33], [33 ..< 52], [52 ..< 79], [79 ..< 93], [93 ..< 107], [107 ..< 128], [128 ..< 143]]"
    using node_regions by (simp add: node_controllers_def)
  show "(e, i, c, m) \<in> set node_buttons \<Longrightarrow> (c, i) \<in> set node_controllers \<and> e \<in> set (dom_below node_dom c)"
    using b r by (auto simp: list_all_iff node_buttons_def)
qed

section \<open>The controllers\<close>

lemma on_gui_run [simp]: "np_gui (snd (on_gui m p)) = snd (m (np_gui p))" "pg_dom (snd (on_gui m p)) = pg_dom p"
  "np_files (snd (on_gui m p)) = np_files p" "np_source (snd (on_gui m p)) = np_source p" "np_coll (snd (on_gui m p)) = np_coll p"
  "np_connected (snd (on_gui m p)) = np_connected p"
  by (simp_all add: on_gui_def split: prod.split)

lemma async_run: "async_method m p = (Inr (), p\<lparr>np_gui := snd (m (np_gui p))\<rparr>)"
  by (simp add: async_method_def on_gui_def jdetach_def split: prod.split)

lemma keeps_dom [keeps_rules]: "keeps pg_dom (on_gui m)" "keeps pg_dom (async_method m)" "keeps pg_dom (update_initialize m)"
  "keeps pg_dom (packets_initialize E X)"
  by (simp_all add: keeps_def async_method_def update_initialize_def packets_initialize_def getAPIURL_def split: sum.split)

lemma keeps_upload: "keeps pg_dom (\<lambda>p. async_method (m p) p)"
  by (simp add: keeps_def async_run)

lemma blessed: "readInheritableStaticObjectPairs own_values c = [] \<Longrightarrow> \<exists>c'. bless c = Inr c'"
  by (simp add: bless_def getBlessedProperties_def ValuePropertiesBlessing_def Let_def)

lemma controller_calm:
  assumes "readInheritableStaticObjectPairs own_values cls = []" "keeps pg_dom init"
  shows "calm (controller_code cls init ms)"
  using blessed [OF assms(1)] keepsD [OF assms(2)] by (simp add: calm_def controller_code_def)

lemma controller_calm_methods:
  assumes "list_all (\<lambda>x. keeps pg_dom (snd x)) ms"
  shows "calm_methods (controller_code cls init ms)"
proof -
  have "pg_dom p' = pg_dom p" if "map_of ms n = Some m" "m p = (r, p')" for n m p r p'
    using that assms map_of_SomeD [OF that(1)] keeps_result [of pg_dom m p r p'] by (auto simp: list_all_iff)
  then show ?thesis by (auto simp: calm_methods_def controller_code_def split: prod.split)
qed

lemma main_values: "list_all (\<lambda>c. readInheritableStaticObjectPairs own_values c = [])
  [Flash, PeerInfo, Messaging, Unicast, Routing, Packets, Broadcast, Catalog, DataSharing, Search, Naming]"
  by code_simp

lemma main_calm: "list_all (\<lambda>x. calm (snd x)) (main_defs E G X)"
  using main_values by (simp add: main_defs_def controller_calm keeps_rules)

lemma main_calm_methods: "map_of (rev (main_defs E G X)) i = Some cd \<Longrightarrow> calm_methods cd"
proof -
  have "list_all (\<lambda>x. calm_methods (snd x)) (main_defs E G X)"
    by (simp add: main_defs_def controller_calm_methods keeps_rules keeps_upload)
  moreover assume "map_of (rev (main_defs E G X)) i = Some cd"
  then have "(i, cd) \<in> set (main_defs E G X)" using map_of_SomeD by fastforce
  ultimately show ?thesis by (auto simp: list_all_iff)
qed

lemma main_registered: "map_of (rev (main_defs E G X)) i \<noteq> None \<longleftrightarrow> i \<in> snd ` set node_controllers"
  by (auto simp: main_defs_def node_controllers_def map_of_eq_None_iff)

section \<open>\<open>main\<close>\<close>

definition headers_of :: "(elt \<times> collapsible) list" where
  "headers_of = map (\<lambda>e. (e, \<lparr>coll_active = (e = 144), coll_display = (if e = 144 then ''block'' else ''none'')\<rparr>)) node_headers"

lemma init_headers_run:
  assumes "pg_dom p = node_dom"
  shows "init_headers E p = (Inr (), p\<lparr>np_coll := np_coll p @ headers_of\<rparr>)"
proof -
  let ?f = "\<lambda>e. case nextElementSibling node_dom e of None \<Rightarrow> jthrow (TypeError (type_msg E))
    | Some content \<Rightarrow> jmodify (\<lambda>p. p\<lparr>np_coll := np_coll p @ map (Pair e) (initCollapsible [\<lparr>coll_active = has_class node_dom ''active'' e, coll_display = []\<rparr>])\<rparr>)"
  have nxt: "nextElementSibling node_dom e \<noteq> None" if "e \<in> set node_headers" for e
    using that node_next by (auto simp: node_headers_def)
  have "jforeach ?f es q = (Inr (), q\<lparr>np_coll := np_coll q @
      map (\<lambda>e. (e, \<lparr>coll_active = (e = 144), coll_display = (if e = 144 then ''block'' else ''none'')\<rparr>)) es\<rparr>)"
    if "set es \<subseteq> set node_headers" for es and q :: node_page
    using that
  proof (induction es arbitrary: q)
    case (Cons e es)
    then obtain c where "nextElementSibling node_dom e = Some c" using nxt [of e] by auto
    then have "?f e q = (Inr (), q\<lparr>np_coll := np_coll q @ [(e, \<lparr>coll_active = (e = 144), coll_display = (if e = 144 then ''block'' else ''none'')\<rparr>)]\<rparr>)"
      using node_active [of e] Cons.prems by (simp add: initCollapsible_def)
    then show ?case using Cons by (simp add: jseq_run)
  qed simp
  then show ?thesis using assms by (simp add: init_headers_def jbind_run node_collapsible headers_of_def)
qed

lemma node_main_start:
  assumes "pg_dom p = node_dom"
  defines "p' \<equiv> p\<lparr>np_coll := np_coll p @ headers_of\<rparr>"
  shows "node_main E G X p = (case start_page E defaultSchema (main_defs E G X) 0 p' of (r, s) \<Rightarrow> ((Inr (), r), s))"
proof -
  let ?S = defaultSchema and ?defs = "main_defs E G X"
  obtain ob w where new: "newApplication 0 ?S p = (ob, w)" by (cases "newApplication 0 ?S p")
  then have p: "lw_page w = p" and new': "newApplication 0 ?S p' = (ob, w\<lparr>lw_page := p'\<rparr>)" and b: "blank (vl_delegate ob)"
    by (auto simp: newApplication_def newValueListObserver_def blank_def pristine_def)
  obtain r where l: "\<And>w. application_load E ?S ?defs (ob, w) = (Inr (), ob\<lparr>vl_delegate := r\<rparr>, w)"
    using load_all_blank [OF b main_calm] by blast
  have "on_world (on_page (init_headers E)) (ob\<lparr>vl_delegate := r\<rparr>, w) = (Inr (), ob\<lparr>vl_delegate := r\<rparr>, w\<lparr>lw_page := p'\<rparr>)"
    using p assms(1) by (simp add: on_world_def on_page_def init_headers_run p'_def)
  then show ?thesis
    using l new new' assms(1) by (simp add: node_main_def start_page_def jseq_run node_wf(3))
qed

text \<open>The state of the controllers after they are initialised.\<close>

definition main_gui :: "env \<Rightarrow> gui_platform \<Rightarrow> gui \<Rightarrow> gui" where
  "main_gui E G g = snd (catalog_initialize E (snd (routing_initialize E G (snd (peerInfo_initialize E G g)))))"

definition main_source :: "(string \<Rightarrow> unit outcome) \<Rightarrow> gui \<Rightarrow> string option" where
  "main_source newEventSource g =
     (let addr = api_url g ''/registry/pktnotify'' in case newEventSource addr of Inl e \<Rightarrow> None | Inr _ \<Rightarrow> Some addr)"

abbreviation node_scope_list :: "scope list" where
  "node_scope_list \<equiv> map (\<lambda>(e, i). \<lparr>sc_element = e, sc_identifier = i\<rparr>) node_controllers"

lemma node_declared: "declared_scopes defaultSchema node_dom 0 = node_scope_list" "set_of node_scope_list = node_scope_list"
  "declares_controller defaultSchema node_dom 0 e i \<longleftrightarrow> (e, i) \<in> set node_controllers"
proof -
  show d: "declared_scopes defaultSchema node_dom 0 = node_scope_list" by (simp add: node_dom_def declared_scopes_table node_scopes)
  have "distinct node_scope_list" by code_simp
  then show "set_of node_scope_list = node_scope_list" by (rule set_of_distinct)
  show "declares_controller defaultSchema node_dom 0 e i \<longleftrightarrow> (e, i) \<in> set node_controllers"
    using declared_scopes_iff [of "\<lparr>sc_element = e, sc_identifier = i\<rparr>" defaultSchema node_dom 0] unfolding d by auto
qed

lemma connect_controller:
  "connect_page (controller_code cls init ms) sc p =
     (snd (init p))\<lparr>np_connected := set_add sc (np_connected (snd (init p)))\<rparr>"
  by (simp add: connect_page_def controller_code_def)

lemma peerInfo_found_node:
  "pg_dom p = node_dom \<Longrightarrow> peerInfo_found p \<longleftrightarrow> \<lparr>sc_element = 10, sc_identifier = ''peerInfo''\<rparr> \<in> set (np_connected p)"
  by (simp add: peerInfo_found_def node_ids)

lemma main_page:
  assumes "pg_dom p = node_dom" "np_connected p = []" "np_source p = None"
  shows "run_controllers (map_of (rev (main_defs E G X))) node_scope_list p =
    p\<lparr>np_gui := main_gui E G (np_gui p), np_source := main_source X (main_gui E G (np_gui p)), np_connected := node_scope_list\<rparr>"
proof -
  have src: "snd (packets_initialize E X q) = q\<lparr>np_source := main_source X (np_gui q)\<rparr>"
    if "peerInfo_found q" "np_source q = None" for q
    using that by (auto simp: packets_initialize_def main_source_def Let_def split: sum.split)
  have up: "snd (update_initialize m q) = q\<lparr>np_gui := snd (m (np_gui q))\<rparr>" if "peerInfo_found q" for m q
    using that by (simp add: update_initialize_def on_gui_def split: prod.split)
  show ?thesis using assms unfolding run_controllers_def node_declared(2)
    by (simp add: node_controllers_def run_controller_def main_defs_def connect_controller set_add_def async_run peerInfo_found_node up src main_gui_def)
qed

section \<open>Events\<close>

text \<open>What each button of the page runs.\<close>

definition button_handlers :: "env \<Rightarrow> gui_platform \<Rightarrow> (elt \<times> (node_page, unit) js) list" where
  "button_handlers E G =
     [(30, async_method (unicast_send E G)), (40, async_method (sendChat E)), (49, async_method (sendPrivate E)),
      (63, async_method (routing_update E G)), (69, async_method (addPeer E G)), (76, async_method (setEntry E G)),
      (83, async_method (catalog_update E)), (90, async_method (catalog_add E)), (99, \<lambda>p. async_method (upload E (np_files p)) p),
      (104, async_method (data_download E)), (115, async_method (searchAll E)), (125, async_method (searchFirst E)),
      (134, async_method (naming_resolve E)), (140, async_method (naming_tag E))]"

text \<open>The page after its start, and after any events and any changes of its state that leave the
  document as it is.\<close>

inductive node_run :: "env \<Rightarrow> gui_platform \<Rightarrow> (string \<Rightarrow> unit outcome) \<Rightarrow> node_page \<Rightarrow> node_page app \<Rightarrow> bool"
  for E :: env and G :: gui_platform and X :: "string \<Rightarrow> unit outcome" and p :: node_page where
  run_main: "node_main E G X p = (r, s) \<Longrightarrow> node_run E G X p s"
| run_event: "node_run E G X p s \<Longrightarrow> app_event defaultSchema at n t s = (r, s') \<Longrightarrow> node_run E G X p s'"
| run_change: "node_run E G X p (ob, w) \<Longrightarrow> pg_dom q = pg_dom (lw_page w) \<Longrightarrow> node_run E G X p (ob, w\<lparr>lw_page := q\<rparr>)"

definition node_ok :: "env \<Rightarrow> gui_platform \<Rightarrow> (string \<Rightarrow> unit outcome) \<Rightarrow> node_page app \<Rightarrow> bool" where
  "node_ok E G X s \<longleftrightarrow> (case s of (ob, w) \<Rightarrow> app_ok True defaultSchema (map_of (rev (main_defs E G X))) (ob, w) \<and> doc_of w = node_dom \<and>
     d_started (lw_dispatcher w) \<and> view ob = wanted node_dom 0 (controllerAttribute defaultSchema))"

lemma node_start_ok:
  assumes "pg_dom p = node_dom"
  shows "\<exists>s. node_main E G X p = ((Inr (), Inr ()), s) \<and> node_ok E G X s \<and>
    lw_page (snd s) = run_controllers (map_of (rev (main_defs E G X))) node_scope_list (p\<lparr>np_coll := np_coll p @ headers_of\<rparr>)"
proof -
  let ?p = "p\<lparr>np_coll := np_coll p @ headers_of\<rparr>" and ?d = "main_defs E G X"
  have wf: "dom_wf (pg_dom ?p)" "0 \<in> dom_elems (pg_dom ?p)" using assms node_wf by simp_all
  obtain ob w where s: "start_page E defaultSchema ?d 0 ?p = (Inr (), ob, w)" "app_ok True defaultSchema (map_of (rev ?d)) (ob, w)"
    "doc_of w = pg_dom ?p" "view ob = wanted (pg_dom ?p) 0 (controllerAttribute defaultSchema)"
    using start_page_run [OF main_calm wf] by blast
  have "d_started (lw_dispatcher w)" using start_page_on [OF main_calm, of E defaultSchema E G X 0 ?p] s(1) by simp
  then have "node_ok E G X (ob, w)" using s assms by (simp add: node_ok_def)
  moreover have "lw_page w = run_controllers (map_of (rev ?d)) node_scope_list ?p"
    using start_page_order [OF main_calm [of E G X] wf, of E defaultSchema] s(1) assms node_declared(1) by simp
  ultimately show ?thesis using node_main_start [OF assms, of E G X] s(1) by simp
qed

lemma node_run_ok:
  assumes "node_run E G X p s" "pg_dom p = node_dom" shows "node_ok E G X s"
  using assms
proof (induction rule: node_run.induct)
  case (run_main r s)
  then show ?case using node_start_ok [of p E G X] by auto
next
  case (run_event s at n t r s')
  obtain ob w where s: "s = (ob, w)" by (cases s)
  have ok: "app_ok True defaultSchema (map_of (rev (main_defs E G X))) (ob, w)" "doc_of w = node_dom" "d_started (lw_dispatcher w)"
    "view ob = wanted node_dom 0 (controllerAttribute defaultSchema)" using run_event.IH run_event.prems s by (simp_all add: node_ok_def)
  have T: "True \<longrightarrow> True \<and> (\<forall>i cd. map_of (rev (main_defs E G X)) i = Some cd \<longrightarrow> calm_methods cd)" using main_calm_methods by blast
  obtain ob' w' where s': "s' = (ob', w')" by (cases s')
  have run: "app_event defaultSchema at n t (ob, w) = (r, ob', w')" using run_event.hyps(2) s s' by simp
  show ?case using event_app_ok [OF ok(1) T, of at n t] event_on [OF ok(3), of defaultSchema at n t ob] ok
    unfolding run s' by (auto simp: node_ok_def)
next
  case (run_change ob w q)
  then have ok: "node_ok E G X (ob, w)" by blast
  then have a: "app_ok True defaultSchema (map_of (rev (main_defs E G X))) (ob, w)" by (simp add: node_ok_def)
  have "app_ok True defaultSchema (map_of (rev (main_defs E G X))) (ob, w\<lparr>lw_page := q\<rparr>)"
    using app_ok_disp [OF a] run_change.hyps(2) by (intro app_ok_world [OF a]) (simp_all add: doc_of_def)
  then show ?case using ok run_change.hyps(2) by (simp add: node_ok_def doc_of_def)
qed

lemma node_controllers_running:
  assumes "node_ok E G X s"
  shows "getControllerForElementAndIdentifier e i s = Some sc \<longleftrightarrow> sc = \<lparr>sc_element = e, sc_identifier = i\<rparr> \<and> (e, i) \<in> set node_controllers"
proof -
  obtain ob w where s: "s = (ob, w)" by (cases s)
  have ok: "app_ok True defaultSchema (map_of (rev (main_defs E G X))) (ob, w)" "doc_of w = node_dom"
    "view ob = wanted (doc_of w) 0 (controllerAttribute defaultSchema)" using assms by (simp_all add: s node_ok_def)
  have "(e, i) \<in> set node_controllers \<Longrightarrow> i \<in> snd ` set node_controllers" by force
  then show ?thesis using started_bindings(1) [OF ok(1) _ _ ok(3)] main_registered [of E G X i] unfolding ok(2) s
    by (auto simp: node_wf node_declared(3))
qed

lemma node_declared_bindings:
  "(sc_element sc, sc_identifier sc) \<in> set node_controllers \<and> declares_action defaultSchema node_dom sc a \<longleftrightarrow>
     (\<exists>e i c m. (e, i, c, m) \<in> set node_buttons \<and> sc = \<lparr>sc_element = c, sc_identifier = i\<rparr> \<and> a = click_action e i m)"
proof -
  have one: "distinct (map snd node_controllers)" by code_simp
  have da: "declares_action defaultSchema node_dom sc a \<longleftrightarrow> (\<exists>e i c m. (e, i, c, m) \<in> set node_buttons \<and> a = click_action e i m) \<and>
      act_identifier a = sc_identifier sc \<and> act_element a \<in> set (dom_below node_dom (sc_element sc))"
    unfolding node_dom_def actions_table_iff node_actions by (force simp: image_iff)
  show ?thesis
  proof
    assume l: "(sc_element sc, sc_identifier sc) \<in> set node_controllers \<and> declares_action defaultSchema node_dom sc a"
    then obtain e i c m where b: "(e, i, c, m) \<in> set node_buttons" "a = click_action e i m" "i = sc_identifier sc"
      unfolding da by (auto simp: click_action_def)
    have "(c, i) \<in> set node_controllers" using node_button_in [OF b(1)] by blast
    then have "c = sc_element sc" using l b(3) one unfolding distinct_map inj_on_def by (metis prod.sel)
    then show "\<exists>e i c m. (e, i, c, m) \<in> set node_buttons \<and> sc = \<lparr>sc_element = c, sc_identifier = i\<rparr> \<and> a = click_action e i m"
      using b by (cases sc) auto
  next
    assume "\<exists>e i c m. (e, i, c, m) \<in> set node_buttons \<and> sc = \<lparr>sc_element = c, sc_identifier = i\<rparr> \<and> a = click_action e i m"
    then show "(sc_element sc, sc_identifier sc) \<in> set node_controllers \<and> declares_action defaultSchema node_dom sc a"
      unfolding da using node_button_in by (fastforce simp: click_action_def)
  qed
qed

lemma node_bound:
  assumes "node_ok E G X (ob, w)"
  shows "(\<exists>u. \<lparr>b_uid = u, b_scope = sc, b_action = a\<rparr> \<in> bound (lw_dispatcher w)) \<longleftrightarrow>
      (\<exists>e i c m. (e, i, c, m) \<in> set node_buttons \<and> sc = \<lparr>sc_element = c, sc_identifier = i\<rparr> \<and> a = click_action e i m)"
    and "\<lparr>b_uid = u, b_scope = sc, b_action = a\<rparr> \<in> bound (lw_dispatcher w) \<Longrightarrow>
      \<lparr>b_uid = u', b_scope = sc, b_action = a\<rparr> \<in> bound (lw_dispatcher w) \<Longrightarrow> u = u'"
proof -
  have ok: "app_ok True defaultSchema (map_of (rev (main_defs E G X))) (ob, w)" "doc_of w = node_dom"
    "view ob = wanted (doc_of w) 0 (controllerAttribute defaultSchema)" using assms by (simp_all add: node_ok_def)
  have wf: "dom_wf (doc_of w)" "0 \<in> dom_elems (doc_of w)" by (simp_all add: ok(2) node_wf)
  show "\<lparr>b_uid = u, b_scope = sc, b_action = a\<rparr> \<in> bound (lw_dispatcher w) \<Longrightarrow>
      \<lparr>b_uid = u', b_scope = sc, b_action = a\<rparr> \<in> bound (lw_dispatcher w) \<Longrightarrow> u = u'"
    by (rule started_bindings(3) [OF ok(1) wf ok(3)])
  show "(\<exists>u. \<lparr>b_uid = u, b_scope = sc, b_action = a\<rparr> \<in> bound (lw_dispatcher w)) \<longleftrightarrow>
      (\<exists>e i c m. (e, i, c, m) \<in> set node_buttons \<and> sc = \<lparr>sc_element = c, sc_identifier = i\<rparr> \<and> a = click_action e i m)"
    unfolding started_bindings(2) [OF ok(1) wf ok(3)] unfolding ok(2) node_declared(3) main_registered node_declared_bindings [symmetric]
    by (force simp: image_iff)
qed

definition as_method :: "(node_page, unit) js \<Rightarrow> event_target \<Rightarrow> (node_page \<times> bool, unit) js" where
  "as_method m = (\<lambda>t (p, b). case m p of (r, p') \<Rightarrow> (r, p', b))"

lemma node_handlers:
  "list_all (\<lambda>(e, i, c, m). map_of (button_handlers E G) e \<noteq> None \<and>
     (case map_of (rev (main_defs E G X)) i of
        None \<Rightarrow> False | Some cd \<Rightarrow> cd_method cd sc m = map_option as_method (map_of (button_handlers E G) e))) node_buttons"
  by (simp add: node_buttons_def main_defs_def button_handlers_def controller_code_def as_method_def)

lemma node_handler:
  assumes "(e, i, c, m) \<in> set node_buttons"
  obtains cd h where "map_of (rev (main_defs E G X)) i = Some cd" "map_of (button_handlers E G) e = Some h" "cd_method cd sc m = Some (as_method h)"
  using assms node_handlers [where E = E and G = G and X = X and sc = sc] by (auto simp: list_all_iff split: option.split_asm)

lemma node_invokes:
  assumes ok: "node_ok E G X (ob, w)" and b: "(e, i, c, m) \<in> set node_buttons"
    and h: "map_of (button_handlers E G) e = Some h"
  shows "handle_bindings defaultSchema (app_methods (vl_delegate ob)) t
      [\<lparr>b_uid = u, b_scope = \<lparr>sc_element = c, sc_identifier = i\<rparr>, b_action = click_action e i m\<rparr>] (w\<lparr>lw_stopped := Some False\<rparr>) =
    (Inr (), w\<lparr>lw_page := snd (h (lw_page w)), lw_stopped := Some False\<rparr>)"
proof -
  let ?sc = "\<lparr>sc_element = c, sc_identifier = i\<rparr>"
  let ?b = "\<lparr>b_uid = u, b_scope = ?sc, b_action = click_action e i m\<rparr>"
  note bi = node_button_in [OF b]
  have d: "doc_of w = node_dom" and a: "app_ok True defaultSchema (map_of (rev (main_defs E G X))) (ob, w)" using ok by (simp_all add: node_ok_def)
  have "willBeInvokedByEvent defaultSchema node_dom ?b t"
    using node_contains [of c i e] node_contains [of c i] bi dom_contains_below [OF node_wf(1)]
    by (auto simp: willBeInvokedByEvent_def click_action_def split: event_target.split)
  moreover obtain cd where cd: "map_of (rev (main_defs E G X)) i = Some cd" "cd_method cd ?sc m = Some (as_method h)"
    using node_handler [OF b, where E = E and G = G and X = X and sc = ?sc] h by auto
  have "codes (vl_delegate ob) = map_of (rev (main_defs E G X))" using app_ok_router [OF a] by blast
  then have "app_methods (vl_delegate ob) ?sc m = Some (as_method h)" using cd by (simp add: app_methods_codes)
  moreover have "h p = (Inr (), snd (h p))" for p
    using map_of_SomeD [OF h] by (auto simp: button_handlers_def async_run)
  then obtain q where "h (lw_page w) = (Inr (), q)" by metis
  ultimately show ?thesis using d
    by (simp add: jbind_run jseq_run binding_handleEvent_def invokeWithEvent_def binding_method_def click_action_def doc_of_def
        try_catch_def on_event_def as_method_def)
qed

definition click_effect :: "env \<Rightarrow> gui_platform \<Rightarrow> event_target \<Rightarrow> string \<Rightarrow> node_page \<Rightarrow> node_page" where
  "click_effect E G at n p =
     (case at of
        TElem e \<Rightarrow> (if n = ''click'' then (case map_of (button_handlers E G) e of Some h \<Rightarrow> snd (h p) | None \<Rightarrow> p) else p)
      | _ \<Rightarrow> p)"

lemma click_effect_button:
  "(e, i, c, m) \<in> set node_buttons \<Longrightarrow> \<exists>h. map_of (button_handlers E G) e = Some h \<and> click_effect E G (TElem e) ''click'' p = snd (h p)"
  using node_handlers [of E G] by (fastforce simp: click_effect_def list_all_iff)

lemma click_effect_none:
  assumes "\<not> (\<exists>e i c m. (e, i, c, m) \<in> set node_buttons \<and> at = TElem e \<and> n = ''click'')"
  shows "click_effect E G at n p = p"
proof -
  have "map fst (button_handlers E G) = map fst node_buttons" by (simp add: button_handlers_def node_buttons_def)
  then have "e \<in> fst ` set (button_handlers E G) \<longleftrightarrow> e \<in> fst ` set node_buttons" for e by (metis list.set_map)
  then have "map_of (button_handlers E G) e = None" if "\<not> (\<exists>i c m. (e, i, c, m) \<in> set node_buttons)" for e
    using that by (fastforce simp: map_of_eq_None_iff)
  then show ?thesis using assms by (auto simp: click_effect_def split: event_target.split)
qed

lemma distinct_one: "distinct xs \<Longrightarrow> set xs = {x} \<Longrightarrow> xs = [x]"
  by (cases xs) (auto simp: subset_singleton_iff)

lemma node_event_run:
  assumes ok: "node_ok E G X (ob, w)"
  shows "\<exists>w'. app_event defaultSchema at n t (ob, w) = (Inr (), ob, w') \<and> lw_errors w' = lw_errors w \<and>
    lw_page w' = click_effect E G at n (lw_page w)"
proof -
  let ?S = defaultSchema and ?B = "bound (lw_dispatcher w)"
  have a: "app_ok True ?S (map_of (rev (main_defs E G X))) (ob, w)" "doc_of w = node_dom" "d_started (lw_dispatcher w)"
    using ok by (simp_all add: node_ok_def)
  obtain bs D st where bs: "distinct bs" "set bs = {b \<in> ?B. b_target b = at \<and> act_eventName (b_action b) = n}"
    "app_event ?S at n t (ob, w) = (Inr (), ob,
      (snd (handle_bindings ?S (app_methods (vl_delegate ob)) t bs (w\<lparr>lw_stopped := Some False\<rparr>)))\<lparr>lw_dispatcher := D, lw_stopped := st\<rparr>)"
    using app_event_run [OF app_ok_disp [OF a(1)] a(3) app_ok_plain [OF a(1)], of at n ?S t ob] node_plain a(2) by auto
  have all: "\<exists>e i c m. (e, i, c, m) \<in> set node_buttons \<and> b_scope b = \<lparr>sc_element = c, sc_identifier = i\<rparr> \<and> b_action b = click_action e i m"
    if "b \<in> ?B" for b using that node_bound(1) [OF ok, of "b_scope b" "b_action b"] by (metis binding.surjective old.unit.exhaust)
  show ?thesis
  proof (cases "\<exists>e i c m. (e, i, c, m) \<in> set node_buttons \<and> at = TElem e \<and> n = ''click''")
    case True
    then obtain e i c m where b: "(e, i, c, m) \<in> set node_buttons" "at = TElem e" "n = ''click''" by blast
    let ?sc = "\<lparr>sc_element = c, sc_identifier = i\<rparr>"
    obtain u where u: "\<lparr>b_uid = u, b_scope = ?sc, b_action = click_action e i m\<rparr> \<in> ?B" (is "?b \<in> _")
      using node_bound(1) [OF ok, of ?sc "click_action e i m"] b(1) by blast
    have one: "distinct (map fst node_buttons)" by code_simp
    have "b' = ?b" if "b' \<in> set bs" for b'
    proof -
      have b': "b' \<in> ?B" "b_target b' = TElem e" using that bs(2) b(2) by auto
      then obtain e' i' c' m' where x: "(e', i', c', m') \<in> set node_buttons" "b_scope b' = \<lparr>sc_element = c', sc_identifier = i'\<rparr>"
        "b_action b' = click_action e' i' m'" using all by blast
      have "e' = e" using x(3) b'(2) by (simp add: b_target_def click_action_def)
      then have "(i', c', m') = (i, c, m)" using x(1) b(1) one eq_key_imp_eq_value by metis
      then have "b_scope b' = ?sc" "b_action b' = click_action e i m" using x \<open>e' = e\<close> by simp_all
      then show ?thesis using node_bound(2) [OF ok, of "b_uid b'" ?sc "click_action e i m" u] u b'(1)
        by (metis binding.surjective old.unit.exhaust)
    qed
    moreover have "?b \<in> set bs" using u bs(2) b by (simp add: b_target_def click_action_def)
    ultimately have "set bs = {?b}" by blast
    then have "bs = [?b]" by (rule distinct_one [OF bs(1)])
    moreover obtain h where h: "map_of (button_handlers E G) e = Some h" "click_effect E G at n (lw_page w) = snd (h (lw_page w))"
      using click_effect_button [OF b(1)] b(2,3) by blast
    ultimately show ?thesis using bs(3) node_invokes [OF ok b(1) h(1)] by simp
  next
    case False
    have "set bs = {}" using all False unfolding bs(2) by (fastforce simp: b_target_def click_action_def)
    then show ?thesis using bs(3) click_effect_none [OF False] by simp
  qed
qed

section \<open>Targets\<close>

text \<open>The targets of the document: by controller, the elements and their names.\<close>

definition node_targets :: "(elt \<times> string \<times> (elt \<times> string) list) list" where
  "node_targets =
     [(6, ''flash'', [(7, ''wrapper'')]),
      (10, ''peerInfo'', [(14, ''peerAddr''), (17, ''socketAddr'')]),
      (18, ''messaging'', [(20, ''holder''), (21, ''messages'')]),
      (22, ''unicast'', [(27, ''message''), (29, ''destination'')]),
      (33, ''broadcast'', [(39, ''chatMessage''), (46, ''privateMessage''), (48, ''privateRecipients'')]),
      (52, ''routing'', [(60, ''table''), (62, ''graphviz''), (68, ''peer''), (74, ''origin''), (75, ''relay'')]),
      (79, ''catalog'', [(82, ''content''), (88, ''key''), (89, ''value'')]),
      (93, ''dataSharing'', [(97, ''uploadResult''), (98, ''fileUpload''), (103, ''downloadMetahash'')]),
      (107, ''search'', [(111, ''searchAllResult''), (112, ''searchAllPattern''), (113, ''searchAllBudget''), (114, ''searchAllTimeout''),
         (119, ''searchFirstResult''), (120, ''searchFirstPattern''), (121, ''searchFirstInitialBudget''), (122, ''searchFirstFactor''),
         (123, ''searchFirstRetry''), (124, ''searchFirstTimeout'')]),
      (128, ''naming'', [(132, ''resolveResult''), (133, ''resolveFilename''), (138, ''tagFilename''), (139, ''tagMetahash'')]),
      (143, ''packets'', [(146, ''follow''), (149, ''holder''), (150, ''scroll''), (151, ''packets'')])]"

lemma node_target_attrs:
  "attr_table ''data-flash-target'' node_html = [(7, ''wrapper'')]"
  "attr_table ''data-peerinfo-target'' node_html = [(14, ''peerAddr''), (17, ''socketAddr'')]"
  "attr_table ''data-messaging-target'' node_html = [(20, ''holder''), (21, ''messages'')]"
  "attr_table ''data-unicast-target'' node_html = [(27, ''message''), (29, ''destination'')]"
  "attr_table ''data-broadcast-target'' node_html = [(39, ''chatMessage''), (46, ''privateMessage''), (48, ''privateRecipients'')]"
  "attr_table ''data-routing-target'' node_html = [(60, ''table''), (62, ''graphviz''), (68, ''peer''), (74, ''origin''), (75, ''relay'')]"
  "attr_table ''data-catalog-target'' node_html = [(82, ''content''), (88, ''key''), (89, ''value'')]"
  "attr_table ''data-datasharing-target'' node_html = [(97, ''uploadResult''), (98, ''fileUpload''), (103, ''downloadMetahash'')]"
  "attr_table ''data-search-target'' node_html = [(111, ''searchAllResult''), (112, ''searchAllPattern''), (113, ''searchAllBudget''), (114, ''searchAllTimeout''), (119, ''searchFirstResult''), (120, ''searchFirstPattern''), (121, ''searchFirstInitialBudget''), (122, ''searchFirstFactor''), (123, ''searchFirstRetry''), (124, ''searchFirstTimeout'')]"
  "attr_table ''data-naming-target'' node_html = [(132, ''resolveResult''), (133, ''resolveFilename''), (138, ''tagFilename''), (139, ''tagMetahash'')]"
  "attr_table ''data-packets-target'' node_html = [(146, ''follow''), (149, ''holder''), (150, ''scroll''), (151, ''packets'')]"
  by code_simp+

lemma node_target_names: "map (\<lambda>(c, i, ts). ascii_lower (''data-'' @ i @ ''-target'')) node_targets =
  map (\<lambda>i. ''data-'' @ i @ ''-target'') [''flash'', ''peerinfo'', ''messaging'', ''unicast'', ''broadcast'', ''routing'', ''catalog'', ''datasharing'', ''search'', ''naming'', ''packets'']"
  by code_simp

lemma node_target_tables:
  "list_all (\<lambda>(c, i, ts). attr_table (ascii_lower (''data-'' @ i @ ''-target'')) node_html = ts) node_targets"
  using node_target_names by (simp add: node_targets_def node_target_attrs)

lemma node_target_facts:
  "list_all (\<lambda>(c, i, ts). (c, i) \<in> set node_controllers \<and> distinct (map fst ts) \<and> distinct (map snd ts) \<and>
     list_all (\<lambda>(e, n). words_on html_space [] n = [n]) ts) node_targets"
  by code_simp

lemma node_target_below: "(c, i, ts) \<in> set node_targets \<Longrightarrow> (e, n) \<in> set ts \<Longrightarrow> e \<in> set (dom_below node_dom c)"
proof -
  have r: "map (dom_below node_dom) [6, 10, 18, 22, 33, 52, 79, 93, 107, 128, 143] =
      [[6 ..< 8], [10 ..< 18], [18 ..< 22], [22 ..< 33], [33 ..< 52], [52 ..< 79], [79 ..< 93], [93 ..< 107], [107 ..< 128], [128 ..< 143], [143 ..< 152]]"
    using node_regions by (simp add: node_controllers_def)
  show "(c, i, ts) \<in> set node_targets \<Longrightarrow> (e, n) \<in> set ts \<Longrightarrow> e \<in> set (dom_below node_dom c)"
    unfolding node_targets_def using r by auto
qed

lemma node_target_find:
  assumes t: "(c, i, ts) \<in> set node_targets" and e: "(e, n) \<in> set ts"
  shows "findAllTargets defaultSchema node_dom \<lparr>sc_element = c, sc_identifier = i\<rparr> n = [e]"
proof -
  let ?sc = "\<lparr>sc_element = c, sc_identifier = i\<rparr>" let ?q = "getSelectorForTargetName ?sc n"
  have tab: "attr_table (ascii_lower (''data-'' @ i @ ''-target'')) node_html = ts" using t node_target_tables by (auto simp: list_all_iff)
  have f: "(c, i) \<in> set node_controllers" "distinct (map_keys ts)" "distinct (map snd ts)" "\<And>x v. (x, v) \<in> set ts \<Longrightarrow> words_on html_space [] v = [v]"
    using t node_target_facts by (auto simp: list_all_iff)
  have m: "sel_matches node_dom ?q x \<longleftrightarrow> x = e" for x
  proof -
    have "getAttribute node_dom x (''data-'' @ i @ ''-target'') = map_get ts x" unfolding node_attribute tab ..
    then have "sel_matches node_dom ?q x \<longleftrightarrow> (\<exists>v. (x, v) \<in> set ts \<and> n \<in> set (words_on html_space [] v))"
      using in_map_iff [OF f(2), of x]
      by (auto simp: getSelectorForTargetName_def attributeValueContainsToken_def split: option.split)
    also have "\<dots> \<longleftrightarrow> (x, n) \<in> set ts" using f(4) by auto
    also have "\<dots> \<longleftrightarrow> x = e" using e f(3) unfolding distinct_map inj_on_def by (metis prod.sel)
    finally show ?thesis .
  qed
  have "scope_ok defaultSchema node_dom ?sc" using node_wf(1) node_controller_selector [OF f(1), of c] by (simp add: scope_ok_def)
  then have "distinct (findAllTargets defaultSchema node_dom ?sc n)" "set (findAllTargets defaultSchema node_dom ?sc n) = {e}"
    using findAllElements_exact [of defaultSchema node_dom ?sc ?q] m node_contains [OF f(1) node_target_below [OF t e]]
    by (auto simp: findAllTargets_def)
  then show ?thesis by (rule distinct_one)
qed

text \<open>The classes' static lists name exactly these targets.\<close>

definition main_classes :: "(string \<times> ctor) list" where
  "main_classes = [(''flash'', Flash), (''peerInfo'', PeerInfo), (''messaging'', Messaging), (''unicast'', Unicast), (''routing'', Routing),
     (''packets'', Packets), (''broadcast'', Broadcast), (''catalog'', Catalog), (''dataSharing'', DataSharing), (''search'', Search), (''naming'', Naming)]"

lemma main_class: "(i, cd) \<in> set (main_defs E G X) \<Longrightarrow> (i, cd_class cd) \<in> set main_classes"
proof -
  have "map (\<lambda>(i, cd). (i, cd_class cd)) (main_defs E G X) = main_classes"
    by (simp add: main_defs_def main_classes_def controller_code_def)
  then have "set main_classes = (\<lambda>(i, cd). (i, cd_class cd)) ` set (main_defs E G X)" by (metis list.set_map)
  then show "(i, cd) \<in> set (main_defs E G X) \<Longrightarrow> (i, cd_class cd) \<in> set main_classes" by force
qed

lemma class_targets:
  "list_all (\<lambda>(i, cls). list_ex (\<lambda>(c, i', ts). i' = i \<and> readInheritableStaticArrayValues own_targets cls = map snd ts) node_targets \<and>
     list_all (\<lambda>n. list_all (\<lambda>m. n \<noteq> ''has'' @ capitalize m) (readInheritableStaticArrayValues own_targets cls) \<and>
       map_get (own_members cls) (n @ ''Target'') = None) (readInheritableStaticArrayValues own_targets cls)) main_classes"
  by code_simp

end
