(* ===== verification/Viz.thy ===== *)
theory Viz
  imports Gui "HOL-Library.Char_ord"
begin

section \<open>Drawing graphs (\<open>gui/web/assets/scripts/viz.js\<close>)\<close>

text \<open>
  The wrapper around the graph layout: \<open>WorkerWrapper\<close>, which hands requests to a worker and
  settles each promise when the answer to its request comes, in whatever order they come;
  \<open>ModuleWrapper\<close>, which calls the renderer itself; the constructor \<open>Viz\<close>, which picks one;
  and the functions that render. The renderer (\<open>viz.lite.render.js\<close>, compiled code), the
  worker and the parser of the browser are parameters. Options are the documented ones.
\<close>

datatype 'r promise = Pending | Resolved 'r | Rejected jserr

definition promise_then :: "'a promise \<Rightarrow> ('a \<Rightarrow> 'b outcome) \<Rightarrow> 'b promise" where
  "promise_then p f =
     (case p of
        Pending \<Rightarrow> Pending
      | Rejected e \<Rightarrow> Rejected e
      | Resolved v \<Rightarrow> (case f v of Inl e \<Rightarrow> Rejected e | Inr u \<Rightarrow> Resolved u))"

record viz_image =
  im_path :: string
  im_width :: jsval
  im_height :: jsval

record viz_options =
  vo_format :: "string option"
  vo_engine :: "string option"
  vo_files :: "(string \<times> string) list option"
  vo_images :: "viz_image list option"
  vo_yInvert :: "bool option"
  vo_nop :: "nat option"

record viz_request =
  vr_format :: string
  vr_engine :: string
  vr_files :: "(string \<times> string) list"
  vr_images :: "viz_image list"
  vr_yInvert :: bool
  vr_nop :: nat

definition no_options :: viz_options where
  "no_options = \<lparr>vo_format = None, vo_engine = None, vo_files = None, vo_images = None, vo_yInvert = None, vo_nop = None\<rparr>"

subsection \<open>\<open>WorkerWrapper\<close>\<close>

text \<open>A listener settles one promise: it is kept as the promise's number. \<open>ww_posted\<close> are the messages
  to the worker.\<close>

record worker_wrapper =
  ww_listeners :: "nat \<Rightarrow> nat option"
  ww_nextId :: nat
  ww_posted :: "(nat \<times> string \<times> viz_request) list"
  ww_promises :: "jsval promise list"

definition newWorkerWrapper :: worker_wrapper where
  "newWorkerWrapper = \<lparr>ww_listeners = Map.empty, ww_nextId = 0, ww_posted = [], ww_promises = []\<rparr>"

definition ww_render :: "string \<Rightarrow> viz_request \<Rightarrow> worker_wrapper \<Rightarrow> nat \<times> worker_wrapper" where
  "ww_render src options st =
     (let i = ww_nextId st; p = length (ww_promises st)
      in (p, st\<lparr>ww_nextId := i + 1, ww_promises := ww_promises st @ [Pending],
                ww_listeners := (ww_listeners st)(i \<mapsto> p),
                ww_posted := ww_posted st @ [(i, src, options)]\<rparr>))"

definition settle :: "nat \<Rightarrow> 'r promise \<Rightarrow> 'r promise list \<Rightarrow> 'r promise list" where
  "settle p v ps = (if p < length ps \<and> ps ! p = Pending then ps[p := v] else ps)"

definition answer :: "jsval \<Rightarrow> jsval \<Rightarrow> jsval promise" where
  "answer error result =
     (if truthy error
      then Rejected (Error (let m = opt_prop error ''message'' in if m = JUndef then [] else to_str m))
      else Resolved result)"

definition ww_message :: "env \<Rightarrow> nat \<Rightarrow> jsval \<Rightarrow> jsval \<Rightarrow> worker_wrapper \<Rightarrow> unit outcome \<times> worker_wrapper" where
  "ww_message E i error result st =
     (case ww_listeners st i of
        None \<Rightarrow> (Inl (TypeError (type_msg E)), st)
      | Some p \<Rightarrow> (Inr (), st\<lparr>ww_promises := settle p (answer error result) (ww_promises st),
                              ww_listeners := (ww_listeners st)(i := None)\<rparr>))"

subsection \<open>\<open>ModuleWrapper\<close> and \<open>Viz\<close>\<close>

definition module_render :: "('i \<Rightarrow> string \<Rightarrow> viz_request \<Rightarrow> string outcome) \<Rightarrow> 'i \<Rightarrow> string \<Rightarrow> viz_request \<Rightarrow> string promise" where
  "module_render render inst src options = (case render inst src options of Inl e \<Rightarrow> Rejected e | Inr s \<Rightarrow> Resolved s)"

datatype ('w, 'm, 'r) wrapper = UrlWorker string | GivenWorker 'w | ModuleWrapper 'm 'r

record ('w, 'm, 'r) viz_args =
  va_workerURL :: "string option"
  va_worker :: "'w option"
  va_Module :: "'m option"
  va_render :: "'r option"

definition newViz :: "('w, 'm, 'r) viz_args \<Rightarrow> 'm option \<Rightarrow> 'r option \<Rightarrow> ('w, 'm, 'r) wrapper outcome" where
  "newViz args Viz_Module Viz_render =
     (case va_workerURL args of
        Some url \<Rightarrow> Inr (UrlWorker url)
      | None \<Rightarrow>
     (case va_worker args of
        Some w \<Rightarrow> Inr (GivenWorker w)
      | None \<Rightarrow>
     (case (va_Module args, va_render args) of
        (Some m, Some r) \<Rightarrow> Inr (ModuleWrapper m r)
      | _ \<Rightarrow>
     (case (Viz_Module, Viz_render) of
        (Some m, Some r) \<Rightarrow> Inr (ModuleWrapper m r)
      | _ \<Rightarrow> Inl (Error (''Must specify workerURL or worker option, Module and render options, '' @
                 ''or include one of full.render.js or lite.render.js after viz.js.''))))))"

subsection \<open>Rendering\<close>

definition quoted :: "string \<Rightarrow> string" where
  "quoted s = [CHR 0x22] @ s @ [CHR 0x22]"

definition image_file :: "viz_image \<Rightarrow> string \<times> string" where
  "image_file im =
     (im_path im,
      ''<?xml version='' @ quoted ''1.0'' @ '' encoding='' @ quoted ''UTF-8'' @ '' standalone='' @ quoted ''no'' @ ''?>'' @ [CHR 0x0A] @
      ''<!DOCTYPE svg PUBLIC '' @ quoted ''-//W3C//DTD SVG 1.1//EN'' @ '' '' @
      quoted ''http://www.w3.org/Graphics/SVG/1.1/DTD/svg11.dtd'' @ ''>'' @ [CHR 0x0A] @
      ''<svg width='' @ quoted (to_str (im_width im)) @ '' height='' @ quoted (to_str (im_height im)) @ ''></svg>'')"

definition or_default :: "'a \<Rightarrow> 'a option \<Rightarrow> 'a" where
  "or_default d v = (case v of None \<Rightarrow> d | Some x \<Rightarrow> x)"

text \<open>The files of the images are pushed to the caller's array, if it gave one: the caller's options
  after the call are the second part.\<close>

definition renderString_request :: "viz_options \<Rightarrow> viz_request \<times> viz_options" where
  "renderString_request opts =
     (let images = or_default [] (vo_images opts);
          files = or_default [] (vo_files opts) @ map image_file images
      in (\<lparr>vr_format = or_default ''svg'' (vo_format opts), vr_engine = or_default ''dot'' (vo_engine opts), vr_files = files,
           vr_images = images, vr_yInvert = or_default False (vo_yInvert opts), vr_nop = or_default 0 (vo_nop opts)\<rparr>,
          opts\<lparr>vo_files := map_option (\<lambda>_. files) (vo_files opts)\<rparr>))"

definition renderString :: "(string \<Rightarrow> viz_request \<Rightarrow> 'p) \<Rightarrow> string \<Rightarrow> viz_options \<Rightarrow> 'p" where
  "renderString wrapper_render src opts = wrapper_render src (fst (renderString_request opts))"

definition viz_renderSVGElement :: "(string \<Rightarrow> viz_request \<Rightarrow> string promise) \<Rightarrow> (string \<Rightarrow> 'el) \<Rightarrow> string \<Rightarrow> viz_options \<Rightarrow> 'el promise" where
  "viz_renderSVGElement wrapper_render parseSVG src opts =
     promise_then (renderString wrapper_render src (opts\<lparr>vo_format := Some ''svg''\<rparr>)) (\<lambda>str. Inr (parseSVG str))"

definition json_format :: "string option \<Rightarrow> string option" where
  "json_format format = (if format \<noteq> Some ''json'' \<or> format \<noteq> Some ''json0'' then Some ''json'' else format)"

definition renderJSONObject :: "env \<Rightarrow> (string \<Rightarrow> viz_request \<Rightarrow> string promise) \<Rightarrow> string \<Rightarrow> viz_options \<Rightarrow> jsval promise" where
  "renderJSONObject E wrapper_render src opts =
     promise_then (renderString wrapper_render src (opts\<lparr>vo_format := json_format (vo_format opts)\<rparr>)) (parse_or_throw E)"

text \<open>What \<open>await\<close> gives for a promise that is settled.\<close>

fun await :: "'a promise \<Rightarrow> 'a outcome option" where
  "await Pending = None"
| "await (Resolved v) = Some (Inr v)"
| "await (Rejected e) = Some (Inl e)"

text \<open>\<open>new Viz()\<close> and \<open>renderSVGElement\<close> as \<open>main.js\<close> uses them: with the module and the renderer that
  \<open>viz.lite.render.js\<close> leaves in \<open>Viz\<close>. \<open>mdl\<close> is what calling the module gives.\<close>

definition viz_svg :: "'i outcome \<Rightarrow> ('i \<Rightarrow> string \<Rightarrow> viz_request \<Rightarrow> string outcome) \<Rightarrow> (string \<Rightarrow> string) \<Rightarrow> string \<Rightarrow> string outcome option" where
  "viz_svg mdl render parseSVG src =
     (case newViz \<lparr>va_workerURL = None, va_worker = (None :: unit option), va_Module = None, va_render = None\<rparr> (Some mdl) (Some render) of
        Inl e \<Rightarrow> Some (Inl e)
      | Inr (ModuleWrapper m r) \<Rightarrow>
          (case m of
             Inl e \<Rightarrow> Some (Inl e)
           | Inr inst \<Rightarrow> await (viz_renderSVGElement (module_render r inst) parseSVG src no_options))
      | Inr (UrlWorker _) \<Rightarrow> None
      | Inr (GivenWorker _) \<Rightarrow> None)"

subsection \<open>The image of an SVG document\<close>

text \<open>\<open>encodeURIComponent\<close> and \<open>btoa\<close>, on the characters strings have here.\<close>

definition utf8_bytes :: "char \<Rightarrow> string" where
  "utf8_bytes c = (let n = of_char c :: nat in if n < 128 then [c] else [char_of (192 + n div 64), char_of (128 + n mod 64)])"

definition uri_plain :: "char \<Rightarrow> bool" where
  "uri_plain c \<longleftrightarrow> char_between 48 57 c \<or> char_between 65 90 c \<or> char_between 97 122 c \<or> c \<in> set [CHR ''-'', CHR ''_'', CHR ''.'', CHR ''!'', CHR ''~'', CHR ''*'', CHR 0x27, CHR ''('', CHR '')'']"

definition hex_upper :: "nat \<Rightarrow> char" where
  "hex_upper d = (if d < 10 then char_of (48 + d) else char_of (55 + d))"

definition percent :: "char \<Rightarrow> string" where
  "percent b = (let n = of_char b :: nat in [CHR ''%'', hex_upper (n div 16), hex_upper (n mod 16)])"

definition encodeURIComponent :: "string \<Rightarrow> string" where
  "encodeURIComponent s = concat (map (\<lambda>c. if uri_plain c then [c] else concat (map percent (utf8_bytes c))) s)"

text \<open>\<open>str.replace(/%([0-9A-F]{2})/g, (match, p1) => String.fromCharCode('0x' + p1))\<close>\<close>

definition hex_upper_value :: "char \<Rightarrow> nat option" where
  "hex_upper_value c =
     (let n = of_char c :: nat in if char_between 48 57 c then Some (n - 48) else if char_between 65 70 c then Some (n - 55) else None)"

fun replace_escapes :: "string \<Rightarrow> string" where
  "replace_escapes (c # a # b # s) =
     (case (c = CHR ''%'', hex_upper_value a, hex_upper_value b) of
        (True, Some x, Some y) \<Rightarrow> char_of (16 * x + y) # replace_escapes s
      | _ \<Rightarrow> c # replace_escapes (a # b # s))"
| "replace_escapes s = s"

definition b64_char :: "nat \<Rightarrow> char" where
  "b64_char n =
     (if n < 26 then char_of (65 + n) else if n < 52 then char_of (71 + n) else if n < 62 then char_of (n - 4)
      else if n = 62 then CHR ''+'' else CHR ''/'')"

fun btoa :: "string \<Rightarrow> string" where
  "btoa [] = []"
| "btoa [a] = (let x = of_char a :: nat in [b64_char (x div 4), b64_char (x mod 4 * 16), CHR ''='', CHR ''=''])"
| "btoa [a, b] =
     (let x = of_char a :: nat; y = of_char b
      in [b64_char (x div 4), b64_char (x mod 4 * 16 + y div 16), b64_char (y mod 16 * 4), CHR ''=''])"
| "btoa (a # b # c # s) =
     (let x = of_char a :: nat; y = of_char b; z = of_char c
      in [b64_char (x div 4), b64_char (x mod 4 * 16 + y div 16), b64_char (y mod 16 * 4 + z div 64), b64_char (z mod 64)] @ btoa s)"

definition b64EncodeUnicode :: "string \<Rightarrow> string" where
  "b64EncodeUnicode str = btoa (replace_escapes (encodeURIComponent str))"

definition svg_source :: "string \<Rightarrow> string" where
  "svg_source svgXml = ''data:image/svg+xml;base64,'' @ b64EncodeUnicode svgXml"

subsection \<open>Images\<close>

text \<open>What the browser and, if it is there, \<open>fabric\<close> do: \<open>load_image\<close> is the size of the image at an address,
  or the error of the event; \<open>canvas_blob\<close> is the address of the blob of a canvas of the given size with
  the image drawn over it, none when the browser makes no blob; \<open>fabric_load\<close> are the objects in a text with
  the size of the drawing, and \<open>fabric_url\<close> the address of their rendering.\<close>

record 'o viz_browser =
  devicePixelRatio :: "jsnum option"
  load_image :: "string \<Rightarrow> jserr option + jsnum \<times> jsnum"
  canvas_blob :: "string \<Rightarrow> jsnum \<Rightarrow> jsnum \<Rightarrow> string \<Rightarrow> jsnum \<Rightarrow> string option"
  fabric_load :: "(string \<Rightarrow> 'o list \<times> jsnum \<times> jsnum) option"
  fabric_url :: "'o list \<Rightarrow> jsnum \<Rightarrow> jsnum \<Rightarrow> string option \<Rightarrow> jsnum \<Rightarrow> jsnum \<Rightarrow> string"

record image_options =
  io_scale :: "jsnum option"
  io_mimeType :: "string option"
  io_quality :: "jsnum option"

record image_element =
  ie_src :: string
  ie_width :: jsnum
  ie_height :: jsnum

fun num_times :: "jsnum \<Rightarrow> jsnum \<Rightarrow> jsnum" where
  "num_times (Dec m e) (Dec m' e') = norm_dec (m * m') (e + e')"
| "num_times (Inf a) (Inf b) = Inf (a \<noteq> b)"
| "num_times (Inf a) (Dec m e) = (if m = 0 then NaN else Inf (a \<noteq> (m < 0)))"
| "num_times (Dec m e) (Inf a) = (if m = 0 then NaN else Inf (a \<noteq> (m < 0)))"
| "num_times _ _ = NaN"

definition defaultScale :: "'o viz_browser \<Rightarrow> jsnum" where
  "defaultScale B = (case devicePixelRatio B of Some r \<Rightarrow> if num_less (Dec 1 0) r then r else Dec 1 0 | None \<Rightarrow> Dec 1 0)"

text \<open>Without a blob the callback throws, outside of the promise's own code: the promise is never settled.\<close>

definition svgXmlToImageElement :: "'o viz_browser \<Rightarrow> string \<Rightarrow> image_options \<Rightarrow> image_element promise" where
  "svgXmlToImageElement B svgXml io =
     (let scale = or_default (defaultScale B) (io_scale io); mimeType = or_default ''image/png'' (io_mimeType io);
          quality = or_default (Dec 1 0) (io_quality io); source = svg_source svgXml
      in case load_image B source of
           Inl None \<Rightarrow> Rejected (Error ''Error loading SVG'')
         | Inl (Some error) \<Rightarrow> Rejected error
         | Inr (width, height) \<Rightarrow>
             (case canvas_blob B source (num_times width scale) (num_times height scale) mimeType quality of
                None \<Rightarrow> Pending
              | Some url \<Rightarrow> Resolved \<lparr>ie_src = url, ie_width = width, ie_height = height\<rparr>))"

text \<open>After the rejection the callback goes on, but the promise is settled.\<close>

definition svgXmlToImageElementFabric :: "'o viz_browser \<Rightarrow> (string \<Rightarrow> 'o list \<times> jsnum \<times> jsnum) \<Rightarrow> string \<Rightarrow> image_options \<Rightarrow> image_element promise" where
  "svgXmlToImageElementFabric B loadSVGFromString svgXml io =
     (let multiplier = or_default (defaultScale B) (io_scale io); mimeType = or_default ''image/png'' (io_mimeType io);
          quality = or_default (Dec 1 0) (io_quality io);
          format = (if mimeType = ''image/jpeg'' then Some ''jpeg'' else if mimeType = ''image/png'' then Some ''png'' else None)
      in case loadSVGFromString svgXml of
           (objects, width, height) \<Rightarrow>
             if objects = [] then Rejected (Error ''Error loading SVG with Fabric'')
             else Resolved \<lparr>ie_src = fabric_url B objects width height format multiplier quality, ie_width = width, ie_height = height\<rparr>)"

definition promise_bind :: "'a promise \<Rightarrow> ('a \<Rightarrow> 'b promise) \<Rightarrow> 'b promise" where
  "promise_bind p f = (case p of Pending \<Rightarrow> Pending | Rejected e \<Rightarrow> Rejected e | Resolved v \<Rightarrow> f v)"

definition renderImageElement ::
  "'o viz_browser \<Rightarrow> (string \<Rightarrow> viz_request \<Rightarrow> string promise) \<Rightarrow> string \<Rightarrow> viz_options \<Rightarrow> image_options \<Rightarrow> image_element promise" where
  "renderImageElement B wrapper_render src opts io =
     promise_bind (renderString wrapper_render src (opts\<lparr>vo_format := Some ''svg''\<rparr>)) (\<lambda>str.
       case fabric_load B of
         Some loadSVGFromString \<Rightarrow> svgXmlToImageElementFabric B loadSVGFromString str io
       | None \<Rightarrow> svgXmlToImageElement B str io)"

section \<open>Requests and answers\<close>

text \<open>A wrapper at work: requests are made, and the worker answers the ones it has not answered yet, in
  any order. The second part are the answers it gave.\<close>

inductive ww_run :: "env \<Rightarrow> worker_wrapper \<Rightarrow> (nat \<rightharpoonup> jsval \<times> jsval) \<Rightarrow> bool" for E :: env where
  ww_new: "ww_run E newWorkerWrapper Map.empty"
| ww_request: "ww_run E st ans \<Longrightarrow> ww_run E (snd (ww_render src options st)) ans"
| ww_answer: "ww_run E st ans \<Longrightarrow> i \<in> fst ` set (ww_posted st) \<Longrightarrow> ans i = None \<Longrightarrow>
    ww_run E (snd (ww_message E i error result st)) (ans(i \<mapsto> (error, result)))"

definition answered :: "(jsval \<times> jsval) option \<Rightarrow> jsval promise" where
  "answered a = (case a of None \<Rightarrow> Pending | Some (error, result) \<Rightarrow> answer error result)"

definition ww_ok :: "worker_wrapper \<Rightarrow> (nat \<rightharpoonup> jsval \<times> jsval) \<Rightarrow> bool" where
  "ww_ok st ans \<longleftrightarrow> map fst (ww_posted st) = [0 ..< ww_nextId st] \<and> ww_promises st = map (\<lambda>i. answered (ans i)) [0 ..< ww_nextId st] \<and>
     (\<forall>i. ww_listeners st i = (if i < ww_nextId st \<and> ans i = None then Some i else None)) \<and> (\<forall>i. ans i \<noteq> None \<longrightarrow> i < ww_nextId st)"

lemma ww_run_ok: "ww_run E st ans \<Longrightarrow> ww_ok st ans"
proof (induction rule: ww_run.induct)
  case ww_new
  then show ?case by (simp add: ww_ok_def newWorkerWrapper_def)
next
  case (ww_request st ans src options)
  then have "ans (ww_nextId st) = None" by (metis less_irrefl ww_ok_def)
  then show ?case using ww_request.IH by (auto simp: ww_ok_def ww_render_def Let_def answered_def intro: less_SucI)
next
  case (ww_answer st ans i error result)
  have "fst ` set (ww_posted st) = {0 ..< ww_nextId st}" using ww_answer.IH by (metis ww_ok_def list.set_map set_upt)
  then have i: "i < ww_nextId st" using ww_answer.hyps(2) by simp
  have l: "ww_listeners st i = Some i" and p: "ww_promises st = map (\<lambda>i. answered (ans i)) [0 ..< ww_nextId st]"
    using ww_answer.IH ww_answer.hyps(3) i by (simp_all add: ww_ok_def)
  have "settle i (answer error result) (ww_promises st) = map (\<lambda>j. answered ((ans(i \<mapsto> (error, result))) j)) [0 ..< ww_nextId st]"
    unfolding p using i ww_answer.hyps(3) by (auto simp: settle_def answered_def intro!: nth_equalityI)
  then show ?case using ww_answer.IH l i by (simp add: ww_ok_def ww_message_def)
qed

section \<open>Escapes\<close>

lemma hex_upper_facts:
  "d < 16 \<Longrightarrow> hex_upper_value (hex_upper d) = Some d \<and> is_hex (hex_upper d) \<and> digit_val (hex_upper d) = Some d"
  by (simp add: hex_upper_def hex_upper_value_def is_hex_def digit_val_def is_digit_def char_between_def of_char_of Let_def)

lemma byte_parts: "(of_char b :: nat) div 16 < 16" "(of_char b :: nat) mod 16 < 16" "char_of (16 * (of_char b div 16) + of_char b mod (16 :: nat)) = b"
proof -
  have "(of_char b :: nat) < 16 * 16" by simp
  then show "(of_char b :: nat) div 16 < 16" by (rule less_mult_imp_div_less)
qed simp_all

lemma hex_pair:
  "hex_upper_value (hex_upper (of_char b div 16)) = Some (of_char b div 16)" "hex_upper_value (hex_upper (of_char b mod 16)) = Some (of_char b mod 16)"
  "hex_byte (hex_upper (of_char b div 16)) (hex_upper (of_char b mod 16)) = Some (of_char b)"
  using hex_upper_facts byte_parts [of b] by (simp_all add: radix_value_def)

lemma replace_plain: "c \<noteq> CHR ''%'' \<Longrightarrow> replace_escapes (c # s) = c # replace_escapes s"
  by (cases s; cases "tl s") auto

lemma replace_percent: "replace_escapes (percent b @ s) = b # replace_escapes s"
  using byte_parts(3) [of b] by (simp add: percent_def Let_def hex_pair)

lemma uri_plain_percent: "uri_plain c \<Longrightarrow> c \<noteq> CHR ''%''"
  by (auto simp: uri_plain_def char_between_def)

lemma replace_encoded: "replace_escapes (encodeURIComponent s) = concat (map utf8_bytes s)"
proof (induction s)
  case (Cons c s)
  have "replace_escapes (concat (map percent bs) @ t) = bs @ replace_escapes t" for bs t
    by (induction bs) (simp_all add: replace_percent)
  moreover have "utf8_bytes c = [c]" if "uri_plain c"
    using that by (auto simp: uri_plain_def utf8_bytes_def char_between_def Let_def)
  ultimately show ?case using Cons uri_plain_percent [of c]
    by (simp add: encodeURIComponent_def replace_plain)
qed (simp add: encodeURIComponent_def)

text \<open>What is escaped is read back.\<close>

lemma decode_encoded: "decodeURIComponent (encodeURIComponent s) = Some s"
proof (induction s)
  case (Cons c s)
  let ?t = "encodeURIComponent s" and ?n = "of_char c :: nat"
  show ?case
  proof (cases "uri_plain c")
    case True
    then show ?thesis using Cons uri_plain_percent [OF True] by (simp add: encodeURIComponent_def)
  next
    case False
    then have enc: "encodeURIComponent (c # s) = concat (map percent (utf8_bytes c)) @ ?t" by (simp add: encodeURIComponent_def)
    show ?thesis
    proof (cases "?n < 128")
      case True
      then show ?thesis using Cons by (simp add: enc utf8_bytes_def Let_def percent_def hex_pair del: hex_byte.simps)
    next
      case big: False
      let ?a = "char_of (192 + ?n div 64) :: char" and ?b = "char_of (128 + ?n mod 64) :: char"
      have n: "?n < 4 * 64" by simp
      then have "?n div 64 < 4" by (rule less_mult_imp_div_less)
      moreover have "2 \<le> ?n div 64" using big by (simp add: div_greater_zero_iff less_eq_div_iff_mult_less_eq)
      ultimately have ab: "of_char ?a = 192 + ?n div 64" "of_char ?b = 128 + ?n mod 64" "192 + ?n div 64 = 194 \<or> 192 + ?n div 64 = 195"
        by (auto simp: of_char_of)
      have "char_of ((192 + ?n div 64 - 192) * 64 + (128 + ?n mod 64 - 128)) = c" by simp
      then show ?thesis using Cons big hex_pair(3) [of ?a] hex_pair(3) [of ?b] ab
        by (simp add: enc utf8_bytes_def Let_def percent_def del: hex_byte.simps)
    qed
  qed
qed (simp add: encodeURIComponent_def)

section \<open>Base 64\<close>

text \<open>The decoder of RFC 4648, for what \<open>btoa\<close> writes.\<close>

definition b64_value :: "char \<Rightarrow> nat option" where
  "b64_value c =
     (let n = of_char c :: nat in
      if char_between 65 90 c then Some (n - 65) else if char_between 97 122 c then Some (n - 71)
      else if char_between 48 57 c then Some (n + 4) else if c = CHR ''+'' then Some 62 else if c = CHR ''/'' then Some 63 else None)"

fun b64_decode :: "string \<Rightarrow> string option" where
  "b64_decode [] = Some []"
| "b64_decode (p # q # r # t # s) =
     (case (b64_value p, b64_value q, b64_value r, b64_value t) of
        (Some a, Some b, Some c, Some d) \<Rightarrow>
          map_option (\<lambda>u. char_of (a * 4 + b div 16) # char_of (b mod 16 * 16 + c div 4) # char_of (c mod 4 * 64 + d) # u) (b64_decode s)
      | (Some a, Some b, Some c, None) \<Rightarrow>
          if t = CHR ''='' \<and> s = [] then Some [char_of (a * 4 + b div 16), char_of (b mod 16 * 16 + c div 4)] else None
      | (Some a, Some b, None, None) \<Rightarrow>
          if r = CHR ''='' \<and> t = CHR ''='' \<and> s = [] then Some [char_of (a * 4 + b div 16)] else None
      | _ \<Rightarrow> None)"
| "b64_decode _ = None"

lemma b64_char_value: "n < 64 \<Longrightarrow> b64_value (b64_char n) = Some n"
  by (auto simp: b64_char_def b64_value_def char_between_def of_char_of Let_def)

lemma b64_pad: "b64_value (CHR ''='') = None"
  by (simp add: b64_value_def char_between_def)

lemma byte_facts: "(of_char a :: nat) div 4 < 64" "(of_char a :: nat) div 16 < 16" "(of_char a :: nat) div 64 < 4"
  "(of_char a :: nat) mod 4 < 4" "(of_char a :: nat) mod 16 < 16" "(of_char a :: nat) mod 64 < 64"
proof -
  show "(of_char a :: nat) div 4 < 64" "(of_char a :: nat) div 16 < 16" "(of_char a :: nat) div 64 < 4"
    by (rule less_mult_imp_div_less, simp)+
qed simp_all

lemma sextets: "(of_char a :: nat) mod 4 * 16 + of_char b div 16 < 64" "(of_char b :: nat) mod 16 * 4 + of_char c div 64 < 64"
  "(of_char a :: nat) mod 4 * 16 < 64" "(of_char b :: nat) mod 16 * 4 < 64"
  using byte_facts [of a] byte_facts [of b] byte_facts [of c] by linarith+

lemma octets:
  "of_char a div 4 * 4 + (of_char a mod 4 * 16 + of_char b div 16) div 16 = (of_char a :: nat)"
  "(of_char a mod 4 * 16 + of_char b div 16) mod 16 * 16 + (of_char b mod 16 * 4 + of_char c div 64) div 4 = (of_char b :: nat)"
  "(of_char b mod 16 * 4 + of_char c div 64) mod 4 * 64 + of_char c mod 64 = (of_char c :: nat)"
  "of_char a div 4 * 4 + of_char a mod 4 * 16 div 16 = (of_char a :: nat)"
  "(of_char a mod 4 * 16 + of_char b div 16) mod 16 * 16 + of_char b mod 16 * 4 div 4 = (of_char b :: nat)"
  using byte_facts [of a] byte_facts [of b] byte_facts [of c] by simp_all

lemma btoa_decode: "b64_decode (btoa s) = Some s"
proof (induction s rule: btoa.induct)
  case (2 a)
  then show ?case using octets(4) [of a] by (simp add: Let_def b64_char_value byte_facts sextets b64_pad)
next
  case (3 a b)
  then show ?case using octets(1) [of a b] octets(5) [of a b] by (simp add: Let_def b64_char_value byte_facts sextets b64_pad)
next
  case (4 a b c s)
  then show ?case using octets(1) [of a b] octets(2) [of a b c] octets(3) [of b c]
    by (simp add: Let_def b64_char_value byte_facts sextets)
qed simp

lemma image_source: "b64_decode (b64EncodeUnicode s) = Some (concat (map utf8_bytes s))"
  by (simp add: b64EncodeUnicode_def replace_encoded btoa_decode)

section \<open>Rendering\<close>

definition svg_request :: viz_request where
  "svg_request = \<lparr>vr_format = ''svg'', vr_engine = ''dot'', vr_files = [], vr_images = [], vr_yInvert = False, vr_nop = 0\<rparr>"

lemma viz_svg_run:
  "viz_svg mdl render parseSVG src = Some (case mdl of
     Inl e \<Rightarrow> Inl e
   | Inr inst \<Rightarrow> (case render inst src svg_request of Inl e \<Rightarrow> Inl e | Inr str \<Rightarrow> Inr (parseSVG str)))"
  by (simp add: viz_svg_def newViz_def viz_renderSVGElement_def renderString_def renderString_request_def no_options_def or_default_def
      module_render_def promise_then_def svg_request_def split: sum.split)

lemma json_format_always: "json_format format = Some ''json''"
  by (simp add: json_format_def)

end
