(* ===== verification/Spec2Isabelle.thy ===== *)
theory Spec2Isabelle
  imports UseTransaction Validation WalletRuns Pages Templates NodePage Viz
begin

text \<open>
  A verification of the browser side of a Namecoin node: the wallet application
  (\<open>src/frontend/src\<close>, Vue) and the page that drives a node (\<open>src/gui/web/node.html\<close> with the scripts
  \<open>main.js\<close>, \<open>stimulus.js\<close> and \<open>viz.js\<close> of \<open>src/gui/web/assets/scripts\<close>). A user of the wallet commits to a domain with a salted hash, reveals it with the
  salt, and updates its address; the wallet signs each transaction with its key, sends it to
  the node over HTTP, and keeps the domains with their salts in the local storage.

  \<^bold>\<open>How the model is built.\<close> A JavaScript computation is a function from a state to an outcome
  (a returned value or a thrown one) and a state, \<open>('s, 'a) js\<close>. Each component extends the
  record \<open>world\<close> of the browser by its own reactive state. An \<open>await\<close> is sequencing: a
  handler runs to its end before the next event, and a call that is not awaited (\<open>jdetach\<close>)
  runs at the point of the call with its exception dropped. What the sources call and do not
  hold is the parameter \<open>E :: env\<close> (and \<open>G :: gui_platform\<close> for the node's page): the server
  behind \<open>fetch\<close>, which may answer from the whole history of requests, the SHA-256 digest and
  random bytes, \<open>canonicalize\<close>, \<open>tweetnacl\<close>, the clock, the storage quota, which may refuse
  any write, the user's answers to dialogs, and the wording of the engine's exceptions. The
  laws assumed of these are few, and each is a hypothesis of the properties that need it:
  \<open>tweetnacl\<close> accepts its own signatures (\<open>nacl_law\<close>), a digest has 32 bytes, and, where
  something is to be stored, the quota allows it.

  \<^bold>\<open>The theories.\<close>
  \<^item> \<open>JsPrelude\<close>: computations, \<open>try\<close>/\<open>catch\<close>/\<open>finally\<close>, and the calculi the component proofs
    use: \<open>keeps\<close> (a part of the state is unchanged), \<open>upholds\<close> and \<open>leads\<close> (invariants), and
    \<open>settles\<close> (no exception), each with a collection of rules.
  \<^item> \<open>JsValue\<close>, \<open>Json\<close>, \<open>JsRegex\<close>, \<open>Browser\<close>: what the sources use of the language and the
    browser. Values, coercions and property access; \<open>JSON.parse\<close> and \<open>JSON.stringify\<close>
    with the round trip (also for the indented text of flat objects); regular expressions
    as a backtracking matcher with its declarative meaning; local storage, clock, network.
  \<^item> \<open>HashUtils\<close>, \<open>Validation\<close>, \<open>Storage\<close>: \<open>utils/hash.js\<close>, \<open>utils/validation.js\<close>,
    \<open>utils/storage.js\<close> with \<open>utils/domainStorage.js\<close>. The locale \<open>item_store\<close> is the contract of
    the storage wrapper; \<open>book_op\<close> says that an operation on the stored domains is an atomic
    operation on a list, \<open>book_op_rows\<close> that it keeps a property of the rows.
  \<^item> \<open>TransactionService\<close>, \<open>CryptoService\<close>, \<open>ApiService\<close>, \<open>WalletService\<close>: the four files of
    \<open>services/\<close>. The locale \<open>api_call\<close> is the contract of a call to the node: one request, an
    \<open>Error\<close> on a bad status, JSON otherwise; all seven calls are instances.
  \<^item> \<open>UseWallet\<close>, \<open>UseTransaction\<close>: the two composables. \<open>wallet_coherent\<close> is the invariant of
    the former; \<open>tx_reach\<close> is the step relation of the latter, \<open>tx_inv\<close> its invariant.
  \<^item> \<open>WalletView\<close>, \<open>WalletInv\<close>, \<open>WalletRuns\<close>: \<open>views/Wallet.vue\<close>. The script, one definition per
    function; the events of the page as the step relation \<open>view_reach\<close> with the invariant
    \<open>view_inv\<close>; the effect of committing, revealing and updating on every branch. A row on
    show is an object shared by the list and the handlers, so rows live in a store
    (\<open>row_store\<close>) and the list holds their addresses.
  \<^item> \<open>Pages\<close>: the router, \<open>Home.vue\<close> and the scripts of \<open>DomainCreator.vue\<close>,
    \<open>TransactionSigner.vue\<close> and \<open>WalletManager.vue\<close>.
  \<^item> \<open>Templates\<close>: the templates of these pages as functions from the state to a tree of
    elements with their controls.
  \<^item> \<open>Gui\<close>: the controllers of the node's page (\<open>main.js\<close>). The locale \<open>checked_form\<close> is the contract of a
    form that checks its inputs; ten handlers are instances.
  \<^item> \<open>StMaps\<close> to \<open>StApp\<close>: the library \<open>stimulus.js\<close>. \<open>StMaps\<close>: multimaps, with the locale \<open>multimap\<close> as
    their contract. \<open>StDom\<close>: what it uses of a document. \<open>StAction\<close>: action descriptors. \<open>StScope\<close>, \<open>StValues\<close>:
    targets, classes, data, typed values, and the properties of a blessed class. \<open>StDispatch\<close>: bindings,
    listeners, dispatcher and delivery of an event. \<open>StObserve\<close>: the four observers; the locale \<open>vl_client\<close> is the
    contract of an observer with its delegate, with an instance for actions and one for scopes.
    \<open>StContext\<close>, \<open>StRouter\<close>: contexts, modules, router, application. \<open>StApp\<close>: traces of operations
    (\<open>app_trace\<close>) with the invariant \<open>app_ok\<close>, and the application against the document it is on.
    The code of a controller is data of the model, and acts on the page.
  \<^item> \<open>StLifecycle\<close>: the order in which a start runs the controllers.
  \<^item> \<open>NodeHtml\<close>, \<open>NodePage\<close>: the document of \<open>node.html\<close>, element by element; the classes of \<open>main.js\<close>, \<open>main\<close>, and
    the page at work, with the step relation \<open>node_run\<close>.
  \<^item> \<open>Viz\<close>: \<open>viz.js\<close>, with the step relation \<open>ww_run\<close> of requests and answers.

  \<^bold>\<open>The properties\<close> follow the examples below. C1, C2: transactions of the composable. C3 to C10:
  the wallet page, from its invariant and its template to each handler's success and failure.
  C11 to C16: an application of \<open>stimulus.js\<close>: what runs and what is bound after any sequence of
  operations, that each of them returns, what a start and an event do, and that the application
  follows the document. C17 to C19: the node's page, from \<open>node.html\<close> over \<open>main\<close> to the method each button
  runs. C20, C21: drawing graphs. C22 to C27: commitments, comparison, identifiers, signatures,
  validation. C28 to C31: the wallet's life cycle and its round trips. C32, C33: storage. C34, C35: the
  API. C36, C37: bounds, and handlers that always return. C38: the forms of the node's page.
  C39, C40: the text of actions and the image of a drawing. The last section has further facts:
  coding, validators, single handlers, and the remaining components.

  \<^bold>\<open>Termination and fuel.\<close> All definitions are total. The only fuel is that of the JSON parser,
  twice the length of the text; \<open>p_value_fuel\<close> shows that more fuel never changes the result. That an
  operation returns, and does not throw, is proved as such (C12, C37).

  \<^bold>\<open>Bounds of the model.\<close> Strings are sequences of Latin-1 characters. Numbers are exact decimals
  with \<open>NaN\<close> and the infinities, without rounding to 53 bits. Objects keep their properties in
  the order of insertion. Bytes are \<open>8 word\<close>, the accumulator of the comparison \<open>32 word\<close>, clock
  values \<open>53 word\<close>. A response body arrives as a whole.

  \<^bold>\<open>Not modelled:\<close> handlers interleaved at their \<open>await\<close>s; console output; styles and scroll
  offsets, and with them \<open>packetsScroll\<close>; what the controllers of the node's page write into the document,
  which is kept in their own state; the bootstrap
  files, which mount an application and have no logic; \<open>viz.lite.render.js\<close>, which is compiled code and
  a parameter of \<open>Viz\<close>, as are the canvas and \<open>fabric\<close>; the node itself, written in Go, which is the server
  \<open>respond E\<close>.
\<close>

section \<open>A platform to run the model on\<close>

text \<open>
  A small concrete platform for the examples: a digest that is the first two
  bytes of its input, signatures that repeat the message, JSON text as canonical form, and a
  server that accepts everything.
\<close>

definition demo_respond :: "request list \<Rightarrow> request \<Rightarrow> fetch_result" where
  "demo_respond hist req =
     (if req_url req = ''http://localhost:8080/namecoin/dns'' then Resp 200 ''OK'' ''[]''
      else Resp 200 ''OK'' (json_text (JObj [(''status'', JStr ''success'')])))"

definition demo_env :: env where
  "demo_env =
     \<lparr>VITE_BACKEND_URL = None,
      respond = demo_respond,
      digest = take 2,
      random_bytes = (\<lambda>i n. replicate n (of_nat i)),
      canonicalize = (\<lambda>v. Inr (Some (json_text v))),
      nacl_keyPair = (\<lambda>i. ([1, of_nat i], [2, of_nat i])),
      nacl_detached = (\<lambda>m sk. Inr m),
      nacl_verify = (\<lambda>m sg pk. Inr (m = sg)),
      now_ms = (\<lambda>i. of_nat i),
      iso_date = (\<lambda>i. ''1970-01-01T00:00:00.000Z''),
      quota_ok = (\<lambda>m k v. True),
      quota_error = JError ''QuotaExceededError'' ''The quota has been exceeded.'',
      syntax_msg = (\<lambda>t. ''Unexpected token''),
      type_msg = ''Cannot read properties of null'',
      confirms = (\<lambda>i. True)\<rparr>"

definition demo_tx_world :: tx_world where
  "demo_tx_world =
     \<lparr>localStorage = Map.empty, sent = [], draws = 0, ticks = 0, asked = 0, alerts = [], downloads = [],
      window_length = Some 0, wallet = no_wallet,
      currentTransaction = None, ut_isProcessing = False, ut_status = ''idle'', ut_error = JNull, txHistory = []\<rparr>"

definition demo_params :: build_params where
  "demo_params =
     \<lparr>b_type = JStr ''T'', b_walletID = JStr ''w'', b_fee = JInt 1, b_payload = JObj [],
      b_pk = JStr ''k'', b_inputs = JUndef, b_outputs = JUndef\<rparr>"

lemma demo_nacl_law: "nacl_law demo_env"
  by (simp add: nacl_law_def demo_env_def)

definition demo_tx :: tx where
  "demo_tx =
     \<lparr>tx_type = JStr ''T'', tx_from = JStr ''w'', tx_amount = JInt 1, tx_payload = JObj [], tx_pk = JStr ''k'',
      tx_inputs = JArr [], tx_outputs = JArr [], tx_id = JStr ''7b22'', tx_hash = JUndef\<rparr>"

lemma demo_prepared: "prepared demo_env demo_params (JObj [(''status'', JStr ''success'')]) = Inr demo_tx"
  by code_simp

lemma demo_hash: "hashTransaction demo_env demo_tx = Inr ''7b22''"
  by code_simp

lemma demo_signature: "generateTransactionSignature demo_env ''7b22'' (JStr k) = Inr ''7b22''"
proof -
  have "hexToBytes ''7b22'' = [0x7b, 0x22]" "bytesToHex [0x7b, 0x22] = ''7b22''" by code_simp+
  then show ?thesis by (simp add: generateTransactionSignature_def demo_env_def)
qed

lemma demo_success:
  "read_detail demo_env (200, ''OK'', json_text (JObj [(''status'', JStr ''success'')])) =
     Inr (JObj [(''status'', JStr ''success'')])"
  by (simp add: parse_or_throw_def JSON_parse_text resp_ok_def del: json_text.simps)

lemma demo_base [simp]: "getBaseURL demo_env = ''http://localhost:8080''"
  by (simp add: getBaseURL_def demo_env_def)

lemma demo_answer [simp]:
  "respond demo_env hist (post_request u b) =
     (if u = ''http://localhost:8080/namecoin/dns'' then Resp 200 ''OK'' ''[]''
      else Resp 200 ''OK'' (json_text (JObj [(''status'', JStr ''success'')])))"
  by (simp add: demo_env_def demo_respond_def post_request_def del: json_text.simps)

lemma demo_canonical [simp]: "canonicalize demo_env v = Inr (Some (json_text v))"
  by (simp add: demo_env_def)

lemma demo_world [simp]:
  "txHistory demo_tx_world = []" "sent demo_tx_world = []" "currentTransaction demo_tx_world = None"
  by (simp_all add: demo_tx_world_def)

lemma demo_created:
  "createTransaction demo_env demo_params demo_tx_world =
     (Inr demo_tx, demo_tx_world\<lparr>currentTransaction := Some demo_tx, sent :=
        [post_request ''http://localhost:8080/namecoin/spendplan''
           (JSON_stringify (JObj [(''from'', JStr ''w''), (''amount'', JInt 1)]))]\<rparr>)"
proof -
  have "b_walletID demo_params = JStr ''w''" "b_fee demo_params = JInt 1" by (simp_all add: demo_params_def)
  then show ?thesis
    by (simp add: createTransaction_run spend_plan.run demo_success demo_prepared demo_tx_world_def
        del: json_text.simps read_detail.simps)
qed

subsection \<open>A wallet page to run\<close>

definition demo_row :: "string \<Rightarrow> jsval" where
  "demo_row status = JObj (fields_put ''status'' (JStr status)
     (spread (pending_row ''ab.cd'' ''00'' ''444f'' ''t'' 0)))"

definition demo_wallet :: wallet_obj where
  "demo_wallet = \<lparr>publicKey = JStr ''0200'', privateKey = JStr ''0100'', wallet_id = Some ''0200''\<rparr>"

definition demo_view :: "string \<Rightarrow> wallet_view" where
  "demo_view status =
     \<lparr>localStorage = [pending_key ''0200'' \<mapsto> json_text (JArr [demo_row status])], sent = [], draws = 0, ticks = 0, asked = 0,
      alerts = [], downloads = [], window_length = Some 0, wallet = demo_wallet,
      isConnected = True, connectionStatus = [], domainName = ''ef.gh'', wv_ttl = JInt 0, wv_isProcessing = False,
      wv_status = [], lastTxId = JNull, wv_domains = [], domainsLoaded = False, myDomains = [0], backendMinerID = JNull,
      row_store = (\<lambda>_. [(''domain'', JStr ''ab.cd''), (''salt'', JStr ''00''), (''commitment'', JStr ''444f''),
        (''status'', JStr status), (''revealIp'', JStr ''1.2.3.4''), (''newIp'', JStr ''1.2.3.4''),
        (''isRevealing'', JBool False), (''isUpdating'', JBool False)]), next_row = 1\<rparr>"

abbreviation demo_start :: wallet_view where
  "demo_start \<equiv> demo_view ''pending''\<lparr>wallet := no_wallet, myDomains := [], next_row := 0\<rparr>"

lemma demo_row_good:
  "row_good demo_env (demo_row ''pending'')" "row_good demo_env (demo_row ''revealed'')"
  "row_ok (demo_row ''pending'')" "row_ok (demo_row ''revealed'')"
  by code_simp+

lemma demo_books:
  assumes "row_ok (demo_row st)" "localStorage s = localStorage (demo_view st)"
  shows "books_good s" "rows s m = (if m = ''0200'' then [demo_row st] else [])"
proof -
  have "book (localStorage s) m = Some (if m = ''0200'' then [demo_row st] else [])" for m
    using assms book_update [of "[demo_row st]" Map.empty "''0200''"]
    by (auto simp: demo_view_def book_empty simp del: json_text.simps)
  then show "books_good s" "rows s m = (if m = ''0200'' then [demo_row st] else [])"
    using assms(1) by (simp_all add: books_good_def book_ok_def rows_def)
qed

lemma demo_start_reach: "view_reach demo_env demo_start"
  using demo_books [OF demo_row_good(3), of demo_start] demo_row_good(1)
  by (intro view_init) (simp add: view_start_def, simp add: demo_view_def)

lemma demo_quota [simp]: "quota_ok demo_env m k v"
  by (simp add: demo_env_def)

lemma join_with_Cons: "join_with sep (x # xs) = x @ (if xs = [] then [] else sep @ join_with sep xs)"
  by (cases xs) simp_all

lemma demo_canonical_hash:
  assumes "tx_type tx = JStr k"
  shows "canonical_hash demo_env (signed_fields tx) = Inr ''7b22''"
proof -
  obtain x where "json_text (signed_fields tx) = CHR ''{'' # CHR 0x22 # x"
    using assms by (simp add: signed_fields_def json_quote_def join_with_Cons)
  then have "take 2 (utf8 (json_text (signed_fields tx))) = [0x7b, 0x22]"
    by (simp add: utf8_def utf8_char_def)
  moreover have "bytesToHex [0x7b, 0x22] = ''7b22''" by code_simp
  ultimately show ?thesis by (simp add: canonical_hash_Inr demo_env_def)
qed

lemma demo_ready:
  "isWalletLoaded (demo_view st)" "walletID (demo_view st) = Some ''0200''" "window_length (demo_view st) = Some 0"
  "enabled Submit (demo_view st)" "row_field (demo_view st) 0 ''revealIp'' = JStr ''1.2.3.4''"
  "row_field (demo_view st) 0 ''newIp'' = JStr ''1.2.3.4''" "row_field (demo_view st) 0 ''domain'' = JStr ''ab.cd''"
  "trim ''1.2.3.4'' = ''1.2.3.4''" "privateKey (wallet (demo_view st)) = JStr ''0100''" "sent (demo_view st) = []"
  by (simp_all add: demo_view_def demo_wallet_def isWalletLoaded_def walletID_def row_field_def)
     (code_simp)

lemma demo_view_inv: "view_inv demo_env (demo_view ''pending'')"
proof -
  let ?s = "demo_view ''pending''"
  have "row_committed demo_env (JObj (row_store ?s 0))" by (simp add: demo_view_def) code_simp
  moreover have "wallet_coherent demo_env ?s"
  proof -
    have "deriveWalletID demo_env (JStr ''0200'') = Inr (Some ''0200'')" by code_simp
    then show ?thesis by (simp add: wallet_coherent_def demo_view_def demo_wallet_def)
  qed
  moreover have "myDomains ?s = [0]" "next_row ?s = 1" "\<not> wv_isProcessing ?s" "idle_except {} ?s"
    by (simp_all add: demo_view_def idle_except_def busy_keys_def)
  ultimately show ?thesis
    using demo_books [OF demo_row_good(3), of ?s] demo_row_good(1)
    by (simp add: view_inv_def rows_inv_def shown_ok_def)
qed

lemma page_tx_parts [simp]:
  "tx_type (page_tx k i p pk) = JStr k" "tx_from (page_tx k i p pk) = JStr i" "tx_amount (page_tx k i p pk) = JInt 1"
  by (simp_all add: page_tx_def buildTransaction_def)

text \<open>Whatever the wallet page sends is accepted.\<close>

lemma demo_send:
  assumes "tx_type tx = JStr k" "privateKey (wallet s) = JStr key"
  defines "c \<equiv> tx\<lparr>tx_inputs := JArr [], tx_outputs := JArr [], tx_id := JStr ''7b22''\<rparr>"
  shows "signed_send demo_env tx msg s =
    (Inr (c, JObj [(''status'', JStr ''success'')]),
     s\<lparr>wv_status := msg, sent := sent s @ [plan_request demo_env (tx_from tx) (tx_amount tx),
        handle_request demo_env (Some (json_text (wire_tx c (JStr ''7b22''))))]\<rparr>)"
proof -
  let ?u = "tx\<lparr>tx_inputs := JArr [], tx_outputs := JArr []\<rparr>"
  have plan: "applySpendPlan demo_env tx s = (Inr ?u, s\<lparr>sent := sent s @ [plan_request demo_env (tx_from tx) (tx_amount tx)]\<rparr>)"
    by (simp add: applySpendPlan_def jbind_run spend_plan.run demo_success plan_request_def js_prop_def
        del: json_text.simps read_detail.simps)
  have c: "computeTransactionID demo_env ?u = Inr c" "hashTransaction demo_env c = Inr ''7b22''"
    using assms(1) by (simp_all add: computeTransactionID_eq hashTransaction_eq demo_canonical_hash c_def)
  show ?thesis
    by (simp add: signed_send_def jbind_run [of "applySpendPlan _ _"] plan jbind_run [of "jlift _"] jbind_run [of "jget _"] c
        assms(2) demo_signature jseq_run set_status_def jbind_run [of "sendTransaction _ _ _"] send_tx.run send_ask_def
        demo_success handle_request_def del: json_text.simps read_detail.simps)
qed

text \<open>A server that refuses everything.\<close>

definition demo_refusal :: string where
  "demo_refusal = ''Domain already exists''"

definition demo_refusing :: env where
  "demo_refusing = demo_env\<lparr>respond := (\<lambda>_ _. Resp 400 ''Bad Request'' (json_text (JObj [(''message'', JStr demo_refusal)])))\<rparr>"

lemma demo_refused:
  "signed_send demo_refusing tx msg s =
     (Inl (Error demo_refusal), s\<lparr>sent := sent s @ [plan_request demo_refusing (tx_from tx) (tx_amount tx)]\<rparr>)"
proof -
  have ok: "json_ok (JObj [(''message'', JStr demo_refusal)])" "demo_refusal \<noteq> []" by (simp_all add: demo_refusal_def)
  have "read_detail demo_refusing (400, ''Bad Request'', json_text (JObj [(''message'', JStr demo_refusal)])) = Inl (Error demo_refusal)"
    by (simp add: resp_ok_def JSON_parse_text [OF ok(1)] js_or_def ok(2) del: json_text.simps)
  then show ?thesis
    by (simp add: signed_send_def applySpendPlan_def jbind_run spend_plan.run plan_request_def demo_refusing_def
        del: json_text.simps read_detail.simps)
qed

subsection \<open>Other pages to run\<close>

definition demo_gui_platform :: gui_platform where
  "demo_gui_platform = \<lparr>location_search = [], hms = (\<lambda>_. ''0:0:0''), renderSVGElement = Inr\<rparr>"

definition demo_gui :: gui where
  "demo_gui =
     \<lparr>localStorage = Map.empty, sent = [], draws = 0, ticks = 0, asked = 0, alerts = [], downloads = [], window_length = Some 0,
      flashes = [],
      controls = (\<lambda>el. if el = ''unicast.message'' then \<lparr>ctl_name = ''message'', ctl_value = ''hi''\<rparr>
                      else \<lparr>ctl_name = ''destination'', ctl_value = []\<rparr>),
      endpoint = Some ''http://localhost:8080'', peerAddr_text = [], socketAddr_text = [], socketAddr = None, messages = [],
      table_rows = [], graphviz = [], packets = [], catalog_html = [], catalog_entries = [], uploadResult = [],
      searchAllResult = [], searchFirstResult = [], resolveResult = []\<rparr>"

definition demo_creator :: domain_creator where
  "demo_creator =
     \<lparr>localStorage = Map.empty, sent = [], draws = 0, ticks = 0, asked = 0, alerts = [], downloads = [], window_length = Some 0,
      wallet = no_wallet, currentTransaction = None, ut_isProcessing = False, ut_status = ''idle'', ut_error = JNull, txHistory = [],
      dc_domainName = ''ab.cd'', dc_salt = ''00'', dc_fee = JInt 1, dc_hashedValue = ''444f'', dc_error = [], dc_emitted = []\<rparr>"

definition demo_home :: home where
  "demo_home =
     \<lparr>localStorage = Map.empty, sent = [], draws = 0, ticks = 0, asked = 0, alerts = [], downloads = [], window_length = Some 0,
      proxyAddr = ''localhost'', home_error = [], pushed = []\<rparr>"

subsection \<open>The node's page to run\<close>

definition demo_page :: node_page where
  "demo_page = \<lparr>pg_dom = node_dom, np_gui = demo_gui, np_files = [], np_source = None, np_coll = [], np_connected = []\<rparr>"

abbreviation demo_defs :: "(string \<times> node_page code) list" where
  "demo_defs \<equiv> main_defs demo_env demo_gui_platform (\<lambda>_. Inr ())"

abbreviation demo_ops :: "node_page app_op list" where
  "demo_ops \<equiv> map (\<lambda>(i, cd). Register i cd) demo_defs @ [Start]"

lemma demo_page_wf: "dom_wf (pg_dom demo_page)" "0 \<in> dom_elems (pg_dom demo_page)"
  by (simp_all add: demo_page_def node_wf)

lemma demo_declared:
  "declares_controller defaultSchema (pg_dom demo_page) 0 10 ''peerInfo''" "declares_controller defaultSchema (pg_dom demo_page) 0 128 ''naming''"
  "declares_action defaultSchema (pg_dom demo_page) \<lparr>sc_element = 128, sc_identifier = ''naming''\<rparr> (click_action 134 ''naming'' ''resolve'')"
proof -
  have "(134, ''naming'', 128, ''resolve'') \<in> set node_buttons" by (simp add: node_buttons_def)
  then show "declares_action defaultSchema (pg_dom demo_page) \<lparr>sc_element = 128, sc_identifier = ''naming''\<rparr> (click_action 134 ''naming'' ''resolve'')"
    using node_declared_bindings [of "\<lparr>sc_element = 128, sc_identifier = ''naming''\<rparr>" "click_action 134 ''naming'' ''resolve''"]
    by (auto simp: demo_page_def)
qed (simp_all add: demo_page_def node_declared(3) node_controllers_def)

lemma demo_page_started:
  "\<exists>ob w. app_trace demo_env defaultSchema (newApplication 0 defaultSchema demo_page) demo_ops (ob, w) \<and>
     d_started (lw_dispatcher w) \<and> plain_names (lw_dispatcher w) \<and>
     getControllerForElementAndIdentifier 10 ''peerInfo'' (ob, w) = Some \<lparr>sc_element = 10, sc_identifier = ''peerInfo''\<rparr>"
proof -
  have doc: "pg_dom demo_page = node_dom" by (simp add: demo_page_def)
  obtain ob w where s: "start_page demo_env defaultSchema demo_defs 0 demo_page = (Inr (), ob, w)"
    "app_ok True defaultSchema (map_of (rev demo_defs)) (ob, w)" "doc_of w = node_dom"
    "view ob = wanted node_dom 0 (controllerAttribute defaultSchema)"
    using start_page_run [OF main_calm demo_page_wf] unfolding doc by blast
  have on: "d_started (lw_dispatcher w)" using start_page_on [OF main_calm, of demo_env defaultSchema demo_env demo_gui_platform "\<lambda>_. Inr ()" 0 demo_page] s(1) by simp
  then have "node_ok demo_env demo_gui_platform (\<lambda>_. Inr ()) (ob, w)" using s by (simp add: node_ok_def)
  from node_controllers_running [OF this, of 10 "''peerInfo''"]
  have "getControllerForElementAndIdentifier 10 ''peerInfo'' (ob, w) = Some \<lparr>sc_element = 10, sc_identifier = ''peerInfo''\<rparr>"
    by (simp add: node_controllers_def)
  then show ?thesis using start_page_trace [OF main_calm s(1)] on app_ok_plain [OF s(2)] node_plain s(3) by auto
qed

section \<open>Properties\<close>



text \<open>
  C2. End to end: when a page creates a transaction and then signs and sends it with a key
  pair \<open>tweetnacl\<close> generated, exactly two requests leave the browser, the spend plan's and
  the transaction's; the latter carries the hash of the transaction's fields as \<open>txId\<close> and a
  signature of that hash that verifies under the public key of the pair.
\<close>

theorem create_sign_send:
  assumes "nacl_law E"
    and "createTransaction E params s = (Inr c, t)"
    and "signAndSend E (JStr (bytesToHex (fst (nacl_keyPair E i)))) t = (Inr r, u)"
  shows "\<exists>h sg body. tx_id c = JStr h \<and> hashTransaction E c = Inr h \<and>
      verifyTransactionSignature E (JStr h) (JStr sg) (JStr (bytesToHex (snd (nacl_keyPair E i)))) \<and>
      canonicalize E (wire_tx c (JStr sg)) = Inr body \<and>
      sent u = sent s @ [plan_request E (b_walletID params) (b_fee params), handle_request E body]"
proof -
  from createTransaction_success [OF assms(2)]
  have c: "identified E c" "currentTransaction t = Some c"
    and t: "sent t = sent s @ [plan_request E (b_walletID params) (b_fee params)]"
    using prepared_identified by blast+
  from signAndSend_success [OF c(2) assms(3)] obtain h sg body where
    h: "hashTransaction E c = Inr h" and
    sg: "generateTransactionSignature E h (JStr (bytesToHex (fst (nacl_keyPair E i)))) = Inr sg" and
    body: "canonicalize E (wire_tx c (JStr sg)) = Inr body" "sent u = sent t @ [handle_request E body]" by blast
  moreover have "tx_id c = JStr h" using c(1) h by (simp add: identified_def)
  ultimately show ?thesis using signed_verifies [OF assms(1) sg] t by auto
qed

theorem create_sign_send_witness:
  "\<exists>u sg body. tx_id demo_tx = JStr ''7b22'' \<and> u = snd (signAndSend demo_env (JStr ''0100'') (snd (createTransaction demo_env demo_params demo_tx_world))) \<and>
     sent u = [plan_request demo_env (JStr ''w'') (JInt 1), handle_request demo_env body] \<and>
     verifyTransactionSignature demo_env (JStr ''7b22'') (JStr sg) (JStr ''0200'')"
proof -
  let ?t = "snd (createTransaction demo_env demo_params demo_tx_world)"
  have keys: "bytesToHex (fst (nacl_keyPair demo_env 0)) = ''0100''" "bytesToHex (snd (nacl_keyPair demo_env 0)) = ''0200''"
    by code_simp+
  obtain r u where "signAndSend demo_env (JStr ''0100'') ?t = (Inr r, u)"
    by (simp add: demo_created signAndSend_run [of _ demo_tx] demo_hash demo_signature send_tx.run send_ask_def
        demo_success Let_def del: json_text.simps read_detail.simps)
  moreover from this have "createTransaction demo_env demo_params demo_tx_world = (Inr demo_tx, ?t)"
    by (simp add: demo_created)
  moreover have "b_walletID demo_params = JStr ''w''" "b_fee demo_params = JInt 1" "tx_id demo_tx = JStr ''7b22''"
    by (simp_all add: demo_params_def demo_tx_def)
  ultimately show ?thesis
    using create_sign_send [OF demo_nacl_law, of demo_params demo_tx_world demo_tx ?t 0 r u] keys by auto
qed

text \<open>
  C3. Whatever a user does on the wallet page, and however the backend and the storage
  behave: every row any wallet has stored is pending or revealed and holds the domain and
  the salt its commitment was made from, so are the rows on show, the wallet's identifier is
  the hash of its public key, and between two events nothing is left marked as in progress.
\<close>

theorem page_safe:
  assumes "view_reach E s"
  shows "list_all (\<lambda>d. row_status_ok d \<and> row_committed E d) (rows s n) \<and>
    list_all (\<lambda>r. row_committed E (JObj (row_store s r)) \<and>
        row_field s r ''isRevealing'' = JBool False \<and> row_field s r ''isUpdating'' = JBool False) (myDomains s) \<and>
    deriveWalletID E (publicKey (wallet s)) = Inr (wallet_id (wallet s)) \<and> \<not> wv_isProcessing s"
proof -
  have inv: "rows_inv E s" "idle_except {} s" "wallet_coherent E s" "\<not> wv_isProcessing s"
    using view_reach_inv [OF assms] by (simp_all add: view_inv_def)
  have "list_all (row_good E) (rows s n)" using inv(1) by (simp add: rows_inv_def)
  moreover have "\<forall>r\<in>set (myDomains s). r < next_row s \<and> row_committed E (JObj (row_store s r))"
    using inv(1) by (simp add: rows_inv_def shown_ok_def)
  ultimately show ?thesis
    using inv idle_rows_on [OF inv(2)] by (auto simp: list_all_iff row_good_def wallet_coherent_def)
qed

theorem page_safe_witness:
  "rows demo_start ''0200'' = [demo_row ''pending''] \<and> row_committed demo_env (demo_row ''pending'') \<and>
   list_all (\<lambda>d. row_status_ok d \<and> row_committed demo_env d) (rows demo_start ''0200'')"
  using page_safe [OF demo_start_reach, of "''0200''"] demo_books(2) [OF demo_row_good(3), of demo_start "''0200''"] by simp

text \<open>
  C4. The wallet page offers exactly what its handlers are written for: in every reachable
  state, a control is rendered and not disabled if and only if the event it raises is one
  the guards of the page allow.
\<close>

theorem live_controls:
  assumes "view_reach E s" and "ctl_of ev = Some c"
  shows "c \<in> set (live (wallet_html s)) \<longleftrightarrow> enabled ev s"
  by (rule live_iff_enabled [OF view_reach_inv [OF assms(1)] assms(2)])

theorem live_controls_witness:
  "CRefresh \<in> set (live (wallet_html demo_start)) \<and> CSubmit \<notin> set (live (wallet_html demo_start))"
  using live_controls [OF demo_start_reach, of Refresh CRefresh] live_controls [OF demo_start_reach, of Submit CSubmit]
  by (simp add: isWalletLoaded_def no_wallet_def)

text \<open>
  C5. An accepted commitment: with room in the storage, the wallet's list grows by one row
  that holds the domain as typed, the fresh salt, and the commitment that was sent, which is
  the hash of that domain and that salt; the form is emptied. Exactly two requests were made,
  and the transaction went out under the hash of its own fields, signed with the wallet's key.
\<close>

theorem commit_end_to_end:
  assumes "books_good s" "enabled Submit s" "walletID s = Some i" "window_length s = Some w"
    and "submit_sent E s i = (Inr (c, resp), t)" "accepted resp"
    and "quota_ok E (localStorage s) (pending_key i) (json_text (JArr (rows s i @ [submit_row E s c])))"
  defines "u \<equiv> snd (handleSubmit E s)"
  shows "rows u i = rows s i @ [submit_row E s c] \<and> row_committed E (submit_row E s c) \<and> domainName u = [] \<and> lastTxId u = tx_id c \<and>
    opt_prop (tx_payload c) ''commitment'' = JStr (submit_hash E s) \<and>
    hashDomainWithSalt E (domainName s) (submit_salt E s) = Inr (submit_hash E s) \<and>
    (\<exists>h sg body. tx_id c = JStr h \<and> hashTransaction E c = Inr h \<and>
       generateTransactionSignature E h (privateKey (wallet s)) = Inr sg \<and> canonicalize E (wire_tx c (JStr sg)) = Inr body \<and>
       sent u = sent s @ [plan_request E (JStr i) (JInt 1), handle_request E body])"
proof -
  note acc = submit_accepted [OF assms(1-7) u_def [THEN meta_eq_to_obj_eq]]
  from signed_send_Inr [OF assms(5) [unfolded submit_sent_def]] obtain inputs outputs h sg body where
    c: "c = submit_tx E s i\<lparr>tx_inputs := inputs, tx_outputs := outputs, tx_id := JStr h\<rparr>" "hashTransaction E c = Inr h"
    and sg: "generateTransactionSignature E h (privateKey (wallet s)) = Inr sg" "canonicalize E (wire_tx c (JStr sg)) = Inr body"
    and t: "sent t = sent s @ [plan_request E (JStr i) (JInt 1), handle_request E body]"
    by (auto simp: submit_parts submit_tx_def page_tx_def buildTransaction_def) (auto simp: submit_started_def)
  have hash: "hashDomainWithSalt E (domainName s) (submit_salt E s) = Inr (submit_hash E s)"
    by (simp add: hashDomainWithSalt_def generateHash_eq submit_hash_def)
  moreover have "row_committed E (submit_row E s c)"
    using hash by (simp add: row_committed_def submit_row_def pending_row_def hashDomainWithSalt_def)
  moreover have "opt_prop (tx_payload c) ''commitment'' = JStr (submit_hash E s)"
    by (simp add: c(1) submit_tx_def page_tx_def buildTransaction_def encodePayload_def)
  moreover have "tx_id c = JStr h" by (simp add: c(1))
  ultimately show ?thesis using acc c(2) sg t by auto
qed

theorem commit_end_to_end_witness:
  "length (rows (snd (handleSubmit demo_env (demo_view ''pending''))) ''0200'') = 2 \<and>
   domainName (snd (handleSubmit demo_env (demo_view ''pending''))) = [] \<and>
   length (sent (snd (handleSubmit demo_env (demo_view ''pending'')))) = 2"
proof -
  let ?s = "demo_view ''pending''"
  note books = demo_books [OF demo_row_good(3), of ?s, OF refl]
  obtain c resp t where answer: "submit_sent demo_env ?s ''0200'' = (Inr (c, resp), t)" "accepted resp"
    by (simp add: submit_sent_def demo_send [of _ "''NameNew''" _ "''0100''"] submit_tx_def submit_parts demo_ready accepted_def)
  from commit_end_to_end [OF books(1) demo_ready(4,2,3) answer demo_quota] show ?thesis
    by (auto simp: books(2) demo_ready(10))
qed

text \<open>
  C6. A commitment that was not accepted, because the request failed or the backend said so,
  leaves the stored lists and the typed domain as they were, and the page idle.
\<close>

theorem commit_refused:
  assumes "enabled Submit s" "walletID s = Some i" "window_length s = Some w"
    and "submit_sent E s i = (r, t)" "case r of Inl e \<Rightarrow> True | Inr (c, resp) \<Rightarrow> \<not> accepted resp"
  shows "localStorage (snd (handleSubmit E s)) = localStorage s \<and> domainName (snd (handleSubmit E s)) = domainName s \<and>
    \<not> wv_isProcessing (snd (handleSubmit E s))"
proof -
  have "keeps (\<lambda>s. (localStorage s, domainName s)) (signed_send E (submit_tx E s i) ''Sending transaction to network...'')"
    by (intro keeps_rules) simp_all
  from keepsD [OF this, of "submit_started s"] have "localStorage t = localStorage s" "domainName t = domainName s"
    using assms(4) by (simp_all add: submit_sent_def submit_parts)
  then show ?thesis
    using submit_refused [OF assms] handleSubmit_not_processing [of s E] assms(1) by simp
qed

theorem commit_refused_witness:
  "domainName (snd (handleSubmit demo_refusing (demo_view ''pending''))) = ''ef.gh''"
proof -
  let ?s = "demo_view ''pending''"
  obtain e t where "submit_sent demo_refusing ?s ''0200'' = (Inl e, t)"
    by (simp add: submit_sent_def demo_refused)
  from commit_refused [OF demo_ready(4,2,3) this] show ?thesis by (simp add: demo_view_def)
qed

text \<open>
  C7. Revealing opens the commitment. In every state with the invariant of the page (every
  reachable one, as \<open>view_reach_inv\<close> shows), what is sent for a row on show carries a domain and a salt that \<open>verifyDomainHash\<close> accepts for the row's
  commitment; when the backend accepts it and the storage has room, the rows of that domain,
  and only they, become revealed with the trimmed address.
\<close>

theorem reveal_end_to_end:
  assumes "view_inv E s" "r \<in> set (myDomains s)"
    and "isWalletLoaded s" "row_field s r ''revealIp'' = JStr ip" "trim ip \<noteq> []" "walletID s = Some i"
    and "reveal_sent E s r i (trim ip) = (Inr (c, resp), t)" "accepted resp"
    and "quota_ok E (localStorage s) (pending_key i) (json_text (JArr (update_rows (row_field s r ''domain'')
       [(''status'', JStr ''revealed''), (''ip'', JStr (trim ip))] (rows s i))))"
  shows "(\<exists>d salt com. opt_prop (tx_payload c) ''domain'' = JStr d \<and> opt_prop (tx_payload c) ''salt'' = JStr salt \<and>
       row_field s r ''commitment'' = JStr com \<and> verifyDomainHash E d salt (BStr com) = Inr True) \<and>
    opt_prop (tx_payload c) ''ip'' = JStr (trim ip) \<and>
    rows (snd (handleFirstUpdate E r s)) n =
      (if n = i then update_rows (row_field s r ''domain'') [(''status'', JStr ''revealed''), (''ip'', JStr (trim ip))] (rows s i)
       else rows s n)"
proof -
  have inv: "rows_inv E s" using assms(1) by (simp add: view_inv_def)
  then have row: "row_committed E (JObj (row_store s r))" and books: "books_good s"
    using assms(2) by (simp_all add: rows_inv_def shown_ok_def)
  obtain d salt where "row_field s r ''domain'' = JStr d" "row_field s r ''salt'' = JStr salt"
    "JStr (domain_hash E d salt) = row_field s r ''commitment''"
    using row by (auto simp: row_committed_def row_field_def generateHash_eq split: jsval.split_asm)
  then obtain com where fields: "row_field s r ''domain'' = JStr d" "row_field s r ''salt'' = JStr salt"
    "row_field s r ''commitment'' = JStr com" "generateHash E d salt = Inr com"
    by (metis generateHash_eq)
  have "verifyDomainHash E d salt (BStr com) = Inr True"
    using fields(4) by (simp add: verifyDomainHash_def timingSafeEqual_bytes)
  moreover obtain inputs outputs h where "c = reveal_tx s r i (trim ip)\<lparr>tx_inputs := inputs, tx_outputs := outputs, tx_id := JStr h\<rparr>"
    using signed_send_Inr [OF assms(7) [unfolded reveal_sent_def]] by blast
  then have "tx_payload c = JObj [(''domain'', JStr d), (''salt'', JStr salt), (''ip'', JStr (trim ip)),
      (''ttl'', js_or (row_field s r ''revealTtl'') (JInt 0)), (''txid'', row_field s r ''txid'')]"
    by (simp add: reveal_tx_def page_tx_def buildTransaction_def encodePayload_def fields)
  ultimately show ?thesis
    using reveal_accepted [OF books assms(3-9), of n] fields(3) by auto
qed

theorem reveal_end_to_end_witness:
  "rows (snd (handleFirstUpdate demo_env 0 (demo_view ''pending''))) ''0200'' =
     update_rows (JStr ''ab.cd'') [(''status'', JStr ''revealed''), (''ip'', JStr ''1.2.3.4'')] [demo_row ''pending'']"
proof -
  let ?s = "demo_view ''pending''"
  note books = demo_books [OF demo_row_good(3), of ?s, OF refl]
  obtain c resp t where answer: "reveal_sent demo_env ?s 0 ''0200'' (trim ''1.2.3.4'') = (Inr (c, resp), t)" "accepted resp"
    by (simp add: reveal_sent_def demo_send [of _ "''NameFirstUpdate''" _ "''0100''"] reveal_tx_def reveal_started_def demo_ready accepted_def)
  have "0 \<in> set (myDomains ?s)" by (simp add: demo_view_def)
  from reveal_end_to_end [OF demo_view_inv this demo_ready(1,5) _ demo_ready(2) answer demo_quota, of "''0200''"]
  show ?thesis by (auto simp: books(2) demo_ready)
qed

text \<open>
  C8. A reveal whose request failed never changes another wallet's list. The wallet's own
  list loses the rows of that domain exactly when the error's text, in lower case, says that
  the name is taken, the commitment unknown or expired; otherwise it is kept as it was, so
  the reveal can be tried again.
\<close>

theorem reveal_error:
  assumes "books_good s" "isWalletLoaded s" "row_field s r ''revealIp'' = JStr ip" "trim ip \<noteq> []" "walletID s = Some i"
    and "reveal_sent E s r i (trim ip) = (Inl e, t)"
    and "quota_ok E (localStorage s) (pending_key i) (json_text (JArr (filter (\<lambda>d. \<not> row_is (row_field s r ''domain'') d) (rows s i))))"
  shows "rows (snd (handleFirstUpdate E r s)) n =
    (if n = i \<and> reveal_shouldRemove (toLowerCase (error_text e))
     then filter (\<lambda>d. \<not> row_is (row_field s r ''domain'') d) (rows s i) else rows s n)"
  by (rule reveal_failed [OF assms])

theorem reveal_error_witness:
  "rows (snd (handleFirstUpdate demo_refusing 0 (demo_view ''pending''))) ''0200'' = []"
proof -
  let ?s = "demo_view ''pending''"
  note books = demo_books [OF demo_row_good(3), of ?s, OF refl]
  have answer: "reveal_sent demo_refusing ?s 0 ''0200'' (trim ''1.2.3.4'') = (Inl (Error demo_refusal), snd (reveal_sent demo_refusing ?s 0 ''0200'' (trim ''1.2.3.4'')))"
    by (simp add: reveal_sent_def demo_refused)
  have words: "reveal_shouldRemove (toLowerCase (error_text (Error demo_refusal)))" "row_is (JStr ''ab.cd'') (demo_row ''pending'')"
    by code_simp+
  have "quota_ok demo_refusing m k v" for m k v by (simp add: demo_refusing_def)
  from reveal_error [OF books(1) demo_ready(1,5) _ demo_ready(2) answer this, of "''0200''"] words
  show ?thesis by (simp add: books(2) demo_ready)
qed

text \<open>
  C9. An accepted update of a revealed domain rewrites the address of its rows in the
  wallet's list and nothing else, in that list or another; the transaction carries the
  domain and the trimmed address, and no salt.
\<close>

theorem update_end_to_end:
  assumes "books_good s" "isWalletLoaded s" "row_field s r ''newIp'' = JStr ip" "trim ip \<noteq> []" "walletID s = Some i"
    and "update_sent E s r i (trim ip) = (Inr (c, resp), t)" "accepted resp"
    and "quota_ok E (localStorage s) (pending_key i)
       (json_text (JArr (update_rows (row_field s r ''domain'') [(''ip'', JStr (trim ip))] (rows s i))))"
  shows "rows (snd (handleUpdate E r s)) n =
      (if n = i then update_rows (row_field s r ''domain'') [(''ip'', JStr (trim ip))] (rows s i) else rows s n) \<and>
    opt_prop (tx_payload c) ''domain'' = row_field s r ''domain'' \<and> opt_prop (tx_payload c) ''ip'' = JStr (trim ip) \<and>
    opt_prop (tx_payload c) ''salt'' = JUndef"
proof -
  obtain inputs outputs h where "c = update_tx s r i (trim ip)\<lparr>tx_inputs := inputs, tx_outputs := outputs, tx_id := JStr h\<rparr>"
    using signed_send_Inr [OF assms(6) [unfolded update_sent_def]] by blast
  then show ?thesis
    using update_accepted [OF assms, of n] by (simp add: update_tx_def page_tx_def buildTransaction_def encodePayload_def)
qed

theorem update_end_to_end_witness:
  "rows (snd (handleUpdate demo_env 0 (demo_view ''revealed''))) ''0200'' =
     update_rows (JStr ''ab.cd'') [(''ip'', JStr ''1.2.3.4'')] [demo_row ''revealed'']"
proof -
  let ?s = "demo_view ''revealed''"
  note books = demo_books [OF demo_row_good(4), of ?s, OF refl]
  obtain c resp t where answer: "update_sent demo_env ?s 0 ''0200'' (trim ''1.2.3.4'') = (Inr (c, resp), t)" "accepted resp"
    by (simp add: update_sent_def demo_send [of _ "''NameUpdate''" _ "''0100''"] update_tx_def update_started_def demo_ready accepted_def)
  from update_end_to_end [OF books(1) demo_ready(1,6) _ demo_ready(2) answer demo_quota, of "''0200''"]
  show ?thesis by (auto simp: books(2) demo_ready)
qed

text \<open>
  C10. An update whose request failed makes the wallet forget the domain exactly when the
  error says the name is gone or not owned; every other failure leaves all lists as they were.
\<close>

theorem update_error:
  assumes "books_good s" "isWalletLoaded s" "row_field s r ''newIp'' = JStr ip" "trim ip \<noteq> []" "walletID s = Some i"
    and "update_sent E s r i (trim ip) = (Inl e, t)"
    and "quota_ok E (localStorage s) (pending_key i) (json_text (JArr (filter (\<lambda>d. \<not> row_is (row_field s r ''domain'') d) (rows s i))))"
  shows "rows (snd (handleUpdate E r s)) n =
    (if n = i \<and> update_shouldRemove (toLowerCase (error_text e))
     then filter (\<lambda>d. \<not> row_is (row_field s r ''domain'') d) (rows s i) else rows s n)"
  by (rule update_failed [OF assms])

theorem update_error_witness:
  "rows (snd (handleUpdate demo_refusing 0 (demo_view ''revealed''))) ''0200'' = [demo_row ''revealed'']"
proof -
  let ?s = "demo_view ''revealed''"
  note books = demo_books [OF demo_row_good(4), of ?s, OF refl]
  have answer: "update_sent demo_refusing ?s 0 ''0200'' (trim ''1.2.3.4'') = (Inl (Error demo_refusal), snd (update_sent demo_refusing ?s 0 ''0200'' (trim ''1.2.3.4'')))"
    by (simp add: update_sent_def demo_refused)
  have words: "\<not> update_shouldRemove (toLowerCase (error_text (Error demo_refusal)))" by code_simp
  have "quota_ok demo_refusing m k v" for m k v by (simp add: demo_refusing_def)
  from update_error [OF books(1) demo_ready(1,6) _ demo_ready(2) answer this, of "''0200''"] words
  show ?thesis by (simp add: books(2) demo_ready)
qed

text \<open>
  C11. Whatever has happened to an application of \<open>stimulus.js\<close>, in whatever order (controllers
  registered, replaced or unloaded, starts and stops, records of changes to any observer, any change
  of the page, events and whatever their methods do to the page): a controller runs on an element
  if and only if it is registered and the scope observer has its identifier among the tokens it
  knows of the element; and every binding that is connected to the dispatcher belongs to a
  running controller.
\<close>

theorem application_safe:
  assumes "app_trace E S (newApplication root S p) ops (ob, w)"
  shows "(getControllerForElementAndIdentifier e i (ob, w) = Some sc \<longleftrightarrow>
       sc = \<lparr>sc_element = e, sc_identifier = i\<rparr> \<and> fold registered ops Map.empty i \<noteq> None \<and> (\<exists>cs. view ob e = Some cs \<and> i \<in> set cs)) \<and>
    (b \<in> bound (lw_dispatcher w) \<longrightarrow>
       getControllerForElementAndIdentifier (sc_element (b_scope b)) (sc_identifier (b_scope b)) (ob, w) = Some (b_scope b))"
proof -
  have ok: "app_ok False S (fold registered ops Map.empty) (ob, w)" by (rule trace_ok [OF assms])
  show ?thesis using controller_iff [OF ok] bound_controller [OF ok] by blast
qed

theorem application_safe_witness:
  "\<exists>ob w. app_trace demo_env defaultSchema (newApplication 0 defaultSchema demo_page) demo_ops (ob, w) \<and>
     getControllerForElementAndIdentifier 10 ''peerInfo'' (ob, w) = Some \<lparr>sc_element = 10, sc_identifier = ''peerInfo''\<rparr> \<and>
     (\<exists>cs. view ob 10 = Some cs \<and> ''peerInfo'' \<in> set cs)"
proof -
  obtain ob w where t: "app_trace demo_env defaultSchema (newApplication 0 defaultSchema demo_page) demo_ops (ob, w)"
    "getControllerForElementAndIdentifier 10 ''peerInfo'' (ob, w) = Some \<lparr>sc_element = 10, sc_identifier = ''peerInfo''\<rparr>"
    using demo_page_started by blast
  show ?thesis using t application_safe [OF t(1), of 10 "''peerInfo''"] by blast
qed



text \<open>
  C13. Registering controllers and starting on a well-formed document returns, and then the
  application has exactly what the document declares: a controller runs on an element if and only if
  it is registered and the element's controller attribute, below the application's root, has its
  identifier; and an action is bound to a controller if and only if a token of an action attribute
  below the controller's element parses to it and names the controller, and then it is bound once.
\<close>

theorem start_exact:
  fixes p :: "'z page_scheme"
  assumes "list_all (\<lambda>x. calm (snd x)) defs" "dom_wf (pg_dom p)" "root \<in> dom_elems (pg_dom p)"
  shows "\<exists>s. start_page E S defs root p = (Inr (), s) \<and>
    (\<forall>e i sc. getControllerForElementAndIdentifier e i s = Some sc \<longleftrightarrow>
       sc = \<lparr>sc_element = e, sc_identifier = i\<rparr> \<and> map_of (rev defs) i \<noteq> None \<and> declares_controller S (pg_dom p) root e i) \<and>
    (\<forall>sc a. (\<exists>!u. \<lparr>b_uid = u, b_scope = sc, b_action = a\<rparr> \<in> bound (lw_dispatcher (snd s))) \<longleftrightarrow>
       map_of (rev defs) (sc_identifier sc) \<noteq> None \<and> declares_controller S (pg_dom p) root (sc_element sc) (sc_identifier sc) \<and>
       declares_action S (pg_dom p) sc a)"
proof -
  obtain ob w where s: "start_page E S defs root p = (Inr (), ob, w)" "app_ok True S (map_of (rev defs)) (ob, w)" "doc_of w = pg_dom p"
    "view ob = wanted (pg_dom p) root (controllerAttribute S)" using start_page_run [OF assms] by blast
  have wf: "dom_wf (doc_of w)" "root \<in> dom_elems (doc_of w)" "view ob = wanted (doc_of w) root (controllerAttribute S)"
    using assms s(3,4) by simp_all
  note st = started_bindings [OF s(2) wf, unfolded s(3)]
  have "(\<exists>!u. \<lparr>b_uid = u, b_scope = sc, b_action = a\<rparr> \<in> bound (lw_dispatcher w)) \<longleftrightarrow>
      (\<exists>u. \<lparr>b_uid = u, b_scope = sc, b_action = a\<rparr> \<in> bound (lw_dispatcher w))" for sc a
    using st(3) by blast
  then show ?thesis using s(1) st(1,2) by (intro exI [of _ "(ob, w)"]) simp
qed

theorem start_exact_witness:
  "\<exists>s. start_page demo_env defaultSchema demo_defs 0 demo_page = (Inr (), s) \<and>
     getControllerForElementAndIdentifier 10 ''peerInfo'' s = Some \<lparr>sc_element = 10, sc_identifier = ''peerInfo''\<rparr> \<and>
     (\<exists>!u. \<lparr>b_uid = u, b_scope = \<lparr>sc_element = 128, sc_identifier = ''naming''\<rparr>, b_action = click_action 134 ''naming'' ''resolve''\<rparr>
        \<in> bound (lw_dispatcher (snd s)))"
proof -
  have "map_of (rev demo_defs) ''naming'' \<noteq> None" "map_of (rev demo_defs) ''peerInfo'' \<noteq> None"
    unfolding main_registered by (simp_all add: node_controllers_def)
  then show ?thesis
    using start_exact [OF main_calm demo_page_wf, of demo_env defaultSchema demo_env demo_gui_platform "\<lambda>_. Inr ()"] demo_declared by auto
qed





text \<open>
  C16. After the start, the application follows the document: after any sequence of changes of
  controller attributes, each with its record, every record is worked through, and a controller runs on
  an element if and only if it is registered and the document as it is now declares it there.
\<close>

theorem document_followed:
  fixes S :: schema and edits :: "(elt \<times> string option) list"
  assumes "list_all (\<lambda>x. calm (snd x)) defs" "dom_wf (pg_dom p)" "root \<in> dom_elems (pg_dom p)"
  defines "d \<equiv> fold (edit_attribute (controllerAttribute S)) edits (pg_dom p)"
  shows "\<exists>s t. start_page E S defs root p = (Inr (), s) \<and>
    jforeach (app_do E S) (concat (map (edit_ops (controllerAttribute S)) edits)) s = (Inr (), t) \<and> doc_of (snd t) = d \<and>
    (\<forall>e i sc. getControllerForElementAndIdentifier e i t = Some sc \<longleftrightarrow>
       sc = \<lparr>sc_element = e, sc_identifier = i\<rparr> \<and> map_of (rev defs) i \<noteq> None \<and> declares_controller S d root e i)"
proof -
  obtain s where s: "start_page E S defs root p = (Inr (), s)" "up_to_date S (map_of (rev defs)) root (pg_dom p) s"
    using start_up_to_date [OF assms(1-3)] by blast
  obtain t where t: "jforeach (app_do E S) (concat (map (edit_ops (controllerAttribute S)) edits)) s = (Inr (), t)"
    "up_to_date S (map_of (rev defs)) root d t" using edits_followed [OF s(2), of E edits] unfolding d_def by blast
  have "doc_of (snd t) = d" using t(2) by (cases t) (simp add: up_to_date_def)
  then show ?thesis using s(1) t(1) up_to_date_controllers [OF t(2)] by blast
qed

theorem document_followed_witness:
  "\<exists>s t. start_page demo_env defaultSchema demo_defs 0 demo_page = (Inr (), s) \<and>
     jforeach (app_do demo_env defaultSchema) (edit_ops (controllerAttribute defaultSchema) (10, None)) s = (Inr (), t) \<and>
     getControllerForElementAndIdentifier 10 ''peerInfo'' t = None"
proof -
  let ?d = "edit_attribute (controllerAttribute defaultSchema) (10, None) node_dom"
  have gone: "\<not> declares_controller defaultSchema ?d 0 10 ''peerInfo''"
    by (simp add: declares_controller_def edit_attribute_def hasAttribute_def getAttribute_def removeAttribute_def)
  have doc: "pg_dom demo_page = node_dom" by (simp add: demo_page_def)
  obtain s t where st: "start_page demo_env defaultSchema demo_defs 0 demo_page = (Inr (), s)"
    "jforeach (app_do demo_env defaultSchema) (edit_ops (controllerAttribute defaultSchema) (10, None)) s = (Inr (), t)"
    "\<And>sc. getControllerForElementAndIdentifier 10 ''peerInfo'' t = Some sc \<longleftrightarrow> sc = \<lparr>sc_element = 10, sc_identifier = ''peerInfo''\<rparr> \<and>
       map_of (rev demo_defs) ''peerInfo'' \<noteq> None \<and> declares_controller defaultSchema ?d 0 10 ''peerInfo''"
    using document_followed [OF main_calm demo_page_wf, of demo_env defaultSchema demo_env demo_gui_platform "\<lambda>_. Inr ()" "[(10, None)]"]
    unfolding doc by auto
  have "getControllerForElementAndIdentifier 10 ''peerInfo'' t = None" using st(3) gone by (metis option.exhaust)
  then show ?thesis using st(1,2) by blast
qed

text \<open>
  C17. On the document of \<open>node.html\<close>, \<open>main\<close> returns and the application starts; then exactly the
  eleven controllers the document declares run, each on its element; the getters \<open>flash\<close>, \<open>peerInfo\<close> and
  \<open>messagingController\<close> find theirs; the collapsible headers are set up; and the state is what \<open>peerInfo\<close>,
  \<open>routing\<close> and \<open>catalog\<close>, initialised in this order, make of it, with \<open>packets\<close>, initialised last, listening
  at the address of the end point, if the browser takes it: each of them finds \<open>peerInfo\<close> already connected.
\<close>

theorem node_main_runs:
  assumes "pg_dom p = node_dom" "np_connected p = []" "np_source p = None" "np_coll p = []"
  shows "\<exists>s. node_main E G newEventSource p = ((Inr (), Inr ()), s) \<and>
    (\<forall>e i sc. getControllerForElementAndIdentifier e i s = Some sc \<longleftrightarrow>
       sc = \<lparr>sc_element = e, sc_identifier = i\<rparr> \<and> (e, i) \<in> set node_controllers) \<and>
    map (\<lambda>i. controller_by_id i s) [''flash'', ''peerInfo'', ''messaging''] =
      [Some \<lparr>sc_element = 6, sc_identifier = ''flash''\<rparr>, Some \<lparr>sc_element = 10, sc_identifier = ''peerInfo''\<rparr>,
       Some \<lparr>sc_element = 18, sc_identifier = ''messaging''\<rparr>] \<and>
    lw_page (snd s) = p\<lparr>np_gui := main_gui E G (np_gui p), np_source := main_source newEventSource (main_gui E G (np_gui p)),
      np_coll := headers_of, np_connected := node_scope_list\<rparr>"
proof -
  obtain s where s: "node_main E G newEventSource p = ((Inr (), Inr ()), s)" "node_ok E G newEventSource s"
    "lw_page (snd s) = run_controllers (map_of (rev (main_defs E G newEventSource))) node_scope_list (p\<lparr>np_coll := np_coll p @ headers_of\<rparr>)"
    using node_start_ok [OF assms(1)] by blast
  note run = node_controllers_running [OF s(2)]
  have doc: "doc_of (snd s) = node_dom" using s(2) by (cases s) (simp add: node_ok_def)
  have "controller_by_id ''flash'' s = Some \<lparr>sc_element = 6, sc_identifier = ''flash''\<rparr>"
    "controller_by_id ''peerInfo'' s = Some \<lparr>sc_element = 10, sc_identifier = ''peerInfo''\<rparr>"
    "controller_by_id ''messaging'' s = Some \<lparr>sc_element = 18, sc_identifier = ''messaging''\<rparr>"
    by (simp_all add: controller_by_id_def doc node_ids run node_controllers_def)
  moreover have "lw_page (snd s) = p\<lparr>np_gui := main_gui E G (np_gui p), np_source := main_source newEventSource (main_gui E G (np_gui p)),
      np_coll := headers_of, np_connected := node_scope_list\<rparr>"
    using main_page [of "p\<lparr>np_coll := np_coll p @ headers_of\<rparr>" E G newEventSource] assms s(3) by simp
  ultimately show ?thesis using s(1) run by simp
qed

theorem node_main_runs_witness:
  "\<exists>s. node_main demo_env demo_gui_platform (\<lambda>_. Inr ()) demo_page = ((Inr (), Inr ()), s) \<and>
     controller_by_id ''peerInfo'' s = Some \<lparr>sc_element = 10, sc_identifier = ''peerInfo''\<rparr> \<and>
     np_source (lw_page (snd s)) = Some (api_url (main_gui demo_env demo_gui_platform demo_gui) ''/registry/pktnotify'')"
  using node_main_runs [of demo_page demo_env demo_gui_platform "\<lambda>_. Inr ()"] by (auto simp: demo_page_def main_source_def Let_def)



text \<open>
  C19. Every target a controller of the node's page declares is a property of its blessed class and is
  found in the document of \<open>node.html\<close>, without the deprecated attribute: the getter returns the element.
\<close>

theorem node_targets_found:
  assumes "(i, cd) \<in> set (main_defs E G newEventSource)" "n \<in> set (readInheritableStaticArrayValues own_targets (cd_class cd))"
  shows "\<exists>c e k. (c, i) \<in> set node_controllers \<and> bless (cd_class cd) = Inr k \<and>
    member_of k (n @ ''Target'') = Some (MAccess (Some (GTarget n)) None) \<and>
    target_get defaultSchema \<lparr>sc_element = c, sc_identifier = i\<rparr> n node_dom g = (Inr e, g)"
proof -
  let ?cls = "cd_class cd" let ?ts = "readInheritableStaticArrayValues own_targets ?cls"
  have cls: "(i, ?cls) \<in> set main_classes" by (rule main_class [OF assms(1)])
  then obtain c ts where t: "(c, i, ts) \<in> set node_targets" "?ts = map snd ts"
    using class_targets by (fastforce simp: list_all_iff list_ex_iff)
  have p: "\<forall>m\<in>set ?ts. n \<noteq> ''has'' @ capitalize m" "map_get (own_members ?cls) (n @ ''Target'') = None"
    using cls assms(2) class_targets by (fastforce simp: list_all_iff)+
  have "calm cd" using main_calm [of E G newEventSource] assms(1) by (force simp: list_all_iff)
  then obtain ps where "getBlessedProperties ?cls = Inr ps" by (auto simp: calm_def bless_def split: sum.split_asm)
  from target_property [OF assms(2) p this] obtain k where k: "bless ?cls = Inr k"
    "member_of k (n @ ''Target'') = Some (MAccess (Some (GTarget n)) None)" by blast
  obtain e where e: "(e, n) \<in> set ts" using assms(2) t(2) by auto
  have "(c, i) \<in> set node_controllers" using t(1) node_target_facts by (auto simp: list_all_iff)
  moreover have "target_get defaultSchema \<lparr>sc_element = c, sc_identifier = i\<rparr> n node_dom g = (Inr e, g)"
    using node_target_find [OF t(1) e]
    by (simp add: target_get_def targets_find_def find_step_def findTarget_def findAllTargets_def findElement_first)
  ultimately show ?thesis using k by blast
qed

theorem node_targets_found_witness:
  "\<exists>c e k. (c, ''messaging'') \<in> set node_controllers \<and> bless Messaging = Inr k \<and>
     member_of k ''holderTarget'' = Some (MAccess (Some (GTarget ''holder'')) None) \<and>
     target_get defaultSchema \<lparr>sc_element = c, sc_identifier = ''messaging''\<rparr> ''holder'' node_dom \<lparr>warnedKeysByObject = [], warnings = []\<rparr> = (Inr e, \<lparr>warnedKeysByObject = [], warnings = []\<rparr>)"
proof -
  have "map (\<lambda>(i, cd). (i, cd_class cd)) demo_defs = main_classes" by (simp add: main_defs_def main_classes_def controller_code_def)
  then have "(''messaging'', Messaging) \<in> (\<lambda>(i, cd). (i, cd_class cd)) ` set demo_defs"
    unfolding image_set by (simp add: main_classes_def)
  then obtain cd where cd: "(''messaging'', cd) \<in> set demo_defs" "cd_class cd = Messaging" by auto
  have "''holder'' \<in> set (readInheritableStaticArrayValues own_targets Messaging)" by code_simp
  then show ?thesis using node_targets_found [OF cd(1), of "''holder''" "\<lparr>warnedKeysByObject = [], warnings = []\<rparr>"] unfolding cd(2) by simp
qed

text \<open>
  C20. Requests to the graph worker get their own answers, in whatever order requests and answers come:
  the requests are numbered as they are made, the promise of each is pending until its answer comes and
  is then settled by that answer for good; a second answer, or one to no request, throws and changes
  nothing.
\<close>

theorem worker_answers_matched:
  assumes "ww_run E st ans"
  shows "length (ww_promises st) = length (ww_posted st) \<and>
    list_all (\<lambda>i. fst (ww_posted st ! i) = i \<and>
        ww_promises st ! i = (case ans i of None \<Rightarrow> Pending | Some (error, result) \<Rightarrow> answer error result)) [0 ..< length (ww_posted st)] \<and>
    (if i < length (ww_posted st) \<and> ans i = None then fst (ww_message E i error result st) = Inr ()
     else ww_message E i error result st = (Inl (TypeError (type_msg E)), st))"
proof -
  have ok: "map fst (ww_posted st) = [0 ..< ww_nextId st]" "ww_promises st = map (\<lambda>i. answered (ans i)) [0 ..< ww_nextId st]"
    "ww_listeners st i = (if i < ww_nextId st \<and> ans i = None then Some i else None)" for i
    using ww_run_ok [OF assms] by (simp_all add: ww_ok_def)
  have n: "ww_nextId st = length (ww_posted st)" using arg_cong [OF ok(1), of length] by simp
  have "fst (ww_posted st ! i) = i" if "i < length (ww_posted st)" for i
    using that arg_cong [OF ok(1), of "\<lambda>xs. xs ! i"] n by simp
  then show ?thesis using ok(2) ok(3) [of i] by (simp add: n list_all_iff answered_def ww_message_def)
qed

theorem worker_answers_matched_witness:
  "let st = snd (ww_render ''b'' svg_request (snd (ww_render ''a'' svg_request newWorkerWrapper)));
       st' = snd (ww_message demo_env 0 JUndef (JStr ''A'') (snd (ww_message demo_env 1 JUndef (JStr ''B'') st)))
   in ww_promises st' = [Resolved (JStr ''A''), Resolved (JStr ''B'')] \<and>
      ww_message demo_env 1 JUndef JNull st' = (Inl (TypeError (type_msg demo_env)), st')"
proof -
  let ?st = "snd (ww_render ''b'' svg_request (snd (ww_render ''a'' svg_request newWorkerWrapper)))"
  let ?s1 = "snd (ww_message demo_env 1 JUndef (JStr ''B'') ?st)" let ?st' = "snd (ww_message demo_env 0 JUndef (JStr ''A'') ?s1)"
  have posted: "map fst (ww_posted ?st) = [0, 1]" "ww_posted ?s1 = ww_posted ?st" "ww_posted ?st' = ww_posted ?st"
    by (simp_all add: ww_render_def newWorkerWrapper_def Let_def ww_message_def)
  have mem: "i \<in> fst ` set (ww_posted ?st)" if "i \<in> set [0, 1]" for i using that posted(1) by (metis list.set_map)
  have "ww_run demo_env ?st Map.empty" by (intro ww_request ww_new)
  then have "ww_run demo_env ?s1 [1 \<mapsto> (JUndef, JStr ''B'')]" by (rule ww_answer) (use mem in simp_all)
  then have run: "ww_run demo_env ?st' ([1 \<mapsto> (JUndef, JStr ''B''), 0 \<mapsto> (JUndef, JStr ''A'')])"
    by (rule ww_answer) (use mem posted(2) in simp_all)
  have len: "length (ww_posted ?st') = 2" using arg_cong [OF posted(1), of length] posted(3) by simp
  have two: "xs = [a, b]" if "length xs = 2" "xs ! 0 = a" "xs ! 1 = b" for xs and a b :: "jsval promise"
    using that by (auto simp: length_Suc_conv numeral_2_eq_2)
  note facts = worker_answers_matched [OF run, of 1 JUndef JNull, unfolded len]
  have "ww_promises ?st' = [Resolved (JStr ''A''), Resolved (JStr ''B'')]"
    using facts by (intro two) (simp_all add: upt_rec answer_def)
  moreover have "ww_message demo_env 1 JUndef JNull ?st' = (Inl (TypeError (type_msg demo_env)), ?st')" using facts by simp
  ultimately show ?thesis unfolding Let_def by blast
qed

text \<open>
  C21. The graph of the routing page. With the page's renderer being \<open>new Viz().renderSVGElement\<close>
  as \<open>viz.js\<close> defines it, over any module and any layout program: updating the routing page asks the
  program for the node's second answer in the format \<open>svg\<close> with the engine \<open>dot\<close> and shows what it draws;
  when the module or the program fails, the graph that was shown stays.
\<close>

theorem graph_rendered:
  fixes s :: "'z gui_scheme"
  assumes viz: "\<And>src. viz_svg mdl render parseSVG src = Some (renderSVGElement G src)"
    and resp: "respond E (sent s @ [get_args (api_url s ''/messaging/routing'')]) (get_args (api_url s ''/messaging/routing'' @ ''?graphviz=on'')) =
      Resp 200 t data"
  shows "graphviz (snd (routing_update E G s)) = (case mdl of
     Inl e \<Rightarrow> graphviz s
   | Inr inst \<Rightarrow> (case render inst data svg_request of Inl e \<Rightarrow> graphviz s | Inr str \<Rightarrow> parseSVG str))"
proof -
  let ?a = "api_url s ''/messaging/routing''"
  define m :: "('z gui_scheme, unit) js" where "m = try_catch (jbind (base_fetch E (get_args ?a)) (\<lambda>body. jbind (jlift (parse_or_throw E body)) (\<lambda>data.
      jseq (jmodify (\<lambda>s. s\<lparr>table_rows := []\<rparr>)) (jbind (jlift (object_entries E data)) (\<lambda>entries.
      jseq (jforeach (\<lambda>(origin, relay). jmodify (\<lambda>s. s\<lparr>table_rows := table_rows s @ [''<td>'' @ origin @ ''</td><td>'' @ to_str relay @ ''</td>'']\<rparr>)) entries)
        (printSuccess ''Routing table updated''))))))
    (\<lambda>e. printError (''Failed to fetch routing: '' @ err_string e))"
  have g: "keeps graphviz m" unfolding m_def by (intro keeps_rules) (simp_all add: keeps_def base_fetch_run split: prod.split)
  have q: "sent (snd (m s)) = sent s @ [get_args ?a]"
    unfolding m_def by (rule fetch_try_sent) (intro keeps_rules; simp split: prod.split)+
  have ret: "fst (m s) = Inr ()" by (simp add: m_def try_catch_def split: prod.split sum.split)
  obtain s1 where s1: "m s = (Inr (), s1)" "graphviz s1 = graphviz s" "sent s1 = sent s @ [get_args ?a]"
    using keepsD [OF g, of s] q ret by (cases "m s") auto
  have G: "renderSVGElement G data = (case mdl of Inl e \<Rightarrow> Inl e
      | Inr inst \<Rightarrow> (case render inst data svg_request of Inl e \<Rightarrow> Inl e | Inr str \<Rightarrow> Inr (parseSVG str)))"
    using viz [of data] by (simp add: viz_svg_run)
  have "routing_update E G s = jseq m (try_catch (jbind (base_fetch E (get_args (?a @ ''?graphviz=on''))) (\<lambda>data.
      jbind (jlift (renderSVGElement G data)) (\<lambda>element. jmodify (\<lambda>s. s\<lparr>graphviz := element\<rparr>))))
      (\<lambda>e. printError (''Failed to display routing: '' @ err_string e))) s"
    by (simp add: routing_update_def jbind_run m_def)
  then show ?thesis using s1 resp by (simp add: jseq_run jbind_run try_catch_def base_fetch_run G split: sum.split)
qed

theorem graph_rendered_witness:
  "graphviz (snd (routing_update demo_env (demo_gui_platform\<lparr>renderSVGElement := \<lambda>src. Inr (''drawn '' @ src)\<rparr>) demo_gui)) =
     ''drawn '' @ json_text (JObj [(''status'', JStr ''success'')])"
proof -
  let ?G = "demo_gui_platform\<lparr>renderSVGElement := \<lambda>src. Inr (''drawn '' @ src)\<rparr>"
  let ?url = "api_url demo_gui ''/messaging/routing''"
  have "viz_svg (Inr ()) (\<lambda>_ src _. Inr src) (\<lambda>t. ''drawn '' @ t) src = Some (renderSVGElement ?G src)" for src
    by (simp add: viz_svg_run)
  moreover have "respond demo_env (sent demo_gui @ [get_args ?url]) (get_args (?url @ ''?graphviz=on'')) =
      Resp 200 ''OK'' (json_text (JObj [(''status'', JStr ''success'')]))"
    by (simp add: demo_env_def demo_respond_def get_args_def api_url_def demo_gui_def del: json_text.simps)
  ultimately show ?thesis
    using graph_rendered [of "Inr ()" "\<lambda>_ src _. Inr src" "\<lambda>t. ''drawn '' @ t" ?G demo_env demo_gui] by (simp del: json_text.simps)
qed



text \<open>
  C23. \<open>verifyDomainHash\<close> accepts the hash of exactly this domain and this salt, given as
  hexadecimal text or as the bytes of that text, and nothing else; it never throws. In
  particular it accepts what \<open>hashDomainWithSalt\<close> returns.
\<close>

theorem verify_exact:
  "verifyDomainHash E domain salt hashed = Inr (buf_bytes hashed = utf8 (domain_hash E domain salt)) \<and>
   hashDomainWithSalt E domain salt = Inr (domain_hash E domain salt) \<and>
   verifyDomainHash E domain salt (BStr h) = Inr (hashDomainWithSalt E domain salt = Inr h)"
  by (auto simp: verifyDomainHash_def hashDomainWithSalt_def generateHash_eq timingSafeEqual_bytes utf8_inj)

text \<open>
  C24. The comparison that always runs to the end of its first argument, with its 32-bit
  accumulator of bitwise differences, is equality of the byte sequences; on two strings, of
  the strings.
\<close>

theorem timing_safe_is_equality:
  "(timingSafeEqual a b \<longleftrightarrow> buf_bytes a = buf_bytes b) \<and> (timingSafeEqual (BStr s) (BStr t) \<longleftrightarrow> s = t)"
  by (simp add: timingSafeEqual_bytes utf8_inj)






text \<open>
  C28. A wallet survives a reload: after \<open>createWallet\<close>, with room in the storage, \<open>loadWallet\<close>
  in a page that knows no wallet, over the same storage, finds the same keys and the same
  identifier.
\<close>

theorem create_then_load:
  assumes "createWallet E s = (Inr w, t)"
    and "\<forall>m k v. quota_ok E m k v"
    and "localStorage u = localStorage t"
  shows "loadWallet E u = (Inr True, u\<lparr>wallet := w\<rparr>) \<and> wallet t = w"
proof -
  obtain sk pk where kp: "nacl_keyPair E (draws s) = (sk, pk)" by (cases "nacl_keyPair E (draws s)")
  obtain i where i: "deriveWalletID E (JStr (bytesToHex pk)) = Inr i"
    and w: "w = \<lparr>publicKey = JStr (bytesToHex pk), privateKey = JStr (bytesToHex sk), wallet_id = i\<rparr>"
    and t: "t = snd (saveWallet E (publicKey w) (privateKey w) (s\<lparr>draws := Suc (draws s), wallet := w\<rparr>))"
    using assms(1) by (auto simp: createWallet_run kp Let_def split: sum.split_asm)
  have "localStorage u WALLET_key = Some (stored_text (JObj [(''publicKey'', JStr (bytesToHex pk)),
      (''privateKey'', JStr (bytesToHex sk)), (''createdAt'', JStr (iso_date E (ticks s)))]))"
    using assms(2,3) by (simp add: t w saveWallet_run Let_def del: stored_text_ok)
  from stored_keys_load [OF this _ _ i] show ?thesis using assms(2) by (simp add: w t saveWallet_run Let_def)
qed

theorem create_then_load_witness:
  "\<exists>w t. createWallet demo_env demo_tx_world = (Inr w, t) \<and>
     loadWallet demo_env (t\<lparr>wallet := no_wallet\<rparr>) = (Inr True, t\<lparr>wallet := w\<rparr>)"
proof -
  have "deriveWalletID demo_env (JStr (bytesToHex [2, 0])) = Inr (Some ''0200'')" by code_simp
  moreover have "nacl_keyPair demo_env (draws demo_tx_world) = ([1, 0], [2, 0])" by (simp add: demo_env_def demo_tx_world_def)
  ultimately obtain w t where w: "createWallet demo_env demo_tx_world = (Inr w, t)"
    by (simp add: createWallet_run Let_def del: bytesToHex_simps)
  from create_then_load [OF w, of "t\<lparr>wallet := no_wallet\<rparr>"] w show ?thesis by auto
qed

text \<open>
  C29. A wallet survives its file: for a wallet with keys whose identifier is derived from
  its public key, the text \<open>exportWallet\<close> hands to the browser, given to \<open>importWallet\<close> in any
  page, brings back the same keys and the same identifier.
\<close>

theorem export_then_import:
  assumes "publicKey (wallet s) = JStr pub" "privateKey (wallet s) = JStr priv" "pub \<noteq> []" "priv \<noteq> []"
    and "wallet_coherent E s"
  shows "\<exists>name t. downloads (snd (exportWallet E s)) = downloads s @ [(name, t)] \<and>
    fst (importWallet E (FileText t) u) = Inr (wallet s) \<and> wallet (snd (importWallet E (FileText t) u)) = wallet s"
  by (rule export_import [OF assms])

theorem export_then_import_witness:
  "\<exists>name t. downloads (snd (exportWallet demo_env (demo_view ''pending''))) = [(name, t)] \<and>
     fst (importWallet demo_env (FileText t) demo_tx_world) = Inr demo_wallet"
proof -
  let ?s = "demo_view ''pending''"
  have "wallet ?s = demo_wallet" "downloads ?s = []" by (simp_all add: demo_view_def)
  moreover have "wallet_coherent demo_env ?s" using demo_view_inv by (simp add: view_inv_def)
  ultimately show ?thesis
    using export_then_import [of ?s "''0200''" "''0100''" demo_env demo_tx_world] by (auto simp: demo_wallet_def)
qed

text \<open>
  C30. Every operation of \<open>useWallet\<close>, whether it succeeds or throws, keeps the identifier of
  the wallet in memory equal to the hash of its public key (and absent when there is no key).
\<close>

theorem wallet_operations_coherent:
  assumes "wallet_coherent E s"
  shows "wallet_coherent E (snd (createWallet E s)) \<and> wallet_coherent E (snd (loadWallet E s)) \<and>
    wallet_coherent E (snd (importWallet E f s)) \<and> wallet_coherent E (snd (exportWallet E s)) \<and>
    wallet_coherent E (snd (clearWallet s))"
  using upholdsD [OF createWallet_coherent assms] upholdsD [OF loadWallet_coherent assms]
    upholdsD [OF importWallet_coherent assms] upholdsD [OF exportWallet_coherent assms] upholdsD [OF clearWallet_coherent assms]
  by simp

theorem wallet_operations_coherent_witness:
  "wallet_coherent demo_env (snd (createWallet demo_env (demo_view ''pending''))) \<and>
   wallet_coherent demo_env (snd (importWallet demo_env FileUnreadable (demo_view ''pending'')))"
  using wallet_operations_coherent [of demo_env "demo_view ''pending''" FileUnreadable] demo_view_inv by (simp add: view_inv_def)


text \<open>
  C32. The stored domains of a wallet are a list, and the four operations on it are the list
  operations: append a pending row, set the status of the rows of a domain, drop the rows of
  a domain, drop all. Each happens entirely or, when the storage is full, not at all; the
  lists of other wallets are not touched, and all lists stay readable.
\<close>

theorem book_refines_list:
  assumes "books_good s"
    and "op \<in> {(savePendingDomain E m d sa c t, \<lambda>vs. vs @ [pending_row d sa c t (now_ms E (ticks s))]),
      (updateDomainStatus E m domain st, update_rows domain [(''status'', JStr st)]),
      (removePendingDomain E m domain, filter (\<lambda>r. \<not> row_is domain r)),
      (clearAllPendingDomains m, \<lambda>_. [])}"
  shows "books_good (snd (fst op s)) \<and>
    rows (snd (fst op s)) m = (case fst (fst op s) of Inr _ \<Rightarrow> snd op (rows s m) | Inl _ \<Rightarrow> rows s m) \<and>
    (if n = m then True else rows (snd (fst op s)) n = rows s n)"
  using assms(2) upholdsD [OF save_pending.op_upholds_good assms(1)] save_pending.op_atomic [OF assms(1)] save_pending.op_other [OF assms(1)]
    upholdsD [OF update_status.op_upholds_good assms(1)] update_status.op_atomic [OF assms(1)] update_status.op_other [OF assms(1)]
    upholdsD [OF remove_pending.op_upholds_good assms(1)] remove_pending.op_atomic [OF assms(1)] remove_pending.op_other [OF assms(1)]
    upholdsD [OF clear_pending.op_upholds_good assms(1)] clear_pending.op_atomic [OF assms(1)] clear_pending.op_other [OF assms(1)]
  by (elim insertE emptyE) (simp_all split: sum.split)

theorem book_refines_list_witness:
  "rows (snd (removePendingDomain demo_env ''0200'' (JStr ''ab.cd'') (demo_view ''pending''))) ''0200'' = [] \<and>
   books_good (snd (clearAllPendingDomains ''0200'' (demo_view ''pending'')))"
proof -
  let ?s = "demo_view ''pending''"
  note books = demo_books [OF demo_row_good(3), of ?s, OF refl]
  have found: "row_is (JStr ''ab.cd'') (demo_row ''pending'')" by code_simp
  have "fst (removePendingDomain demo_env ''0200'' (JStr ''ab.cd'') ?s) = Inr ()"
    using rewrite_rows [OF books(1), of "arr_filter demo_env (\<lambda>d. map_sum id Not (has_domain demo_env (JStr ''ab.cd'') d))"]
      arr_filter_rows [OF books_good_rows [OF books(1)]]
    by (simp add: removePendingDomain_def Let_def del: json_text.simps)
  then show ?thesis
    using book_refines_list [OF books(1), of "(removePendingDomain demo_env ''0200'' (JStr ''ab.cd''), filter (\<lambda>r. \<not> row_is (JStr ''ab.cd'') r))" demo_env "''0200''" _ _ _ _ "JStr ''ab.cd''"]
      book_refines_list [OF books(1), of "(clearAllPendingDomains ''0200'', \<lambda>_. [])" demo_env "''0200''"] found
    by (simp add: books(2))
qed



text \<open>
  C34. Each call of the API makes exactly one request, to its own path under the base URL,
  whatever the answer; \<open>sendTransaction\<close> makes none when the transaction has no canonical text.
\<close>

theorem api_one_request:
  "sent (snd (sendTransaction E tx sg s)) =
     sent s @ (case canonicalize E (wire_tx tx sg) of Inl _ \<Rightarrow> [] | Inr body \<Rightarrow> [post_request (getBaseURL E @ ''/namecoin/handle'') body]) \<and>
   sent (snd (getTransactionStatus E txid s)) = sent s @ [get_request (getBaseURL E @ ''/namecoin/transaction/'' @ txid)] \<and>
   sent (snd (getMinerID E s)) = sent s @ [get_request (getBaseURL E @ ''/namecoin/minerid'')] \<and>
   sent (snd (setMinerID E m s)) =
     sent s @ [post_request (getBaseURL E @ ''/namecoin/minerid'') (JSON_stringify (JObj [(''minerID'', m)]))] \<and>
   sent (snd (getSpendPlan E payer amount s)) =
     sent s @ [post_request (getBaseURL E @ ''/namecoin/spendplan'') (JSON_stringify (JObj [(''from'', payer), (''amount'', amount)]))] \<and>
   sent (snd (getDNSRecord E s)) = sent s @ [get_request (getBaseURL E @ ''/namecoin/dns'')] \<and>
   sent (snd (fetchRegisteredDomains E s)) = sent s @ [get_request (getBaseURL E @ ''/namecoin/dns'')]"
  by (simp add: send_tx.sends_one tx_status.sends_one miner_id.sends_one set_miner.sends_one spend_plan.sends_one
      dns_record.sends_one registered.sends_one send_ask_def split: sum.split)

text \<open>
  C35. When the server answers with a status outside 200 to 299, every call of the API throws
  an \<open>Error\<close>, whatever the body is; \<open>sendTransaction\<close> does so once the transaction has a
  canonical text.
\<close>

theorem api_errors:
  assumes "\<forall>hist req. \<exists>st t body. respond E hist req = Resp st t body \<and> \<not> resp_ok st"
    and "canonicalize E (wire_tx tx sg) = Inr b"
  shows "(\<exists>msg. fst (sendTransaction E tx sg s) = Inl (Error msg)) \<and> (\<exists>msg. fst (getTransactionStatus E txid s) = Inl (Error msg)) \<and>
    (\<exists>msg. fst (getMinerID E s) = Inl (Error msg)) \<and> (\<exists>msg. fst (setMinerID E m s) = Inl (Error msg)) \<and>
    (\<exists>msg. fst (getSpendPlan E payer amount s) = Inl (Error msg)) \<and> (\<exists>msg. fst (getDNSRecord E s) = Inl (Error msg)) \<and>
    (\<exists>msg. fst (fetchRegisteredDomains E s) = Inl (Error msg))"
proof -
  have "send_ask tx sg E = Inr (post_request (getBaseURL E @ ''/namecoin/handle'') b)" using assms(2) by (simp add: send_ask_def)
  then show ?thesis
    by (intro conjI send_tx.refused_throws [OF _ assms(1)] tx_status.refused_throws [OF _ assms(1)] miner_id.refused_throws [OF _ assms(1)]
        set_miner.refused_throws [OF _ assms(1)] spend_plan.refused_throws [OF _ assms(1)] dns_record.refused_throws [OF _ assms(1)]
        registered.refused_throws [OF _ assms(1)]) (assumption | rule refl)+
qed

theorem api_errors_witness:
  "\<exists>msg. fst (getSpendPlan demo_refusing (JStr ''w'') (JInt 1) demo_tx_world) = Inl (Error msg)"
proof -
  have "\<forall>hist req. \<exists>st t body. respond demo_refusing hist req = Resp st t body \<and> \<not> resp_ok st"
    by (simp add: demo_refusing_def resp_ok_def)
  moreover have "canonicalize demo_refusing (wire_tx demo_tx JNull) = Inr (Some (json_text (wire_tx demo_tx JNull)))"
    by (simp add: demo_refusing_def del: json_text.simps)
  ultimately show ?thesis using api_errors by blast
qed


text \<open>
  C37. No promise of these handlers is ever rejected: they return in every state, whatever the
  network, the storage and the libraries answer.
\<close>

theorem handlers_return:
  "settles (handleSubmit E) \<and> settles (fetchDomains E) \<and> settles (syncMinerID E) \<and> settles (watch_id E) \<and>
   settles (handleCreateWallet E) \<and> settles (createNewWallet E) \<and> settles (handleImport E files) \<and>
   settles (handleSign E key) \<and> settles (dc_handleSubmit E w)"
  using handlers_settle page_handlers_settle by blast

text \<open>
  C38. On the node's page, each of these ten forms makes a request if and only if all the
  inputs it checks are filled in.
\<close>

theorem forms_send_iff_filled:
  fixes s :: "'z gui_scheme"
  defines "filled \<equiv> list_all (\<lambda>el. ctl_value (controls s el) \<noteq> [])"
  shows "(sent (snd (unicast_send E G s)) \<noteq> sent s \<longleftrightarrow> filled [''unicast.message'', ''unicast.destination'']) \<and>
    (sent (snd (addPeer E G s)) \<noteq> sent s \<longleftrightarrow> filled [''routing.peer'']) \<and>
    (sent (snd (setEntry E G s)) \<noteq> sent s \<longleftrightarrow> filled [''routing.origin'']) \<and>
    (sent (snd (sendChat E s)) \<noteq> sent s \<longleftrightarrow> filled [''broadcast.chatMessage'']) \<and>
    (sent (snd (sendPrivate E s)) \<noteq> sent s \<longleftrightarrow> filled [''broadcast.privateMessage'', ''broadcast.privateRecipients'']) \<and>
    (sent (snd (catalog_add E s)) \<noteq> sent s \<longleftrightarrow> filled [''catalog.key'', ''catalog.value'']) \<and>
    (sent (snd (data_download E s)) \<noteq> sent s \<longleftrightarrow> filled [''dataSharing.downloadMetahash'']) \<and>
    (sent (snd (naming_tag E s)) \<noteq> sent s \<longleftrightarrow> filled [''naming.tagFilename'', ''naming.tagMetahash'']) \<and>
    (sent (snd (searchAll E s)) \<noteq> sent s \<longleftrightarrow>
       filled [''search.searchAllPattern'', ''search.searchAllBudget'', ''search.searchAllTimeout'']) \<and>
    (sent (snd (searchFirst E s)) \<noteq> sent s \<longleftrightarrow> filled [''search.searchFirstPattern'', ''search.searchFirstInitialBudget'',
       ''search.searchFirstFactor'', ''search.searchFirstRetry'', ''search.searchFirstTimeout''])"
  unfolding filled_def list_all_iff
  by (intro conjI unicast_form.sends_iff peer_form.sends_iff entry_form.sends_iff chat_form.sends_iff private_form.sends_iff
      catalog_form.sends_iff download_form.sends_iff tag_form.sends_iff search_all_form.sends_iff search_first_form.sends_iff)

text \<open>
  C39. What an action prints as is read back: parsing the text of an action without options gives the
  same element, target, event, controller and method, on any document.
\<close>

theorem action_text_roundtrip:
  assumes "plain_action a"
  shows "Action_forToken d (act_element a) (act_index a) (Action_toString a) = Inr (a\<lparr>act_eventOptions := []\<rparr>)"
proof -
  let ?tg = "if act_eventTarget a \<in> {TWindow, TDocument} then Some (act_eventTarget a) else None"
  have a: "action_ok a" "plain_event (act_eventName a)" "plain_tail (act_identifier a) (act_methodName a) []"
    "unspaced (Action_toString a)" using assms by (simp_all add: plain_action_def)
  have "parseActionDescriptorString (Action_toString a) =
    \<lparr>d_eventTarget = ?tg, d_eventName = Some (act_eventName a), d_eventOptions = [],
     d_identifier = Some (act_identifier a), d_methodName = Some (act_methodName a)\<rparr>"
    using parse_event [OF a(2) _ a(3), of ?tg] a(4) toString_text [OF a(1)] by auto
  then show ?thesis using a(1)
    by (cases "act_eventName a")
      (auto simp: Action_forToken_def newAction_def event_name_of_def or_error_def action_ok_def)
qed

theorem action_text_roundtrip_witness:
  "Action_toString (click_action 134 ''naming'' ''resolve'') = ''click->naming#resolve'' \<and>
   Action_forToken node_dom 134 0 ''click->naming#resolve'' = Inr (click_action 134 ''naming'' ''resolve'')"
proof -
  have "plain_action (click_action 134 ''naming'' ''resolve'')" "Action_toString (click_action 134 ''naming'' ''resolve'') = ''click->naming#resolve''"
    by code_simp+
  then show ?thesis using action_text_roundtrip [of "click_action 134 ''naming'' ''resolve''" node_dom] by (simp add: click_action_def)
qed

text \<open>
  C40. The image of a drawing, where \<open>fabric\<close> is not there: when the layout program draws the graph,
  \<open>renderImageElement\<close> loads a data URL whose base 64 text decodes to exactly the UTF-8 bytes of the
  drawing, whatever characters it has; the image has the size of the drawing and the canvas that
  size times the scale; a drawing that cannot be loaded rejects the promise.
\<close>

theorem image_rendered:
  assumes "fabric_load B = None" "wrapper_render src (svg_request\<lparr>vr_engine := engine\<rparr>) = Resolved str"
  defines "source \<equiv> ''data:image/svg+xml;base64,'' @ b64EncodeUnicode str"
  shows "b64_decode (b64EncodeUnicode str) = Some (concat (map utf8_bytes str)) \<and> decodeURIComponent (encodeURIComponent str) = Some str \<and>
    renderImageElement B wrapper_render src (no_options\<lparr>vo_engine := Some engine\<rparr>) io =
      (case load_image B source of
         Inl e \<Rightarrow> Rejected (case e of None \<Rightarrow> Error ''Error loading SVG'' | Some error \<Rightarrow> error)
       | Inr (width, height) \<Rightarrow>
           (case canvas_blob B source (num_times width (or_default (defaultScale B) (io_scale io))) (num_times height (or_default (defaultScale B) (io_scale io)))
                   (or_default ''image/png'' (io_mimeType io)) (or_default (Dec 1 0) (io_quality io)) of
              None \<Rightarrow> Pending | Some url \<Rightarrow> Resolved \<lparr>ie_src = url, ie_width = width, ie_height = height\<rparr>))"
proof -
  have "renderString wrapper_render src (no_options\<lparr>vo_engine := Some engine, vo_format := Some ''svg''\<rparr>) = Resolved str"
    using assms(2) by (simp add: renderString_def renderString_request_def no_options_def or_default_def svg_request_def)
  then show ?thesis using assms(1)
    by (auto simp: image_source decode_encoded renderImageElement_def promise_bind_def svgXmlToImageElement_def svg_source_def source_def Let_def
        split: sum.split option.split)
qed

theorem image_rendered_witness:
  "renderImageElement \<lparr>devicePixelRatio = Some (Dec 15 1), load_image = (\<lambda>_. Inr (Dec 10 0, Dec 20 0)), canvas_blob = (\<lambda>u w h m q. if w = Dec 15 0 then Some ''blob'' else None),
       fabric_load = None, fabric_url = (\<lambda>(_ :: unit list) _ _ _ _ _. [])\<rparr> (\<lambda>_ _. Resolved ''<svg/>'') ''graph {}'' (no_options\<lparr>vo_engine := Some ''dot''\<rparr>)
       \<lparr>io_scale = None, io_mimeType = None, io_quality = None\<rparr> =
     Resolved \<lparr>ie_src = ''blob'', ie_width = Dec 10 0, ie_height = Dec 20 0\<rparr>"
proof -
  let ?B = "\<lparr>devicePixelRatio = Some (Dec 15 1), load_image = (\<lambda>_. Inr (Dec 10 0, Dec 20 0)), canvas_blob = (\<lambda>u w h m q. if w = Dec 15 0 then Some ''blob'' else None),
       fabric_load = None, fabric_url = (\<lambda>(_ :: unit list) _ _ _ _ _. [])\<rparr>"
  have "defaultScale ?B = Dec 15 1" "num_times (Dec 10 0) (Dec 15 1) = Dec 15 0" by code_simp+
  then show ?thesis
    using image_rendered [of ?B "\<lambda>_ _. Resolved ''<svg/>''" "''graph {}''" "''dot''" "''<svg/>''" "\<lparr>io_scale = None, io_mimeType = None, io_quality = None\<rparr>"]
    by (simp add: or_default_def)
qed

section \<open>Further facts\<close>

text \<open>
  The identifier \<open>computeTransactionID\<close> puts into a transaction and the hash
  \<open>hashTransaction\<close> signs, computed by two modules, are the same text or the same exception;
  neither depends on the identifier, the public key or the hash already in the transaction.
\<close>

theorem id_is_signed_hash:
  "map_sum id tx_id (computeTransactionID E tx) = map_sum id JStr (hashTransaction E tx) \<and>
   hashTransaction E (tx\<lparr>tx_id := i, tx_pk := k, tx_hash := h\<rparr>) = hashTransaction E tx"
  by (auto simp: computeTransactionID_eq hashTransaction_eq split: sum.split)

text \<open>
  \<open>clearWallet\<close> empties the wallet in memory and removes it from the storage, so that a
  later \<open>loadWallet\<close> finds nothing; but the domains of every wallet, with their salts, stay in
  the storage.
\<close>

theorem clear_wallet_effect:
  "fst (clearWallet s) = Inr () \<and> \<not> isWalletLoaded (snd (clearWallet s)) \<and> walletID (snd (clearWallet s)) = None \<and>
   fst (loadWallet E (snd (clearWallet s))) = Inr False \<and>
   localStorage (snd (clearWallet s)) (pending_key m) = localStorage s (pending_key m) \<and>
   rows (snd (clearWallet s)) m = rows s m"
  by (simp add: clearWallet_run isWalletLoaded_def walletID_def no_wallet_def loadWallet_run rows_def book_def)

text \<open>
  The wrapper around the local storage: \<open>setItem\<close> never throws; when it returns true,
  \<open>getItem\<close> of that key gives the value back, also after any number of writes to other keys;
  when it returns false nothing has changed.
\<close>

theorem item_store_roundtrip:
  assumes "json_ok v" "k \<notin> set (map fst kvs)"
  shows "(setItem E k v s = (Inr False, s) \<or>
     (\<exists>t. setItem E k v s = (Inr True, t) \<and> getItem E k d (items.puts E kvs t) = (Inr v, items.puts E kvs t)))"
  using items.put_outcome [of E k v s] items.get_after_puts [OF assms(1) _ assms(2), of E s] by metis

theorem item_store_roundtrip_witness:
  "\<exists>t. setItem demo_env ''a'' (JStr ''b'') demo_tx_world = (Inr True, t) \<and>
     fst (getItem demo_env ''a'' JNull (items.puts demo_env [(''c'', JNull)] t)) = Inr (JStr ''b'')"
proof -
  have "fst (setItem demo_env ''a'' (JStr ''b'') demo_tx_world) = Inr True" by (simp add: setItem_run)
  then show ?thesis
    using item_store_roundtrip [of "JStr ''b''" "''a''" "[(''c'', JNull)]" demo_env demo_tx_world JNull] by auto
qed

text \<open>
  A transaction counts as sent exactly when its canonical text, signature included, got
  an answer with a status from 200 to 299 whose body is JSON; the result is that JSON value.
\<close>

theorem send_returns_iff:
  "fst (sendTransaction E tx sg s) = Inr v \<longleftrightarrow>
     (\<exists>body st t b. canonicalize E (wire_tx tx sg) = Inr body \<and> respond E (sent s) (handle_request E body) = Resp st t b \<and>
        resp_ok st \<and> JSON_parse b = Some v)"
  unfolding send_tx.returns_iff
  by (auto simp: send_ask_def handle_request_def parse_or_throw_def split: sum.split_asm option.split_asm)

text \<open>
  Hexadecimal text: two lower-case digits per byte, and \<open>hexToBytes\<close> reads the bytes back,
  so no two byte sequences share a text.
\<close>

theorem hex_roundtrip:
  "hexToBytes (bytesToHex bs) = bs \<and> length (bytesToHex bs) = 2 * length bs \<and> list_all is_hex (bytesToHex bs) \<and>
   (bytesToHex as = bytesToHex bs \<longleftrightarrow> as = bs)"
  by (simp add: bytesToHex_hex bytesToHex_inj)

text \<open>
  What the validators accept. A domain is one label of at most 63 letters, digits and
  hyphens that starts with a letter or digit, a dot, and at least two letters; the last
  character of the label is only checked when the label has 63. A fee is a positive integral
  number. Hexadecimal text is not empty. A wallet identifier is a string of at least 32
  hexadecimal digits.
\<close>

theorem validators_exact:
  "(isValidDomain (JStr s) \<longleftrightarrow> (\<exists>l t. s = l @ ''.'' @ t \<and> valid_label l \<and> list_all is_alpha t \<and> 2 \<le> length t)) \<and>
   (isValidFee (JNum (Dec m e)) \<longleftrightarrow> 0 < m \<and> m mod 10 ^ e = 0) \<and> \<not> isValidFee (JStr s) \<and>
   (isValidHex (JStr s) \<longleftrightarrow> s \<noteq> [] \<and> list_all is_hex s) \<and>
   (isValidWalletID v = JBool True \<longleftrightarrow> (\<exists>t. v = JStr t \<and> 32 \<le> length t \<and> list_all is_hex t))"
  by (auto simp: isValidDomain_def domainRegex_iff isValidFee_Dec isValidHex_iff isValidWalletID_def)
     (auto simp: isValidFee_def isValidHex_iff split: jsval.split_asm if_split_asm)

text \<open>
  The identifier derived from a public key is well-formed: with a digest of 32 bytes, as
  SHA-256 has, it is 64 hexadecimal digits, and \<open>isValidWalletID\<close> accepts it.
\<close>

theorem derived_id_valid:
  assumes "\<forall>x. length (digest E x) = 32" "bs \<noteq> []"
  shows "\<exists>i. deriveWalletID E (JStr (bytesToHex bs)) = Inr (Some i) \<and> length i = 64 \<and> isValidWalletID (JStr i) = JBool True"
proof -
  let ?i = "bytesToHex (digest E bs)"
  have "length ?i = 64" using assms(1) by simp
  moreover from this have "?i \<noteq> []" by (metis list.size(3) zero_neq_numeral)
  ultimately show ?thesis
    using deriveWalletID_hex [OF assms(2), of E] bytesToHex_hex [of "digest E bs"] by (auto simp: isValidWalletID_def isValidHex_iff)
qed

theorem derived_id_valid_witness:
  "\<exists>i. deriveWalletID (demo_env\<lparr>digest := \<lambda>_. replicate 32 7\<rparr>) (JStr (bytesToHex [1, 2])) = Inr (Some i) \<and> length i = 64"
  using derived_id_valid [of "demo_env\<lparr>digest := \<lambda>_. replicate 32 7\<rparr>" "[1, 2]"] by auto

text \<open>
  With an empty input such a form does nothing but show one message, which names the
  first empty input; it is never rejected. Shown for the message form and the search, which
  check the most inputs.
\<close>

theorem forms_report_first_empty:
  assumes "first_empty [''unicast.message'', ''unicast.destination''] s = Some c"
    and "first_empty [''search.searchFirstPattern'', ''search.searchFirstInitialBudget'', ''search.searchFirstFactor'',
       ''search.searchFirstRetry'', ''search.searchFirstTimeout''] s = Some c'"
  shows "unicast_send E G s = (Inr (), s\<lparr>flashes := flashes s @ [(''error'', empty_msg c)]\<rparr>) \<and>
    searchFirst E s = (Inr (), s\<lparr>flashes := flashes s @ [(''error'', empty_msg c')]\<rparr>)"
  by (intro conjI unicast_form.incomplete search_first_form.incomplete assms)

theorem forms_report_first_empty_witness:
  "flashes (snd (unicast_send demo_env demo_gui_platform demo_gui)) = [(''error'', empty_msg \<lparr>ctl_name = ''destination'', ctl_value = []\<rparr>)]"
proof -
  have "first_empty [''unicast.message'', ''unicast.destination''] demo_gui = Some \<lparr>ctl_name = ''destination'', ctl_value = []\<rparr>"
    "\<exists>c. first_empty [''search.searchFirstPattern'', ''search.searchFirstInitialBudget'', ''search.searchFirstFactor'',
       ''search.searchFirstRetry'', ''search.searchFirstTimeout''] demo_gui = Some c" "flashes demo_gui = []"
    by (simp_all add: first_empty_def demo_gui_def)
  with forms_report_first_empty [of demo_gui _ _ demo_env demo_gui_platform] show ?thesis by fastforce
qed

text \<open>
  Resolving a name is the exception: it asks the node in every state, also when its input
  was found empty and reported as such.
\<close>

theorem resolve_unchecked:
  "sent (snd (naming_resolve E s)) =
     sent s @ [get_args (api_url s (''/datasharing/naming?name='' @ ctl_value (controls s ''naming.resolveFilename'')))] \<and>
   sent (snd (naming_resolve E s)) \<noteq> sent s"
  by (simp add: naming_resolve_sent)

text \<open>
  A collapsible section is displayed exactly when its header is active: from the start,
  and after every sequence of clicks; two clicks restore it.
\<close>

theorem collapsibles_consistent:
  "list_all coll_ok (initCollapsible cs) \<and> list_all (\<lambda>c. coll_ok ((clickCollapsible ^^ n) c)) (initCollapsible cs) \<and>
   list_all (\<lambda>c. clickCollapsible (clickCollapsible c) = c) (initCollapsible cs)"
proof -
  have clicks: "coll_ok ((clickCollapsible ^^ n) c)" if "coll_ok c" for c
    using that by (induction n) (simp_all add: coll_ok_click)
  then show ?thesis using coll_ok_init [of cs] click_twice by (auto simp: list_all_iff)
qed

text \<open>
  \<open>DomainCreator\<close> cannot create a transaction: it passes no public key, which validation
  asks for. Whenever its button can be pressed, pressing it emits nothing, prepares no
  transaction and shows one alert.
\<close>

theorem creator_never_creates:
  assumes "canSubmit s"
  shows "\<exists>t msg. dc_handleSubmit E w s = (Inr (), t) \<and> dc_emitted t = dc_emitted s \<and>
    alerts t = alerts s @ [msg] \<and> currentTransaction t = currentTransaction s"
proof -
  obtain e t where t: "createTransaction E (dc_params w s) s = (Inl e, t)"
    and run: "dc_handleSubmit E w s = (Inr (), t\<lparr>alerts := alerts t @ [''Failed to create transaction: '' @ to_str (err_msg e)]\<rparr>)"
    using dc_handleSubmit_run [OF assms] by blast
  have "dc_emitted t = dc_emitted s" "alerts t = alerts s"
    using keeps_result [OF api_keeps_emitted(1) t] keeps_result [OF api_keeps_emitted(2) t] by simp_all
  moreover have "currentTransaction t = currentTransaction s"
    using t by (simp add: createTransaction_run spend_plan.run split: sum.split_asm) auto
  ultimately show ?thesis using run by auto
qed

theorem creator_never_creates_witness:
  "\<exists>t msg. dc_handleSubmit demo_env (JStr ''w'') demo_creator = (Inr (), t) \<and> dc_emitted t = [] \<and> alerts t = [msg]"
  using creator_never_creates [of demo_creator demo_env "JStr ''w''"] by (auto simp: demo_creator_def canSubmit_def)

text \<open>
  The preview of \<open>TransactionSigner\<close> shows the type and the identifier of a transaction
  \<open>buildTransaction\<close> made, but source, fee and nonce stay blank for every transaction: it has
  no such properties. Signing can be started exactly when nothing has been tried yet and no
  signature is being made.
\<close>

theorem signer_preview:
  "take 11 (texts (signer_html (tx_obj tx) s)) =
     [''Transaction Preview'', ''Type:'', display (tx_type tx), ''Source:'', [], ''Fee:'', [], ''Nonce:'', [],
      ''Transaction ID:'', display (tx_id tx)] \<and>
   (SSign \<in> set (live (signer_html transaction s)) \<longleftrightarrow> ut_status s = ''idle'' \<and> \<not> isSigning s)"
  by (simp add: signer_detail_def tx_obj_def signer_html_def)

text \<open>
  Connecting from the home page, with room in the storage: the address is kept and the
  page moves on only if it has the form host:port and the node answered; otherwise a message
  is shown, and after a failed request the address is removed again. The path the page moves
  to is not one the router knows.
\<close>

theorem connect_outcome:
  assumes "\<forall>m k v. quota_ok E m k v"
  shows "(\<exists>t. connect E s = (Inr (), t) \<and>
      (if pushed t = pushed s then home_error t \<noteq> [] \<and> localStorage t ''proxyAddr'' \<in> {None, localStorage s ''proxyAddr''}
       else pushed t = pushed s @ [''/wallet''] \<and> localStorage t ''proxyAddr'' = Some (proxyAddr s) \<and>
         re_match addrPattern (proxyAddr s) \<and> (\<exists>m. fst (getMinerID E (s\<lparr>home_error := [], localStorage := (localStorage s)(''proxyAddr'' \<mapsto> proxyAddr s)\<rparr>)) = Inr m))) \<and>
    find_route ''/wallet'' = None"
proof -
  let ?s = "s\<lparr>home_error := [], localStorage := (localStorage s)(''proxyAddr'' \<mapsto> proxyAddr s)\<rparr>"
  have route: "find_route ''/wallet'' = None" by (simp add: find_route_def routes_def)
  obtain r where r: "getMinerID E ?s = (r, ?s\<lparr>sent := sent s @ [get_request (getBaseURL E @ ''/namecoin/minerid'')]\<rparr>)"
    using miner_id.run [of E ?s] by simp
  then show ?thesis
    using route connect_run [of E s] assms by (cases r) auto
qed

theorem connect_outcome_witness:
  "\<exists>t. connect demo_env demo_home = (Inr (), t) \<and> (if pushed t = [] then home_error t \<noteq> [] else pushed t = [''/wallet''])"
proof -
  have "pushed demo_home = []" by (simp add: demo_home_def)
  with connect_outcome [of demo_env demo_home] show ?thesis by (auto split: if_split_asm)
qed

end
